(* ===== verification/Py_Prelude.thy ===== *)
theory Py_Prelude
  imports Complex_Main "HOL-Library.AList"
begin

text \<open>
  Prelude of the PiFire development: the Python values, numbers and exceptions the modelled code
  works with, and the generic lemmas the components share.

  \<^item> \<open>pyval\<close> is a JSON-shaped Python object. A dictionary is an association list in insertion
    order with string keys (every dictionary of the modelled code is JSON data); \<open>dput\<close> replaces in
    place or appends, as \<open>d[k] = v\<close> does, \<open>ddel\<close> is \<open>d.pop(k, None)\<close>.
  \<^item> \<open>pyfloat\<close> is a binary64 value: a finite number, an infinity or a NaN. Finite numbers are exact
    rationals: rounding to 53 bits is not modelled, the range is (\<open>in_dbl\<close>, used wherever the code
    asks \<open>math.isfinite\<close>).
  \<^item> \<open>pyexn\<close> is an exception; a fallible operation returns \<open>pyexn + 'a\<close>, and \<open>ebind\<close> sequences two.
  \<^item> \<open>py_round\<close> is Python's \<open>round\<close> to an integer (half to even), on which all millisecond
    accounting rests.
\<close>

named_theorems py_simps \<open>evaluation rules for Python values\<close>

section \<open>Exceptions and results\<close>

datatype pyexn =
    ValueError string
  | TypeError string
  | KeyError string
  | AttributeError string
  | OverflowError
  | IndexError
  | ZeroDivisionError
  | RuntimeError string
  | AssertionError
  | ControlDeltaError string
  | TransitionError string
  | FloatingPointError string

type_synonym 'a result = "pyexn + 'a"

text \<open>\<open>ControlDeltaError\<close> subclasses \<open>ValueError\<close>: both are caught by \<open>except ValueError\<close>.\<close>

fun is_value_error :: "pyexn \<Rightarrow> bool" where
  "is_value_error (ValueError _) = True"
| "is_value_error (ControlDeltaError _) = True"
| "is_value_error _ = False"

fun ebind :: "'e + 'a \<Rightarrow> ('a \<Rightarrow> 'e + 'b) \<Rightarrow> 'e + 'b" where
  "ebind (Inl e) f = Inl e"
| "ebind (Inr x) f = f x"

text \<open>Evaluation looks at the continuation only when it is reached.\<close>

lemma ebind_unfold [code_unfold]: "ebind m f = (case m of Inl e \<Rightarrow> Inl e | Inr x \<Rightarrow> f x)"
  by (cases m) simp_all

definition check :: "bool \<Rightarrow> 'e \<Rightarrow> 'e + unit" where
  "check b e = (if b then Inr () else Inl e)"

lemma check_simps [simp]: "check True e = Inr ()" "check False e = Inl e"
  by (simp_all add: check_def)

lemma check_Inr_iff [simp]: "check b e = Inr u \<longleftrightarrow> b"
  by (simp add: check_def)

lemma check_Inl_iff [simp]: "check b e = Inl e' \<longleftrightarrow> \<not> b \<and> e' = e"
  by (auto simp: check_def)

lemma ebind_Inr_iff: "ebind m f = Inr y \<longleftrightarrow> (\<exists>x. m = Inr x \<and> f x = Inr y)"
  by (cases m) auto

lemma ebind_Inl_iff: "ebind m f = Inl e \<longleftrightarrow> m = Inl e \<or> (\<exists>x. m = Inr x \<and> f x = Inl e)"
  by (cases m) auto

lemma ebind_InrE: "ebind m f = Inr y \<Longrightarrow> (\<And>x. m = Inr x \<Longrightarrow> f x = Inr y \<Longrightarrow> P) \<Longrightarrow> P"
  by (cases m) auto

lemma ebind_Inr_right [simp]: "ebind m Inr = m"
  by (cases m) auto

lemma ebind_assoc: "ebind (ebind m f) g = ebind m (\<lambda>x. ebind (f x) g)"
  by (cases m) auto

fun emap_list :: "('a \<Rightarrow> 'e + 'b) \<Rightarrow> 'a list \<Rightarrow> 'e + 'b list" where
  "emap_list f [] = Inr []"
| "emap_list f (x # xs) = ebind (f x) (\<lambda>y. ebind (emap_list f xs) (\<lambda>ys. Inr (y # ys)))"

fun efold :: "('s \<Rightarrow> 'a \<Rightarrow> 'e + 's) \<Rightarrow> 's \<Rightarrow> 'a list \<Rightarrow> 'e + 's" where
  "efold f s [] = Inr s"
| "efold f s (x # xs) = ebind (f s x) (\<lambda>s'. efold f s' xs)"

lemma efold_append: "efold f s (xs @ ys) = ebind (efold f s xs) (\<lambda>s'. efold f s' ys)"
  by (induction xs arbitrary: s) (auto simp: ebind_assoc)

lemma efold_invariant:
  assumes "\<And>s x s'. P s \<Longrightarrow> x \<in> set xs \<Longrightarrow> f s x = Inr s' \<Longrightarrow> P s'"
    and "P s" and "efold f s xs = Inr s'"
  shows "P s'"
  using assms
proof (induction xs arbitrary: s)
  case Nil
  then show ?case by simp
next
  case (Cons x xs)
  from Cons.prems(3) obtain t where t: "f s x = Inr t" "efold f t xs = Inr s'"
    by (auto simp: ebind_Inr_iff)
  from Cons.prems(1) [OF Cons.prems(2) _ t(1)] have "P t" by simp
  from Cons.prems(1) this t(2) show ?case
    by (rule Cons.IH) simp_all
qed


text \<open>Which exceptions a result can raise.\<close>

definition raises_only :: "(pyexn \<Rightarrow> bool) \<Rightarrow> 'a result \<Rightarrow> bool" where
  "raises_only P r \<longleftrightarrow> (\<forall>e. r = Inl e \<longrightarrow> P e)"

lemma raises_only_simps [simp]: "raises_only P (Inr x)" "raises_only P (Inl e) = P e"
  by (simp_all add: raises_only_def)

lemma raises_only_bind [intro]:
  "raises_only P m \<Longrightarrow> (\<And>x. m = Inr x \<Longrightarrow> raises_only P (f x)) \<Longrightarrow> raises_only P (ebind m f)"
  by (cases m) auto

lemma raises_only_efold [intro]:
  "(\<And>s x. raises_only P (f s x)) \<Longrightarrow> raises_only P (efold f s xs)"
  by (induction xs arbitrary: s) auto

lemma raises_only_emap [intro]:
  "(\<And>x. raises_only P (f x)) \<Longrightarrow> raises_only P (emap_list f xs)"
  by (induction xs) (auto intro!: raises_only_bind)

lemma raises_only_check [simp]: "raises_only P (check b e) \<longleftrightarrow> b \<or> P e"
  by (simp add: raises_only_def check_def)


section \<open>Machines\<close>

text \<open>
  The code drives several components by a sequence of fallible steps. A guarded machine keeps an
  invariant on every step it accepts, a ranked one never lowers a rank; a driver that logs and skips a
  refused step (\<open>attempt\<close>) keeps both.
\<close>

definition attempt :: "('s \<Rightarrow> 'e \<Rightarrow> 'x + 's) \<Rightarrow> 's \<Rightarrow> 'e \<Rightarrow> 's" where
  "attempt step s e = (case step s e of Inl _ \<Rightarrow> s | Inr t \<Rightarrow> t)"

locale guarded_machine =
  fixes step :: "'s \<Rightarrow> 'e \<Rightarrow> 'x + 's"
    and inv :: "'s \<Rightarrow> bool"
  assumes step_inv: "inv s \<Longrightarrow> step s e = Inr t \<Longrightarrow> inv t"
begin

lemma run_inv: "inv s \<Longrightarrow> efold step s es = Inr t \<Longrightarrow> inv t"
  using step_inv by (rule efold_invariant)

lemma attempt_inv: "inv s \<Longrightarrow> inv (attempt step s e)"
  by (auto simp: attempt_def dest: step_inv split: sum.split)

lemma drive_inv: "inv s \<Longrightarrow> inv (foldl (attempt step) s es)"
  by (induction es arbitrary: s) (simp_all add: attempt_inv)

end

locale ranked_machine = guarded_machine +
  fixes rank :: "'s \<Rightarrow> int"
  assumes step_rank: "inv s \<Longrightarrow> step s e = Inr t \<Longrightarrow> rank s \<le> rank t"
begin

lemma run_rank: "inv s \<Longrightarrow> efold step s es = Inr t \<Longrightarrow> rank s \<le> rank t"
proof (induction es arbitrary: s)
  case (Cons e es)
  from Cons.prems(2) obtain u where u: "step s e = Inr u" "efold step u es = Inr t"
    by (auto simp: ebind_Inr_iff)
  with Cons.IH [of u] Cons.prems(1) step_inv step_rank show ?case by fastforce
qed simp

lemma drive_rank: "inv s \<Longrightarrow> rank s \<le> rank (foldl (attempt step) s es)"
proof (induction es arbitrary: s)
  case (Cons e es)
  have "rank s \<le> rank (attempt step s e)"
    using Cons.prems step_rank by (auto simp: attempt_def split: sum.split)
  also have "\<dots> \<le> rank (foldl (attempt step) (attempt step s e) es)"
    using Cons.IH attempt_inv [OF Cons.prems] by blast
  finally show ?case by simp
qed simp

end

section \<open>Operations on a state that may raise\<close>

text \<open>
  A method that updates its object and may raise: the object as it is when the method returns or raises, with
  the value or the exception. \<open>abind\<close> sequences two, \<open>areturn\<close>, \<open>araise\<close>, \<open>aget\<close>, \<open>amodify\<close> and \<open>alift\<close> (a
  fallible call that leaves the object alone) are the steps.
\<close>

type_synonym ('s, 'a) action = "'s \<Rightarrow> 's \<times> 'a result"

definition areturn :: "'a \<Rightarrow> ('s, 'a) action" where
  "areturn x s = (s, Inr x)"

definition araise :: "pyexn \<Rightarrow> ('s, 'a) action" where
  "araise e s = (s, Inl e)"

definition alift :: "'a result \<Rightarrow> ('s, 'a) action" where
  "alift r s = (s, r)"

definition aget :: "('s \<Rightarrow> 'a) \<Rightarrow> ('s, 'a) action" where
  "aget f s = (s, Inr (f s))"

definition amodify :: "('s \<Rightarrow> 's) \<Rightarrow> ('s, unit) action" where
  "amodify f s = (f s, Inr ())"

definition abind :: "('s, 'a) action \<Rightarrow> ('a \<Rightarrow> ('s, 'b) action) \<Rightarrow> ('s, 'b) action" where
  "abind m f s = (case m s of (s1, Inl e) \<Rightarrow> (s1, Inl e) | (s1, Inr x) \<Rightarrow> f x s1)"

fun amap_list :: "('a \<Rightarrow> ('s, 'b) action) \<Rightarrow> 'a list \<Rightarrow> ('s, 'b list) action" where
  "amap_list f [] = areturn []"
| "amap_list f (x # xs) = abind (f x) (\<lambda>y. abind (amap_list f xs) (\<lambda>ys. areturn (y # ys)))"

lemma action_simps [simp]:
  "areturn x s = (s, Inr x)" "araise e s = (s, Inl e)" "alift r s = (s, r)" "aget g s = (s, Inr (g s))"
  "amodify h s = (h s, Inr ())"
  by (simp_all add: areturn_def araise_def alift_def aget_def amodify_def)

lemma abind_simps [simp]:
  "abind (areturn x) f1 s = f1 x s" "abind (araise e) f2 s = (s, Inl e)" "abind (aget g) f3 s = f3 (g s) s"
  "abind (amodify h) f4 s = f4 () (h s)" "abind (alift (Inr y)) f5 s = f5 y s" "abind (alift (Inl e)) f6 s = (s, Inl e)"
  by (simp_all add: abind_def)

lemma abind_InrE:
  assumes "abind m f s = (t, Inr y)"
  obtains u x where "m s = (u, Inr x)" "f x u = (t, Inr y)"
  using assms by (auto simp: abind_def split: prod.splits sum.splits)

lemma abind_InrI: "m s = (u, Inr x) \<Longrightarrow> abind m f s = f x u"
  by (simp add: abind_def)

text \<open>Evaluation runs the steps as the case expressions they are, without looking ahead.\<close>

lemma abind_unfold [code_unfold]:
  "abind m f = (\<lambda>s. case m s of (s1, r) \<Rightarrow> case r of Inl e \<Rightarrow> (s1, Inl e) | Inr x \<Rightarrow> f x s1)"
  by (auto simp: abind_def fun_eq_iff split: prod.split sum.split)

lemma steps_unfold [code_unfold]: "areturn x = (\<lambda>s. (s, Inr x))" "alift r = (\<lambda>s. (s, r))"
    "aget g = (\<lambda>s. (s, Inr (g s)))" "amodify h = (\<lambda>s. (h s, Inr ()))"
  by (simp_all add: fun_eq_iff)

text \<open>An action that keeps a predicate of the state, whether it returns or raises.\<close>

definition keeps :: "('s \<Rightarrow> bool) \<Rightarrow> ('s, 'a) action \<Rightarrow> bool" where
  "keeps P m \<longleftrightarrow> (\<forall>s. P s \<longrightarrow> P (fst (m s)))"

lemma keepsD: "keeps P m \<Longrightarrow> P s \<Longrightarrow> m s = (t, r) \<Longrightarrow> P t"
  unfolding keeps_def by (metis fst_conv)

lemma keeps_basic [simp, intro]:
  "keeps P (areturn x)" "keeps P (araise e)" "keeps P (alift r)" "keeps P (aget g)"
  by (simp_all add: keeps_def)

lemma keeps_modify [intro]: "(\<And>s. P s \<Longrightarrow> P (h s)) \<Longrightarrow> keeps P (amodify h)"
  by (simp add: keeps_def)

lemma keeps_bind [intro]: "keeps P m \<Longrightarrow> (\<And>x. keeps P (f x)) \<Longrightarrow> keeps P (abind m f)"
  unfolding keeps_def abind_def by (force split: prod.split sum.split)

lemma keeps_map [intro]: "(\<And>x. keeps P (f x)) \<Longrightarrow> keeps P (amap_list f xs)"
  by (induction xs) auto

lemma keeps_if [intro]: "keeps P m \<Longrightarrow> keeps P n \<Longrightarrow> keeps P (if b then m else n)"
  by simp

lemma keeps_option [intro]: "keeps P m \<Longrightarrow> (\<And>x. keeps P (f x)) \<Longrightarrow> keeps P (case v of None \<Rightarrow> m | Some x \<Rightarrow> f x)"
  by (cases v) simp_all

lemma keeps_prod [intro]: "(\<And>x y. keeps P (f x y)) \<Longrightarrow> keeps P (case p of (x, y) \<Rightarrow> f x y)"
  by (cases p) simp

text \<open>An action that leaves a view of the state as it is.\<close>

named_theorems preserves_intros \<open>rules for actions that leave a view of the state as it is\<close>

definition preserves :: "('s \<Rightarrow> 'b) \<Rightarrow> ('s, 'a) action \<Rightarrow> bool" where
  "preserves g m \<longleftrightarrow> (\<forall>s. g (fst (m s)) = g s)"

lemma preservesD: "preserves g m \<Longrightarrow> m s = (t, r) \<Longrightarrow> g t = g s"
  unfolding preserves_def by (metis fst_conv)

lemma preserves_basic [preserves_intros]:
  "preserves g (areturn x)" "preserves g (araise e)" "preserves g (alift r)" "preserves g (aget h)"
  by (simp_all add: preserves_def)

lemma preserves_modify [preserves_intros]: "(\<And>s. g (h s) = g s) \<Longrightarrow> preserves g (amodify h)"
  by (simp add: preserves_def)

lemma preserves_bind [preserves_intros]:
  assumes "preserves g m" "\<And>x. preserves g (f x)"
  shows "preserves g (abind m f)"
  unfolding preserves_def
proof
  fix s
  obtain t r where t: "m s = (t, r)" by force
  then show "g (fst (abind m f s)) = g s"
    using preservesD [OF assms(1) t] assms(2) by (cases r) (auto simp: abind_def preserves_def)
qed

lemma preserves_map [preserves_intros]: "(\<And>x. preserves g (f x)) \<Longrightarrow> preserves g (amap_list f xs)"
  by (induction xs) (auto intro!: preserves_basic preserves_bind)

lemma preserves_if [preserves_intros]:
  "(b \<Longrightarrow> preserves g m) \<Longrightarrow> (\<not> b \<Longrightarrow> preserves g n) \<Longrightarrow> preserves g (if b then m else n)"
  by simp

lemma preserves_option [preserves_intros]:
  "preserves g m \<Longrightarrow> (\<And>x. preserves g (f x)) \<Longrightarrow> preserves g (case v of None \<Rightarrow> m | Some x \<Rightarrow> f x)"
  by (cases v) simp_all

lemma preserves_prod [preserves_intros]: "(\<And>x y. preserves g (f x y)) \<Longrightarrow> preserves g (case p of (x, y) \<Rightarrow> f x y)"
  by (cases p) simp

text \<open>Hoare triples over the calls that return: from \<open>P\<close>, a returning \<open>m\<close> ends in \<open>Q\<close> of its value.\<close>

definition triple :: "('s \<Rightarrow> bool) \<Rightarrow> ('s, 'a) action \<Rightarrow> ('a \<Rightarrow> 's \<Rightarrow> bool) \<Rightarrow> bool" where
  "triple P m Q \<longleftrightarrow> (\<forall>s t x. P s \<longrightarrow> m s = (t, Inr x) \<longrightarrow> Q x t)"

lemma tripleI: "(\<And>s t x. P s \<Longrightarrow> m s = (t, Inr x) \<Longrightarrow> Q x t) \<Longrightarrow> triple P m Q"
  by (simp add: triple_def)

lemma tripleD: "triple P m Q \<Longrightarrow> P s \<Longrightarrow> m s = (t, Inr x) \<Longrightarrow> Q x t"
  by (simp add: triple_def)

lemma triple_bind: "triple P m R \<Longrightarrow> (\<And>x. triple (R x) (f x) Q) \<Longrightarrow> triple P (abind m f) Q"
  by (force simp: triple_def elim: abind_InrE)

lemma triple_return: "(\<And>s. P s \<Longrightarrow> Q x s) \<Longrightarrow> triple P (areturn x) Q"
  by (simp add: triple_def)

lemma triple_keeps: "keeps P m \<Longrightarrow> triple P m (\<lambda>_. P)"
  by (auto simp: triple_def dest: keepsD)

lemma triple_skip: "keeps P m \<Longrightarrow> (\<And>x. triple P (f x) Q) \<Longrightarrow> triple P (abind m f) Q"
  by (rule triple_bind [OF triple_keeps])

lemma triple_pure: "(A \<Longrightarrow> triple P m Q) \<Longrightarrow> triple (\<lambda>s. P s \<and> A) m Q"
  by (auto simp: triple_def)

lemma triple_weaken: "triple P m Q \<Longrightarrow> (\<And>s. P' s \<Longrightarrow> P s) \<Longrightarrow> (\<And>x s. Q x s \<Longrightarrow> Q' x s) \<Longrightarrow> triple P' m Q'"
  unfolding triple_def by blast

text \<open>A step whose continuation is looked at only where it returns.\<close>

lemma keeps_bind_post:
  assumes "keeps P m" "triple P m Q" "\<And>x s. P s \<Longrightarrow> Q x s \<Longrightarrow> P (fst (f x s))"
  shows "keeps P (abind m f)"
  unfolding keeps_def
proof (intro allI impI)
  fix s
  assume s: "P s"
  obtain t r where m: "m s = (t, r)" by force
  show "P (fst (abind m f s))"
  proof (cases r)
    case (Inl e)
    with m keepsD [OF assms(1) s m] show ?thesis by (simp add: abind_def)
  next
    case (Inr x)
    with m have "abind m f s = f x t" by (simp add: abind_InrI)
    with assms(3) keepsD [OF assms(1) s m] tripleD [OF assms(2) s] m Inr show ?thesis by simp
  qed
qed

lemma triple_prod: "(\<And>x y. p = (x, y) \<Longrightarrow> triple P (f x y) Q) \<Longrightarrow> triple P (case p of (x, y) \<Rightarrow> f x y) Q"
  by (cases p) simp

lemma keeps_preserves: "preserves g m \<Longrightarrow> (\<And>s t. g t = g s \<Longrightarrow> P s \<Longrightarrow> P t) \<Longrightarrow> keeps P m"
  unfolding keeps_def preserves_def by blast

section \<open>Numbers\<close>

datatype pyfloat = Fin rat | PosInf | NegInf | NaN

text \<open>
  The finite range of binary64: a magnitude at or above \<open>2 ^ 1024 - 2 ^ 970\<close> rounds to infinity
  (for an integer operand \<open>math.isfinite\<close> raises \<open>OverflowError\<close> there).
\<close>

definition dbl_limit :: int where
  "dbl_limit = 2 ^ 1024 - 2 ^ 970"

definition in_dbl :: "rat \<Rightarrow> bool" where
  "in_dbl q \<longleftrightarrow> \<bar>q\<bar> < of_int dbl_limit"

text \<open>Python's \<open>round(q)\<close>: to the nearest integer, a tie to the even one.\<close>

definition py_round :: "rat \<Rightarrow> int" where
  "py_round q = (let f = \<lfloor>q\<rfloor>; d = q - of_int f in
     if d < 1 / 2 then f else if 1 / 2 < d then f + 1 else if even f then f else f + 1)"

text \<open>Python's \<open>int(q)\<close> on a finite float: towards zero.\<close>

definition py_trunc :: "rat \<Rightarrow> int" where
  "py_trunc q = (if 0 \<le> q then \<lfloor>q\<rfloor> else - \<lfloor>- q\<rfloor>)"

definition round_ms :: "rat \<Rightarrow> int" where
  "round_ms s = py_round (s * 1000)"

lemma py_round_cases:
  obtains "py_round q = \<lfloor>q\<rfloor>" "q - of_int \<lfloor>q\<rfloor> \<le> 1 / 2"
    | "py_round q = \<lfloor>q\<rfloor> + 1" "1 / 2 \<le> q - of_int \<lfloor>q\<rfloor>"
  by (cases "q - of_int \<lfloor>q\<rfloor> < 1 / 2"; cases "1 / 2 < q - of_int \<lfloor>q\<rfloor>"; cases "even \<lfloor>q\<rfloor>")
    (auto simp: py_round_def Let_def)

lemma py_round_of_int [simp]: "py_round (of_int n) = n"
  by (simp add: py_round_def)

lemma py_round_numeral [simp]: "py_round (numeral n) = numeral n" "py_round 0 = 0" "py_round 1 = 1"
  using py_round_of_int [of "numeral n"] py_round_of_int [of 0] py_round_of_int [of 1] by simp_all

lemma py_round_ge_floor: "\<lfloor>q\<rfloor> \<le> py_round q"
  by (cases rule: py_round_cases [of q]) auto

lemma py_round_le_floor1: "py_round q \<le> \<lfloor>q\<rfloor> + 1"
  by (cases rule: py_round_cases [of q]) auto

lemma py_round_near: "\<bar>of_int (py_round q) - q\<bar> \<le> (1 / 2 :: rat)"
proof -
  have "of_int \<lfloor>q\<rfloor> \<le> q" "q < of_int \<lfloor>q\<rfloor> + 1" by linarith+
  then show ?thesis by (cases rule: py_round_cases [of q]) (auto simp: abs_le_iff)
qed

lemma py_round_mono: "p \<le> q \<Longrightarrow> py_round p \<le> py_round q"
proof (cases "\<lfloor>p\<rfloor> = \<lfloor>q\<rfloor>")
  case True
  moreover assume "p \<le> q"
  ultimately show ?thesis by (auto simp: py_round_def Let_def)
next
  case False
  assume "p \<le> q"
  with False have "\<lfloor>p\<rfloor> + 1 \<le> \<lfloor>q\<rfloor>"
    using floor_mono [of p q] by linarith
  then show ?thesis using py_round_le_floor1 [of p] py_round_ge_floor [of q] by linarith
qed

lemma py_round_shift_even: "even n \<Longrightarrow> py_round (q + of_int n) = py_round q + n"
  by (auto simp: py_round_def Let_def)

lemma round_ms_mono: "p \<le> q \<Longrightarrow> round_ms p \<le> round_ms q"
  by (simp add: round_ms_def py_round_mono)

lemma round_ms_shift: "round_ms (t + of_int n) = round_ms t + n * 1000"
  using py_round_shift_even [of "n * 1000" "t * 1000"]
  by (simp add: round_ms_def algebra_simps)

lemma round_ms_of_ms [simp]: "round_ms (of_int n / 1000) = n"
  by (simp add: round_ms_def)

lemma round_ms_0 [simp]: "round_ms 0 = 0"
  by (simp add: round_ms_def)

lemma py_trunc_of_int [simp]: "py_trunc (of_int n) = n"
  by (simp add: py_trunc_def)

lemma py_trunc_bounds: "0 \<le> q \<Longrightarrow> of_int (py_trunc q) \<le> q \<and> q < of_int (py_trunc q) + 1"
  by (simp add: py_trunc_def) linarith

section \<open>Values\<close>

datatype pyval =
    VNone
  | VBool bool
  | VInt int
  | VFloat pyfloat
  | VStr string
  | VList "pyval list"
  | VDict "(string \<times> pyval) list"

type_synonym pydict = "(string \<times> pyval) list"

definition dget :: "pydict \<Rightarrow> string \<Rightarrow> pyval option" where
  "dget d k = map_of d k"

definition dput :: "string \<Rightarrow> pyval \<Rightarrow> pydict \<Rightarrow> pydict" where
  "dput k v d = AList.update k v d"

definition ddel :: "string \<Rightarrow> pydict \<Rightarrow> pydict" where
  "ddel k d = AList.delete k d"

text \<open>\<open>d.get(k)\<close> and \<open>d[k]\<close>.\<close>

definition dget_none :: "pydict \<Rightarrow> string \<Rightarrow> pyval" where
  "dget_none d k = (case dget d k of None \<Rightarrow> VNone | Some v \<Rightarrow> v)"

definition dindex :: "pydict \<Rightarrow> string \<Rightarrow> pyval result" where
  "dindex d k = (case dget d k of None \<Rightarrow> Inl (KeyError k) | Some v \<Rightarrow> Inr v)"

text \<open>\<open>d.update(e)\<close>: every member of \<open>e\<close> is assigned, in order.\<close>

fun dupdate :: "pydict \<Rightarrow> pydict \<Rightarrow> pydict" where
  "dupdate d [] = d"
| "dupdate d ((k, v) # e) = dupdate (dput k v d) e"

fun is_dict :: "pyval \<Rightarrow> bool" where
  "is_dict (VDict _) = True"
| "is_dict _ = False"

fun is_list :: "pyval \<Rightarrow> bool" where
  "is_list (VList _) = True"
| "is_list _ = False"

fun is_str :: "pyval \<Rightarrow> bool" where
  "is_str (VStr _) = True"
| "is_str _ = False"

fun is_bool :: "pyval \<Rightarrow> bool" where
  "is_bool (VBool _) = True"
| "is_bool _ = False"

fun is_int :: "pyval \<Rightarrow> bool" where
  \<comment> \<open>\<open>isinstance(v, int) and not isinstance(v, bool)\<close>, and \<open>type(v) is int\<close>\<close>
  "is_int (VInt _) = True"
| "is_int _ = False"

fun hashable :: "pyval \<Rightarrow> bool" where
  "hashable (VList _) = False"
| "hashable (VDict _) = False"
| "hashable _ = True"

text \<open>The keys of a dictionary are distinct, at every depth.\<close>

fun py_wf :: "pyval \<Rightarrow> bool" where
  "py_wf (VList vs) = (\<forall>v \<in> set vs. py_wf v)"
| "py_wf (VDict d) = (distinct (map fst d) \<and> (\<forall>kv \<in> set d. py_wf (snd kv)))"
| "py_wf _ = True"

text \<open>
  \<open>isinstance(v, (int, float)) and not isinstance(v, bool) and math.isfinite(v)\<close>, an overflowing
  integer counting as not finite: the number, when it is one.
\<close>

fun fin_num :: "pyval \<Rightarrow> rat option" where
  "fin_num (VInt n) = (if in_dbl (of_int n) then Some (of_int n) else None)"
| "fin_num (VFloat (Fin q)) = (if in_dbl q then Some q else None)"
| "fin_num _ = None"

text \<open>
  \<open>isinstance(v, bool) or not isinstance(v, (int, float)) or not math.isfinite(v)\<close> raising \<open>e\<close>; an
  integer beyond the range makes \<open>math.isfinite\<close> itself raise.
\<close>

definition finite_or :: "pyexn \<Rightarrow> pyval \<Rightarrow> rat result" where
  "finite_or e v =
     (case v of
        VInt n \<Rightarrow> if in_dbl (of_int n) then Inr (of_int n) else Inl OverflowError
      | _ \<Rightarrow> (case fin_num v of None \<Rightarrow> Inl e | Some q \<Rightarrow> Inr q))"

text \<open>Python truth.\<close>

fun truthy :: "pyval \<Rightarrow> bool" where
  "truthy VNone = False"
| "truthy (VBool b) = b"
| "truthy (VInt n) = (n \<noteq> 0)"
| "truthy (VFloat f) = (f \<noteq> Fin 0)"
| "truthy (VStr s) = (s \<noteq> [])"
| "truthy (VList xs) = (xs \<noteq> [])"
| "truthy (VDict d) = (d \<noteq> [])"

text \<open>
  Python \<open>==\<close>: numbers compare by value across \<open>bool\<close>, \<open>int\<close> and \<open>float\<close> (a NaN equals nothing),
  dictionaries without regard to order.
\<close>

fun num_value :: "pyval \<Rightarrow> pyfloat option" where
  "num_value (VBool b) = Some (Fin (of_bool b))"
| "num_value (VInt n) = Some (Fin (of_int n))"
| "num_value (VFloat f) = Some f"
| "num_value _ = None"

definition num_eq :: "pyval \<Rightarrow> pyval \<Rightarrow> bool" where
  "num_eq v w = (case (num_value v, num_value w) of
     (Some a, Some b) \<Rightarrow> a = b \<and> a \<noteq> NaN | _ \<Rightarrow> False)"

fun py_eq :: "pyval \<Rightarrow> pyval \<Rightarrow> bool"
  and list_eq :: "pyval list \<Rightarrow> pyval list \<Rightarrow> bool"
  and dict_sub :: "pydict \<Rightarrow> pydict \<Rightarrow> bool" where
  "py_eq (VList xs) w = (case w of VList ys \<Rightarrow> list_eq xs ys | _ \<Rightarrow> False)"
| "py_eq (VDict d) w = (case w of VDict e \<Rightarrow> length d = length e \<and> dict_sub d e | _ \<Rightarrow> False)"
| "py_eq (VStr s) w = (w = VStr s)"
| "py_eq VNone w = (w = VNone)"
| "py_eq v w = num_eq v w"
| "list_eq [] ys = (ys = [])"
| "list_eq (x # xs) ys = (case ys of [] \<Rightarrow> False | y # ys' \<Rightarrow> py_eq x y \<and> list_eq xs ys')"
| "dict_sub [] e = True"
| "dict_sub ((k, v) # d) e =
     ((case map_of e k of None \<Rightarrow> False | Some w \<Rightarrow> py_eq v w) \<and> dict_sub d e)"

text \<open>
  Python \<open><\<close>: numbers by value, strings by code point, lists by their first differing member; two
  values of other or different kinds raise \<open>TypeError\<close>.
\<close>

fun float_less :: "pyfloat \<Rightarrow> pyfloat \<Rightarrow> bool" where
  "float_less (Fin a) (Fin b) = (a < b)"
| "float_less NegInf b = (b \<noteq> NegInf \<and> b \<noteq> NaN)"
| "float_less (Fin _) b = (b = PosInf)"
| "float_less _ _ = False"

fun str_less :: "string \<Rightarrow> string \<Rightarrow> bool" where
  "str_less [] t = (t \<noteq> [])"
| "str_less (c # s) [] = False"
| "str_less (c # s) (d # t) = (if c = d then str_less s t else (of_char c :: nat) < of_char d)"

fun py_less :: "pyval \<Rightarrow> pyval \<Rightarrow> bool result"
  and list_less :: "pyval list \<Rightarrow> pyval list \<Rightarrow> bool result" where
  "py_less (VStr s) w = (case w of VStr t \<Rightarrow> Inr (str_less s t) | _ \<Rightarrow> Inl (TypeError ''<''))"
| "py_less (VList xs) w = (case w of VList ys \<Rightarrow> list_less xs ys | _ \<Rightarrow> Inl (TypeError ''<''))"
| "py_less v w =
     (case (num_value v, num_value w) of
        (Some a, Some b) \<Rightarrow> Inr (float_less a b)
      | _ \<Rightarrow> Inl (TypeError ''<''))"
| "list_less [] ys = Inr (ys \<noteq> [])"
| "list_less (x # xs) ys =
     (case ys of [] \<Rightarrow> Inr False | y # ys' \<Rightarrow> if py_eq x y then list_less xs ys' else py_less x y)"

section \<open>Lemmas on dictionaries\<close>

lemma dget_dput [simp]: "dget (dput k v d) k' = (if k = k' then Some v else dget d k')"
  by (simp add: dget_def dput_def update_conv')

lemma dget_ddel [simp]: "dget (ddel k d) k' = (if k = k' then None else dget d k')"
  by (simp add: dget_def ddel_def delete_conv')

lemma dget_Nil [simp]: "dget [] k = None"
  by (simp add: dget_def)

lemma dget_Cons [simp]: "dget ((k', v) # d) k = (if k' = k then Some v else dget d k)"
  by (simp add: dget_def)

lemma dget_none_dput [simp]: "dget_none (dput k v d) k' = (if k = k' then v else dget_none d k')"
  by (simp add: dget_none_def)

lemma dindex_dput [simp]: "dindex (dput k v d) k' = (if k = k' then Inr v else dindex d k')"
  by (simp add: dindex_def)

lemma dget_SomeD: "dget d k = Some v \<Longrightarrow> (k, v) \<in> set d"
  by (simp add: dget_def map_of_SomeD)

lemma dget_None_iff: "dget d k = None \<longleftrightarrow> k \<notin> fst ` set d"
  by (simp add: dget_def map_of_eq_None_iff)

lemma distinct_dput: "distinct (map fst d) \<Longrightarrow> distinct (map fst (dput k v d))"
  by (simp add: dput_def distinct_update)

lemma distinct_ddel: "distinct (map fst d) \<Longrightarrow> distinct (map fst (ddel k d))"
  by (simp add: ddel_def distinct_delete)

lemma dget_dupdate: "dget (dupdate d e) k = (case dget (rev e) k of None \<Rightarrow> dget d k | Some v \<Rightarrow> Some v)"
proof (induction d e rule: dupdate.induct)
  case (2 d k' v e)
  have "dget (rev ((k', v) # e)) k =
      (case dget (rev e) k of None \<Rightarrow> if k' = k then Some v else None | Some w \<Rightarrow> Some w)"
    by (auto simp: dget_def map_add_def split: option.split)
  with 2 show ?case by (auto split: option.split)
qed simp

lemma fin_num_in_dbl: "fin_num v = Some q \<Longrightarrow> in_dbl q"
  by (cases v rule: fin_num.cases) (auto split: if_splits)

lemma fin_num_not_bool: "fin_num (VBool b) = None"
  by simp

lemma in_dbl_0 [simp]: "in_dbl 0"
  by (simp add: in_dbl_def dbl_limit_def)

text \<open>Every magnitude the witnesses use is far inside the range.\<close>

lemma dbl_limit_big: "1000000000000 < dbl_limit"
  by (simp add: dbl_limit_def)

lemma in_dbl_small: "\<bar>q\<bar> \<le> 1000000000000 \<Longrightarrow> in_dbl q"
proof -
  assume "\<bar>q\<bar> \<le> 1000000000000"
  moreover have "(1000000000000 :: rat) < of_int dbl_limit"
    using dbl_limit_big by (metis of_int_less_iff of_int_numeral)
  ultimately show ?thesis by (simp add: in_dbl_def)
qed

end
