(* ===== verification/Clock_Domain.thy ===== *)
theory Clock_Domain
  imports Py_Prelude "HOL-Library.Sublist"
begin

text \<open>
  \<open>common/clock_domain.py\<close>: clock stamps qualified by boot and runtime identity, and the age of a
  retained stamp. A \<open>clock_stamp\<close> is the frozen dataclass \<open>ClockStamp\<close>; its coordinates are the
  numbers the dataclass admits (\<open>_finite\<close>), as exact rationals. \<open>mk_clock_stamp\<close> is the constructor
  with its \<open>__post_init__\<close>, \<open>stamp_from_dict\<close>/\<open>stamp_as_dict\<close> the wire form. A \<open>clock_domain\<close> is a
  \<open>RuntimeClockDomain\<close>; the readings of its injected clock sources are arguments of \<open>capture\<close>, the
  identities \<open>uuid4\<close> draws are arguments too. Reading \<open>/proc\<close> and the process-wide reader domain
  (\<open>system_boot_id\<close>, \<open>local_clock_stamp\<close>) are I/O and are not modelled.
\<close>

section \<open>Identities\<close>

text \<open>
  \<open>uuid.UUID(s)\<close> of the standard library: \<open>urn:\<close> and \<open>uuid:\<close> are removed, braces stripped from both
  ends, dashes removed; 32 characters must remain and be an integer in base 16 (\<open>int(hex, 16)\<close>, which
  admits surrounding white space, a sign, a \<open>0x\<close> prefix and single underscores between digits).
\<close>

function remove_sub :: "string \<Rightarrow> string \<Rightarrow> string" where
  "remove_sub p s =
     (if p = [] \<or> s = [] then s
      else if prefix p s then remove_sub p (drop (length p) s)
      else hd s # remove_sub p (tl s))"
  by pat_completeness auto
termination
  by (relation "measure (length \<circ> snd)") (auto simp: neq_Nil_conv)

declare remove_sub.simps [simp del]

definition strip_chars :: "(char \<Rightarrow> bool) \<Rightarrow> string \<Rightarrow> string" where
  "strip_chars p s = rev (dropWhile p (rev (dropWhile p s)))"

definition hex_digit :: "char \<Rightarrow> nat option" where
  "hex_digit c = (let n = of_char c :: nat in
     if 48 \<le> n \<and> n \<le> 57 then Some (n - 48)
     else if 97 \<le> n \<and> n \<le> 102 then Some (n - 87)
     else if 65 \<le> n \<and> n \<le> 70 then Some (n - 55)
     else None)"

definition is_space :: "char \<Rightarrow> bool" where
  "is_space c = (let n = of_char c :: nat in (9 \<le> n \<and> n \<le> 13) \<or> (28 \<le> n \<and> n \<le> 32))"

text \<open>Digits with single underscores between them; \<open>ok\<close>: an underscore may come next.\<close>

fun hex_digits :: "bool \<Rightarrow> nat \<Rightarrow> string \<Rightarrow> nat option" where
  "hex_digits ok acc [] = (if ok then Some acc else None)"
| "hex_digits ok acc (c # cs) =
     (if c = CHR ''_'' then (if ok then hex_digits False acc cs else None)
      else case hex_digit c of None \<Rightarrow> None | Some d \<Rightarrow> hex_digits True (16 * acc + d) cs)"

definition hex_int :: "string \<Rightarrow> nat option" where
  "hex_int s =
     (let t = strip_chars is_space s;
          u = (if t \<noteq> [] \<and> hd t = CHR ''+'' then tl t else t)
      in if prefix ''0x_'' u \<or> prefix ''0X_'' u then hex_digits False 0 (drop 3 u)
         else if prefix ''0x'' u \<or> prefix ''0X'' u then hex_digits False 0 (drop 2 u)
         else hex_digits False 0 u)"

definition uuid_parse :: "string \<Rightarrow> nat option" where
  "uuid_parse s =
     (let t = strip_chars (\<lambda>c. c = CHR ''{'' \<or> c = CHR ''}'') (remove_sub ''uuid:'' (remove_sub ''urn:'' s));
          hex = List.filter (\<lambda>c. c \<noteq> CHR ''-'') t
      in if length hex = 32 then hex_int hex else None)"

definition hex_char :: "nat \<Rightarrow> char" where
  "hex_char d = (if d < 10 then char_of (48 + d) else char_of (87 + d))"

fun hex_pad :: "nat \<Rightarrow> nat \<Rightarrow> string \<Rightarrow> string" where
  "hex_pad 0 n acc = acc"
| "hex_pad (Suc k) n acc = hex_pad k (n div 16) (hex_char (n mod 16) # acc)"

text \<open>\<open>str(UUID)\<close>: the canonical lower-case 8-4-4-4-12 form.\<close>

definition uuid_str :: "nat \<Rightarrow> string" where
  "uuid_str n =
     (let h = hex_pad 32 n [] in
      take 8 h @ ''-'' @ take 4 (drop 8 h) @ ''-'' @ take 4 (drop 12 h) @ ''-''
        @ take 4 (drop 16 h) @ ''-'' @ drop 20 h)"

definition canonical_uuid :: "string \<Rightarrow> bool" where
  "canonical_uuid s = (case uuid_parse s of None \<Rightarrow> False | Some n \<Rightarrow> uuid_str n = s)"

fun valid_identity :: "pyval \<Rightarrow> bool" where
  "valid_identity (VStr s) = canonical_uuid s"
| "valid_identity _ = False"

section \<open>Clock stamps\<close>

record clock_stamp =
  schema_version :: int
  boot_id :: "string option"
  runtime_id :: string
  observed_monotonic_s :: rat
  observed_wall_s :: rat
  suspend_offset_s :: "rat option"

definition CLOCK_STAMP_SCHEMA :: int where
  "CLOCK_STAMP_SCHEMA = 1"

definition CONTROL_DISCONTINUITY_SECONDS :: rat where
  "CONTROL_DISCONTINUITY_SECONDS = 60"

definition opt_str :: "string option \<Rightarrow> pyval" where
  "opt_str x = (case x of None \<Rightarrow> VNone | Some s \<Rightarrow> VStr s)"

definition num :: "rat \<Rightarrow> pyval" where
  "num q = VFloat (Fin q)"

definition opt_num :: "rat option \<Rightarrow> pyval" where
  "opt_num x = (case x of None \<Rightarrow> VNone | Some q \<Rightarrow> num q)"

text \<open>The sum or difference of two finite floats: an infinity outside the range.\<close>

definition mk_float :: "rat \<Rightarrow> pyfloat" where
  "mk_float q = (if in_dbl q then Fin q else if 0 < q then PosInf else NegInf)"

fun str_of :: "pyval \<Rightarrow> string" where
  "str_of (VStr s) = s"
| "str_of _ = []"

definition the_str :: "pyval \<Rightarrow> string option" where
  "the_str v = (case v of VStr s \<Rightarrow> Some s | _ \<Rightarrow> None)"

text \<open>\<open>ClockStamp.__post_init__\<close>.\<close>

definition stamp_post_init :: "pyval \<Rightarrow> pyval \<Rightarrow> pyval \<Rightarrow> pyval \<Rightarrow> pyval \<Rightarrow> pyval \<Rightarrow> unit result" where
  "stamp_post_init schema boot runtime mon wall offset =
     (if schema \<noteq> VInt CLOCK_STAMP_SCHEMA then Inl (ValueError ''Unsupported clock stamp schema'')
      else if boot \<noteq> VNone \<and> \<not> valid_identity boot then Inl (ValueError ''Invalid boot identity'')
      else if \<not> valid_identity runtime then Inl (ValueError ''Invalid runtime identity'')
      else if fin_num mon = None \<or> fin_num wall = None
        then Inl (ValueError ''Clock coordinates must be finite numbers'')
      else if offset \<noteq> VNone \<and> fin_num offset = None
        then Inl (ValueError ''Suspend offset must be a finite number or unknown'')
      else Inr ())"

definition mk_clock_stamp ::
    "pyval \<Rightarrow> pyval \<Rightarrow> pyval \<Rightarrow> pyval \<Rightarrow> pyval \<Rightarrow> pyval \<Rightarrow> clock_stamp result" where
  "mk_clock_stamp schema boot runtime mon wall offset =
     ebind (stamp_post_init schema boot runtime mon wall offset) (\<lambda>_.
       case (fin_num mon, fin_num wall) of
         (Some m, Some w) \<Rightarrow>
           Inr \<lparr>schema_version = CLOCK_STAMP_SCHEMA, boot_id = the_str boot, runtime_id = str_of runtime,
                 observed_monotonic_s = m, observed_wall_s = w, suspend_offset_s = fin_num offset\<rparr>
       | _ \<Rightarrow> Inl (ValueError ''Clock coordinates must be finite numbers''))"

definition stamp_keys :: "string list" where
  "stamp_keys = [''schema_version'', ''boot_id'', ''runtime_id'', ''observed_monotonic_s'',
     ''observed_wall_s'', ''suspend_offset_s'']"

definition stamp_as_dict :: "clock_stamp \<Rightarrow> pydict" where
  "stamp_as_dict s =
     [(''schema_version'', VInt (schema_version s)),
      (''boot_id'', opt_str (boot_id s)),
      (''runtime_id'', VStr (runtime_id s)),
      (''observed_monotonic_s'', num (observed_monotonic_s s)),
      (''observed_wall_s'', num (observed_wall_s s)),
      (''suspend_offset_s'', opt_num (suspend_offset_s s))]"

definition stamp_from_dict :: "pydict \<Rightarrow> clock_stamp result" where
  "stamp_from_dict d =
     (if set (map fst d) \<noteq> set stamp_keys
        then Inl (ValueError ''Clock stamp fields do not match the current schema'')
      else
        let schema = dget_none d ''schema_version''; boot = dget_none d ''boot_id'';
            runtime = dget_none d ''runtime_id''; mon = dget_none d ''observed_monotonic_s'';
            wall = dget_none d ''observed_wall_s''; offset = dget_none d ''suspend_offset_s''
        in if schema \<noteq> VInt CLOCK_STAMP_SCHEMA then Inl (ValueError ''Unsupported clock stamp schema'')
           else if boot \<noteq> VNone \<and> \<not> valid_identity boot then Inl (ValueError ''Invalid boot identity'')
           else if \<not> valid_identity runtime then Inl (ValueError ''Invalid runtime identity'')
           else if fin_num mon = None \<or> fin_num wall = None
             then Inl (ValueError ''Clock coordinates must be finite numbers'')
           else if offset \<noteq> VNone \<and> fin_num offset = None
             then Inl (ValueError ''Suspend offset must be a finite number or unknown'')
           else mk_clock_stamp schema boot runtime mon wall offset)"

text \<open>Untrusted data: anything malformed is unknown, never an exception.\<close>

definition parse_clock_stamp :: "pyval \<Rightarrow> clock_stamp option" where
  "parse_clock_stamp v =
     (case v of
        VDict d \<Rightarrow> (case stamp_from_dict d of Inr s \<Rightarrow> Some s | Inl _ \<Rightarrow> None)
      | _ \<Rightarrow> None)"

section \<open>Ages\<close>

definition stamp_age_s ::
    "clock_stamp \<Rightarrow> rat \<Rightarrow> string option \<Rightarrow> string option \<Rightarrow> rat option \<Rightarrow> rat option" where
  "stamp_age_s stamp mon boot runtime offset =
     (if boot = None \<or> boot = Some [] \<or> runtime = None \<or> runtime = Some []
         \<or> boot_id stamp \<noteq> boot \<or> Some (runtime_id stamp) \<noteq> runtime then None
      else case (offset, suspend_offset_s stamp) of
        (Some off, Some soff) \<Rightarrow>
          if \<not> in_dbl mon \<or> \<not> in_dbl off \<or> \<not> in_dbl soff then None
          else if off - soff > CONTROL_DISCONTINUITY_SECONDS then None
          else let age = mon - observed_monotonic_s stamp in if 0 \<le> age then Some age else None
      | _ \<Rightarrow> None)"

text \<open>The age of one stamp as seen from another (how every caller of the control loop asks).\<close>

definition age_at :: "clock_stamp \<Rightarrow> clock_stamp \<Rightarrow> rat option" where
  "age_at stamp now =
     stamp_age_s stamp (observed_monotonic_s now) (boot_id now) (Some (runtime_id now)) (suspend_offset_s now)"

definition continuity_lost :: "clock_stamp \<Rightarrow> clock_stamp \<Rightarrow> rat \<Rightarrow> bool result" where
  "continuity_lost previous current max_active_gap_s =
     (if \<not> in_dbl max_active_gap_s \<or> max_active_gap_s < 0
        then Inl (ValueError ''Active gap threshold must be finite and nonnegative'')
      else case age_at previous current of
        None \<Rightarrow> Inr True
      | Some age \<Rightarrow> Inr (age > max_active_gap_s))"

definition heartbeat_runtime_id ::
    "clock_stamp option \<Rightarrow> clock_stamp option \<Rightarrow> rat \<Rightarrow> string option" where
  "heartbeat_runtime_id heartbeat current stale_after_s =
     (case (heartbeat, current) of
        (Some hb, Some cur) \<Rightarrow>
          (case stamp_age_s hb (observed_monotonic_s cur) (boot_id cur) (Some (runtime_id hb))
                  (suspend_offset_s cur) of
             Some age \<Rightarrow> if age \<le> stale_after_s then Some (runtime_id hb) else None
           | None \<Rightarrow> None)
      | _ \<Rightarrow> None)"

definition qualified_stamp_age_s ::
    "clock_stamp option \<Rightarrow> clock_stamp option \<Rightarrow> clock_stamp option \<Rightarrow> rat \<Rightarrow> rat option" where
  "qualified_stamp_age_s stamp heartbeat current stale_after_s =
     (case (stamp, current) of
        (Some st, Some cur) \<Rightarrow>
          stamp_age_s st (observed_monotonic_s cur) (boot_id cur)
            (heartbeat_runtime_id heartbeat (Some cur) stale_after_s) (suspend_offset_s cur)
      | _ \<Rightarrow> None)"

section \<open>The runtime clock domain\<close>

record clock_domain =
  dom_boot_id :: "string option"
  dom_runtime_id :: string
  dom_has_boottime :: bool

definition clock_domain_init :: "pyval \<Rightarrow> bool \<Rightarrow> string \<Rightarrow> clock_domain result" where
  "clock_domain_init boot has_boottime fresh =
     (if boot \<noteq> VNone \<and> \<not> valid_identity boot then Inl (ValueError ''Invalid boot identity'')
      else Inr \<lparr>dom_boot_id = the_str boot, dom_runtime_id = fresh, dom_has_boottime = has_boottime\<rparr>)"

definition rotate_runtime :: "clock_domain \<Rightarrow> string \<Rightarrow> clock_domain" where
  "rotate_runtime dm fresh = dm\<lparr>dom_runtime_id := fresh\<rparr>"

text \<open>
  \<open>capture\<close>: the readings \<open>mono_now\<close>, \<open>boot_now\<close> and \<open>wall_now\<close> of the three sources, and the optional
  acquisition coordinates of the caller.
\<close>

definition capture ::
    "clock_domain \<Rightarrow> pyval \<Rightarrow> pyval \<Rightarrow> pyval \<Rightarrow> pyval \<Rightarrow> pyval \<Rightarrow> clock_stamp result" where
  "capture dm mono_now boot_now wall_now monotonic_s wall_s =
     (if (monotonic_s = VNone) \<noteq> (wall_s = VNone)
        then Inl (ValueError ''Acquisition coordinates must be supplied as a pair'')
      else case fin_num mono_now of
        None \<Rightarrow> Inl (ValueError ''Monotonic source must return finite seconds'')
      | Some m \<Rightarrow>
          ebind (if dom_has_boottime dm then
                   (case fin_num boot_now of
                      None \<Rightarrow> Inl (ValueError ''Boottime source must return finite seconds'')
                    | Some b \<Rightarrow> Inr (VFloat (mk_float (b - m))))
                 else Inr VNone) (\<lambda>offset.
            mk_clock_stamp (VInt CLOCK_STAMP_SCHEMA) (opt_str (dom_boot_id dm)) (VStr (dom_runtime_id dm))
              (if monotonic_s = VNone then mono_now else monotonic_s)
              (if wall_s = VNone then wall_now else wall_s) offset))"

section \<open>Lemmas\<close>

text \<open>What \<open>ClockStamp.__post_init__\<close> guarantees of every stamp.\<close>

definition stamp_ok :: "clock_stamp \<Rightarrow> bool" where
  "stamp_ok s \<longleftrightarrow> schema_version s = CLOCK_STAMP_SCHEMA
     \<and> (case boot_id s of None \<Rightarrow> True | Some b \<Rightarrow> canonical_uuid b)
     \<and> canonical_uuid (runtime_id s) \<and> in_dbl (observed_monotonic_s s) \<and> in_dbl (observed_wall_s s)
     \<and> (case suspend_offset_s s of None \<Rightarrow> True | Some q \<Rightarrow> in_dbl q)"

lemma fin_num_num [simp]: "fin_num (num q) = (if in_dbl q then Some q else None)"
  by (simp add: num_def)

lemma num_neq_VNone [simp]: "num q \<noteq> VNone" "VNone \<noteq> num q"
  by (simp_all add: num_def)

lemma mk_clock_stamp_ok: "mk_clock_stamp sc b r m w off = Inr s \<Longrightarrow> stamp_ok s"
  by (cases b; cases r; cases off)
    (auto simp: mk_clock_stamp_def stamp_post_init_def stamp_ok_def ebind_Inr_iff the_str_def
      dest: fin_num_in_dbl split: if_splits option.splits)

lemma stamp_from_dict_ok: "stamp_from_dict d = Inr s \<Longrightarrow> stamp_ok s"
  by (auto simp: stamp_from_dict_def Let_def dest: mk_clock_stamp_ok split: if_splits)

lemma parse_clock_stamp_ok: "parse_clock_stamp v = Some s \<Longrightarrow> stamp_ok s"
  by (auto simp: parse_clock_stamp_def dest: stamp_from_dict_ok split: pyval.splits sum.splits)

lemma capture_ok: "capture dm m b w ms ws = Inr s \<Longrightarrow> stamp_ok s"
  by (auto simp: capture_def ebind_Inr_iff dest: mk_clock_stamp_ok split: if_splits option.splits)

lemma mk_clock_stamp_fields:
  "mk_clock_stamp sc b r m w off = Inr s \<Longrightarrow>
     boot_id s = the_str b \<and> runtime_id s = str_of r \<and> fin_num m = Some (observed_monotonic_s s)
     \<and> fin_num w = Some (observed_wall_s s) \<and> suspend_offset_s s = fin_num off"
  by (auto simp: mk_clock_stamp_def ebind_Inr_iff split: option.splits)

lemma stamp_as_dict_keys [simp]: "fst ` set (stamp_as_dict s) = set stamp_keys"
  by (auto simp: stamp_as_dict_def stamp_keys_def)

lemma stamp_as_dict_get [simp]:
  "dget_none (stamp_as_dict s) ''schema_version'' = VInt (schema_version s)"
  "dget_none (stamp_as_dict s) ''boot_id'' = opt_str (boot_id s)"
  "dget_none (stamp_as_dict s) ''runtime_id'' = VStr (runtime_id s)"
  "dget_none (stamp_as_dict s) ''observed_monotonic_s'' = num (observed_monotonic_s s)"
  "dget_none (stamp_as_dict s) ''observed_wall_s'' = num (observed_wall_s s)"
  "dget_none (stamp_as_dict s) ''suspend_offset_s'' = opt_num (suspend_offset_s s)"
  by (simp_all add: stamp_as_dict_def dget_none_def)

lemma stamp_roundtrip: "stamp_ok s \<Longrightarrow> stamp_from_dict (stamp_as_dict s) = Inr s"
  by (cases s)
    (auto simp: stamp_from_dict_def Let_def mk_clock_stamp_def stamp_post_init_def
      stamp_ok_def opt_str_def opt_num_def the_str_def split: option.splits)

lemma parse_stamp_as_dict [simp]: "stamp_ok s \<Longrightarrow> parse_clock_stamp (VDict (stamp_as_dict s)) = Some s"
  by (simp add: parse_clock_stamp_def stamp_roundtrip)

lemma parse_clock_stamp_VNone [simp]: "parse_clock_stamp VNone = None"
  by (simp add: parse_clock_stamp_def)

lemma stamp_age_SomeD:
  "stamp_age_s st mon boot runtime off = Some a \<Longrightarrow>
     boot_id st = boot \<and> Some (runtime_id st) = runtime \<and> boot \<noteq> None \<and> 0 \<le> a
     \<and> a = mon - observed_monotonic_s st
     \<and> (\<exists>o1 o2. off = Some o1 \<and> suspend_offset_s st = Some o2 \<and> o1 - o2 \<le> 60)"
  by (auto simp: stamp_age_s_def CONTROL_DISCONTINUITY_SECONDS_def Let_def split: option.splits if_splits)

lemma age_atD:
  "age_at st now = Some a \<Longrightarrow>
     boot_id st = boot_id now \<and> runtime_id st = runtime_id now \<and> boot_id now \<noteq> None \<and> 0 \<le> a
     \<and> a = observed_monotonic_s now - observed_monotonic_s st
     \<and> (\<exists>o1 o2. suspend_offset_s now = Some o1 \<and> suspend_offset_s st = Some o2 \<and> o1 - o2 \<le> 60)"
  unfolding age_at_def by (drule stamp_age_SomeD) auto

lemma canonical_uuid_Nil [simp]: "\<not> canonical_uuid []"
  by (simp add: canonical_uuid_def uuid_parse_def strip_chars_def remove_sub.simps)

text \<open>A stamp whose domain is known is fresh to itself.\<close>

definition domain_known :: "clock_stamp \<Rightarrow> bool" where
  "domain_known s \<longleftrightarrow> stamp_ok s \<and> boot_id s \<noteq> None \<and> suspend_offset_s s \<noteq> None"

lemma domain_known_nonempty: "domain_known s \<Longrightarrow> boot_id s \<noteq> Some [] \<and> runtime_id s \<noteq> []"
  by (auto simp: domain_known_def stamp_ok_def)

lemma age_at_self: "stamp_ok s \<Longrightarrow> age_at s s = (if domain_known s then Some 0 else None)"
  using domain_known_nonempty [of s]
  by (auto simp: age_at_def stamp_age_s_def domain_known_def stamp_ok_def Let_def
      CONTROL_DISCONTINUITY_SECONDS_def split: option.splits)

lemma age_at_known: "age_at st now = Some a \<Longrightarrow> stamp_ok st \<Longrightarrow> stamp_ok now \<Longrightarrow> domain_known st \<and> domain_known now"
  by (drule age_atD) (auto simp: domain_known_def)

text \<open>Ages compose: across a stamp in between, as long as the whole suspend drift stays admitted.\<close>

lemma age_at_trans:
  assumes "age_at a b = Some x" "age_at b c = Some y" "age_at a c \<noteq> None"
  shows "age_at a c = Some (x + y)"
proof -
  obtain z where z: "age_at a c = Some z" using assms(3) by auto
  with age_atD [OF assms(1)] age_atD [OF assms(2)] age_atD [OF z] show ?thesis by simp
qed

end
