(* ===== verification/Cook_Timer.thy ===== *)
theory Cook_Timer
  imports Clock_Domain
begin

text \<open>
  \<open>common/timer.py\<close>, \<open>common/timer_projection.py\<close> and \<open>common/duration_status.py\<close>: the user and
  recipe timer, its durable form, and the projections clients read. A \<open>timer_record\<close> is the
  \<open>TimerRecord\<close> dictionary (its constant \<open>schema_version\<close> appears in \<open>timer_value\<close>); the checkpoint is
  kept as the payload it is, a value \<open>parse_clock_stamp\<close> reads back. Every operation returns a new
  record, as the code's \<open>timer.copy()\<close> does; the identity \<open>uuid4\<close> draws is an argument of
  \<open>start_timer\<close>.
\<close>

section \<open>Records\<close>

datatype timer_state = Stopped | Running | Paused | Interrupted | Expired

record timer_record =
  timer_id :: string
  tstate :: timer_state
  remaining_s :: "rat option"
  checkpoint :: pyval
  started_wall_s :: "rat option"
  paused_wall_s :: "rat option"
  projected_end_wall_s :: "rat option"
  action_armed :: bool

definition TIMER_SCHEMA_VERSION :: int where
  "TIMER_SCHEMA_VERSION = 2"

fun state_name :: "timer_state \<Rightarrow> string" where
  "state_name Stopped = ''stopped''"
| "state_name Running = ''running''"
| "state_name Paused = ''paused''"
| "state_name Interrupted = ''interrupted''"
| "state_name Expired = ''expired''"

definition timer_state_of :: "pyval \<Rightarrow> timer_state option" where
  "timer_state_of v =
     (if v = VStr ''stopped'' then Some Stopped
      else if v = VStr ''running'' then Some Running
      else if v = VStr ''paused'' then Some Paused
      else if v = VStr ''interrupted'' then Some Interrupted
      else if v = VStr ''expired'' then Some Expired
      else None)"

definition wall :: "pyval \<Rightarrow> rat option result" where
  "wall v =
     (if v = VNone then Inr None
      else case fin_num v of
        None \<Rightarrow> Inl (ValueError ''Timer wall metadata must be finite or unknown'')
      | Some q \<Rightarrow> Inr (Some q))"

definition nil_uuid :: string where
  "nil_uuid = ''00000000-0000-0000-0000-000000000000''"

definition default_timer :: timer_record where
  "default_timer =
     \<lparr>timer_id = nil_uuid, tstate = Stopped, remaining_s = Some 0, checkpoint = VNone,
      started_wall_s = None, paused_wall_s = None, projected_end_wall_s = None, action_armed = False\<rparr>"

definition timer_keys :: "string list" where
  "timer_keys = [''schema_version'', ''timer_id'', ''state'', ''remaining_s'', ''checkpoint'',
     ''started_wall_s'', ''paused_wall_s'', ''projected_end_wall_s'', ''action_armed'']"

definition timer_dict :: "timer_record \<Rightarrow> pydict" where
  "timer_dict t =
     [(''schema_version'', VInt TIMER_SCHEMA_VERSION),
      (''timer_id'', VStr (timer_id t)),
      (''state'', VStr (state_name (tstate t))),
      (''remaining_s'', opt_num (remaining_s t)),
      (''checkpoint'', checkpoint t),
      (''started_wall_s'', opt_num (started_wall_s t)),
      (''paused_wall_s'', opt_num (paused_wall_s t)),
      (''projected_end_wall_s'', opt_num (projected_end_wall_s t)),
      (''action_armed'', VBool (action_armed t))]"

definition timer_value :: "timer_record \<Rightarrow> pyval" where
  "timer_value t = VDict (timer_dict t)"

section \<open>Admitting durable records\<close>

text \<open>
  The guards of \<open>parse_timer\<close> on the decoded fields: the state \<open>st\<close>, the raw \<open>remaining\<close>, the raw and
  the parsed checkpoint and the raw \<open>armed\<close> flag.
\<close>

definition timer_guards ::
    "timer_state \<Rightarrow> pyval \<Rightarrow> pyval \<Rightarrow> pyval \<Rightarrow> unit result" where
  "timer_guards st remaining cp armed =
     (if remaining \<noteq> VNone \<and> (case fin_num remaining of None \<Rightarrow> True | Some q \<Rightarrow> q < 0)
        then Inl (ValueError ''Timer remaining must be finite and nonnegative'')
      else if cp \<noteq> VNone \<and> parse_clock_stamp cp = None
        then Inl (ValueError ''Invalid timer checkpoint'')
      else if \<not> is_bool armed \<or> (armed = VBool True \<and> st \<noteq> Running)
        then Inl (ValueError ''Only running timers may be armed'')
      else if st = Running \<and> (parse_clock_stamp cp = None \<or> remaining = VNone \<or> armed \<noteq> VBool True)
        then Inl (ValueError ''Running timer requires a known checkpoint and armed duration'')
      else if (st = Stopped \<or> st = Expired) \<and> fin_num remaining \<noteq> Some 0
        then Inl (ValueError ''Terminal timers have zero remaining'')
      else if st \<noteq> Running \<and> parse_clock_stamp cp \<noteq> None
        then Inl (ValueError ''Only running timers have an active checkpoint'')
      else Inr ())"

definition parse_timer :: "pyval \<Rightarrow> timer_record result" where
  "parse_timer v =
     (case v of
        VDict d \<Rightarrow>
          if set (map fst d) \<noteq> set timer_keys
            then Inl (ValueError ''Timer fields do not match current schema'')
          else if dget_none d ''schema_version'' \<noteq> VInt TIMER_SCHEMA_VERSION
            then Inl (ValueError ''Unsupported timer schema'')
          else if \<not> valid_identity (dget_none d ''timer_id'')
            then Inl (ValueError ''Invalid timer identity'')
          else (case timer_state_of (dget_none d ''state'') of
            None \<Rightarrow> Inl (ValueError ''Invalid timer state'')
          | Some st \<Rightarrow>
              let remaining = dget_none d ''remaining_s''; cp = dget_none d ''checkpoint'';
                  armed = dget_none d ''action_armed''
              in ebind (timer_guards st remaining cp armed) (\<lambda>_.
                 ebind (wall (dget_none d ''started_wall_s'')) (\<lambda>started.
                 ebind (wall (dget_none d ''paused_wall_s'')) (\<lambda>paused.
                 ebind (wall (dget_none d ''projected_end_wall_s'')) (\<lambda>projected.
                   Inr \<lparr>timer_id = str_of (dget_none d ''timer_id''), tstate = st,
                     remaining_s = fin_num remaining,
                     checkpoint = (case parse_clock_stamp cp of
                        None \<Rightarrow> VNone | Some s \<Rightarrow> VDict (stamp_as_dict s)),
                     started_wall_s = started, paused_wall_s = paused,
                     projected_end_wall_s = projected, action_armed = (armed = VBool True)\<rparr>)))))
      | _ \<Rightarrow> Inl (ValueError ''Timer fields do not match current schema''))"

section \<open>Operations\<close>

definition remaining_seconds :: "timer_record \<Rightarrow> clock_stamp \<Rightarrow> rat option" where
  "remaining_seconds t now =
     (if tstate t = Stopped \<or> tstate t = Expired then Some 0
      else if tstate t \<noteq> Running then remaining_s t
      else case (parse_clock_stamp (checkpoint t), remaining_s t) of
        (Some cp, Some remaining) \<Rightarrow>
          (case age_at cp now of
             None \<Rightarrow> None
           | Some age \<Rightarrow> if \<not> in_dbl age then None else Some (max 0 (remaining - age)))
      | _ \<Rightarrow> None)"

definition start_timer :: "string \<Rightarrow> pyval \<Rightarrow> clock_stamp \<Rightarrow> timer_record result" where
  "start_timer fresh seconds now =
     (case fin_num seconds of
        None \<Rightarrow> Inl (ValueError ''Timer duration must be finite and nonnegative'')
      | Some s \<Rightarrow>
          if s < 0 \<or> \<not> in_dbl (observed_wall_s now + s)
            then Inl (ValueError ''Timer duration must be finite and nonnegative'')
          else if age_at now now = None
            then Inl (ValueError ''Timer requires a known current clock domain'')
          else Inr (default_timer\<lparr>timer_id := fresh, tstate := Running, remaining_s := Some s,
                      checkpoint := VDict (stamp_as_dict now),
                      started_wall_s := Some (observed_wall_s now),
                      projected_end_wall_s := Some (observed_wall_s now + s), action_armed := True\<rparr>))"

definition pause_timer :: "timer_record \<Rightarrow> clock_stamp \<Rightarrow> bool \<Rightarrow> timer_record" where
  "pause_timer t now interrupted =
     (if tstate t \<noteq> Running then t
      else
        let r = (if interrupted then remaining_s t else remaining_seconds t now);
            lost = (r = None)
        in t\<lparr>tstate := (if interrupted \<or> lost then Interrupted else Paused),
             remaining_s := (if lost then remaining_s t else r),
             checkpoint := VNone, paused_wall_s := Some (observed_wall_s now), action_armed := False\<rparr>)"

definition resume_timer :: "string \<Rightarrow> timer_record \<Rightarrow> clock_stamp \<Rightarrow> timer_record result" where
  "resume_timer fresh t now =
     (case remaining_s t of
        Some r \<Rightarrow>
          if tstate t = Paused \<or> tstate t = Interrupted then
            ebind (start_timer fresh (num r) now) (\<lambda>t'.
              Inr (t'\<lparr>timer_id := timer_id t, started_wall_s := started_wall_s t\<rparr>))
          else Inl (ValueError ''Resume requires a paused/interrupted timer with known remaining duration'')
      | None \<Rightarrow> Inl (ValueError ''Resume requires a paused/interrupted timer with known remaining duration''))"

definition expire_timer :: "timer_record \<Rightarrow> clock_stamp \<Rightarrow> timer_record \<times> bool" where
  "expire_timer t now =
     (if tstate t \<noteq> Running \<or> \<not> action_armed t \<or> remaining_seconds t now \<noteq> Some 0 then (t, False)
      else (t\<lparr>tstate := Expired, remaining_s := Some 0, checkpoint := VNone, action_armed := False\<rparr>, True))"

definition checkpoint_timer :: "timer_record \<Rightarrow> clock_stamp \<Rightarrow> timer_record" where
  "checkpoint_timer t now =
     (if tstate t = Running then
        (case remaining_seconds t now of
           None \<Rightarrow> pause_timer t now True
         | Some r \<Rightarrow> t\<lparr>remaining_s := Some r, checkpoint := VDict (stamp_as_dict now),
                        projected_end_wall_s := Some (observed_wall_s now + r)\<rparr>)
      else t)"

section \<open>Restoring after a restart\<close>

text \<open>The legacy epoch record: three wall coordinates that only label the timer.\<close>

definition restore_legacy :: "pydict \<Rightarrow> timer_record" where
  "restore_legacy d =
     (let start = dget_none d ''start''; paused = dget_none d ''paused''; finish = dget_none d ''end'' in
      if py_eq start (VInt 0) \<and> py_eq paused (VInt 0) \<and> py_eq finish (VInt 0) then default_timer
      else
        let t = default_timer\<lparr>tstate := Interrupted, remaining_s := None\<rparr> in
        (case (fin_num start, fin_num paused, fin_num finish) of
           (Some s, Some p, Some e) \<Rightarrow>
             let t1 = t\<lparr>started_wall_s := Some s, projected_end_wall_s := Some e\<rparr> in
             if 0 < p \<and> s \<le> p \<and> p \<le> e
               then t1\<lparr>remaining_s := Some (max 0 (e - p)), paused_wall_s := Some p\<rparr>
             else t1
         | _ \<Rightarrow> t))"

definition restore_timer :: "pyval \<Rightarrow> timer_record \<times> pydict option" where
  "restore_timer v =
     (case parse_timer v of
        Inl _ \<Rightarrow>
          (case v of
             VDict d \<Rightarrow>
               (if dget d ''schema_version'' = None then restore_legacy d
                else default_timer\<lparr>tstate := Interrupted, remaining_s := None\<rparr>, Some d)
           | _ \<Rightarrow> (default_timer\<lparr>tstate := Interrupted, remaining_s := None\<rparr>,
                    Some [(''invalid_timer'', v)]))
      | Inr t \<Rightarrow>
          (if tstate t = Running
             then t\<lparr>tstate := Interrupted, checkpoint := VNone, action_armed := False\<rparr> else t, None))"

section \<open>Projections\<close>

definition DURATION_STALE_AFTER_S :: rat where
  "DURATION_STALE_AFTER_S = 15"

record timer_payload =
  pl_timerId :: "string option"
  pl_state :: timer_state
  pl_remainingS :: "rat option"
  pl_current :: bool
  pl_startedWallS :: "rat option"
  pl_projectedEndWallS :: "rat option"
  pl_keepWarm :: bool
  pl_shutdown :: bool

definition project_timer_status ::
    "pyval \<Rightarrow> bool \<Rightarrow> bool \<Rightarrow> clock_stamp option \<Rightarrow> clock_stamp option \<Rightarrow> timer_payload" where
  "project_timer_status data keep_warm shutdown current heartbeat =
     (case parse_timer data of
        Inl _ \<Rightarrow> \<lparr>pl_timerId = None, pl_state = Interrupted, pl_remainingS = None, pl_current = False,
                  pl_startedWallS = None, pl_projectedEndWallS = None,
                  pl_keepWarm = keep_warm, pl_shutdown = shutdown\<rparr>
      | Inr t \<Rightarrow>
          let age = qualified_stamp_age_s (parse_clock_stamp (checkpoint t)) heartbeat current
                      DURATION_STALE_AFTER_S;
              fresh = (case age of None \<Rightarrow> False | Some a \<Rightarrow> a \<le> DURATION_STALE_AFTER_S);
              remaining =
                (case (age, remaining_s t) of
                   (Some a, Some r) \<Rightarrow> if tstate t = Running \<and> fresh then Some (max 0 (r - a)) else Some r
                 | _ \<Rightarrow> remaining_s t)
          in \<lparr>pl_timerId = Some (timer_id t), pl_state = tstate t, pl_remainingS = remaining,
              pl_current = fresh, pl_startedWallS = started_wall_s t,
              pl_projectedEndWallS = projected_end_wall_s t,
              pl_keepWarm = keep_warm, pl_shutdown = shutdown\<rparr>)"

definition duration :: "pyval \<Rightarrow> rat option" where
  "duration v = (case fin_num v of Some q \<Rightarrow> if 0 \<le> q then Some q else None | None \<Rightarrow> None)"

record duration_status =
  modeElapsedS :: "rat option"
  modeRemainingS :: "rat option"
  lidRemainingS :: "rat option"
  cookElapsedS :: "rat option"
  ds_current :: bool
  ds_running :: bool

definition project_duration_status ::
    "pydict \<Rightarrow> clock_stamp option \<Rightarrow> clock_stamp option \<Rightarrow> duration_status" where
  "project_duration_status status current heartbeat =
     (let age = qualified_stamp_age_s (parse_clock_stamp (dget_none status ''clock_stamp'')) heartbeat current
                  DURATION_STALE_AFTER_S;
          fresh = (case age of None \<Rightarrow> False | Some a \<Rightarrow> a \<le> DURATION_STALE_AFTER_S);
          running = (dget_none status ''running'' = VBool True);
          elapsed = (case age of Some a \<Rightarrow> if fresh \<and> running then a else 0 | None \<Rightarrow> 0);
          field = (\<lambda>k. duration (dget_none status k))
      in \<lparr>modeElapsedS = map_option (\<lambda>x. x + elapsed) (field ''elapsed_seconds''),
          modeRemainingS = map_option (\<lambda>x. max 0 (x - elapsed)) (field ''remaining_seconds''),
          lidRemainingS = map_option (\<lambda>x. max 0 (x - elapsed)) (field ''lid_open_remaining_seconds''),
          cookElapsedS = map_option (\<lambda>x. x + elapsed) (field ''cook_elapsed_seconds''),
          ds_current = fresh, ds_running = running\<rparr>)"

section \<open>The type invariant\<close>

definition opt_ok :: "(rat \<Rightarrow> bool) \<Rightarrow> rat option \<Rightarrow> bool" where
  "opt_ok p x = (case x of None \<Rightarrow> True | Some q \<Rightarrow> p q)"

lemma opt_ok_simps [simp]: "opt_ok p None" "opt_ok p (Some q) = p q"
  by (simp_all add: opt_ok_def)

text \<open>What every durable timer satisfies: exactly what \<open>parse_timer\<close> admits.\<close>

definition timer_ok :: "timer_record \<Rightarrow> bool" where
  "timer_ok t \<longleftrightarrow> canonical_uuid (timer_id t)
     \<and> opt_ok (\<lambda>q. 0 \<le> q \<and> in_dbl q) (remaining_s t)
     \<and> opt_ok in_dbl (started_wall_s t) \<and> opt_ok in_dbl (paused_wall_s t)
     \<and> opt_ok in_dbl (projected_end_wall_s t)
     \<and> (if tstate t = Running
        then action_armed t \<and> remaining_s t \<noteq> None
          \<and> (\<exists>s. stamp_ok s \<and> checkpoint t = VDict (stamp_as_dict s))
        else \<not> action_armed t \<and> checkpoint t = VNone)
     \<and> (tstate t = Stopped \<or> tstate t = Expired \<longrightarrow> remaining_s t = Some 0)"

lemma opt_ok_fin_num: "opt_ok in_dbl (fin_num v)"
  by (cases "fin_num v") (auto dest: fin_num_in_dbl)

lemma wall_InrD: "wall v = Inr x \<Longrightarrow> opt_ok in_dbl x"
  by (auto simp: wall_def intro: opt_ok_fin_num split: if_splits option.splits)

lemma wall_ok: "opt_ok in_dbl x \<Longrightarrow> wall (opt_num x) = Inr x"
  by (cases x) (auto simp: wall_def opt_num_def)

lemma timer_state_of_name [simp]: "timer_state_of (VStr (state_name st)) = Some st"
  by (cases st) (simp_all add: timer_state_of_def)

lemma timer_guards_InrD:
  assumes "timer_guards st rem cp armed = Inr u"
  shows "opt_ok (\<lambda>q. 0 \<le> q) (fin_num rem)" "armed = VBool True \<longleftrightarrow> st = Running"
    "st = Running \<Longrightarrow> parse_clock_stamp cp \<noteq> None \<and> fin_num rem \<noteq> None"
    "st \<noteq> Running \<Longrightarrow> cp = VNone" "st = Stopped \<or> st = Expired \<Longrightarrow> fin_num rem = Some 0"
  using assms by (auto simp: timer_guards_def split: if_splits option.splits)

lemma parse_timer_InrE:
  assumes "parse_timer v = Inr t"
  obtains d st u where "v = VDict d" "set (map fst d) = set timer_keys"
    "valid_identity (dget_none d ''timer_id'')" "timer_state_of (dget_none d ''state'') = Some st"
    "timer_guards st (dget_none d ''remaining_s'') (dget_none d ''checkpoint'')
       (dget_none d ''action_armed'') = Inr u"
    "timer_id t = str_of (dget_none d ''timer_id'')" "tstate t = st"
    "remaining_s t = fin_num (dget_none d ''remaining_s'')"
    "checkpoint t = (case parse_clock_stamp (dget_none d ''checkpoint'') of
       None \<Rightarrow> VNone | Some s \<Rightarrow> VDict (stamp_as_dict s))"
    "wall (dget_none d ''started_wall_s'') = Inr (started_wall_s t)"
    "wall (dget_none d ''paused_wall_s'') = Inr (paused_wall_s t)"
    "wall (dget_none d ''projected_end_wall_s'') = Inr (projected_end_wall_s t)"
    "action_armed t = (dget_none d ''action_armed'' = VBool True)"
  using assms unfolding parse_timer_def
  by (auto simp: Let_def ebind_Inr_iff split: pyval.splits if_splits option.splits)

lemma opt_ok_conj: "opt_ok p x \<Longrightarrow> opt_ok q x \<Longrightarrow> opt_ok (\<lambda>y. p y \<and> q y) x"
  by (cases x) auto

lemma valid_identityD: "valid_identity v \<Longrightarrow> canonical_uuid (str_of v)"
  by (cases v) auto

lemma parse_timer_ok: "parse_timer v = Inr t \<Longrightarrow> timer_ok t"
proof (erule parse_timer_InrE)
  fix d st u
  assume g: "timer_guards st (dget_none d ''remaining_s'') (dget_none d ''checkpoint'')
      (dget_none d ''action_armed'') = Inr u"
    and f: "valid_identity (dget_none d ''timer_id'')"
      "timer_id t = str_of (dget_none d ''timer_id'')" "tstate t = st"
      "remaining_s t = fin_num (dget_none d ''remaining_s'')"
      "checkpoint t = (case parse_clock_stamp (dget_none d ''checkpoint'') of
         None \<Rightarrow> VNone | Some s \<Rightarrow> VDict (stamp_as_dict s))"
      "wall (dget_none d ''started_wall_s'') = Inr (started_wall_s t)"
      "wall (dget_none d ''paused_wall_s'') = Inr (paused_wall_s t)"
      "wall (dget_none d ''projected_end_wall_s'') = Inr (projected_end_wall_s t)"
      "action_armed t = (dget_none d ''action_armed'' = VBool True)"
  note G = timer_guards_InrD [OF g]
  have cp: "st = Running \<Longrightarrow> \<exists>s. stamp_ok s \<and> checkpoint t = VDict (stamp_as_dict s)"
    using G(3) f(5) by (auto dest: parse_clock_stamp_ok)
  have ncp: "st \<noteq> Running \<Longrightarrow> checkpoint t = VNone"
    using G(4) f(5) by simp
  show "timer_ok t"
    unfolding timer_ok_def f
    using valid_identityD [OF f(1)] opt_ok_conj [OF G(1) opt_ok_fin_num] G(2,3,5) cp ncp
      f(6-8) [THEN wall_InrD] f(5) by auto
qed

lemma timer_dict_get [simp]:
  "dget_none (timer_dict t) ''schema_version'' = VInt TIMER_SCHEMA_VERSION"
  "dget_none (timer_dict t) ''timer_id'' = VStr (timer_id t)"
  "dget_none (timer_dict t) ''state'' = VStr (state_name (tstate t))"
  "dget_none (timer_dict t) ''remaining_s'' = opt_num (remaining_s t)"
  "dget_none (timer_dict t) ''checkpoint'' = checkpoint t"
  "dget_none (timer_dict t) ''started_wall_s'' = opt_num (started_wall_s t)"
  "dget_none (timer_dict t) ''paused_wall_s'' = opt_num (paused_wall_s t)"
  "dget_none (timer_dict t) ''projected_end_wall_s'' = opt_num (projected_end_wall_s t)"
  "dget_none (timer_dict t) ''action_armed'' = VBool (action_armed t)"
  by (simp_all add: timer_dict_def dget_none_def)

lemma timer_dict_keys [simp]: "fst ` set (timer_dict t) = set timer_keys"
  by (auto simp: timer_dict_def timer_keys_def)

lemma fin_num_remaining: "timer_ok t \<Longrightarrow> fin_num (opt_num (remaining_s t)) = remaining_s t"
  by (cases "remaining_s t") (auto simp: timer_ok_def opt_num_def)
lemma opt_num_VNone [simp]: "opt_num x = VNone \<longleftrightarrow> x = None" "VNone = opt_num x \<longleftrightarrow> x = None"
  by (auto simp: opt_num_def split: option.splits)
lemma timer_guards_ok:
  assumes "timer_ok t"
  shows "timer_guards (tstate t) (opt_num (remaining_s t)) (checkpoint t) (VBool (action_armed t)) = Inr ()"
proof (cases "tstate t = Running")
  case True
  then obtain s r where "action_armed t" "remaining_s t = Some r" "stamp_ok s"
    "checkpoint t = VDict (stamp_as_dict s)" "0 \<le> r"
    using assms by (auto simp: timer_ok_def)
  with True fin_num_remaining [OF assms] show ?thesis
    by (simp add: timer_guards_def)
next
  case False
  with assms have "\<not> action_armed t" "checkpoint t = VNone" "opt_ok (\<lambda>q. 0 \<le> q \<and> in_dbl q) (remaining_s t)"
    "tstate t = Stopped \<or> tstate t = Expired \<longrightarrow> remaining_s t = Some 0"
    by (auto simp: timer_ok_def)
  with False fin_num_remaining [OF assms] show ?thesis
    by (cases "remaining_s t") (auto simp: timer_guards_def)
qed
lemma timer_checkpoint_ok:
  "timer_ok t \<Longrightarrow> (case parse_clock_stamp (checkpoint t) of
     None \<Rightarrow> VNone | Some s \<Rightarrow> VDict (stamp_as_dict s)) = checkpoint t"
  by (auto simp: timer_ok_def split: if_splits)



lemma timer_ok_walls:
  "timer_ok t \<Longrightarrow> wall (opt_num (started_wall_s t)) = Inr (started_wall_s t)"
  "timer_ok t \<Longrightarrow> wall (opt_num (paused_wall_s t)) = Inr (paused_wall_s t)"
  "timer_ok t \<Longrightarrow> wall (opt_num (projected_end_wall_s t)) = Inr (projected_end_wall_s t)"
  by (simp_all add: timer_ok_def wall_ok)

lemma timer_ok_identity: "timer_ok t \<Longrightarrow> canonical_uuid (timer_id t)"
  by (simp add: timer_ok_def)


lemma timer_roundtrip:
  assumes "timer_ok t"
  shows "parse_timer (timer_value t) = Inr t"
proof -
  have keys: "set (map fst (timer_dict t)) = set timer_keys" by simp
  show ?thesis
    unfolding parse_timer_def timer_value_def pyval.case timer_dict_get keys Let_def timer_state_of_name
    using timer_ok_identity [OF assms]
    by (simp add: timer_guards_ok [OF assms] timer_ok_walls [OF assms] timer_checkpoint_ok [OF assms]
        fin_num_remaining [OF assms])
qed

section \<open>Operations keep the invariant\<close>

lemma timer_ok_default: "canonical_uuid nil_uuid \<Longrightarrow> timer_ok default_timer"
  by (simp add: timer_ok_def default_timer_def)

lemma canonical_nil_uuid [simp]: "canonical_uuid nil_uuid"
  by code_simp

lemma timer_ok_default_timer [simp]: "timer_ok default_timer"
  by (simp add: timer_ok_default)

lemma start_timer_InrE:
  assumes "start_timer fresh secs now = Inr t"
  obtains q where "fin_num secs = Some q" "0 \<le> q" "in_dbl (observed_wall_s now + q)" "domain_known now"
    "t = default_timer\<lparr>timer_id := fresh, tstate := Running, remaining_s := Some q,
           checkpoint := VDict (stamp_as_dict now), started_wall_s := Some (observed_wall_s now),
           projected_end_wall_s := Some (observed_wall_s now + q), action_armed := True\<rparr>"
    | "\<not> stamp_ok now"
  using assms age_at_self [of now]
  by (cases "stamp_ok now") (auto simp: start_timer_def split: option.splits if_splits)

lemma start_timer_ok:
  "start_timer fresh secs now = Inr t \<Longrightarrow> stamp_ok now \<Longrightarrow> canonical_uuid fresh \<Longrightarrow> timer_ok t"
  by (erule start_timer_InrE) (auto simp: timer_ok_def default_timer_def stamp_ok_def dest: fin_num_in_dbl)

lemma remaining_seconds_bounds:
  "timer_ok t \<Longrightarrow> remaining_seconds t now = Some r \<Longrightarrow> 0 \<le> r \<and> in_dbl r
     \<and> (\<exists>q. remaining_s t = Some q \<and> r \<le> q)"
  by (cases "remaining_s t")
    (auto simp: remaining_seconds_def timer_ok_def in_dbl_def abs_less_iff age_at_def
      dest: stamp_age_SomeD split: if_splits option.splits)

lemma timer_ok_stopped_clock:
  assumes "timer_ok t" "stamp_ok now" "opt_ok (\<lambda>q. 0 \<le> q \<and> in_dbl q) r" "st = Paused \<or> st = Interrupted"
  shows "timer_ok (t\<lparr>tstate := st, remaining_s := r, checkpoint := VNone,
           paused_wall_s := Some (observed_wall_s now), action_armed := False\<rparr>)"
  using assms by (auto simp: timer_ok_def stamp_ok_def)

lemma timer_ok_remaining: "timer_ok t \<Longrightarrow> opt_ok (\<lambda>q. 0 \<le> q \<and> in_dbl q) (remaining_s t)"
  by (simp add: timer_ok_def)

lemma timer_ok_interrupted_clock:
  "timer_ok t \<Longrightarrow> stamp_ok now \<Longrightarrow> timer_ok (t\<lparr>tstate := Interrupted, checkpoint := VNone,
           paused_wall_s := Some (observed_wall_s now), action_armed := False\<rparr>)"
  using timer_ok_stopped_clock [of t now "remaining_s t" Interrupted] timer_ok_remaining [of t] by simp

lemma pause_timer_ok:
  assumes "timer_ok t" "stamp_ok now"
  shows "timer_ok (pause_timer t now i)"
proof -
  have "opt_ok (\<lambda>q. 0 \<le> q \<and> in_dbl q) (remaining_seconds t now)"
    using remaining_seconds_bounds [OF assms(1), of now] by (cases "remaining_seconds t now") auto
  with timer_ok_remaining [OF assms(1)] show ?thesis
    unfolding pause_timer_def Let_def
    using assms by (auto intro!: timer_ok_stopped_clock timer_ok_interrupted_clock)
qed

lemma resume_timer_ok:
  "resume_timer fresh t now = Inr t' \<Longrightarrow> timer_ok t \<Longrightarrow> stamp_ok now \<Longrightarrow> canonical_uuid fresh \<Longrightarrow> timer_ok t'"
  by (auto simp: resume_timer_def ebind_Inr_iff timer_ok_def dest!: start_timer_ok split: option.splits if_splits)

lemma expire_timer_ok: "timer_ok t \<Longrightarrow> timer_ok (fst (expire_timer t now))"
  by (auto simp: expire_timer_def timer_ok_def)

lemma checkpoint_timer_ok:
  assumes "timer_ok t" "stamp_ok now" "opt_ok (\<lambda>r. in_dbl (observed_wall_s now + r)) (remaining_seconds t now)"
  shows "timer_ok (checkpoint_timer t now)"
proof (cases "tstate t = Running \<and> remaining_seconds t now \<noteq> None")
  case True
  then obtain r where r: "remaining_seconds t now = Some r" by auto
  with True assms remaining_seconds_bounds [OF assms(1) r] show ?thesis
    by (auto simp: checkpoint_timer_def timer_ok_def)
next
  case False
  with assms pause_timer_ok [OF assms(1,2), of True] show ?thesis
    by (auto simp: checkpoint_timer_def)
qed

lemma restore_legacy_unarmed: "\<not> action_armed (restore_legacy d) \<and> tstate (restore_legacy d) \<noteq> Running"
  by (auto simp: restore_legacy_def Let_def default_timer_def split: option.splits)

lemma in_dbl_diff_nonneg: "in_dbl a \<Longrightarrow> in_dbl b \<Longrightarrow> 0 \<le> b \<Longrightarrow> b \<le> a \<Longrightarrow> in_dbl (a - b)"
  by (auto simp: in_dbl_def abs_less_iff)

lemma restore_legacy_ok: "timer_ok (restore_legacy d)"
  by (auto simp: restore_legacy_def Let_def timer_ok_def default_timer_def
      dest: fin_num_in_dbl intro!: in_dbl_diff_nonneg split: option.splits)

lemma timer_ok_interrupted:
  "timer_ok t \<Longrightarrow> tstate t = Running \<Longrightarrow>
     timer_ok (t\<lparr>tstate := Interrupted, checkpoint := VNone, action_armed := False\<rparr>)"
  by (simp add: timer_ok_def)

lemma timer_ok_unknown: "timer_ok (default_timer\<lparr>tstate := Interrupted, remaining_s := None\<rparr>)"
  by (simp add: timer_ok_def default_timer_def)

lemma restore_timer_ok: "timer_ok (fst (restore_timer v))"
proof (cases "parse_timer v")
  case (Inl e)
  then show ?thesis
    by (cases v) (simp_all add: restore_timer_def timer_ok_unknown restore_legacy_ok)
next
  case (Inr t)
  with parse_timer_ok [OF Inr] timer_ok_interrupted [of t] show ?thesis
    by (simp add: restore_timer_def)
qed

lemma restore_timer_valid: "timer_ok t \<Longrightarrow> restore_timer (timer_value t) =
    (if tstate t = Running
       then t\<lparr>tstate := Interrupted, checkpoint := VNone, action_armed := False\<rparr> else t, None)"
  by (simp add: restore_timer_def timer_roundtrip)

lemma parse_timer_unarmed: "timer_ok t \<Longrightarrow> tstate t \<noteq> Running \<Longrightarrow> \<not> action_armed t"
  by (simp add: timer_ok_def)

lemma restore_timer_unarmed: "\<not> action_armed (fst (restore_timer v)) \<and> tstate (fst (restore_timer v)) \<noteq> Running"
proof (cases "parse_timer v")
  case (Inl e)
  then show ?thesis
    using restore_legacy_unarmed by (cases v) (simp_all add: restore_timer_def default_timer_def)
next
  case (Inr t)
  then show ?thesis
    using parse_timer_unarmed [OF parse_timer_ok [OF Inr]] by (simp add: restore_timer_def)
qed


section \<open>Runs\<close>

text \<open>
  What can happen to the stored timer: the operations of the drain and of the control loop, and a
  restart of the process, which restores the stored value. A rejected command leaves it unchanged.
\<close>

datatype timer_event =
    EStart string pyval clock_stamp
  | EPause clock_stamp bool
  | EResume string clock_stamp
  | EExpire clock_stamp
  | ECheckpoint clock_stamp
  | ERestart

fun timer_step :: "timer_record \<Rightarrow> timer_event \<Rightarrow> timer_record \<times> bool" where
  "timer_step t (EStart fresh secs now) =
     (case start_timer fresh secs now of Inl _ \<Rightarrow> (t, False) | Inr t' \<Rightarrow> (t', False))"
| "timer_step t (EPause now i) = (pause_timer t now i, False)"
| "timer_step t (EResume fresh now) =
     (case resume_timer fresh t now of Inl _ \<Rightarrow> (t, False) | Inr t' \<Rightarrow> (t', False))"
| "timer_step t (EExpire now) = expire_timer t now"
| "timer_step t (ECheckpoint now) = (checkpoint_timer t now, False)"
| "timer_step t ERestart = (fst (restore_timer (timer_value t)), False)"

text \<open>The run of a list of events: the final timer and how often the expiry action fired.\<close>

fun timer_run :: "timer_record \<Rightarrow> timer_event list \<Rightarrow> timer_record \<times> nat" where
  "timer_run t [] = (t, 0)"
| "timer_run t (e # es) =
     (let (t1, fired) = timer_step t e; (t2, n) = timer_run t1 es in (t2, n + of_bool fired))"

fun arms :: "timer_event \<Rightarrow> bool" where
  "arms (EStart _ _ _) = True"
| "arms (EResume _ _) = True"
| "arms _ = False"

text \<open>Only a start or a resume arms the expiry action.\<close>

lemma timer_step_armed:
  "timer_step t e = (t', fired) \<Longrightarrow>
     of_bool fired + of_bool (action_armed t') \<le> (of_bool (action_armed t) + of_bool (arms e) :: nat)"
  using restore_legacy_unarmed
  by (cases e)
    (auto simp: expire_timer_def pause_timer_def checkpoint_timer_def restore_timer_def timer_value_def
      default_timer_def Let_def split: sum.splits option.splits if_splits dest: parse_timer_ok parse_timer_unarmed)

lemma timer_run_armed:
  "timer_run t es = (t', n) \<Longrightarrow>
     n + of_bool (action_armed t') \<le> of_bool (action_armed t) + length (List.filter arms es)"
proof (induction es arbitrary: t n)
  case Nil
  then show ?case by simp
next
  case (Cons e es)
  obtain t1 fired where s: "timer_step t e = (t1, fired)" by force
  obtain t2 m where r: "timer_run t1 es = (t2, m)" by force
  from Cons.prems s r have "t2 = t'" "n = m + of_bool fired" by simp_all
  with Cons.IH [of t1 m] r timer_step_armed [OF s] show ?case by (auto simp: of_bool_def split: if_splits)
qed

text \<open>C34: The expiry action of the cook timer fires at most once for every start or resume command,
  whatever sequence of commands, checkpoints, expiry checks and restarts the stored timer goes through.\<close>

theorem timer_expiry_once:
  "snd (timer_run default_timer es) \<le> length (List.filter arms es)"
  using timer_run_armed [of default_timer es "fst (timer_run default_timer es)" "snd (timer_run default_timer es)"]
  by (simp add: default_timer_def)


text \<open>Whatever is stored, a restart never restores a running or armed timer: the restored record is
  well formed, disarmed and not running, and a well-formed stored timer keeps its remaining seconds.\<close>

theorem restore_never_arms:
  "timer_ok (fst (restore_timer v)) \<and> \<not> action_armed (fst (restore_timer v))
     \<and> tstate (fst (restore_timer v)) \<noteq> Running
     \<and> (case parse_timer v of Inr t \<Rightarrow> remaining_s (fst (restore_timer v)) = remaining_s t | Inl _ \<Rightarrow> True)"
proof -
  show ?thesis
    using restore_timer_ok [of v] restore_timer_unarmed [of v] by (simp add: restore_timer_def split: sum.split)
qed

text \<open>A concrete control process for the witnesses: its identities and a stamp at a given second.\<close>

definition demo_uuid :: string where
  "demo_uuid = ''00000000-0000-0000-0000-000000000001''"

definition demo_stamp :: "rat \<Rightarrow> clock_stamp" where
  "demo_stamp s = \<lparr>schema_version = 1, boot_id = Some demo_uuid, runtime_id = demo_uuid,
     observed_monotonic_s = s, observed_wall_s = s + 1000, suspend_offset_s = Some 0\<rparr>"

lemma canonical_demo_uuid [simp]: "canonical_uuid demo_uuid"
  by code_simp

lemma demo_coordinates: "0 \<le> s \<Longrightarrow> s \<le> 1000 \<Longrightarrow> in_dbl s" "0 \<le> s \<Longrightarrow> s \<le> 1000 \<Longrightarrow> in_dbl (s + 1000)"
  by (rule in_dbl_small, simp)+

lemma demo_stamp_ok: "0 \<le> s \<Longrightarrow> s \<le> 1000 \<Longrightarrow> stamp_ok (demo_stamp s)"
  by (simp add: stamp_ok_def demo_stamp_def CLOCK_STAMP_SCHEMA_def demo_coordinates)

lemma age_at_demo: "0 \<le> s \<Longrightarrow> s \<le> u \<Longrightarrow> u \<le> 1000 \<Longrightarrow> age_at (demo_stamp s) (demo_stamp u) = Some (u - s)"
  by (auto simp: age_at_def stamp_age_s_def demo_stamp_def demo_uuid_def CONTROL_DISCONTINUITY_SECONDS_def
      Let_def in_dbl_small)

lemma remaining_after_start:
  "stamp_ok now \<Longrightarrow> remaining_seconds (t\<lparr>tstate := Running, remaining_s := Some q,
      checkpoint := VDict (stamp_as_dict now)\<rparr>) later
     = (case age_at now later of None \<Rightarrow> None | Some a \<Rightarrow> if in_dbl a then Some (max 0 (q - a)) else None)"
  by (simp add: remaining_seconds_def split: option.split)

text \<open>Pausing freezes the countdown and resuming continues it: however long the pause lasts, a timer
  paused with \<open>r\<close> seconds left shows, \<open>a\<close> seconds after it was resumed, \<open>r - a\<close> seconds (never below
  zero). No second of the pause is counted.\<close>

theorem pause_freezes_countdown:
  assumes "stamp_ok n2" and "tstate t = Running" and "remaining_seconds t n1 = Some r"
    and "resume_timer fresh (pause_timer t n1 False) n2 = Inr t2"
    and "age_at n2 n3 = Some a" and "in_dbl a"
  shows "remaining_seconds (pause_timer t n1 False) n2 = Some r \<and> remaining_seconds t2 n3 = Some (max 0 (r - a))
     \<and> timer_id t2 = timer_id t"
proof -
  have p: "tstate (pause_timer t n1 False) = Paused" "remaining_s (pause_timer t n1 False) = Some r"
    "timer_id (pause_timer t n1 False) = timer_id t"
    using assms(2,3) by (simp_all add: pause_timer_def)
  from assms(4) p obtain u where u: "start_timer fresh (num r) n2 = Inr u"
    "t2 = u\<lparr>timer_id := timer_id t, started_wall_s := started_wall_s (pause_timer t n1 False)\<rparr>"
    by (auto simp: resume_timer_def ebind_Inr_iff)
  have "tstate t2 = Running" "remaining_s t2 = Some r" "checkpoint t2 = VDict (stamp_as_dict n2)"
    using u by (auto simp: start_timer_def split: if_splits)
  with assms(1,5,6) p u(2) show ?thesis
    by (simp add: remaining_seconds_def)
qed

lemma pause_freezes_countdown_witness:
  "\<exists>t t2. start_timer demo_uuid (VInt 60) (demo_stamp 0) = Inr t \<and>
     resume_timer demo_uuid (pause_timer t (demo_stamp 20) False) (demo_stamp 500) = Inr t2 \<and>
     remaining_seconds t2 (demo_stamp 510) = Some 30"
proof -
  define t where "t = default_timer\<lparr>timer_id := demo_uuid, tstate := Running, remaining_s := Some 60,
      checkpoint := VDict (stamp_as_dict (demo_stamp 0)), started_wall_s := Some 1000,
      projected_end_wall_s := Some 1060, action_armed := True\<rparr>"
  have t: "start_timer demo_uuid (VInt 60) (demo_stamp 0) = Inr t"
    by (simp add: start_timer_def in_dbl_small age_at_demo t_def) (simp add: demo_stamp_def in_dbl_small)
  have r: "remaining_seconds t (demo_stamp 20) = Some 40"
    by (simp add: remaining_seconds_def t_def demo_stamp_ok age_at_demo in_dbl_small)
  have "\<exists>t2. resume_timer demo_uuid (pause_timer t (demo_stamp 20) False) (demo_stamp 500) = Inr t2"
    using r by (simp add: resume_timer_def pause_timer_def t_def start_timer_def in_dbl_small age_at_demo)
      (simp add: demo_stamp_def in_dbl_small)
  then obtain t2 where t2: "resume_timer demo_uuid (pause_timer t (demo_stamp 20) False) (demo_stamp 500) = Inr t2"
    by blast
  from pause_freezes_countdown [OF _ _ r t2, of "demo_stamp 510" 10]
  have "remaining_seconds t2 (demo_stamp 510) = Some 30"
    by (simp add: demo_stamp_ok age_at_demo in_dbl_small) (simp add: t_def)
  with t t2 show ?thesis by blast
qed

text \<open>A checkpoint is invisible: storing the countdown at \<open>n1\<close> and reading it at \<open>n2\<close> shows what the
  running timer would have shown at \<open>n2\<close> without the checkpoint, so the periodic checkpoints of the
  control loop neither lose nor add a second.\<close>

theorem checkpoint_transparent:
  assumes "timer_ok t" and "stamp_ok n1" and "tstate t = Running"
    and "remaining_seconds t n1 \<noteq> None" and "remaining_seconds t n2 \<noteq> None" and "age_at n1 n2 = Some y"
  shows "remaining_seconds (checkpoint_timer t n1) n2 = remaining_seconds t n2"
proof -
  obtain cp r where cp: "parse_clock_stamp (checkpoint t) = Some cp" "remaining_s t = Some r"
    using assms(1,3) by (auto simp: timer_ok_def)
  obtain x where x: "age_at cp n1 = Some x" "in_dbl x" "remaining_seconds t n1 = Some (max 0 (r - x))"
    using assms(3,4) cp by (auto simp: remaining_seconds_def split: option.splits if_splits)
  obtain z where z: "age_at cp n2 = Some z" "in_dbl z" "remaining_seconds t n2 = Some (max 0 (r - z))"
    using assms(3,5) cp by (auto simp: remaining_seconds_def split: option.splits if_splits)
  have "z = x + y" using age_at_trans [OF x(1) assms(6)] z(1) by simp
  moreover have "0 \<le> x" "0 \<le> y" using age_atD [OF x(1)] age_atD [OF assms(6)] by simp_all
  moreover from calculation z(2) have "in_dbl y" by (auto simp: in_dbl_def abs_less_iff)
  ultimately show ?thesis
    using assms(2,3,6) x(3) z(3) by (simp add: checkpoint_timer_def remaining_seconds_def)
qed

lemma checkpoint_transparent_witness:
  "\<exists>t. start_timer demo_uuid (VInt 60) (demo_stamp 0) = Inr t \<and>
     remaining_seconds (checkpoint_timer t (demo_stamp 20)) (demo_stamp 45) = Some 15"
proof -
  define t where "t = default_timer\<lparr>timer_id := demo_uuid, tstate := Running, remaining_s := Some 60,
      checkpoint := VDict (stamp_as_dict (demo_stamp 0)), started_wall_s := Some 1000,
      projected_end_wall_s := Some 1060, action_armed := True\<rparr>"
  have t: "start_timer demo_uuid (VInt 60) (demo_stamp 0) = Inr t"
    by (simp add: start_timer_def in_dbl_small age_at_demo t_def) (simp add: demo_stamp_def in_dbl_small)
  have ok: "timer_ok t"
    by (rule start_timer_ok [OF t]) (simp_all add: demo_stamp_ok)
  have r: "remaining_seconds t (demo_stamp 20) = Some 40" "remaining_seconds t (demo_stamp 45) = Some 15"
    by (simp_all add: remaining_seconds_def t_def demo_stamp_ok age_at_demo in_dbl_small)
  have "tstate t = Running" by (simp add: t_def)
  with checkpoint_transparent [OF ok, of "demo_stamp 20" "demo_stamp 45" 25] r t show ?thesis
    by (simp add: demo_stamp_ok age_at_demo)
qed

text \<open>Every timer operation keeps the type invariant: from a well-formed timer, pausing, resuming,
  starting, expiring and checkpointing at an admitted stamp give well-formed timers (the resumed and
  the started one when the operation is accepted).\<close>

theorem timer_operations_keep_invariant:
  assumes "timer_ok t" and "stamp_ok now" and "canonical_uuid fresh"
    and "opt_ok (\<lambda>r. in_dbl (observed_wall_s now + r)) (remaining_seconds t now)"
  shows "timer_ok (pause_timer t now i) \<and> timer_ok (fst (expire_timer t now)) \<and> timer_ok (checkpoint_timer t now)
     \<and> (case resume_timer fresh t now of Inr t' \<Rightarrow> timer_ok t' | Inl _ \<Rightarrow> True)
     \<and> (case start_timer fresh secs now of Inr t' \<Rightarrow> timer_ok t' | Inl _ \<Rightarrow> True)"
  using assms pause_timer_ok expire_timer_ok checkpoint_timer_ok
  by (auto dest: resume_timer_ok start_timer_ok split: sum.split)

lemma timer_operations_keep_invariant_witness:
  "timer_ok (pause_timer default_timer (demo_stamp 5) False) \<and> timer_ok (checkpoint_timer default_timer (demo_stamp 5))"
proof -
  have "opt_ok (\<lambda>r. in_dbl (observed_wall_s (demo_stamp 5) + r)) (remaining_seconds default_timer (demo_stamp 5))"
    by (simp add: remaining_seconds_def default_timer_def demo_stamp_def in_dbl_small)
  from timer_operations_keep_invariant [OF timer_ok_default_timer demo_stamp_ok canonical_demo_uuid this]
  show ?thesis by simp
qed


end
