(* ===== verification/Control_Delta.thy ===== *)
theory Control_Delta
  imports Cook_Timer
begin

text \<open>
  \<open>common/control_delta.py\<close>: the versioned envelope that states a writer's intent, its validation and
  its application to the live control dictionary. Control, envelopes and operations are the JSON
  dictionaries they are in the code (\<open>pydict\<close>). An operation that raises is \<open>Inl\<close>: the half-updated
  dictionary is then unreachable, because the caller (\<open>Control_Store\<close>) discards it. The identities the
  timer operations draw from \<open>uuid4\<close> come from the argument \<open>ids\<close>, one per operation. Logging is not
  modelled.
\<close>

section \<open>The wire format\<close>

definition CONTROL_DELTA_KEY :: string where
  "CONTROL_DELTA_KEY = ''__control_delta__''"

definition CONTROL_DELTA_VERSION :: int where
  "CONTROL_DELTA_VERSION = 2"

definition allowed_members :: "string list" where
  "allowed_members = [CONTROL_DELTA_KEY, ''origin'', ''set'', ''delete'', ''ops'']"

definition set_forbidden :: "string list" where
  "set_forbidden = [''timer'', ''notify_data'', ''cook_id'']"

definition calibration_actions :: "string list" where
  "calibration_actions = [''start'', ''pause'', ''resume'', ''stop'', ''reset-progress'']"

definition ambient_sources :: "string list" where
  "ambient_sources = [''measured'', ''manual'', ''weather'', ''configured'']"

definition op_fields :: "(string \<times> string list) list" where
  "op_fields =
     [(''timer.clear'', [''requested_wall_s'', ''target_runtime_id'']),
      (''timer.pause'', [''requested_wall_s'', ''target_runtime_id'']),
      (''timer.start_or_resume'', [''requested_wall_s'', ''target_runtime_id'', ''seconds'']),
      (''timer.start_with_options'',
         [''requested_wall_s'', ''target_runtime_id'', ''seconds'', ''shutdown'', ''keep_warm'']),
      (''notify.set'', [''label'', ''type'', ''fields'']),
      (''notify.delete'', [''label'', ''type'']),
      (''notify.replace'', [''entries'']),
      (''mpc_calibration.set'', [''command'']),
      (''hold.set_setpoint'', [''setpoint''])]"

text \<open>
  Membership in a \<open>frozenset\<close> or \<open>dict\<close> of strings: an unhashable value raises \<open>TypeError\<close>.
\<close>

definition in_names :: "pyval \<Rightarrow> string list \<Rightarrow> bool result" where
  "in_names v names =
     (if \<not> hashable v then Inl (TypeError ''unhashable'')
      else Inr (case v of VStr s \<Rightarrow> s \<in> set names | _ \<Rightarrow> False))"

section \<open>Calibration commands\<close>

definition calibration_fields :: "string list" where
  "calibration_fields = [''action'', ''revision'', ''ambient_c'', ''ambient_source'',
     ''empty_grill_confirmed'', ''pellets_confirmed'']"

definition validated_mpc_calibration_command :: "pyval \<Rightarrow> pydict result" where
  "validated_mpc_calibration_command v =
     (case v of
        VDict d \<Rightarrow>
          if set (map fst d) \<noteq> set calibration_fields
            then Inl (ControlDeltaError ''MPC calibration command has invalid fields'')
          else
            let action = dget_none d ''action''; revision = dget_none d ''revision'';
                ambient = dget_none d ''ambient_c''; source = dget_none d ''ambient_source'' in
            ebind (in_names action calibration_actions) (\<lambda>known.
            ebind (check known (ControlDeltaError ''MPC calibration action is not recognized'')) (\<lambda>_.
            ebind (check (case revision of VInt n \<Rightarrow> 1 \<le> n | _ \<Rightarrow> False)
                     (ControlDeltaError ''MPC calibration revision must be a positive integer'')) (\<lambda>_.
            ebind (finite_or (ControlDeltaError ''MPC calibration ambient temperature must be finite Celsius'')
                     ambient) (\<lambda>celsius.
            ebind (in_names source ambient_sources) (\<lambda>sourced.
            ebind (check sourced (ControlDeltaError ''MPC calibration ambient source is not recognized'')) (\<lambda>_.
            ebind (check (dget_none d ''empty_grill_confirmed'' = VBool True
                          \<and> dget_none d ''pellets_confirmed'' = VBool True)
                     (ControlDeltaError ''MPC calibration requires empty-grill and pellet confirmations'')) (\<lambda>_.
              Inr [(''action'', action), (''revision'', revision), (''ambient_c'', num celsius),
                   (''ambient_source'', source), (''empty_grill_confirmed'', VBool True),
                   (''pellets_confirmed'', VBool True)])))))))
      | _ \<Rightarrow> Inl (ControlDeltaError ''MPC calibration command must be an object''))"

section \<open>Validation\<close>

definition validate_set :: "pyval \<Rightarrow> unit result" where
  "validate_set v =
     (case v of
        VNone \<Rightarrow> Inr ()
      | VDict d \<Rightarrow> check (set (map fst d) \<inter> set set_forbidden = {}) (ControlDeltaError ''set may not carry'')
      | _ \<Rightarrow> Inl (ControlDeltaError ''set must be a mapping''))"

definition validate_delete_path :: "pyval \<Rightarrow> unit result" where
  "validate_delete_path path =
     (case path of
        VList ks \<Rightarrow>
          if ks = [] \<or> \<not> list_all is_str ks
            then Inl (ControlDeltaError ''delete path must be a non-empty list of strings'')
          else check (hd ks \<noteq> VStr ''cook_id'')
                 (ControlDeltaError ''delete may not carry cook_id: cook identity is runtime-owned'')
      | _ \<Rightarrow> Inl (ControlDeltaError ''delete path must be a non-empty list of strings''))"

definition validate_delete :: "pyval \<Rightarrow> unit result" where
  "validate_delete v =
     (case v of
        VNone \<Rightarrow> Inr ()
      | VList paths \<Rightarrow> efold (\<lambda>_. validate_delete_path) () paths
      | _ \<Rightarrow> Inl (ControlDeltaError ''delete must be a list''))"

text \<open>The shape of one operation: a known name, exactly its fields.\<close>

definition validate_op_shape :: "pyval \<Rightarrow> unit result" where
  "validate_op_shape op =
     (case op of
        VDict d \<Rightarrow>
          (case dget d ''op'' of
             None \<Rightarrow> Inl (ControlDeltaError ''each op must be a mapping with an op key'')
           | Some name \<Rightarrow>
               ebind (in_names name (map fst op_fields)) (\<lambda>known.
                 if \<not> known then Inl (ControlDeltaError ''unknown op'')
                 else
                   let fs = the (map_of op_fields (str_of name)) in
                   if \<not> set fs \<subseteq> set (map fst d) then Inl (ControlDeltaError ''op is missing field(s)'')
                   else check (set (map fst d) - {''op''} - set fs = {})
                          (ControlDeltaError ''op has unknown field(s)'')))
      | _ \<Rightarrow> Inl (ControlDeltaError ''each op must be a mapping with an op key''))"

definition is_timer_op :: "pydict \<Rightarrow> bool" where
  "is_timer_op d = prefix ''timer.'' (str_of (dget_none d ''op''))"

definition valid_target :: "pyval \<Rightarrow> bool" where
  \<comment> \<open>\<open>UUID(v)\<close> returns\<close>
  "valid_target v = (case v of VStr s \<Rightarrow> uuid_parse s \<noteq> None | _ \<Rightarrow> False)"

definition validate_timer_op :: "pydict \<Rightarrow> unit result" where
  "validate_timer_op d =
     ebind (finite_or (ControlDeltaError ''Timer request wall provenance must be finite'')
              (dget_none d ''requested_wall_s'')) (\<lambda>_.
     ebind (check (valid_target (dget_none d ''target_runtime_id''))
              (ControlDeltaError ''Timer command requires a target runtime identity'')) (\<lambda>_.
     ebind (if dget_none d ''seconds'' = VNone then Inr ()
            else
              ebind (finite_or (ControlDeltaError ''Timer duration must be finite and nonnegative'')
                       (dget_none d ''seconds'')) (\<lambda>s.
                check (0 \<le> s) (ControlDeltaError ''Timer duration must be finite and nonnegative''))) (\<lambda>_.
       check (dget_none d ''op'' = VStr ''timer.start_with_options'' \<longrightarrow>
                is_bool (dget_none d ''shutdown'') \<and> is_bool (dget_none d ''keep_warm''))
         (ControlDeltaError ''Timer options must be booleans''))))"

definition validate_op_types :: "pyval \<Rightarrow> unit result" where
  "validate_op_types op =
     (case op of
        VDict d \<Rightarrow>
          let name = dget_none d ''op'' in
          ebind (if is_timer_op d then validate_timer_op d else Inr ()) (\<lambda>_.
          ebind (check (name = VStr ''notify.set'' \<longrightarrow> is_dict (dget_none d ''fields''))
                   (ControlDeltaError ''notify.set fields must be a mapping'')) (\<lambda>_.
          ebind (check (name = VStr ''notify.replace'' \<longrightarrow> is_list (dget_none d ''entries''))
                   (ControlDeltaError ''notify.replace entries must be a list'')) (\<lambda>_.
          ebind (check (name = VStr ''timer.start_with_options'' \<longrightarrow>
                          (case dget_none d ''seconds'' of VInt n \<Rightarrow> 0 < n | _ \<Rightarrow> False))
                   (ControlDeltaError ''timer.start_with_options seconds must be an int greater than zero'')) (\<lambda>_.
          ebind (if name = VStr ''mpc_calibration.set''
                 then ebind (validated_mpc_calibration_command (dget_none d ''command'')) (\<lambda>_. Inr ())
                 else Inr ()) (\<lambda>_.
          if name = VStr ''hold.set_setpoint''
          then ebind (finite_or (ControlDeltaError ''hold.set_setpoint setpoint must be a finite number'')
                        (dget_none d ''setpoint'')) (\<lambda>_. Inr ())
          else Inr ())))))
      | _ \<Rightarrow> Inl (AttributeError ''op''))"

definition validate_ops :: "pyval \<Rightarrow> unit result" where
  "validate_ops v =
     (case v of
        VNone \<Rightarrow> Inr ()
      | VList ops \<Rightarrow>
          ebind (efold (\<lambda>_. validate_op_shape) () ops) (\<lambda>_. efold (\<lambda>_. validate_op_types) () ops)
      | _ \<Rightarrow> Inl (ControlDeltaError ''ops must be a list''))"

definition validate_control_delta :: "pyval \<Rightarrow> unit result" where
  "validate_control_delta envelope =
     (case envelope of
        VDict d \<Rightarrow>
          if \<not> set (map fst d) \<subseteq> set allowed_members then Inl (ControlDeltaError ''unknown delta member(s)'')
          else if \<not> py_eq (dget_none d CONTROL_DELTA_KEY) (VInt CONTROL_DELTA_VERSION)
            then Inl (ControlDeltaError ''__control_delta__ must be 2'')
          else ebind (validate_set (dget_none d ''set'')) (\<lambda>_.
               ebind (validate_delete (dget_none d ''delete'')) (\<lambda>_.
                 validate_ops (dget_none d ''ops'')))
      | _ \<Rightarrow> Inl (ControlDeltaError ''delta must be a mapping''))"

text \<open>Building an envelope; an absent argument is the empty one, which the code treats alike.\<close>

definition control_delta :: "pydict \<Rightarrow> pyval list list \<Rightarrow> pydict list \<Rightarrow> pydict result" where
  "control_delta set_values delete_paths ops =
     (let envelope = [(CONTROL_DELTA_KEY, VInt CONTROL_DELTA_VERSION)]
            @ (if set_values = [] then [] else [(''set'', VDict set_values)])
            @ (if delete_paths = [] then [] else [(''delete'', VList (map VList delete_paths))])
            @ (if ops = [] then [] else [(''ops'', VList (map VDict ops))])
      in ebind (validate_control_delta (VDict envelope)) (\<lambda>_. Inr envelope))"

definition is_control_delta :: "pyval \<Rightarrow> bool" where
  "is_control_delta payload = (case payload of VDict d \<Rightarrow> dget d CONTROL_DELTA_KEY \<noteq> None | _ \<Rightarrow> False)"

section \<open>Splitting a posted patch\<close>

definition notify_update_op :: "pyval \<Rightarrow> pydict result" where
  "notify_update_op update =
     (case update of
        VDict d \<Rightarrow> Inr (dupdate [(''op'', VStr ''notify.set'')] d)
      | _ \<Rightarrow> Inl (ControlDeltaError ''each notify_updates item must be a mapping''))"

definition notify_ops_from_post :: "pydict \<Rightarrow> (pydict \<times> pydict list option) result" where
  "notify_ops_from_post payload =
     (let members = ddel ''notify_updates'' (ddel ''notify_data'' payload);
          entries = dget_none payload ''notify_data''; updates = dget_none payload ''notify_updates'';
          replace = (if entries = VNone then []
                     else [[(''op'', VStr ''notify.replace''), (''entries'', entries)]])
      in ebind (case updates of
                  VNone \<Rightarrow> Inr []
                | VList us \<Rightarrow> emap_list notify_update_op us
                | _ \<Rightarrow> Inl (ControlDeltaError ''notify_updates must be a list'')) (\<lambda>sets.
           Inr (members, if replace @ sets = [] then None else Some (replace @ sets))))"

section \<open>Applying an envelope\<close>

fun deep_assign :: "pydict \<Rightarrow> pydict \<Rightarrow> pydict" where
  "deep_assign target [] = target"
| "deep_assign target ((key, VDict value) # rest) =
     (case dget target key of
        Some (VDict node) \<Rightarrow> deep_assign (dput key (VDict (deep_assign node value)) target) rest
      | _ \<Rightarrow> deep_assign (dput key (VDict value) target) rest)"
| "deep_assign target ((key, value) # rest) = deep_assign (dput key value target) rest"

fun delete_path :: "pydict \<Rightarrow> string list \<Rightarrow> pydict" where
  "delete_path target [] = target"
| "delete_path target [key] = ddel key target"
| "delete_path target (key # path) =
     (case dget target key of
        Some (VDict node) \<Rightarrow> dput key (VDict (delete_path node path)) target
      | _ \<Rightarrow> target)"

definition op_hold_set_setpoint :: "pydict \<Rightarrow> pydict \<Rightarrow> pydict result" where
  "op_hold_set_setpoint control op =
     (let c = (if \<not> py_eq (dget_none control ''mode'') (VStr ''Hold'')
               then dput ''updated'' (VBool True) (dput ''mode'' (VStr ''Hold'') control) else control)
      in ebind (dindex op ''setpoint'') (\<lambda>setpoint. Inr (dput ''primary_setpoint'' setpoint c)))"

definition op_mpc_calibration_set :: "pydict \<Rightarrow> pydict \<Rightarrow> pydict result" where
  "op_mpc_calibration_set control op =
     ebind (dindex op ''command'') (\<lambda>raw.
     ebind (validated_mpc_calibration_command raw) (\<lambda>command.
       case dget_none control ''mpc_calibration'' of
         VNone \<Rightarrow> Inr (dput ''mpc_calibration'' (VDict command) control)
       | VDict previous \<Rightarrow>
           (case (dget_none previous ''revision'', dget_none command ''revision'') of
              (VInt revision, VInt new) \<Rightarrow>
                Inr (if revision < new then dput ''mpc_calibration'' (VDict command) control else control)
            | _ \<Rightarrow> Inr control)
       | _ \<Rightarrow> Inr control))"

text \<open>Iterating \<open>control.get("notify_data", ())\<close>: a list, or whatever else iterates.\<close>

definition notify_entries :: "pydict \<Rightarrow> pyval list result" where
  "notify_entries control =
     (case dget control ''notify_data'' of
        None \<Rightarrow> Inr []
      | Some (VList es) \<Rightarrow> Inr es
      | Some (VDict d) \<Rightarrow> Inr (map (VStr \<circ> fst) d)
      | Some (VStr s) \<Rightarrow> Inr (map (\<lambda>c. VStr [c]) s)
      | Some _ \<Rightarrow> Inl (TypeError ''notify_data is not iterable''))"

fun find_index :: "('a \<Rightarrow> bool) \<Rightarrow> 'a list \<Rightarrow> nat option" where
  "find_index p [] = None"
| "find_index p (x # xs) = (if p x then Some 0 else map_option Suc (find_index p xs))"

definition entry_matches :: "pyval \<Rightarrow> pyval \<Rightarrow> pyval \<Rightarrow> bool" where
  "entry_matches label kind entry =
     (case entry of
        VDict e \<Rightarrow> py_eq (dget_none e ''label'') label \<and> py_eq (dget_none e ''type'') kind
      | _ \<Rightarrow> False)"

definition timer_entry :: "pyval \<Rightarrow> bool" where
  "timer_entry entry =
     (case entry of VDict e \<Rightarrow> py_eq (dget_none e ''type'') (VStr ''timer'') | _ \<Rightarrow> False)"

definition notify_index :: "pydict \<Rightarrow> pyval \<Rightarrow> pyval \<Rightarrow> nat option result" where
  "notify_index control label kind =
     ebind (notify_entries control) (\<lambda>es. Inr (find_index (entry_matches label kind) es))"

definition timer_notify_index :: "pydict \<Rightarrow> nat option result" where
  "timer_notify_index control = ebind (notify_entries control) (\<lambda>es. Inr (find_index timer_entry es))"

text \<open>\<open>control["notify_data"][i].update(fs)\<close> at an index \<open>notify_index\<close> returned.\<close>

definition update_entry :: "nat \<Rightarrow> pydict \<Rightarrow> pyval list \<Rightarrow> pyval list" where
  "update_entry i fs es =
     es[i := (case es ! i of VDict e \<Rightarrow> VDict (dupdate e fs) | v \<Rightarrow> v)]"

definition put_entries :: "pydict \<Rightarrow> (pyval list \<Rightarrow> pyval list) \<Rightarrow> pydict" where
  "put_entries control f =
     (case dget control ''notify_data'' of
        Some (VList es) \<Rightarrow> dput ''notify_data'' (VList (f es)) control
      | _ \<Rightarrow> control)"

definition op_notify_set :: "pydict \<Rightarrow> pydict \<Rightarrow> pydict result" where
  "op_notify_set control op =
     ebind (dindex op ''label'') (\<lambda>label. ebind (dindex op ''type'') (\<lambda>kind.
     ebind (notify_index control label kind) (\<lambda>index.
     case dget_none op ''fields'' of
       VDict fs \<Rightarrow>
         (case index of
            None \<Rightarrow>
              let entry = VDict (dupdate [(''label'', label), (''type'', kind)] fs) in
              (case dget control ''notify_data'' of
                 None \<Rightarrow> Inr (dput ''notify_data'' (VList [entry]) control)
               | Some (VList es) \<Rightarrow> Inr (dput ''notify_data'' (VList (es @ [entry])) control)
               | Some _ \<Rightarrow> Inl (AttributeError ''append''))
          | Some i \<Rightarrow> Inr (put_entries control (update_entry i fs)))
     | _ \<Rightarrow> Inl (TypeError ''fields''))))"

definition op_notify_delete :: "pydict \<Rightarrow> pydict \<Rightarrow> pydict result" where
  "op_notify_delete control op =
     ebind (dindex op ''label'') (\<lambda>label. ebind (dindex op ''type'') (\<lambda>kind.
     ebind (notify_index control label kind) (\<lambda>index.
       case index of
         None \<Rightarrow> Inr control
       | Some i \<Rightarrow> Inr (put_entries control (\<lambda>es. take i es @ drop (Suc i) es)))))"

definition op_notify_replace :: "pydict \<Rightarrow> pydict \<Rightarrow> pydict result" where
  "op_notify_replace control op =
     ebind (dindex op ''entries'') (\<lambda>entries.
       case entries of
         VList es \<Rightarrow> Inr (dput ''notify_data'' (VList es) control)
       | _ \<Rightarrow> Inl (TypeError ''entries''))"

definition with_timer_entry :: "pydict \<Rightarrow> pydict \<Rightarrow> pydict result" where
  \<comment> \<open>assign \<open>fs\<close> in the notify entry of the timer, when there is one\<close>
  "with_timer_entry control fs =
     ebind (timer_notify_index control) (\<lambda>index.
       case index of
         None \<Rightarrow> Inr control
       | Some i \<Rightarrow> Inr (put_entries control (update_entry i fs)))"

definition op_timer_clear :: "pydict \<Rightarrow> pydict result" where
  "op_timer_clear control =
     with_timer_entry (dput ''timer'' (timer_value default_timer) control)
       [(''req'', VBool False), (''shutdown'', VBool False), (''keep_warm'', VBool False)]"

definition op_timer_pause :: "pydict \<Rightarrow> clock_stamp \<Rightarrow> pydict result" where
  "op_timer_pause control now =
     ebind (dindex control ''timer'') (\<lambda>raw. ebind (parse_timer raw) (\<lambda>t.
       with_timer_entry (dput ''timer'' (timer_value (pause_timer t now False)) control)
         [(''req'', VBool False)]))"

definition op_timer_start_or_resume :: "string \<Rightarrow> pydict \<Rightarrow> pydict \<Rightarrow> clock_stamp \<Rightarrow> pydict result" where
  "op_timer_start_or_resume fresh control op now =
     ebind (dindex control ''timer'') (\<lambda>raw. ebind (parse_timer raw) (\<lambda>t.
     ebind (if tstate t = Paused \<or> tstate t = Interrupted then resume_timer fresh t now
            else ebind (dindex op ''seconds'') (\<lambda>s.
                   start_timer fresh (if s = VNone then VInt 60 else s) now)) (\<lambda>t'.
       with_timer_entry (dput ''timer'' (timer_value t') control) [(''req'', VBool True)])))"

definition op_timer_start_with_options :: "string \<Rightarrow> pydict \<Rightarrow> pydict \<Rightarrow> clock_stamp \<Rightarrow> pydict result" where
  "op_timer_start_with_options fresh control op now =
     ebind (dindex control ''timer'') (\<lambda>raw. ebind (parse_timer raw) (\<lambda>t.
     if tstate t = Paused \<or> (tstate t = Interrupted \<and> remaining_s t \<noteq> None)
     then Inl (ControlDeltaError ''Resume or stop the paused timer before starting with options'')
     else
       ebind (dindex op ''seconds'') (\<lambda>s.
       ebind (start_timer fresh s now) (\<lambda>t'.
       with_timer_entry (dput ''timer'' (timer_value t') control)
         [(''req'', VBool True), (''shutdown'', dget_none op ''shutdown''),
          (''keep_warm'', dget_none op ''keep_warm'')]))))"

definition apply_op :: "string \<Rightarrow> pydict \<Rightarrow> pydict \<Rightarrow> clock_stamp \<Rightarrow> pydict result" where
  "apply_op fresh control op now =
     (let name = str_of (dget_none op ''op'') in
      if name = ''timer.clear'' then op_timer_clear control
      else if name = ''timer.pause'' then op_timer_pause control now
      else if name = ''timer.start_or_resume'' then op_timer_start_or_resume fresh control op now
      else if name = ''timer.start_with_options'' then op_timer_start_with_options fresh control op now
      else if name = ''notify.set'' then op_notify_set control op
      else if name = ''notify.delete'' then op_notify_delete control op
      else if name = ''notify.replace'' then op_notify_replace control op
      else if name = ''mpc_calibration.set'' then op_mpc_calibration_set control op
      else if name = ''hold.set_setpoint'' then op_hold_set_setpoint control op
      else Inl (KeyError name))"

fun apply_ops :: "(nat \<Rightarrow> string) \<Rightarrow> nat \<Rightarrow> pydict \<Rightarrow> pydict list \<Rightarrow> clock_stamp \<Rightarrow> pydict result" where
  "apply_ops ids i control [] now = Inr control"
| "apply_ops ids i control (op # ops) now =
     ebind (apply_op (ids i) control op now) (\<lambda>c. apply_ops ids (Suc i) c ops now)"

text \<open>
  The members of a validated envelope; an explicit null passes validation and then fails to iterate.
\<close>

definition envelope_ops :: "pydict \<Rightarrow> pydict list result" where
  "envelope_ops d =
     (case dget d ''ops'' of
        None \<Rightarrow> Inr []
      | Some (VList ops) \<Rightarrow>
          emap_list (\<lambda>op. case op of VDict x \<Rightarrow> Inr x | _ \<Rightarrow> Inl (TypeError ''op'')) ops
      | Some _ \<Rightarrow> Inl (TypeError ''ops is not iterable''))"

definition envelope_deletes :: "pydict \<Rightarrow> string list list result" where
  "envelope_deletes d =
     (case dget d ''delete'' of
        None \<Rightarrow> Inr []
      | Some (VList paths) \<Rightarrow>
          emap_list (\<lambda>p. case p of VList ks \<Rightarrow> Inr (map str_of ks) | _ \<Rightarrow> Inl (TypeError ''path'')) paths
      | Some _ \<Rightarrow> Inl (TypeError ''delete is not iterable''))"

definition envelope_set :: "pydict \<Rightarrow> pydict result" where
  "envelope_set d =
     (case dget d ''set'' of
        None \<Rightarrow> Inr []
      | Some (VDict s) \<Rightarrow> Inr s
      | Some _ \<Rightarrow> Inl (AttributeError ''items''))"

definition fenced :: "clock_stamp \<Rightarrow> pydict \<Rightarrow> bool" where
  "fenced now op = (is_timer_op op \<and> \<not> py_eq (dget_none op ''target_runtime_id'') (VStr (runtime_id now)))"

definition apply_control_delta ::
    "(nat \<Rightarrow> string) \<Rightarrow> pydict \<Rightarrow> pydict \<Rightarrow> clock_stamp \<Rightarrow> pydict result" where
  "apply_control_delta ids control envelope now =
     (if \<not> py_eq (dget_none envelope CONTROL_DELTA_KEY) (VInt CONTROL_DELTA_VERSION) then Inr control
      else
        ebind (validate_control_delta (VDict envelope)) (\<lambda>_.
        ebind (envelope_ops envelope) (\<lambda>ops.
        ebind (check (\<not> list_ex (fenced now) ops)
                 (ControlDeltaError ''Timer command targets a retired control generation'')) (\<lambda>_.
        ebind (envelope_set envelope) (\<lambda>values.
        ebind (apply_ops ids 0 (deep_assign control values) ops now) (\<lambda>c.
        ebind (envelope_deletes envelope) (\<lambda>paths.
          Inr (foldl delete_path c paths))))))))"

section \<open>What an envelope can touch\<close>

lemma deep_assign_frame: "k \<notin> fst ` set vs \<Longrightarrow> dget (deep_assign t vs) k = dget t k"
  by (induction t vs rule: deep_assign.induct) (auto split: option.splits pyval.splits)

lemma delete_path_frame: "path \<noteq> [] \<Longrightarrow> k \<noteq> hd path \<Longrightarrow> dget (delete_path t path) k = dget t k"
  by (induction t path rule: delete_path.induct) (auto split: option.splits pyval.splits)

lemma foldl_delete_frame:
  "(\<And>p. p \<in> set paths \<Longrightarrow> p \<noteq> [] \<and> hd p \<noteq> k) \<Longrightarrow> dget (foldl delete_path c paths) k = dget c k"
proof (induction paths arbitrary: c)
  case (Cons p ps)
  from Cons.prems [of p] have "dget (delete_path c p) k = dget c k"
    using delete_path_frame [of p k c] by auto
  with Cons.IH [of "delete_path c p"] Cons.prems show ?case by simp
qed simp

lemma put_entries_frame [simp]: "k \<noteq> ''notify_data'' \<Longrightarrow> dget (put_entries c f) k = dget c k"
  by (auto simp: put_entries_def split: option.split pyval.split)

lemma with_timer_entry_frame:
  "with_timer_entry c fs = Inr c' \<Longrightarrow> k \<noteq> ''notify_data'' \<Longrightarrow> dget c' k = dget c k"
  by (auto simp: with_timer_entry_def elim!: ebind_InrE split: option.splits)

text \<open>The members an operation may write, by the name of the operation.\<close>

definition op_writes :: "string \<Rightarrow> string set" where
  "op_writes name =
     (if prefix ''timer.'' name then {''timer'', ''notify_data''}
      else if prefix ''notify.'' name then {''notify_data''}
      else if name = ''mpc_calibration.set'' then {''mpc_calibration''}
      else if name = ''hold.set_setpoint'' then {''mode'', ''updated'', ''primary_setpoint''}
      else {})"

lemma op_notify_set_frame:
  "op_notify_set c op = Inr c' \<Longrightarrow> k \<noteq> ''notify_data'' \<Longrightarrow> dget c' k = dget c k"
  by (auto simp: op_notify_set_def Let_def elim!: ebind_InrE split: option.split_asm pyval.split_asm)

lemma op_notify_delete_frame:
  "op_notify_delete c op = Inr c' \<Longrightarrow> k \<noteq> ''notify_data'' \<Longrightarrow> dget c' k = dget c k"
  by (auto simp: op_notify_delete_def elim!: ebind_InrE split: option.splits)

lemma op_notify_replace_frame:
  "op_notify_replace c op = Inr c' \<Longrightarrow> k \<noteq> ''notify_data'' \<Longrightarrow> dget c' k = dget c k"
  by (auto simp: op_notify_replace_def elim!: ebind_InrE split: pyval.split_asm)

lemma op_timer_frame:
  "k \<noteq> ''notify_data'' \<Longrightarrow> k \<noteq> ''timer'' \<Longrightarrow> op_timer_clear c = Inr c' \<Longrightarrow> dget c' k = dget c k"
  "k \<noteq> ''notify_data'' \<Longrightarrow> k \<noteq> ''timer'' \<Longrightarrow> op_timer_pause c now = Inr c' \<Longrightarrow> dget c' k = dget c k"
  "k \<noteq> ''notify_data'' \<Longrightarrow> k \<noteq> ''timer'' \<Longrightarrow> op_timer_start_or_resume fresh c op now = Inr c' \<Longrightarrow> dget c' k = dget c k"
  "k \<noteq> ''notify_data'' \<Longrightarrow> k \<noteq> ''timer'' \<Longrightarrow> op_timer_start_with_options fresh c op now = Inr c' \<Longrightarrow> dget c' k = dget c k"
  by (auto simp: op_timer_clear_def op_timer_pause_def op_timer_start_or_resume_def
      op_timer_start_with_options_def ebind_Inr_iff dest!: with_timer_entry_frame split: if_splits)

lemma op_mpc_frame:
  "op_mpc_calibration_set c op = Inr c' \<Longrightarrow> k \<noteq> ''mpc_calibration'' \<Longrightarrow> dget c' k = dget c k"
  by (auto simp: op_mpc_calibration_set_def elim!: ebind_InrE split: pyval.split_asm if_split_asm)

lemma op_hold_frame:
  "op_hold_set_setpoint c op = Inr c' \<Longrightarrow> k \<notin> {''mode'', ''updated'', ''primary_setpoint''} \<Longrightarrow> dget c' k = dget c k"
  by (auto simp: op_hold_set_setpoint_def Let_def elim!: ebind_InrE split: if_splits)

lemmas op_frames = op_notify_set_frame op_notify_delete_frame op_notify_replace_frame op_timer_frame
  op_mpc_frame op_hold_frame

lemma apply_op_frame:
  "apply_op fresh c op now = Inr c' \<Longrightarrow> k \<notin> op_writes (str_of (dget_none op ''op'')) \<Longrightarrow> dget c' k = dget c k"
  unfolding apply_op_def Let_def
  by (auto simp: op_writes_def dest: op_frames split: if_splits)

lemma apply_ops_frame:
  "apply_ops ids i c ops now = Inr c' \<Longrightarrow>
     (\<And>op. op \<in> set ops \<Longrightarrow> k \<notin> op_writes (str_of (dget_none op ''op''))) \<Longrightarrow> dget c' k = dget c k"
proof (induction ops arbitrary: i c)
  case (Cons op ops)
  from Cons.prems(1) obtain d where d: "apply_op (ids i) c op now = Inr d" "apply_ops ids (Suc i) d ops now = Inr c'"
    by (auto simp: ebind_Inr_iff)
  with Cons.IH [OF d(2)] Cons.prems(2) apply_op_frame [OF d(1), of k] show ?case by simp
qed simp

lemma op_writes_not_runtime: "''cook_id'' \<notin> op_writes name"
  by (simp add: op_writes_def)

lemma op_writes_timer: "''timer'' \<in> op_writes name \<longleftrightarrow> prefix ''timer.'' name"
  by (simp add: op_writes_def)

lemma efold_unit_all: "efold (\<lambda>_. f) () xs = Inr () \<Longrightarrow> x \<in> set xs \<Longrightarrow> f x = Inr ()"
  by (induction xs) (auto simp: ebind_Inr_iff)

lemma emap_list_mem:
  "emap_list f xs = Inr ys \<Longrightarrow> y \<in> set ys \<Longrightarrow> \<exists>x \<in> set xs. f x = Inr y"
  by (induction xs arbitrary: ys) (auto simp: ebind_Inr_iff)

text \<open>The accepted part of an application: what validation has established on the way.\<close>

lemma apply_control_delta_InrE:
  assumes "apply_control_delta ids c env now = Inr c'"
  obtains "\<not> py_eq (dget_none env CONTROL_DELTA_KEY) (VInt CONTROL_DELTA_VERSION)" "c' = c"
    | ops vs c1 paths where "py_eq (dget_none env CONTROL_DELTA_KEY) (VInt CONTROL_DELTA_VERSION)"
      "validate_control_delta (VDict env) = Inr ()" "envelope_ops env = Inr ops"
      "\<not> list_ex (fenced now) ops" "envelope_set env = Inr vs"
      "apply_ops ids 0 (deep_assign c vs) ops now = Inr c1" "envelope_deletes env = Inr paths"
      "c' = foldl delete_path c1 paths"
  using assms by (auto simp: apply_control_delta_def ebind_Inr_iff split: if_splits)

lemma validate_control_delta_parts:
  assumes "validate_control_delta (VDict env) = Inr ()"
  shows "validate_set (dget_none env ''set'') = Inr ()" "validate_delete (dget_none env ''delete'') = Inr ()"
    "validate_ops (dget_none env ''ops'') = Inr ()"
  using assms by (auto simp: validate_control_delta_def ebind_Inr_iff split: if_splits)

lemma envelope_set_keys:
  assumes "validate_control_delta (VDict env) = Inr ()" "envelope_set env = Inr vs" "k \<in> set set_forbidden"
  shows "k \<notin> fst ` set vs"
  using validate_control_delta_parts(1) [OF assms(1)] assms(2,3)
  by (auto simp: envelope_set_def validate_set_def dget_none_def split: option.splits pyval.splits)

lemma envelope_deletes_heads:
  assumes "validate_control_delta (VDict env) = Inr ()" "envelope_deletes env = Inr paths" "p \<in> set paths"
  shows "p \<noteq> [] \<and> hd p \<noteq> ''cook_id''"
proof -
  obtain vs where vs: "dget env ''delete'' = Some (VList vs)"
    using assms(2,3) by (auto simp: envelope_deletes_def split: option.splits pyval.splits)
  obtain v where v: "v \<in> set vs" "(case v of VList ks \<Rightarrow> Inr (map str_of ks) | _ \<Rightarrow> Inl (TypeError ''path'')) = Inr p"
    using emap_list_mem assms(2,3) vs by (fastforce simp: envelope_deletes_def)
  have "validate_delete_path v = Inr ()"
    using validate_control_delta_parts(2) [OF assms(1)] vs v(1)
    by (auto simp: validate_delete_def dget_none_def dest: efold_unit_all)
  with v(2) show ?thesis
    by (cases v) (auto simp: validate_delete_path_def neq_Nil_conv elim!: is_str.elims split: if_splits)
qed

text \<open>No control delta can change the identity of the cook: whatever envelope is applied, a successful
  application leaves \<open>cook_id\<close> of the control dictionary as it was.\<close>

theorem delta_preserves_cook_id:
  assumes "apply_control_delta ids c env now = Inr c'"
  shows "dget c' ''cook_id'' = dget c ''cook_id''"
  using assms
proof (cases rule: apply_control_delta_InrE)
  case (2 ops vs c1 paths)
  have "dget c1 ''cook_id'' = dget (deep_assign c vs) ''cook_id''"
    using apply_ops_frame [OF 2(6)] op_writes_not_runtime by blast
  moreover have "dget (deep_assign c vs) ''cook_id'' = dget c ''cook_id''"
    using envelope_set_keys [OF 2(2,5)] by (intro deep_assign_frame) (simp add: set_forbidden_def)
  moreover have "dget c' ''cook_id'' = dget c1 ''cook_id''"
    unfolding 2(8) using envelope_deletes_heads [OF 2(2,7)] by (intro foldl_delete_frame)
  ultimately show ?thesis by simp
qed simp

text \<open>The stored timer changes only through a timer operation addressed to the running control
  generation (or by deleting the member itself): every timer operation of an accepted envelope carries
  the runtime identity of the drain, and an envelope without one leaves \<open>timer\<close> as it was.\<close>

theorem delta_timer_authority:
  assumes "apply_control_delta ids c env now = Inr c'" and "envelope_ops env = Inr ops"
    and "envelope_deletes env = Inr paths" and "\<forall>p \<in> set paths. hd p \<noteq> ''timer''"
    and "dget c' ''timer'' \<noteq> dget c ''timer''"
  shows "\<exists>op \<in> set ops. is_timer_op op \<and> py_eq (dget_none op ''target_runtime_id'') (VStr (runtime_id now))"
  using assms(1)
proof (cases rule: apply_control_delta_InrE)
  case 1
  with assms(5) show ?thesis by simp
next
  case (2 ops' vs c1 paths')
  have eqs: "ops' = ops" "paths' = paths" using 2 assms(2,3) by simp_all
  show ?thesis
  proof (rule ccontr)
    assume none: "\<not> ?thesis"
    have "\<not> is_timer_op op" if "op \<in> set ops" for op
      using none that 2(4) eqs by (auto simp: list_ex_iff fenced_def)
    then have "dget c1 ''timer'' = dget (deep_assign c vs) ''timer''"
      using apply_ops_frame [OF 2(6)] op_writes_timer eqs by (metis is_timer_op_def)
    moreover have "dget (deep_assign c vs) ''timer'' = dget c ''timer''"
      using envelope_set_keys [OF 2(2,5)] by (intro deep_assign_frame) (simp add: set_forbidden_def)
    moreover have "dget c' ''timer'' = dget c1 ''timer''"
      unfolding 2(8) using envelope_deletes_heads [OF 2(2,7)] assms(4) eqs by (intro foldl_delete_frame) auto
    ultimately show False using assms(5) by simp
  qed
qed



text \<open>A concrete control dictionary, envelope and drain for the witnesses.\<close>

definition demo_control :: pydict where
  "demo_control = [(''cook_id'', VStr ''cook-1''), (''mode'', VStr ''Smoke''), (''updated'', VBool False)]"

definition demo_hold :: pydict where
  "demo_hold = [(CONTROL_DELTA_KEY, VInt 2),
     (''ops'', VList [VDict [(''op'', VStr ''hold.set_setpoint''), (''setpoint'', VInt 225)]])]"

lemma demo_hold_applied:
  "apply_control_delta (\<lambda>_. demo_uuid) demo_control demo_hold (demo_stamp 0) =
     Inr [(''cook_id'', VStr ''cook-1''), (''mode'', VStr ''Hold''), (''updated'', VBool True),
          (''primary_setpoint'', VInt 225)]"
  by code_simp

lemma delta_preserves_cook_id_witness:
  "\<exists>c'. apply_control_delta (\<lambda>_. demo_uuid) demo_control demo_hold (demo_stamp 0) = Inr c'
     \<and> dget c' ''cook_id'' = Some (VStr ''cook-1'')"
  using delta_preserves_cook_id [OF demo_hold_applied] demo_hold_applied by (auto simp: demo_control_def)

definition demo_clear :: pydict where
  "demo_clear = [(CONTROL_DELTA_KEY, VInt 2),
     (''ops'', VList [VDict [(''op'', VStr ''timer.clear''), (''requested_wall_s'', VInt 5),
        (''target_runtime_id'', VStr demo_uuid)]])]"

lemma demo_clear_applied:
  "apply_control_delta (\<lambda>_. demo_uuid) demo_control demo_clear (demo_stamp 0) =
     Inr (demo_control @ [(''timer'', timer_value default_timer)])"
  by code_simp

lemma delta_timer_authority_witness:
  "\<exists>ops. envelope_ops demo_clear = Inr ops \<and>
     (\<exists>op \<in> set ops. is_timer_op op \<and> py_eq (dget_none op ''target_runtime_id'') (VStr (runtime_id (demo_stamp 0))))"
proof -
  obtain ops where ops: "envelope_ops demo_clear = Inr ops"
    by (auto simp: envelope_ops_def demo_clear_def CONTROL_DELTA_KEY_def)
  have "envelope_deletes demo_clear = Inr []"
    by (simp add: envelope_deletes_def demo_clear_def CONTROL_DELTA_KEY_def)
  from delta_timer_authority [OF demo_clear_applied ops this] ops show ?thesis
    by (auto simp: demo_control_def dget_def timer_value_def)
qed

section \<open>Setpoints\<close>

lemma apply_ops_append:
  "apply_ops ids i c (xs @ ys) now = ebind (apply_ops ids i c xs now) (\<lambda>c'. apply_ops ids (i + length xs) c' ys now)"
  by (induction xs arbitrary: i c) (simp_all add: ebind_assoc)

text \<open>A setpoint interrupts the running cook only when it changes the mode: applied to a control
  dictionary already in Hold it changes nothing but \<open>primary_setpoint\<close>, in any other mode it enters Hold
  and raises \<open>updated\<close>; in both cases the setpoint is stored.\<close>

theorem hold_setpoint_effect:
  assumes "op_hold_set_setpoint c op = Inr c'"
  shows "dget_none c' ''mode'' = VStr ''Hold'' \<and> dget c' ''primary_setpoint'' = dget op ''setpoint''
     \<and> dget_none c' ''updated'' =
         (if py_eq (dget_none c ''mode'') (VStr ''Hold'') then dget_none c ''updated'' else VBool True)"
proof -
  have "py_eq v (VStr s) \<Longrightarrow> v = VStr s" for v s
    by (cases v) (auto simp: num_eq_def split: option.splits)
  with assms show ?thesis
    by (auto simp: op_hold_set_setpoint_def Let_def dindex_def elim!: ebind_InrE split: option.splits if_splits)
qed

lemma hold_setpoint_effect_witness:
  "\<exists>c'. op_hold_set_setpoint demo_control [(''setpoint'', VInt 225)] = Inr c' \<and> dget_none c' ''updated'' = VBool True"
proof -
  obtain c' where c: "op_hold_set_setpoint demo_control [(''setpoint'', VInt 225)] = Inr c'"
    by (auto simp: op_hold_set_setpoint_def dindex_def Let_def)
  from hold_setpoint_effect [OF this] c show ?thesis
    by (auto simp: demo_control_def dget_none_def)
qed

section \<open>Calibration revisions\<close>

definition calibration_revision :: "pydict \<Rightarrow> int option" where
  "calibration_revision c =
     (case dget_none c ''mpc_calibration'' of
        VDict d \<Rightarrow> (case dget_none d ''revision'' of VInt n \<Rightarrow> Some n | _ \<Rightarrow> None)
      | _ \<Rightarrow> None)"

lemma validated_revision:
  "validated_mpc_calibration_command v = Inr d \<Longrightarrow> \<exists>n. dget_none d ''revision'' = VInt n \<and> 1 \<le> n"
  by (auto simp: validated_mpc_calibration_command_def Let_def dget_none_def elim!: ebind_InrE
      split: pyval.split_asm if_split_asm)

lemma op_mpc_revision:
  assumes "op_mpc_calibration_set c op = Inr c'" "calibration_revision c = Some n"
  shows "\<exists>m. n \<le> m \<and> calibration_revision c' = Some m"
proof -
  obtain p where p: "dget_none c ''mpc_calibration'' = VDict p" "dget_none p ''revision'' = VInt n"
    using assms(2) by (auto simp: calibration_revision_def split: pyval.splits)
  from assms(1) obtain raw command where "validated_mpc_calibration_command raw = Inr command"
    and r: "(case dget_none c ''mpc_calibration'' of
         VNone \<Rightarrow> Inr (dput ''mpc_calibration'' (VDict command) c)
       | VDict previous \<Rightarrow>
           (case (dget_none previous ''revision'', dget_none command ''revision'') of
              (VInt revision, VInt new) \<Rightarrow>
                Inr (if revision < new then dput ''mpc_calibration'' (VDict command) c else c)
            | _ \<Rightarrow> Inr c)
       | _ \<Rightarrow> Inr c) = (Inr c' :: pydict result)"
    unfolding op_mpc_calibration_set_def by (elim ebind_InrE)
  then obtain k where k: "dget_none command ''revision'' = VInt k"
    using validated_revision by blast
  from r p k have "c' = (if n < k then dput ''mpc_calibration'' (VDict command) c else c)" by simp
  with p k assms(2) show ?thesis
    by (auto simp: calibration_revision_def)
qed

lemma calibration_revision_frame:
  "dget c' ''mpc_calibration'' = dget c ''mpc_calibration'' \<Longrightarrow> calibration_revision c' = calibration_revision c"
  by (simp add: calibration_revision_def dget_none_def)

lemma apply_op_revision:
  assumes "apply_op fresh c op now = Inr c'" "calibration_revision c = Some n"
  shows "\<exists>m. n \<le> m \<and> calibration_revision c' = Some m"
proof (cases "str_of (dget_none op ''op'') = ''mpc_calibration.set''")
  case True
  with assms op_mpc_revision show ?thesis by (simp add: apply_op_def)
next
  case False
  then have "''mpc_calibration'' \<notin> op_writes (str_of (dget_none op ''op''))"
    by (simp add: op_writes_def)
  with apply_op_frame [OF assms(1)] calibration_revision_frame [of c' c] assms(2) show ?thesis by simp
qed

text \<open>The operations as a ranked machine: the rank is the accepted revision.\<close>

definition op_step :: "pydict \<Rightarrow> string \<times> pydict \<times> clock_stamp \<Rightarrow> pydict result" where
  "op_step c e = (case e of (fresh, op, now) \<Rightarrow> apply_op fresh c op now)"

lemma apply_ops_efold:
  "apply_ops ids i c ops now
     = efold op_step c (map (\<lambda>(j, op). (ids j, op, now)) (zip [i..<i + length ops] ops))"
proof (induction ops arbitrary: i c)
  case (Cons op ops)
  have "[i..<i + length (op # ops)] = i # [Suc i..<Suc i + length ops]"
    by (simp add: upt_conv_Cons del: upt_Suc)
  with Cons.IH show ?case by (simp add: op_step_def)
qed simp

interpretation cal: ranked_machine op_step "\<lambda>c. calibration_revision c \<noteq> None" "\<lambda>c. the (calibration_revision c)"
proof unfold_locales
  fix s t :: pydict and e
  assume "calibration_revision s \<noteq> None" "op_step s e = Inr t"
  then obtain n m where "calibration_revision s = Some n" "calibration_revision t = Some m" "n \<le> m"
    using apply_op_revision by (fastforce simp: op_step_def split: prod.splits)
  then show "calibration_revision t \<noteq> None" "the (calibration_revision s) \<le> the (calibration_revision t)"
    by simp_all
qed

text \<open>A calibration command never goes back: whatever operations an envelope carries, once control holds
  a calibration command with revision \<open>n\<close>, applying them leaves one with a revision of at least \<open>n\<close>, so a
  late or duplicated command cannot revive an older calibration action.\<close>

theorem calibration_revision_monotone:
  assumes "apply_ops ids i c ops now = Inr c'" and "calibration_revision c = Some n"
  shows "\<exists>m. n \<le> m \<and> calibration_revision c' = Some m"
  using cal.run_rank [of c _ c'] cal.run_inv [of c _ c'] assms by (fastforce simp: apply_ops_efold)

definition demo_command :: "int \<Rightarrow> pyval" where
  "demo_command n = VDict [(''action'', VStr ''start''), (''revision'', VInt n), (''ambient_c'', VInt 20),
     (''ambient_source'', VStr ''manual''), (''empty_grill_confirmed'', VBool True),
     (''pellets_confirmed'', VBool True)]"

definition demo_calibration_ops :: "pydict list" where
  "demo_calibration_ops = map (\<lambda>n. [(''op'', VStr ''mpc_calibration.set''), (''command'', demo_command n)]) [3, 2]"

lemma calibration_revision_monotone_witness:
  "\<exists>c'. apply_ops (\<lambda>_. demo_uuid) 0 [(''mpc_calibration'', demo_command 1)] demo_calibration_ops (demo_stamp 0) = Inr c'
     \<and> (\<exists>m. 1 \<le> m \<and> calibration_revision c' = Some m)"
proof -
  have "\<exists>c'. apply_ops (\<lambda>_. demo_uuid) 0 [(''mpc_calibration'', demo_command 1)] demo_calibration_ops (demo_stamp 0)
      = Inr c'"
    by (simp add: demo_calibration_ops_def demo_command_def apply_op_def op_mpc_calibration_set_def dindex_def
        dget_none_def validated_mpc_calibration_command_def calibration_fields_def Let_def in_names_def
        calibration_actions_def ambient_sources_def finite_or_def in_dbl_small insert_commute)
  then obtain c' where c: "apply_ops (\<lambda>_. demo_uuid) 0 [(''mpc_calibration'', demo_command 1)]
      demo_calibration_ops (demo_stamp 0) = Inr c'" ..
  moreover have "calibration_revision [(''mpc_calibration'', demo_command 1)] = Some 1"
    by (simp add: calibration_revision_def demo_command_def dget_none_def)
  ultimately show ?thesis using calibration_revision_monotone [OF c] by auto
qed


section \<open>Independent writers\<close>

definition lookup_entry :: "pyval list \<Rightarrow> string \<Rightarrow> string \<Rightarrow> pyval option" where
  "lookup_entry es label kind = List.find (entry_matches (VStr label) (VStr kind)) es"

lemma find_index_SomeD: "find_index p es = Some i \<Longrightarrow> i < length es \<and> p (es ! i) \<and> List.find p es = Some (es ! i)
    \<and> (\<forall>j < i. \<not> p (es ! j))"
  by (induction es arbitrary: i) (auto simp: nth_Cons split: if_splits nat.splits)

lemma find_index_NoneD: "find_index p es = None \<Longrightarrow> List.find p es = None"
  by (induction es) (auto split: if_splits)

lemma find_update_other: "\<not> p (es ! i) \<Longrightarrow> \<not> p v \<Longrightarrow> List.find p (es[i := v]) = List.find p es"
proof (induction es arbitrary: i)
  case (Cons x es)
  then show ?case by (cases i) auto
qed simp

lemma find_update_first:
  "i < length es \<Longrightarrow> \<forall>j < i. \<not> p (es ! j) \<Longrightarrow> p v \<Longrightarrow> List.find p (es[i := v]) = Some v"
proof (induction es arbitrary: i)
  case (Cons x es)
  then show ?case by (cases i) (force simp: nth_Cons)+
qed simp

lemma find_append: "List.find p (xs @ ys) = (case List.find p xs of None \<Rightarrow> List.find p ys | Some x \<Rightarrow> Some x)"
  by (induction xs) auto

lemma py_eq_VStr [simp]: "py_eq v (VStr s) \<longleftrightarrow> v = VStr s"
  by (cases v) (auto simp: num_eq_def split: option.splits)

lemma dget_dupdate_other: "k \<notin> fst ` set fs \<Longrightarrow> dget_none (dupdate e fs) k = dget_none e k"
proof (induction e fs rule: dupdate.induct)
  case (2 d k' v e)
  then show ?case by auto
qed simp

lemma dget_dupdate_distinct:
  "distinct (map fst fs) \<Longrightarrow> dget fs f = Some v \<Longrightarrow> dget (dupdate e fs) f = Some v"
proof (induction e fs rule: dupdate.induct)
  case (2 d k' w e)
  show ?case
  proof (cases "f = k'")
    case True
    with 2 have "f \<notin> fst ` set e" "v = w" by auto
    with True show ?thesis
      using dget_dupdate_other [of f e "dput k' w d"]
      by (simp add: dget_dupdate dget_None_iff split: option.split) (metis dget_SomeD image_eqI fst_conv set_rev)
  next
    case False
    with 2 show ?thesis by simp
  qed
qed simp

lemma entry_matches_VDict:
  "entry_matches (VStr l) (VStr k) (VDict e) \<longleftrightarrow> dget_none e ''label'' = VStr l \<and> dget_none e ''type'' = VStr k"
  by (simp add: entry_matches_def)

lemma entry_matchesE: "entry_matches l k v \<Longrightarrow> (\<And>e. v = VDict e \<Longrightarrow> P) \<Longrightarrow> P"
  by (cases v) (auto simp: entry_matches_def)

text \<open>Two writers of notification settings do not disturb each other: a \<open>notify.set\<close> for the entry
  \<open>(l, k)\<close> stores every field it carries in that entry and leaves the entry any other writer addresses,
  \<open>(l2, k2)\<close>, exactly as it was.\<close>

theorem notify_writers_independent:
  assumes "op_notify_set c op = Inr c'" and "dget op ''label'' = Some (VStr l)" and "dget op ''type'' = Some (VStr k)"
    and "dget op ''fields'' = Some (VDict fs)" and "distinct (map fst fs)"
    and "''label'' \<notin> fst ` set fs" and "''type'' \<notin> fst ` set fs"
    and "notify_entries c = Inr es" and "(l2, k2) \<noteq> (l, k)"
  shows "\<exists>es'. notify_entries c' = Inr es' \<and> lookup_entry es' l2 k2 = lookup_entry es l2 k2
     \<and> (\<exists>e. lookup_entry es' l k = Some (VDict e) \<and> (\<forall>f v. dget fs f = Some v \<longrightarrow> dget e f = Some v))"
proof -
  let ?p = "entry_matches (VStr l) (VStr k)" and ?q = "entry_matches (VStr l2) (VStr k2)"
  have keep: "entry_matches (VStr a) (VStr b) (VDict (dupdate e fs)) = entry_matches (VStr a) (VStr b) (VDict e)"
    for a b e using assms(6,7) by (simp add: entry_matches_VDict dget_dupdate_other)
  have other: "?p (VDict e) \<Longrightarrow> \<not> ?q (VDict e)" for e
    using assms(9) by (auto simp: entry_matches_VDict)
  have stored: "\<forall>f v. dget fs f = Some v \<longrightarrow> dget (dupdate e fs) f = Some v" for e
    using dget_dupdate_distinct [OF assms(5)] by blast
  show ?thesis
  proof (cases "find_index ?p es")
    case None
    let ?new = "dupdate [(''label'', VStr l), (''type'', VStr k)] fs"
    have m: "?p (VDict ?new)"
      unfolding keep by (simp add: entry_matches_VDict dget_none_def)
    then have "?p (VDict ?new)" "\<not> ?q (VDict ?new)"
      using other by simp_all
    moreover have "notify_entries c' = Inr (es @ [VDict ?new])"
      using assms(1-4,8) None
      by (auto simp: op_notify_set_def notify_index_def dindex_def dget_none_def notify_entries_def Let_def
          split: option.splits pyval.splits)
    ultimately show ?thesis
      using find_index_NoneD [OF None] stored by (simp add: lookup_entry_def find_append split: option.split)
  next
    case (Some i)
    note D = find_index_SomeD [OF Some]
    then obtain e where e: "es ! i = VDict e" by (auto elim: entry_matchesE)
    let ?new = "VDict (dupdate e fs)"
    have m: "?p ?new" "\<not> ?q ?new" "\<not> ?q (es ! i)" using D e keep other by auto
    have "es \<noteq> []" using D by auto
    then have "notify_entries c' = Inr (es[i := ?new])"
      using assms(1-4,8) Some D e
      by (auto simp: op_notify_set_def notify_index_def dindex_def dget_none_def notify_entries_def Let_def
          put_entries_def update_entry_def split: option.splits pyval.splits)
    then show ?thesis
      using find_update_other [OF m(3,2)] find_update_first [of i es ?p ?new] D m(1) stored
      by (auto simp: lookup_entry_def)
  qed
qed

section \<open>Deep assignment\<close>

fun path_get :: "pydict \<Rightarrow> string list \<Rightarrow> pyval option" where
  "path_get d [] = Some (VDict d)"
| "path_get d [k] = dget d k"
| "path_get d (k # ks) = (case dget d k of Some (VDict e) \<Rightarrow> path_get e ks | _ \<Rightarrow> None)"

text \<open>The \<open>set\<close> member that assigns one value at one path.\<close>

fun spine :: "string list \<Rightarrow> pyval \<Rightarrow> pydict" where
  "spine [] v = []"
| "spine [k] v = [(k, v)]"
| "spine (k # ks) v = [(k, VDict (spine ks v))]"

lemma deep_assign_leaf: "\<not> is_dict v \<Longrightarrow> deep_assign t [(k, v)] = dput k v t"
  by (cases v) auto

lemma deep_assign_node:
  "deep_assign t [(k, VDict w)] =
     dput k (VDict (case dget t k of Some (VDict u) \<Rightarrow> deep_assign u w | _ \<Rightarrow> w)) t"
  by (auto split: option.split pyval.split)

lemma path_get_Cons:
  "ks \<noteq> [] \<Longrightarrow> path_get d (k # ks) = (case dget d k of Some (VDict e) \<Rightarrow> path_get e ks | _ \<Rightarrow> None)"
  by (cases ks) auto

lemma spine_Cons: "ks \<noteq> [] \<Longrightarrow> spine (k # ks) v = [(k, VDict (spine ks v))]"
  by (cases ks) auto

lemma path_get_spine: "p \<noteq> [] \<Longrightarrow> path_get (spine p v) p = Some v"
proof (induction p)
  case (Cons k p)
  then show ?case by (cases "p = []") (simp_all add: path_get_Cons spine_Cons)
qed simp

lemma path_get_spine_other: "\<not> prefix p q \<Longrightarrow> \<not> prefix q p \<Longrightarrow> path_get (spine p v) q = None"
proof (induction q arbitrary: p)
  case (Cons k q)
  obtain j p' where p: "p = j # p'" using Cons.prems by (cases p) auto
  show ?case
  proof (cases "p' = [] \<or> q = []")
    case True
    with Cons.prems p show ?thesis by (cases "p' = []"; cases "q = []") (auto simp: spine_Cons path_get_Cons)
  next
    case False
    with Cons.prems p Cons.IH [of p'] show ?thesis by (simp add: spine_Cons path_get_Cons)
  qed
qed simp

lemma deep_assign_spine:
  "p \<noteq> [] \<Longrightarrow> deep_assign t (spine (k # p) v) =
     dput k (VDict (case dget t k of Some (VDict u) \<Rightarrow> deep_assign u (spine p v) | _ \<Rightarrow> spine p v)) t"
  by (simp add: spine_Cons split: option.split pyval.split)

lemma deep_assign_stores:
  "p \<noteq> [] \<Longrightarrow> \<not> is_dict v \<Longrightarrow> path_get (deep_assign t (spine p v)) p = Some v"
proof (induction p arbitrary: t)
  case (Cons k p)
  show ?case
  proof (cases "p = []")
    case True
    with Cons.prems show ?thesis by (simp add: deep_assign_leaf)
  next
    case False
    with Cons show ?thesis
      by (simp add: deep_assign_spine path_get_Cons path_get_spine split: option.split pyval.split)
  qed
qed simp

lemma deep_assign_keeps:
  "p \<noteq> [] \<Longrightarrow> \<not> is_dict v \<Longrightarrow> \<not> prefix p q \<Longrightarrow> \<not> prefix q p \<Longrightarrow>
     path_get (deep_assign t (spine p v)) q = path_get t q"
proof (induction p arbitrary: t q)
  case (Cons k p)
  obtain j q' where q: "q = j # q'" using Cons.prems by (cases q) auto
  have frame: "j \<noteq> k \<Longrightarrow> path_get (dput k w t) q = path_get t q" for w
    using q by (cases "q' = []") (simp_all add: path_get_Cons)
  show ?case
  proof (cases "j = k")
    case False
    with frame Cons.prems show ?thesis
      by (cases "p = []") (simp_all add: deep_assign_leaf deep_assign_spine)
  next
    case True
    with Cons.prems q have np: "p \<noteq> []" "q' \<noteq> []" "\<not> prefix p q'" "\<not> prefix q' p" by auto
    with True q Cons.IH [OF _ Cons.prems(2)] path_get_spine_other [OF np(3,4)] show ?thesis
      by (simp add: deep_assign_spine path_get_Cons split: option.split pyval.split)
  qed
qed simp

text \<open>Two writers of different members both survive: assigning a value at one path of the control
  dictionary leaves what is stored at every path that is neither above nor below it, and the value is
  found at its path afterwards.\<close>

theorem deep_assign_paths_independent:
  assumes "p \<noteq> []" and "\<not> is_dict v" and "\<not> prefix p q" and "\<not> prefix q p"
  shows "path_get (deep_assign t (spine p v)) q = path_get t q
     \<and> path_get (deep_assign t (spine p v)) p = Some v"
  using deep_assign_keeps [OF assms] deep_assign_stores [OF assms(1,2)] by simp

lemma deep_assign_paths_independent_witness:
  "path_get (deep_assign [(''recipe'', VDict [(''step'', VInt 2), (''name'', VStr ''rib'')])]
       (spine [''recipe'', ''step''] (VInt 3))) [''recipe'', ''name''] = Some (VStr ''rib'')"
  using deep_assign_paths_independent [of "[''recipe'', ''step'']" "VInt 3" "[''recipe'', ''name'']"
      "[(''recipe'', VDict [(''step'', VInt 2), (''name'', VStr ''rib'')])]"]
  by simp

lemma notify_writers_independent_witness:
  "\<exists>c' es'. op_notify_set [(''notify_data'', VList [VDict [(''label'', VStr ''Grill''), (''type'', VStr ''probe''),
       (''target'', VInt 0)]])]
       [(''label'', VStr ''Timer''), (''type'', VStr ''timer''), (''fields'', VDict [(''req'', VBool True)])] = Inr c'
     \<and> notify_entries c' = Inr es'
     \<and> lookup_entry es' ''Grill'' ''probe'' = Some (VDict [(''label'', VStr ''Grill''), (''type'', VStr ''probe''),
       (''target'', VInt 0)])"
proof -
  let ?es = "[VDict [(''label'', VStr ''Grill''), (''type'', VStr ''probe''), (''target'', VInt 0)]]"
  let ?c = "[(''notify_data'', VList ?es)]"
  let ?op = "[(''label'', VStr ''Timer''), (''type'', VStr ''timer''), (''fields'', VDict [(''req'', VBool True)])]"
  obtain c' where c: "op_notify_set ?c ?op = Inr c'"
    by (auto simp: op_notify_set_def notify_index_def notify_entries_def dindex_def dget_none_def
        entry_matches_VDict Let_def)
  have es: "notify_entries ?c = Inr ?es" by (simp add: notify_entries_def)
  have l: "lookup_entry ?es ''Grill'' ''probe'' = Some (hd ?es)"
    by (simp add: lookup_entry_def entry_matches_VDict dget_none_def)
  from notify_writers_independent [OF c _ _ _ _ _ _ es, of "''Timer''" "''timer''" "[(''req'', VBool True)]" "''Grill''" "''probe''"]
  show ?thesis using c l by auto
qed


end
