(* ===== verification/Control_Store.thy ===== *)
theory Control_Store
  imports Control_Delta
begin

text \<open>
  \<open>common/sqlite_queue.py\<close>, \<open>common/persistence/control.py\<close> and the control part of
  \<open>common/defaults.py\<close>: the durable control snapshot, the queue of deltas and its drain. A queue table is
  the list of its rows in id order with the AUTOINCREMENT counter; a row holds what \<open>json.loads\<close> makes
  of its text (\<open>None\<close>: the text is not JSON). Each function body runs in one transaction, so it is a
  function of the database; an uncaught exception rolls the transaction back, and the drain then stops
  with the rows not yet consumed.
\<close>

section \<open>Queues\<close>

type_synonym row = "int \<times> pyval option"

record queue =
  rows :: "row list"
  next_id :: int

definition queue_push :: "pyval \<Rightarrow> queue \<Rightarrow> queue" where
  "queue_push v q = q\<lparr>rows := rows q @ [(next_id q, Some v)], next_id := next_id q + 1\<rparr>"

definition queue_pop :: "queue \<Rightarrow> (pyval option \<times> queue) result" where
  "queue_pop q =
     (case rows q of
        [] \<Rightarrow> Inr (None, q)
      | (_, None) # _ \<Rightarrow> Inl (ValueError ''json'')
      | (_, Some v) # rs \<Rightarrow> Inr (Some v, q\<lparr>rows := rs\<rparr>))"

definition queue_length :: "queue \<Rightarrow> nat" where
  "queue_length q = length (rows q)"

definition decode_row :: "row \<Rightarrow> pyval result" where
  "decode_row r = (case snd r of None \<Rightarrow> Inl (ValueError ''json'') | Some v \<Rightarrow> Inr v)"

text \<open>Python slicing \<open>xs[lo:hi]\<close>, negative bounds counting from the end.\<close>

definition slice_bound :: "nat \<Rightarrow> int \<Rightarrow> nat" where
  "slice_bound n i = (if i < 0 then nat (max 0 (i + int n)) else min n (nat i))"

definition py_slice :: "int \<Rightarrow> int \<Rightarrow> 'a list \<Rightarrow> 'a list" where
  "py_slice lo hi xs =
     (let a = slice_bound (length xs) lo; b = slice_bound (length xs) hi in take (b - a) (drop a xs))"

definition slice_through :: "int \<Rightarrow> int \<Rightarrow> 'a list \<Rightarrow> 'a list" where
  "slice_through start stop xs =
     (if stop = -1 then drop (slice_bound (length xs) start) xs else py_slice start (stop + 1) xs)"

definition queue_list :: "queue \<Rightarrow> int \<Rightarrow> int \<Rightarrow> pyval list result" where
  "queue_list q start stop = ebind (emap_list decode_row (rows q)) (\<lambda>vs. Inr (slice_through start stop vs))"

definition queue_list_with_ids :: "queue \<Rightarrow> int \<Rightarrow> int \<Rightarrow> (int \<times> pyval) list result" where
  "queue_list_with_ids q start stop =
     ebind (emap_list (\<lambda>r. ebind (decode_row r) (\<lambda>v. Inr (fst r, v))) (rows q))
       (\<lambda>vs. Inr (slice_through start stop vs))"

definition queue_clear_through :: "int \<Rightarrow> queue \<Rightarrow> queue" where
  "queue_clear_through max_id q = q\<lparr>rows := List.filter (\<lambda>r. \<not> fst r \<le> max_id) (rows q)\<rparr>"

definition queue_flush :: "queue \<Rightarrow> queue" where
  "queue_flush q = q\<lparr>rows := []\<rparr>"

section \<open>The default control dictionary\<close>

definition vindex :: "pyval \<Rightarrow> string \<Rightarrow> pyval result" where
  "vindex v k = (case v of VDict d \<Rightarrow> dindex d k | _ \<Rightarrow> Inl (TypeError k))"

fun vpath :: "pyval \<Rightarrow> string list \<Rightarrow> pyval result" where
  "vpath v [] = Inr v"
| "vpath v (k # ks) = ebind (vindex v k) (\<lambda>w. vpath w ks)"

definition probe_notify :: "pyval \<Rightarrow> pyval list result" where
  "probe_notify probe =
     ebind (vindex probe ''type'') (\<lambda>kind.
       if py_eq kind (VStr ''Aux'') then Inr []
       else
         ebind (vindex probe ''label'') (\<lambda>label. ebind (vindex probe ''name'') (\<lambda>name.
           let info = [(''label'', label), (''name'', name), (''type'', VStr ''probe''),
                       (''req'', VBool False), (''target'', VInt 0), (''eta'', VNone),
                       (''shutdown'', VBool False), (''keep_warm'', VBool False),
                       (''reignite'', VBool False), (''condition'', VStr ''equal_above'')];
               high = dupdate info [(''type'', VStr ''probe_limit_high''),
                        (''condition'', VStr ''equal_above''), (''triggered'', VBool False)];
               low = dupdate info [(''type'', VStr ''probe_limit_low''),
                        (''condition'', VStr ''equal_below''), (''triggered'', VBool False)]
           in Inr [VDict info, VDict high, VDict low])))"

definition default_notify :: "pyval \<Rightarrow> pyval list result" where
  "default_notify settings =
     ebind (vpath settings [''probe_settings'', ''probe_map'', ''probe_info'']) (\<lambda>info.
     ebind (case info of VList ps \<Rightarrow> emap_list probe_notify ps | _ \<Rightarrow> Inl (TypeError ''probe_info'')) (\<lambda>probes.
     ebind (vpath settings [''pelletlevel'', ''warning_enabled'']) (\<lambda>warn.
       Inr (concat probes
         @ [VDict [(''label'', VStr ''Timer''), (''type'', VStr ''timer''), (''req'', VBool False),
              (''shutdown'', VBool False), (''keep_warm'', VBool False)],
            VDict [(''label'', VStr ''Hopper''), (''type'', VStr ''hopper''), (''req'', warn),
              (''last_check'', VInt 0), (''shutdown'', VBool False), (''keep_warm'', VBool False)],
            VDict [(''label'', VStr ''Test''), (''type'', VStr ''test''), (''req'', VBool False),
              (''shutdown'', VBool False), (''keep_warm'', VBool False)]]))))"

definition default_control :: "pyval \<Rightarrow> pydict result" where
  "default_control settings =
     ebind (vpath settings [''smoke_plus'', ''enabled'']) (\<lambda>s_plus.
     ebind (vpath settings [''pwm'', ''pwm_control'']) (\<lambda>pwm_control.
     ebind (vpath settings [''pwm'', ''max_duty_cycle'']) (\<lambda>duty.
     ebind (vpath settings [''safety'', ''reigniteretries'']) (\<lambda>retries.
     ebind (default_notify settings) (\<lambda>notify.
       Inr [(''updated'', VBool True), (''cook_id'', VNone), (''mode'', VStr ''Stop''),
            (''next_mode'', VStr ''Stop''), (''s_plus'', s_plus), (''pwm_control'', pwm_control),
            (''duty_cycle'', duty), (''hopper_check'', VBool False),
            (''recipe'', VDict [(''filename'', VStr []), (''start_step'', VInt 0), (''step'', VInt 0),
               (''step_data'', VDict [])]),
            (''lid_open_toggle'', VBool False), (''status'', VStr []),
            (''probe_profile_update'', VBool False), (''probe_map_update'', VBool False),
            (''settings_update'', VBool False), (''distance_update'', VBool False),
            (''controller_update'', VBool False), (''units_change'', VBool False),
            (''tuning_mode'', VBool False),
            (''safety'', VDict [(''startuptemp'', VInt 0), (''afterstarttemp'', VInt 0),
               (''reigniteretries'', retries), (''reignitelaststate'', VStr ''Smoke'')]),
            (''primary_setpoint'', VInt 0), (''notify_data'', VList notify),
            (''timer'', timer_value default_timer),
            (''manual'', VDict [(''change'', VBool False), (''pwm'', VInt 100)]),
            (''smartstart'', VDict [(''startuptemp'', VInt 0), (''profile_selected'', VInt 0)]),
            (''prime_amount'', VInt 10), (''startup_timestamp'', VInt 0), (''system'', VDict []),
            (''critical_error'', VBool False)])))))"

section \<open>The control database\<close>

text \<open>\<open>settings\<close> is what \<open>read_settings\<close> returns, on which \<open>default_control\<close> depends.\<close>

record control_db =
  settings :: pyval
  general :: "pydict option"
  command_blob :: "pyval option"
  q_control :: queue
  q_systemq :: queue
  q_systemo :: queue

definition read_control :: "control_db \<Rightarrow> pydict result" where
  "read_control db = (case general db of None \<Rightarrow> default_control (settings db) | Some c \<Rightarrow> Inr c)"

definition write_control_snapshot :: "pydict \<Rightarrow> control_db \<Rightarrow> control_db" where
  "write_control_snapshot control db = db\<lparr>general := Some control\<rparr>"

definition enqueue_control_delta :: "pydict \<Rightarrow> string \<Rightarrow> control_db \<Rightarrow> control_db result" where
  "enqueue_control_delta delta origin db =
     ebind (validate_control_delta (VDict delta)) (\<lambda>_.
       Inr (db\<lparr>q_control := queue_push (VDict (dput ''origin'' (VStr origin) delta)) (q_control db)\<rparr>))"

definition read_pending_control_writes :: "control_db \<Rightarrow> pyval list result" where
  "read_pending_control_writes db = queue_list (q_control db) 0 (-1)"

text \<open>\<open>s == s.strip()\<close> for a non-empty string.\<close>

definition trimmed :: "string \<Rightarrow> bool" where
  "trimmed s \<longleftrightarrow> s \<noteq> [] \<and> strip_chars is_space s = s"

definition trimmed_str :: "pyval \<Rightarrow> string option" where
  "trimmed_str v = (case v of VStr s \<Rightarrow> if trimmed s then Some s else None | _ \<Rightarrow> None)"

definition ensure_cook_id :: "string \<Rightarrow> pyval \<Rightarrow> control_db \<Rightarrow> (string \<times> control_db) result" where
  "ensure_cook_id fresh preferred db =
     ebind (read_control db) (\<lambda>control.
       case trimmed_str (dget_none control ''cook_id'') of
         Some current \<Rightarrow> Inr (current, db)
       | None \<Rightarrow>
           let cook_id = (case trimmed_str preferred of Some p \<Rightarrow> p | None \<Rightarrow> fresh)
           in Inr (cook_id, db\<lparr>general := Some (dput ''cook_id'' (VStr cook_id) control)\<rparr>))"

section \<open>Restart\<close>

text \<open>Does a queued row carry a timer intent? (Everything else is dropped at a restart.)\<close>

definition timer_intent_op :: "pyval \<Rightarrow> bool" where
  "timer_intent_op op =
     (case op of
        VDict d \<Rightarrow> (case dget_none d ''op'' of VStr s \<Rightarrow> prefix ''timer.'' s | _ \<Rightarrow> False)
      | _ \<Rightarrow> False)"

definition timer_intent :: "pyval option \<Rightarrow> bool" where
  "timer_intent v =
     (case v of
        Some (VDict d) \<Rightarrow> (case dget_none d ''ops'' of VList ops \<Rightarrow> list_ex timer_intent_op ops | _ \<Rightarrow> False)
      | _ \<Rightarrow> False)"

text \<open>The SQL filter on \<open>queue_systemq\<close>: only arrays headed by the history-clear command stay.\<close>

definition history_clear_row :: "pyval option \<Rightarrow> bool" where
  "history_clear_row v = (case v of Some (VList (VStr s # _)) \<Rightarrow> s = ''clear_history'' | _ \<Rightarrow> False)"

definition keep_rows :: "(pyval option \<Rightarrow> bool) \<Rightarrow> queue \<Rightarrow> queue" where
  "keep_rows p q = q\<lparr>rows := List.filter (\<lambda>r. p (snd r)) (rows q)\<rparr>"

definition flush_control :: "pyval \<Rightarrow> bool \<Rightarrow> control_db \<Rightarrow> (pydict \<times> control_db) result" where
  "flush_control cook_id preserve_pending_writes db =
     ebind (default_control (settings db)) (\<lambda>dflt.
       let control = dput ''cook_id'' cook_id dflt;
           db1 = db\<lparr>q_systemo := queue_flush (q_systemo db),
                    q_control := (if preserve_pending_writes then keep_rows timer_intent (q_control db)
                                  else queue_flush (q_control db)),
                    q_systemq := keep_rows history_clear_row (q_systemq db),
                    general := None, command_blob := None\<rparr>
       in Inr (control, write_control_snapshot control db1))"

section \<open>Calibration commands in the queue\<close>

fun first_calibration_command :: "pyval list \<Rightarrow> pydict option" where
  "first_calibration_command [] = None"
| "first_calibration_command (VDict op # ops) =
     (if \<not> py_eq (dget_none op ''op'') (VStr ''mpc_calibration.set'') then first_calibration_command ops
      else case dget_none op ''command'' of
             VDict c \<Rightarrow> Some c
           | _ \<Rightarrow> first_calibration_command ops)"
| "first_calibration_command (_ # ops) = first_calibration_command ops"

definition mpc_calibration_command_from_delta :: "pyval \<Rightarrow> pydict option result" where
  "mpc_calibration_command_from_delta delta =
     (case delta of
        VDict d \<Rightarrow>
          (case dget d ''ops'' of
             None \<Rightarrow> Inr None
           | Some (VList ops) \<Rightarrow> Inr (first_calibration_command ops)
           | Some (VDict _) \<Rightarrow> Inr None
           | Some (VStr _) \<Rightarrow> Inr None
           | Some _ \<Rightarrow> Inl (TypeError ''ops is not iterable''))
      | _ \<Rightarrow> Inr None)"

definition accepted_revision :: "pydict option \<Rightarrow> int" where
  "accepted_revision accepted =
     (case accepted of
        Some d \<Rightarrow> (case dget_none d ''revision'' of VInt n \<Rightarrow> n | _ \<Rightarrow> -1)
      | None \<Rightarrow> -1)"

definition newer_command :: "pydict option \<Rightarrow> pydict option \<Rightarrow> pydict option" where
  "newer_command accepted candidate =
     (case candidate of
        None \<Rightarrow> accepted
      | Some c \<Rightarrow>
          (case dget_none c ''revision'' of
             VInt n \<Rightarrow> if accepted_revision accepted < n then Some c else accepted
           | _ \<Rightarrow> accepted))"

definition mpc_calibration_command_state :: "pydict \<Rightarrow> pyval list \<Rightarrow> pydict option result" where
  "mpc_calibration_command_state control pending =
     efold (\<lambda>accepted delta. ebind (mpc_calibration_command_from_delta delta) (\<lambda>c. Inr (newer_command accepted c)))
       (case dget_none control ''mpc_calibration'' of VDict d \<Rightarrow> Some d | _ \<Rightarrow> None) pending"

definition mpc_calibration_command_revision :: "pydict \<Rightarrow> pyval list \<Rightarrow> int result" where
  "mpc_calibration_command_revision control pending =
     ebind (mpc_calibration_command_state control pending) (\<lambda>command.
       Inr (case command of
              None \<Rightarrow> 0
            | Some d \<Rightarrow> (case dget_none d ''revision'' of VInt n \<Rightarrow> n | _ \<Rightarrow> 0)))"

definition queue_mpc_calibration_command ::
    "pydict \<Rightarrow> pydict \<Rightarrow> string \<Rightarrow> control_db \<Rightarrow> (bool \<times> control_db) result" where
  "queue_mpc_calibration_command delta command origin db =
     ebind (validate_control_delta (VDict delta)) (\<lambda>_.
     ebind (read_control db) (\<lambda>control.
     ebind (emap_list decode_row (rows (q_control db))) (\<lambda>pending.
     ebind (mpc_calibration_command_state control pending) (\<lambda>accepted.
       let accepted_rev = (case accepted of None \<Rightarrow> VInt (-1) | Some d \<Rightarrow> dget_none d ''revision'');
           same = (case accepted of None \<Rightarrow> False | Some d \<Rightarrow> py_eq (VDict command) (VDict d))
       in ebind (dindex command ''revision'') (\<lambda>revision.
          ebind (py_less revision accepted_rev) (\<lambda>older.
          if older \<or> (py_eq revision accepted_rev \<and> \<not> same)
          then Inl (ControlDeltaError ''MPC calibration revision must exceed the accepted one'')
          else if same then Inr (False, db)
          else Inr (True, db\<lparr>q_control :=
                 queue_push (VDict (dput ''origin'' (VStr origin) delta)) (q_control db)\<rparr>)))))))"

section \<open>The drain\<close>

text \<open>The exceptions the drain catches: a rejected row is logged and consumed.\<close>

fun caught :: "pyexn \<Rightarrow> bool" where
  "caught (ControlDeltaError _) = True"
| "caught (TypeError _) = True"
| "caught (ValueError _) = True"
| "caught (KeyError _) = True"
| "caught IndexError = True"
| "caught (AttributeError _) = True"
| "caught _ = False"

definition apply_row ::
    "(int \<Rightarrow> nat \<Rightarrow> string) \<Rightarrow> pydict result \<Rightarrow> clock_stamp \<Rightarrow> pydict option \<Rightarrow> row \<Rightarrow> pydict result" where
  "apply_row ids dflt now snapshot r =
     (case snd r of
        None \<Rightarrow> Inl (ValueError ''json'')
      | Some command \<Rightarrow>
          if \<not> is_control_delta command then Inl (ControlDeltaError ''unversioned legacy control write'')
          else
            ebind (validate_control_delta command) (\<lambda>_.
            ebind (case snapshot of Some c \<Rightarrow> Inr c | None \<Rightarrow> dflt) (\<lambda>control.
            case command of
              VDict d \<Rightarrow> apply_control_delta (ids (fst r)) control d now
            | _ \<Rightarrow> Inl (AttributeError ''get''))))"

text \<open>The drain: the remaining snapshot and rows, and the exception that stopped it, if one did.\<close>

fun drain_rows ::
    "(int \<Rightarrow> nat \<Rightarrow> string) \<Rightarrow> pydict result \<Rightarrow> clock_stamp \<Rightarrow> pydict option \<Rightarrow> row list
       \<Rightarrow> pydict option \<times> row list \<times> pyexn option" where
  "drain_rows ids dflt now snapshot [] = (snapshot, [], None)"
| "drain_rows ids dflt now snapshot (r # rs) =
     (case apply_row ids dflt now snapshot r of
        Inr control \<Rightarrow> drain_rows ids dflt now (Some control) rs
      | Inl e \<Rightarrow>
          if caught e then drain_rows ids dflt now snapshot rs
          else (snapshot, r # rs, Some e))"

definition execute_control_writes ::
    "(int \<Rightarrow> nat \<Rightarrow> string) \<Rightarrow> clock_stamp \<Rightarrow> control_db \<Rightarrow> control_db \<times> pyexn option" where
  "execute_control_writes ids now db =
     (let (g, rs, e) = drain_rows ids (default_control (settings db)) now (general db) (rows (q_control db))
      in (db\<lparr>general := g, q_control := (q_control db)\<lparr>rows := rs\<rparr>\<rparr>, e))"

section \<open>What the control path can raise\<close>

text \<open>Every exception of the control path is caught by the drain, or is an overflow.\<close>

definition benign :: "pyexn \<Rightarrow> bool" where
  "benign e \<longleftrightarrow> caught e \<or> e = OverflowError"

lemma benign_simps [simp]: "benign (ControlDeltaError m)" "benign (TypeError m)" "benign (ValueError m)"
  "benign (KeyError m)" "benign IndexError" "benign (AttributeError m)" "benign OverflowError"
  by (simp_all add: benign_def)

lemma finite_or_benign [intro, simp]: "benign e \<Longrightarrow> raises_only benign (finite_or e v)"
  by (auto simp: finite_or_def split: pyval.split option.split)

lemma in_names_benign [simp]: "raises_only benign (in_names v ns)"
  by (auto simp: in_names_def)

lemma dindex_benign [simp]: "raises_only benign (dindex d k)"
  by (auto simp: dindex_def split: option.split)

lemma calibration_benign [simp]: "raises_only benign (validated_mpc_calibration_command v)"
  unfolding validated_mpc_calibration_command_def Let_def
  by (cases v) (auto intro!: raises_only_bind)

lemma validate_shape_benign [simp]: "raises_only benign (validate_op_shape v)"
  unfolding validate_op_shape_def Let_def
  by (auto intro!: raises_only_bind split: pyval.split option.split)

lemma validate_timer_op_benign [simp]: "raises_only benign (validate_timer_op d)"
  unfolding validate_timer_op_def by (intro raises_only_bind) (auto intro!: raises_only_bind)

lemma validate_types_benign [simp]: "raises_only benign (validate_op_types v)"
proof (cases v)
  case (VDict d)
  then show ?thesis
    by (auto simp: validate_op_types_def Let_def intro!: raises_only_bind)
qed (simp_all add: validate_op_types_def)

lemma validate_benign [simp]: "raises_only benign (validate_control_delta v)"
proof -
  have "raises_only benign (validate_set w)" for w
    by (auto simp: validate_set_def split: pyval.split)
  moreover have "raises_only benign (validate_delete_path w)" for w
    by (auto simp: validate_delete_path_def split: pyval.split)
  then have "raises_only benign (validate_delete w)" for w
    by (auto simp: validate_delete_def split: pyval.split)
  moreover have "raises_only benign (validate_ops w)" for w
    by (auto simp: validate_ops_def intro!: raises_only_bind split: pyval.split)
  ultimately show ?thesis
    by (auto simp: validate_control_delta_def intro!: raises_only_bind split: pyval.split)
qed

lemma wall_benign [simp]: "raises_only benign (wall v)"
  by (auto simp: wall_def split: option.split)

lemma parse_timer_benign [simp]: "raises_only benign (parse_timer v)"
proof -
  have "raises_only benign (timer_guards st r c a)" for st r c a
    by (auto simp: timer_guards_def)
  then show ?thesis
    by (auto simp: parse_timer_def Let_def intro!: raises_only_bind split: pyval.split option.split)
qed

lemma start_timer_benign [simp]: "raises_only benign (start_timer f s now)"
  by (auto simp: start_timer_def split: option.split)

lemma resume_timer_benign [simp]: "raises_only benign (resume_timer f t now)"
  by (auto simp: resume_timer_def intro!: raises_only_bind split: option.split)

lemma notify_entries_benign [simp]: "raises_only benign (notify_entries c)"
  by (auto simp: notify_entries_def split: option.split pyval.split)

lemma with_timer_entry_benign [simp]: "raises_only benign (with_timer_entry c fs)"
  by (auto simp: with_timer_entry_def timer_notify_index_def intro!: raises_only_bind split: option.split)

lemma notify_index_benign [simp]: "raises_only benign (notify_index c l k)"
  by (auto simp: notify_index_def intro!: raises_only_bind)

lemma op_notify_benign [simp]:
  "raises_only benign (op_notify_set c op)" "raises_only benign (op_notify_delete c op)"
  "raises_only benign (op_notify_replace c op)"
  unfolding op_notify_set_def op_notify_delete_def op_notify_replace_def Let_def
  by (auto intro!: raises_only_bind split: pyval.split option.split)

lemma op_timer_benign [simp]:
  "raises_only benign (op_timer_clear c)" "raises_only benign (op_timer_pause c now)"
  "raises_only benign (op_timer_start_or_resume f c op now)"
  "raises_only benign (op_timer_start_with_options f c op now)"
  unfolding op_timer_clear_def op_timer_pause_def op_timer_start_or_resume_def op_timer_start_with_options_def
  by (auto intro!: raises_only_bind)

lemma op_other_benign [simp]:
  "raises_only benign (op_mpc_calibration_set c op)" "raises_only benign (op_hold_set_setpoint c op)"
  unfolding op_mpc_calibration_set_def op_hold_set_setpoint_def Let_def
  by (auto intro!: raises_only_bind split: pyval.split)

lemma apply_op_benign [simp]: "raises_only benign (apply_op f c op now)"
  unfolding apply_op_def Let_def by simp

lemma apply_ops_benign [simp]: "raises_only benign (apply_ops ids i c ops now)"
  by (induction ops arbitrary: i c) auto

lemma envelope_benign [simp]:
  "raises_only benign (envelope_ops d)" "raises_only benign (envelope_deletes d)"
  "raises_only benign (envelope_set d)"
  unfolding envelope_ops_def envelope_deletes_def envelope_set_def
  by (auto intro!: raises_only_emap split: option.split pyval.split)

lemma apply_control_delta_benign: "raises_only benign (apply_control_delta ids c env now)"
  unfolding apply_control_delta_def by (auto intro!: raises_only_bind)

lemma apply_row_benign:
  assumes "raises_only benign dflt"
  shows "raises_only benign (apply_row ids dflt now snapshot r)"
  using assms apply_control_delta_benign unfolding apply_row_def
  by (auto intro!: raises_only_bind split: option.split pyval.split)

lemma vindex_benign [simp]: "raises_only benign (vindex v k)"
  by (auto simp: vindex_def split: pyval.split)

lemma vpath_benign [simp]: "raises_only benign (vpath v ks)"
  by (induction v ks rule: vpath.induct)
    (auto intro!: raises_only_bind)

lemma default_control_benign: "raises_only benign (default_control sv)"
proof -
  have "raises_only benign (probe_notify p)" for p
    by (auto simp: probe_notify_def Let_def intro!: raises_only_bind split: pyval.split)
  then show ?thesis
    by (auto simp: default_control_def default_notify_def intro!: raises_only_bind raises_only_emap split: pyval.split)
qed

section \<open>Queues are FIFO\<close>

text \<open>
  The interface the clients of a queue rely on: \<open>contents\<close> is what is still to be delivered, \<open>push\<close>
  appends, \<open>pop\<close> delivers the head.
\<close>

fun pop_n :: "('q \<Rightarrow> ('a option \<times> 'q) result) \<Rightarrow> nat \<Rightarrow> 'q \<Rightarrow> ('a option list \<times> 'q) result" where
  "pop_n pop 0 q = Inr ([], q)"
| "pop_n pop (Suc n) q =
     ebind (pop q) (\<lambda>(v, q'). ebind (pop_n pop n q') (\<lambda>(vs, q''). Inr (v # vs, q'')))"

locale fifo =
  fixes push :: "'a \<Rightarrow> 'q \<Rightarrow> 'q" and pop :: "'q \<Rightarrow> ('a option \<times> 'q) result"
    and contents :: "'q \<Rightarrow> 'a list" and ok :: "'q \<Rightarrow> bool"
  assumes push_ok: "ok q \<Longrightarrow> ok (push x q)"
    and push_contents: "ok q \<Longrightarrow> contents (push x q) = contents q @ [x]"
    and pop_empty: "ok q \<Longrightarrow> contents q = [] \<Longrightarrow> pop q = Inr (None, q)"
    and pop_head: "ok q \<Longrightarrow> contents q = x # xs \<Longrightarrow>
      \<exists>q'. pop q = Inr (Some x, q') \<and> ok q' \<and> contents q' = xs"
begin

lemma pushes: "ok q \<Longrightarrow> ok (fold push xs q) \<and> contents (fold push xs q) = contents q @ xs"
  by (induction xs arbitrary: q) (simp_all add: push_ok push_contents)

lemma pops: "ok q \<Longrightarrow> contents q = xs @ ys \<Longrightarrow>
    \<exists>q'. pop_n pop (length xs) q = Inr (map Some xs, q') \<and> ok q' \<and> contents q' = ys"
proof (induction xs arbitrary: q)
  case (Cons x xs)
  then obtain q1 where q1: "pop q = Inr (Some x, q1)" "ok q1" "contents q1 = xs @ ys"
    using pop_head [of q x "xs @ ys"] by auto
  with Cons.IH [OF q1(2,3)] show ?case by auto
qed simp

lemma interleaved:
  assumes "ok q" "contents q = xs @ ys"
  shows "\<exists>q'. pop_n pop (length xs) (fold push zs q) = Inr (map Some xs, q') \<and> ok q' \<and> contents q' = ys @ zs"
  using pops [of "fold push zs q" xs "ys @ zs"] pushes [OF assms(1), of zs] assms(2) by auto

end

text \<open>What holds of a queue table: ids strictly increase and stay below the counter, rows are JSON.\<close>

definition queue_ok :: "queue \<Rightarrow> bool" where
  "queue_ok q \<longleftrightarrow> sorted_wrt (<) (map fst (rows q)) \<and> (\<forall>r \<in> set (rows q). fst r < next_id q)
     \<and> (\<forall>r \<in> set (rows q). snd r \<noteq> None)"

definition queue_contents :: "queue \<Rightarrow> pyval list" where
  "queue_contents q = List.map_filter snd (rows q)"

lemma map_filter_Some [simp]: "List.map_filter f [] = []"
  "List.map_filter f (x # xs) = (case f x of None \<Rightarrow> [] | Some y \<Rightarrow> [y]) @ List.map_filter f xs"
  "List.map_filter f (xs @ ys) = List.map_filter f xs @ List.map_filter f ys"
  by (simp_all add: List.map_filter_def split: option.split)

interpretation sq: fifo queue_push queue_pop queue_contents queue_ok
proof unfold_locales
  show "queue_ok (queue_push x q)" if "queue_ok q" for x q
    using that by (auto simp: queue_ok_def queue_push_def sorted_wrt_append)
  show "queue_contents (queue_push x q) = queue_contents q @ [x]" for x q
    by (simp add: queue_contents_def queue_push_def)
  show "queue_pop q = Inr (None, q)" if "queue_ok q" "queue_contents q = []" for q
    using that by (cases "rows q") (auto simp: queue_contents_def queue_ok_def queue_pop_def)
  show "\<exists>q'. queue_pop q = Inr (Some x, q') \<and> queue_ok q' \<and> queue_contents q' = xs"
    if "queue_ok q" "queue_contents q = x # xs" for q x xs
    using that by (cases "rows q") (auto simp: queue_contents_def queue_ok_def queue_pop_def)
qed

lemma queue_contents_rows: "queue_ok q \<Longrightarrow> map (\<lambda>r. Some (snd r)) (rows q) = map (\<lambda>v. Some (Some v)) (queue_contents q)"
proof -
  have "\<forall>r \<in> set rs. snd r \<noteq> None \<Longrightarrow> map (\<lambda>r. Some (snd r)) rs = map (\<lambda>v. Some (Some v)) (List.map_filter snd rs)"
    for rs :: "row list" by (induction rs) auto
  then show "queue_ok q \<Longrightarrow> ?thesis" by (simp add: queue_ok_def queue_contents_def)
qed

lemma queue_list_contents:
  "queue_ok q \<Longrightarrow> emap_list decode_row (rows q) = Inr (queue_contents q)"
proof -
  have "\<forall>r \<in> set rs. snd r \<noteq> None \<Longrightarrow> emap_list decode_row rs = Inr (List.map_filter snd rs)"
    for rs :: "row list" by (induction rs) (auto simp: decode_row_def)
  then show "queue_ok q \<Longrightarrow> ?thesis" by (simp add: queue_ok_def queue_contents_def)
qed

lemma queue_list_all:
  "queue_ok q \<and> queue_contents q = vs \<Longrightarrow> queue_list q 0 (-1) = Inr vs"
  by (auto simp: queue_list_def queue_list_contents slice_through_def slice_bound_def)

lemma queue_push_sel [simp]: "rows (queue_push v q) = rows q @ [(next_id q, Some v)]"
  "next_id (queue_push v q) = next_id q + 1"
  by (simp_all add: queue_push_def)

lemma rows_pushes:
  "\<exists>new. rows (fold queue_push zs q) = rows q @ new \<and> map snd new = map Some zs
     \<and> (\<forall>r \<in> set new. next_id q \<le> fst r)"
proof (induction zs arbitrary: q)
  case (Cons z zs)
  obtain new where new: "rows (fold queue_push zs (queue_push z q)) = rows (queue_push z q) @ new"
    "map snd new = map Some zs" "\<forall>r \<in> set new. next_id (queue_push z q) \<le> fst r"
    using Cons.IH by blast
  then show ?case
    by (intro exI [of _ "(next_id q, Some z) # new"]) auto
qed simp

lemma map_filter_snd: "map snd rs = map Some vs \<Longrightarrow> List.map_filter snd rs = vs"
  by (induction rs arbitrary: vs) auto

text \<open>The SQLite queues are first-in first-out under concurrent writers: whatever entries other writers
  push meanwhile, popping as many entries as were pending delivers exactly the pending ones in their order,
  and afterwards \<open>list\<close> returns exactly what was pushed, in order.\<close>

theorem queue_delivers_in_order:
  assumes "queue_ok q" "queue_contents q = xs @ ys"
  shows "\<exists>q'. pop_n queue_pop (length xs) (fold queue_push zs q) = Inr (map Some xs, q')
    \<and> queue_list q' 0 (-1) = Inr (ys @ zs)"
  using sq.interleaved [OF assms, of zs] queue_list_all by blast

lemma queue_delivers_in_order_witness:
  "\<exists>q'. pop_n queue_pop (length [VInt 1]) (fold queue_push [VInt 3] \<lparr>rows = [(4, Some (VInt 1)), (7, Some (VInt 2))], next_id = 9\<rparr>)
      = Inr (map Some [VInt 1], q') \<and> queue_list q' 0 (-1) = Inr ([VInt 2] @ [VInt 3])"
  by (rule queue_delivers_in_order) (simp_all add: queue_ok_def queue_contents_def)

text \<open>Clearing up to a high-water mark never drops an entry the caller has not seen: after
  \<open>clear_through\<close> with the last id a reader saw, exactly the entries pushed since remain, in order, and the
  queue stays well formed.\<close>

theorem clear_through_keeps_later:
  assumes "queue_ok q" "rows q \<noteq> []" "max_id = fst (last (rows q))"
  shows "queue_contents (queue_clear_through max_id (fold queue_push zs q)) = zs
    \<and> queue_ok (queue_clear_through max_id (fold queue_push zs q))"
proof -
  have le: "\<forall>r \<in> set (rows q). fst r \<le> max_id"
  proof -
    from assms(2) obtain rs r where rs: "rows q = rs @ [r]" by (metis append_butlast_last_id)
    with assms(1,3) show ?thesis by (auto simp: queue_ok_def sorted_wrt_append)
  qed
  have below: "max_id < next_id q"
    using assms by (auto simp: queue_ok_def)
  obtain new where new: "rows (fold queue_push zs q) = rows q @ new" "map snd new = map Some zs"
      "\<forall>r \<in> set new. next_id q \<le> fst r"
    using rows_pushes by blast
  have none: "List.filter (\<lambda>r. \<not> fst r \<le> max_id) (rows q) = []"
    using le by (simp add: filter_empty_conv)
  have all: "List.filter (\<lambda>r. \<not> fst r \<le> max_id) new = new"
    using new(3) below by (intro filter_True) auto
  have filt: "List.filter (\<lambda>r. \<not> fst r \<le> max_id) (rows q @ new) = new"
    using none all by (simp only: filter_append append_Nil)
  have "queue_ok (fold queue_push zs q)" using sq.pushes [OF assms(1)] by blast
  then have "queue_ok (queue_clear_through max_id (fold queue_push zs q))"
    by (auto simp: queue_ok_def queue_clear_through_def new(1) filt sorted_wrt_append simp del: filter_append)
  then show ?thesis using filt map_filter_snd [OF new(2)]
    by (simp add: queue_contents_def queue_clear_through_def new(1) del: filter_append)
qed

lemma clear_through_keeps_later_witness:
  "queue_contents (queue_clear_through 7 (fold queue_push [VInt 3] \<lparr>rows = [(4, Some (VInt 1)), (7, Some (VInt 2))], next_id = 9\<rparr>)) = [VInt 3]
    \<and> queue_ok (queue_clear_through 7 (fold queue_push [VInt 3] \<lparr>rows = [(4, Some (VInt 1)), (7, Some (VInt 2))], next_id = 9\<rparr>))"
  by (rule clear_through_keeps_later) (simp_all add: queue_ok_def)

section \<open>The drain is a fold that skips rejected rows\<close>

abbreviation row_step ::
    "(int \<Rightarrow> nat \<Rightarrow> string) \<Rightarrow> pydict result \<Rightarrow> clock_stamp \<Rightarrow> pydict option \<Rightarrow> row \<Rightarrow> pydict option result" where
  "row_step ids dflt now s r \<equiv> ebind (apply_row ids dflt now s r) (\<lambda>c. Inr (Some c))"

lemma attempt_row [simp]:
  "apply_row ids dflt now s r = Inr c \<Longrightarrow> attempt (row_step ids dflt now) s r = Some c"
  "apply_row ids dflt now s r = Inl e \<Longrightarrow> attempt (row_step ids dflt now) s r = s"
  by (simp_all add: attempt_def)

lemma drain_rows_fold:
  assumes "drain_rows ids dflt now s rs = (s', rest, e)"
  shows "\<exists>done. rs = done @ rest \<and> s' = foldl (attempt (row_step ids dflt now)) s done
    \<and> (case e of None \<Rightarrow> rest = []
       | Some x \<Rightarrow> \<not> caught x \<and> rest \<noteq> [] \<and> apply_row ids dflt now s' (hd rest) = Inl x)"
  using assms
proof (induction rs arbitrary: s)
  case (Cons r rs)
  show ?case
  proof (cases "\<exists>x. apply_row ids dflt now s r = Inl x \<and> \<not> caught x")
    case True
    with Cons.prems show ?thesis by (intro exI [of _ "[]"]) auto
  next
    case False
    then have "drain_rows ids dflt now (attempt (row_step ids dflt now) s r) rs = (s', rest, e)"
      using Cons.prems by (cases "apply_row ids dflt now s r") auto
    from Cons.IH [OF this] obtain dn where
      "rs = dn @ rest" "s' = foldl (attempt (row_step ids dflt now)) s (r # dn)"
      "(case e of None \<Rightarrow> rest = [] | Some x \<Rightarrow> \<not> caught x \<and> rest \<noteq> [] \<and> apply_row ids dflt now s' (hd rest) = Inl x)"
      by auto
    then show ?thesis by (intro exI [of _ "r # dn"]) simp
  qed
qed simp

lemma drain_rows_append:
  "drain_rows ids dflt now s rs = (s', [], None) \<Longrightarrow>
     drain_rows ids dflt now s (rs @ ts) = drain_rows ids dflt now s' ts"
  by (induction rs arbitrary: s) (auto split: sum.splits if_splits)

lemma drain_unchanged:
  "(\<And>r. r \<in> set rs \<Longrightarrow> \<exists>e. apply_row ids dflt now s r = Inl e) \<Longrightarrow> fst (drain_rows ids dflt now s rs) = s"
proof (induction rs)
  case (Cons r rs)
  then obtain e where "apply_row ids dflt now s r = Inl e" by (meson list.set_intros(1))
  with Cons show ?case by simp
qed simp

text \<open>C2: Draining the control queue applies the queued deltas in the order they were queued: a prefix of the
  rows is consumed, the snapshot becomes what folding exactly that prefix over it gives, a rejected row
  changing nothing, and the drain consumes every row unless an exception escapes it; the only exception that
  can is an \<open>OverflowError\<close> of the row then at the head.\<close>

theorem drain_is_fold:
  "\<exists>consumed. rows (q_control db) = consumed @ rows (q_control (fst (execute_control_writes ids now db)))
    \<and> general (fst (execute_control_writes ids now db))
       = foldl (attempt (row_step ids (default_control (settings db)) now)) (general db) consumed
    \<and> (case snd (execute_control_writes ids now db) of
         None \<Rightarrow> rows (q_control (fst (execute_control_writes ids now db))) = []
       | Some e \<Rightarrow> e = OverflowError \<and> (\<exists>r rest. rows (q_control (fst (execute_control_writes ids now db))) = r # rest
           \<and> apply_row ids (default_control (settings db)) now
               (general (fst (execute_control_writes ids now db))) r = Inl OverflowError))"
proof -
  obtain g rs e where d: "drain_rows ids (default_control (settings db)) now (general db) (rows (q_control db)) = (g, rs, e)"
    by (cases "drain_rows ids (default_control (settings db)) now (general db) (rows (q_control db))")
  obtain dn where dn: "rows (q_control db) = dn @ rs"
    "g = foldl (attempt (row_step ids (default_control (settings db)) now)) (general db) dn"
    "(case e of None \<Rightarrow> rs = [] | Some x \<Rightarrow> \<not> caught x \<and> rs \<noteq> []
        \<and> apply_row ids (default_control (settings db)) now g (hd rs) = Inl x)"
    using drain_rows_fold [OF d] by auto
  have over: "x = OverflowError"
    if "\<not> caught x" "apply_row ids (default_control (settings db)) now g (hd rs) = Inl x" for x
    using that apply_row_benign [OF default_control_benign, of ids "settings db" now g "hd rs"]
    by (auto simp: raises_only_def benign_def)
  have ex: "execute_control_writes ids now db = (db\<lparr>general := g, q_control := (q_control db)\<lparr>rows := rs\<rparr>\<rparr>, e)"
    using d by (simp add: execute_control_writes_def)
  show ?thesis
    unfolding ex using dn over
    by (cases e; cases rs) (auto intro!: exI [of _ dn] simp del: foldl_append)
qed

section \<open>A row the drain cannot get past\<close>

definition huge_setpoint_delta :: pydict where
  "huge_setpoint_delta = [(CONTROL_DELTA_KEY, VInt 2),
     (''ops'', VList [VDict [(''op'', VStr ''hold.set_setpoint''), (''setpoint'', VInt (10 ^ 400))]])]"

lemma huge_overflows: "validate_control_delta (VDict huge_setpoint_delta) = Inl OverflowError"
proof -
  have "\<not> in_dbl (10 ^ 400)"
    by (simp add: in_dbl_def dbl_limit_def)
  then show ?thesis
    by (simp add: huge_setpoint_delta_def validate_control_delta_def allowed_members_def CONTROL_DELTA_KEY_def
        CONTROL_DELTA_VERSION_def dget_none_def validate_set_def validate_delete_def validate_ops_def
        validate_op_shape_def in_names_def op_fields_def validate_op_types_def is_timer_op_def
        Let_def finite_or_def num_eq_def py_simps)
qed


section \<open>Admission\<close>

lemma dget_none_origin [simp]: "k \<noteq> ''origin'' \<Longrightarrow> dget_none (dput ''origin'' v d) k = dget_none d k"
  by simp

lemma keys_dput: "fst ` set (dput k v d) = insert k (fst ` set d)"
  by (simp add: dput_def dom_update)

lemma origin_allowed: "''origin'' \<in> set allowed_members"
  by (simp add: allowed_members_def)

lemma control_delta_key_not_origin [simp]: "CONTROL_DELTA_KEY \<noteq> ''origin''" "''origin'' \<noteq> CONTROL_DELTA_KEY"
  by (simp_all add: CONTROL_DELTA_KEY_def)

lemma validate_origin:
  "validate_control_delta (VDict (dput ''origin'' v d)) = validate_control_delta (VDict d)"
  by (simp add: validate_control_delta_def keys_dput origin_allowed)

lemma apply_origin:
  "apply_control_delta ids c (dput ''origin'' v d) now = apply_control_delta ids c d now"
  by (simp add: apply_control_delta_def validate_origin envelope_ops_def envelope_set_def envelope_deletes_def)

text \<open>C15: A delta that \<open>enqueue_control_delta\<close> admits reaches the live control: once the rows queued before it
  have drained, draining it stores exactly the control that applying the delta (without the queue's origin
  stamp) to the snapshot of that moment yields, or leaves the snapshot alone when applying it is refused.\<close>

theorem enqueued_delta_is_applied:
  assumes "enqueue_control_delta delta origin db = Inr db1"
    and "execute_control_writes ids now db = (db2, None)"
  shows "general (fst (execute_control_writes ids now db1)) =
    (case ebind (read_control db2) (\<lambda>c. apply_control_delta (ids (next_id (q_control db))) c delta now) of
       Inr c \<Rightarrow> Some c
     | Inl _ \<Rightarrow> general db2)"
proof -
  let ?row = "(next_id (q_control db), Some (VDict (dput ''origin'' (VStr origin) delta)))"
  let ?d = "default_control (settings db)"
  from assms(1) have valid: "validate_control_delta (VDict delta) = Inr ()"
    and db1: "db1 = db\<lparr>q_control := queue_push (VDict (dput ''origin'' (VStr origin) delta)) (q_control db)\<rparr>"
    by (auto simp: enqueue_control_delta_def elim!: ebind_InrE)
  obtain g rs e where dr: "drain_rows ids ?d now (general db) (rows (q_control db)) = (g, rs, e)"
    by (cases "drain_rows ids ?d now (general db) (rows (q_control db))")
  with assms(2) have e: "e = None" and g: "general db2 = g" and s: "settings db2 = settings db"
    by (auto simp: execute_control_writes_def)
  with dr drain_rows_fold [OF dr] have dr0: "drain_rows ids ?d now (general db) (rows (q_control db)) = (g, [], None)"
    by auto
  have "dget delta CONTROL_DELTA_KEY \<noteq> None"
    using valid by (auto simp: validate_control_delta_def dget_none_def CONTROL_DELTA_VERSION_def split: if_splits option.splits)
  then have cd: "is_control_delta (VDict (dput ''origin'' (VStr origin) delta))"
    by (simp add: is_control_delta_def)
  have row: "apply_row ids ?d now g ?row = ebind (read_control db2) (\<lambda>c. apply_control_delta (ids (next_id (q_control db))) c delta now)"
    using g s by (simp add: apply_row_def cd validate_origin valid apply_origin read_control_def)
      (cases g; simp)
  have "general (fst (execute_control_writes ids now db1)) = fst (drain_rows ids ?d now g [?row])"
    using drain_rows_append [OF dr0, of "[?row]"]
    by (simp add: execute_control_writes_def db1 split: prod.split)
  also have "\<dots> = (case apply_row ids ?d now g ?row of Inr c \<Rightarrow> Some c | Inl _ \<Rightarrow> g)"
    by (auto split: sum.split)
  finally show ?thesis by (simp add: row g split: sum.split)
qed

section \<open>Restart\<close>

text \<open>Is some queued timer operation addressed to the control runtime \<open>rt\<close>?\<close>

definition addressed_to :: "string \<Rightarrow> pyval option \<Rightarrow> bool" where
  "addressed_to rt v =
     (case v of
        Some (VDict d) \<Rightarrow>
          (case dget_none d ''ops'' of
             VList ops \<Rightarrow> list_ex (\<lambda>op. case op of
                 VDict x \<Rightarrow> dget_none x ''target_runtime_id'' = VStr rt | _ \<Rightarrow> False) ops
           | _ \<Rightarrow> False)
      | _ \<Rightarrow> False)"

lemma emap_list_nth:
  "emap_list f xs = Inr ys \<Longrightarrow> x \<in> set xs \<Longrightarrow> \<exists>y \<in> set ys. f x = Inr y"
  by (induction xs arbitrary: ys) (auto simp: ebind_Inr_iff)

lemma timer_intent_opD:
  "timer_intent_op v \<Longrightarrow> \<exists>x. v = VDict x \<and> prefix ''timer.'' (str_of (dget_none x ''op''))"
  by (cases v) (auto simp: timer_intent_op_def split: pyval.split_asm)

lemma retired_timer_row_rejected:
  assumes "timer_intent (snd r)" "\<not> addressed_to (runtime_id now) (snd r)"
  shows "\<exists>e. apply_row ids dflt now s r = Inl e"
proof (rule ccontr)
  assume "\<nexists>e. apply_row ids dflt now s r = Inl e"
  then obtain c' where ok: "apply_row ids dflt now s r = Inr c'" by (cases "apply_row ids dflt now s r") auto
  from assms(1) obtain d ops x where d: "snd r = Some (VDict d)" "dget_none d ''ops'' = VList ops"
    "VDict x \<in> set ops" "prefix ''timer.'' (str_of (dget_none x ''op''))"
    by (auto simp: timer_intent_def list_ex_iff dest!: timer_intent_opD
        split: option.split_asm pyval.split_asm)
  from ok d(1) obtain c where v: "validate_control_delta (VDict d) = Inr ()"
    and a: "apply_control_delta (ids (fst r)) c d now = Inr c'"
    by (auto simp: apply_row_def elim!: ebind_InrE split: if_splits)
  have key: "py_eq (dget_none d CONTROL_DELTA_KEY) (VInt CONTROL_DELTA_VERSION)"
    using v by (auto simp: validate_control_delta_def split: if_splits)
  from a key obtain xs where xs: "envelope_ops d = Inr xs" "\<not> list_ex (fenced now) xs"
    by (auto elim!: apply_control_delta_InrE)
  have "dget d ''ops'' = Some (VList ops)"
    using d(2) by (auto simp: dget_none_def split: option.splits)
  with xs(1) d(3) have "x \<in> set xs"
    using emap_list_nth [of _ ops xs "VDict x"] by (fastforce simp: envelope_ops_def)
  with xs(2) have "\<not> fenced now x" by (auto simp: list_ex_iff)
  with d(4) have "dget_none x ''target_runtime_id'' = VStr (runtime_id now)"
    by (simp add: fenced_def is_timer_op_def)
  with d assms(2) show False
    by (auto simp: addressed_to_def list_ex_iff)
qed

text \<open>C1: A restart never resurrects the cook of the previous process: after \<open>flush_control\<close> has kept the
  pending queue, and with a clock stamp of a runtime that no queued timer operation addresses (the identity
  is drawn anew at every start), draining the kept queue leaves exactly the fresh default control, stopped
  and with the given cook identity.\<close>

theorem restart_resurrects_nothing:
  assumes "flush_control cook_id True db = Inr (control, db')"
    and "\<forall>r \<in> set (rows (q_control db)). \<not> addressed_to (runtime_id now) (snd r)"
  shows "general (fst (execute_control_writes ids now db')) = Some control
    \<and> dget control ''mode'' = Some (VStr ''Stop'') \<and> dget control ''cook_id'' = Some cook_id"
proof -
  obtain dc where dc: "default_control (settings db) = Inr dc" "control = dput ''cook_id'' cook_id dc"
    "general db' = Some control" "q_control db' = keep_rows timer_intent (q_control db)"
    using assms(1) by (auto simp: flush_control_def Let_def write_control_snapshot_def elim!: ebind_InrE)
  have "dget dc ''mode'' = Some (VStr ''Stop'')"
    using dc(1) by (auto simp: default_control_def elim!: ebind_InrE)
  moreover have "\<exists>e. apply_row ids dflt now s r = Inl e" if "r \<in> set (rows (q_control db'))" for r dflt s
    using that assms(2) dc(4) by (auto simp: keep_rows_def intro: retired_timer_row_rejected)
  then have "fst (drain_rows ids (default_control (settings db')) now (general db') (rows (q_control db'))) = general db'"
    by (intro drain_unchanged)
  then have "general (fst (execute_control_writes ids now db')) = general db'"
    by (simp add: execute_control_writes_def split: prod.split) (metis fst_conv)
  ultimately show ?thesis using dc by simp
qed

section \<open>A concrete database\<close>

definition demo_settings :: pyval where
  "demo_settings = VDict
     [(''smoke_plus'', VDict [(''enabled'', VBool False)]),
      (''pwm'', VDict [(''pwm_control'', VBool False), (''max_duty_cycle'', VInt 100)]),
      (''safety'', VDict [(''reigniteretries'', VInt 1)]),
      (''pelletlevel'', VDict [(''warning_enabled'', VBool True)]),
      (''probe_settings'', VDict [(''probe_map'', VDict [(''probe_info'', VList
         [VDict [(''type'', VStr ''Primary''), (''label'', VStr ''Grill''), (''name'', VStr ''Grill'')]])])])]"

definition demo_queue :: "row list \<Rightarrow> queue" where
  "demo_queue rs = \<lparr>rows = rs, next_id = 9\<rparr>"

definition demo_db :: "row list \<Rightarrow> control_db" where
  "demo_db rs = \<lparr>settings = demo_settings, general = Some demo_control, command_blob = None,
     q_control = demo_queue rs, q_systemq = demo_queue [], q_systemo = demo_queue []\<rparr>"

lemma demo_hold_valid: "validate_control_delta (VDict demo_hold) = Inr ()"
  by code_simp

lemma demo_enqueue:
  "enqueue_control_delta demo_hold ''api'' (demo_db []) =
     Inr (demo_db [] \<lparr>q_control := queue_push (VDict (dput ''origin'' (VStr ''api'') demo_hold)) (demo_queue [])\<rparr>)"
  by (simp add: enqueue_control_delta_def demo_hold_valid) (simp add: demo_db_def)

lemma demo_drain_empty: "execute_control_writes ids now (demo_db []) = (demo_db [], None)"
  by (simp add: execute_control_writes_def demo_db_def demo_queue_def)

lemma enqueued_delta_is_applied_witness:
  "\<exists>db1. enqueue_control_delta demo_hold ''api'' (demo_db []) = Inr db1 \<and>
     general (fst (execute_control_writes (\<lambda>_ _. demo_uuid) (demo_stamp 0) db1)) =
       Some [(''cook_id'', VStr ''cook-1''), (''mode'', VStr ''Hold''), (''updated'', VBool True),
          (''primary_setpoint'', VInt 225)]"
  using enqueued_delta_is_applied [OF demo_enqueue demo_drain_empty, of "\<lambda>_ _. demo_uuid" "demo_stamp 0"]
    demo_hold_applied demo_enqueue by (simp add: read_control_def demo_db_def)

definition demo_other_uuid :: string where
  "demo_other_uuid = ''123e4567-e89b-12d3-a456-426614174999''"

definition demo_retired_row :: row where
  "demo_retired_row = (3, Some (VDict [(CONTROL_DELTA_KEY, VInt 2),
     (''ops'', VList [VDict [(''op'', VStr ''timer.clear''), (''requested_wall_s'', VInt 5),
        (''target_runtime_id'', VStr demo_other_uuid)]])]))"

lemma demo_flush: "\<exists>r. flush_control (VStr ''new'') True (demo_db [demo_retired_row]) = Inr r"
  by (simp add: flush_control_def demo_db_def demo_settings_def default_control_def vindex_def dindex_def
      default_notify_def probe_notify_def Let_def)

lemma restart_resurrects_nothing_witness:
  "\<exists>control db'. flush_control (VStr ''new'') True (demo_db [demo_retired_row]) = Inr (control, db')
     \<and> general (fst (execute_control_writes (\<lambda>_ _. demo_uuid) (demo_stamp 0) db')) = Some control
     \<and> dget control ''mode'' = Some (VStr ''Stop'')"
proof -
  obtain control db' where f: "flush_control (VStr ''new'') True (demo_db [demo_retired_row]) = Inr (control, db')"
    using demo_flush by (metis prod.exhaust)
  have "\<forall>r \<in> set (rows (q_control (demo_db [demo_retired_row]))). \<not> addressed_to (runtime_id (demo_stamp 0)) (snd r)"
    by (simp add: demo_db_def demo_queue_def demo_retired_row_def addressed_to_def CONTROL_DELTA_KEY_def
        dget_none_def demo_other_uuid_def demo_stamp_def demo_uuid_def)
  from restart_resurrects_nothing [OF f this] f show ?thesis by blast
qed

section \<open>Admission of calibration commands\<close>

lemma first_command_mem:
  "first_calibration_command ops = Some c \<Longrightarrow>
     \<exists>op. VDict op \<in> set ops \<and> dget_none op ''op'' = VStr ''mpc_calibration.set'' \<and> dget_none op ''command'' = VDict c"
  by (induction ops rule: first_calibration_command.induct) (auto split: if_splits pyval.splits)

lemma admitted_command_revision:
  assumes "validate_control_delta (VDict delta) = Inr ()"
    and "mpc_calibration_command_from_delta (VDict delta) = Inr (Some command)"
  shows "\<exists>n. dget_none command ''revision'' = VInt n \<and> 1 \<le> n"
proof -
  from assms(2) obtain ops where ops: "dget delta ''ops'' = Some (VList ops)" "first_calibration_command ops = Some command"
    by (auto simp: mpc_calibration_command_from_delta_def split: option.split_asm pyval.split_asm)
  then obtain op where op: "VDict op \<in> set ops" "dget_none op ''op'' = VStr ''mpc_calibration.set''"
      "dget_none op ''command'' = VDict command"
    using first_command_mem by blast
  have "validate_ops (VList ops) = Inr ()"
    using validate_control_delta_parts(3) [OF assms(1)] ops(1) by (simp add: dget_none_def)
  then have "validate_op_types (VDict op) = Inr ()"
    using op(1) by (auto simp: validate_ops_def elim!: ebind_InrE dest: efold_unit_all)
  then obtain cmd where cmd: "validated_mpc_calibration_command (VDict command) = Inr cmd"
    using op(2,3) by (auto simp: validate_op_types_def Let_def elim!: ebind_InrE)
  then have "case dget_none command ''revision'' of VInt n \<Rightarrow> 1 \<le> n | _ \<Rightarrow> False"
    by (auto simp: validated_mpc_calibration_command_def Let_def elim!: ebind_InrE split: if_splits)
  then show ?thesis by (simp split: pyval.split_asm)
qed

lemma state_append:
  "mpc_calibration_command_state c (xs @ [x]) =
     ebind (mpc_calibration_command_state c xs) (\<lambda>a. ebind (mpc_calibration_command_from_delta x) (\<lambda>y. Inr (newer_command a y)))"
  by (simp add: mpc_calibration_command_state_def efold_append ebind_assoc)

lemma from_delta_origin:
  "mpc_calibration_command_from_delta (VDict (dput ''origin'' v d)) = mpc_calibration_command_from_delta (VDict d)"
  by (simp add: mpc_calibration_command_from_delta_def)

lemma emap_list_append:
  "emap_list f (xs @ ys) = ebind (emap_list f xs) (\<lambda>as. ebind (emap_list f ys) (\<lambda>bs. Inr (as @ bs)))"
  by (induction xs) (auto simp: ebind_assoc)

text \<open>Admission of calibration commands is atomic and strictly ordered: when
  \<open>queue_mpc_calibration_command\<close> queues a delta for its calibration command, that command becomes the
  accepted one of the live control and the queue together, and the accepted revision strictly grows over
  what it was, so two clients can never have both accepted the same revision.\<close>

theorem calibration_admission_strict:
  assumes "queue_mpc_calibration_command delta command origin db = Inr (True, db')"
    and "mpc_calibration_command_from_delta (VDict delta) = Inr (Some command)"
  shows "\<exists>control pending pending' old new. read_control db' = Inr control
    \<and> emap_list decode_row (rows (q_control db)) = Inr pending
    \<and> emap_list decode_row (rows (q_control db')) = Inr pending'
    \<and> mpc_calibration_command_state control pending' = Inr (Some command)
    \<and> mpc_calibration_command_revision control pending = Inr old
    \<and> mpc_calibration_command_revision control pending' = Inr new \<and> old < new"
proof -
  define same where "same accepted = (case accepted of None \<Rightarrow> False | Some d \<Rightarrow> py_eq (VDict command) (VDict d))"
    for accepted
  define rev where "rev accepted = (case accepted of None \<Rightarrow> VInt (-1) | Some d \<Rightarrow> dget_none d ''revision'')"
    for accepted
  from assms(1) have valid: "validate_control_delta (VDict delta) = Inr ()"
    by (auto simp: queue_mpc_calibration_command_def elim!: ebind_InrE)
  from admitted_command_revision [OF valid assms(2)] obtain n where n: "dget_none command ''revision'' = VInt n" "1 \<le> n"
    by blast
  from assms(1) obtain control pending accepted revision older where
    control: "read_control db = Inr control"
    and pending: "emap_list decode_row (rows (q_control db)) = Inr pending"
    and accepted: "mpc_calibration_command_state control pending = Inr accepted"
    and revision: "dindex command ''revision'' = Inr revision"
    and older: "py_less revision (rev accepted) = Inr older"
    and rest: "(if older \<or> (py_eq revision (rev accepted) \<and> \<not> same accepted)
        then Inl (ControlDeltaError ''MPC calibration revision must exceed the accepted one'')
        else if same accepted then Inr (False, db)
        else Inr (True, db\<lparr>q_control :=
               queue_push (VDict (dput ''origin'' (VStr origin) delta)) (q_control db)\<rparr>)) = Inr (True, db')"
    unfolding queue_mpc_calibration_command_def Let_def same_def [symmetric] rev_def [symmetric]
    by (elim ebind_InrE) (rule that)
  have rv: "revision = VInt n"
    using revision n(1) by (auto simp: dindex_def dget_none_def split: option.splits)
  have db': "db' = db\<lparr>q_control := queue_push (VDict (dput ''origin'' (VStr origin) delta)) (q_control db)\<rparr>"
    and neq: "\<not> older" "\<not> py_eq revision (rev accepted)"
    using rest by (auto split: if_splits)
  have lt: "accepted_revision accepted < n"
    using neq older n(2) by (auto simp: rv rev_def accepted_revision_def num_eq_def py_simps
        split: option.splits pyval.splits)
  have new: "newer_command accepted (Some command) = Some command"
    using lt n(1) by (simp add: newer_command_def)
  have pending': "emap_list decode_row (rows (q_control db')) = Inr (pending @ [VDict (dput ''origin'' (VStr origin) delta)])"
    using pending by (simp add: db' emap_list_append decode_row_def)
  have state': "mpc_calibration_command_state control (pending @ [VDict (dput ''origin'' (VStr origin) delta)]) = Inr (Some command)"
    using accepted assms(2) new by (simp add: state_append from_delta_origin)
  have "read_control db' = Inr control" using control by (simp add: db' read_control_def split: option.splits)
  moreover obtain old where "mpc_calibration_command_revision control pending = Inr old" "old < n"
    using accepted lt n(2) by (auto simp: mpc_calibration_command_revision_def accepted_revision_def
        split: option.splits pyval.splits)
  moreover have "mpc_calibration_command_revision control (pending @ [VDict (dput ''origin'' (VStr origin) delta)]) = Inr n"
    using state' n(1) by (simp add: mpc_calibration_command_revision_def)
  ultimately show ?thesis using pending pending' state' by blast
qed

definition demo_command_dict :: "int \<Rightarrow> pydict" where
  "demo_command_dict n = (case demo_command n of VDict d \<Rightarrow> d | _ \<Rightarrow> [])"

definition demo_calibration_delta :: "int \<Rightarrow> pydict" where
  "demo_calibration_delta n = [(CONTROL_DELTA_KEY, VInt 2),
     (''ops'', VList [VDict [(''op'', VStr ''mpc_calibration.set''), (''command'', demo_command n)]])]"

lemma demo_calibration_queued:
  "\<exists>db'. queue_mpc_calibration_command (demo_calibration_delta 3) (demo_command_dict 3) ''api'' (demo_db []) = Inr (True, db')"
proof -
  have "(case queue_mpc_calibration_command (demo_calibration_delta 3) (demo_command_dict 3) ''api'' (demo_db []) of
      Inr (b, _) \<Rightarrow> b | Inl _ \<Rightarrow> False)"
    by code_simp
  then show ?thesis by (auto split: sum.split_asm prod.split_asm)
qed

lemma calibration_admission_strict_witness:
  "\<exists>db' control pending'. queue_mpc_calibration_command (demo_calibration_delta 3) (demo_command_dict 3) ''api'' (demo_db []) = Inr (True, db')
     \<and> mpc_calibration_command_state control pending' = Inr (Some (demo_command_dict 3))"
proof -
  obtain db' where q: "queue_mpc_calibration_command (demo_calibration_delta 3) (demo_command_dict 3) ''api'' (demo_db []) = Inr (True, db')"
    using demo_calibration_queued by blast
  have "mpc_calibration_command_from_delta (VDict (demo_calibration_delta 3)) = Inr (Some (demo_command_dict 3))"
    by (simp add: mpc_calibration_command_from_delta_def demo_calibration_delta_def CONTROL_DELTA_KEY_def
        demo_command_def demo_command_dict_def dget_none_def)
  from calibration_admission_strict [OF q this] q show ?thesis by blast
qed

end
