(* ===== verification/Mode_Transitions.thy ===== *)
theory Mode_Transitions
  imports Control_Store
begin

text \<open>
  \<open>common/modes.py\<close>, \<open>controller/runtime/transitions.py\<close> and the pure calculations of
  \<open>controller/runtime/logic/\<close> (\<open>safety\<close>, \<open>cycle\<close>, \<open>smartstart\<close>, \<open>pwm\<close>, \<open>fan\<close>): the modes, the legal
  exits of each, the single entry point of every mode change and the guard engine of the safety phases.

  A mode is the string it is in \<open>control["mode"]\<close> (the code's \<open>StrEnum\<close> members are their strings). The part
  of the context a transition touches is the record \<open>world\<close>: the store, the display and notification
  pushes in order, and the last admitted clock stamp. A step that raises leaves the world as it is then.
\<close>

section \<open>Modes\<close>

definition M_STARTUP :: string where "M_STARTUP = ''Startup''"
definition M_SMOKE :: string where "M_SMOKE = ''Smoke''"
definition M_HOLD :: string where "M_HOLD = ''Hold''"
definition M_MONITOR :: string where "M_MONITOR = ''Monitor''"
definition M_MANUAL :: string where "M_MANUAL = ''Manual''"
definition M_PRIME :: string where "M_PRIME = ''Prime''"
definition M_REIGNITE :: string where "M_REIGNITE = ''Reignite''"
definition M_SHUTDOWN :: string where "M_SHUTDOWN = ''Shutdown''"
definition M_STOP :: string where "M_STOP = ''Stop''"
definition M_ERROR :: string where "M_ERROR = ''Error''"
definition M_RECIPE :: string where "M_RECIPE = ''Recipe''"

lemmas mode_names = M_STARTUP_def M_SMOKE_def M_HOLD_def M_MONITOR_def M_MANUAL_def M_PRIME_def M_REIGNITE_def
  M_SHUTDOWN_def M_STOP_def M_ERROR_def M_RECIPE_def

definition COOK_MODES :: "string list" where
  "COOK_MODES = [M_STARTUP, M_REIGNITE, M_SMOKE, M_HOLD, M_SHUTDOWN, M_MANUAL, M_RECIPE]"

definition SAFE_MODES :: "string list" where
  "SAFE_MODES = [M_STOP, M_SHUTDOWN, M_ERROR]"

definition STATUS_MONITOR :: string where
  "STATUS_MONITOR = ''monitor''"

definition should_keep_power_on :: "pyval \<Rightarrow> pyval \<Rightarrow> bool" where
  "should_keep_power_on mode status \<longleftrightarrow> py_eq status (VStr STATUS_MONITOR) \<and> py_eq mode (VStr M_ERROR)"

definition ALLOWED_EXITS :: "(string \<times> string list) list" where
  "ALLOWED_EXITS =
     [(M_PRIME, [M_STARTUP, M_STOP, M_ERROR]),
      (M_STARTUP, [M_PRIME, M_SMOKE, M_HOLD, M_MONITOR, M_STOP, M_ERROR, M_REIGNITE]),
      (M_SMOKE, [M_HOLD, M_MONITOR, M_SHUTDOWN, M_STOP, M_ERROR, M_REIGNITE]),
      (M_HOLD, [M_HOLD, M_SMOKE, M_MONITOR, M_SHUTDOWN, M_STOP, M_ERROR, M_REIGNITE]),
      (M_REIGNITE, [M_SMOKE, M_HOLD, M_STARTUP, M_STOP, M_ERROR]),
      (M_SHUTDOWN, [M_STOP, M_ERROR]),
      (M_MONITOR, [M_STOP, M_ERROR]),
      (M_MANUAL, [M_STOP, M_ERROR]),
      (M_RECIPE, [M_RECIPE, M_SMOKE, M_HOLD, M_STOP, M_ERROR, M_REIGNITE])]"

text \<open>\<open>ALLOWED_EXITS.get(from_mode)\<close> and \<open>to_mode not in exits\<close>; an unhashable mode raises.\<close>

definition check_legal :: "pyval \<Rightarrow> pyval \<Rightarrow> unit result" where
  "check_legal from_mode to_mode =
     (if \<not> hashable from_mode then Inl (TypeError ''unhashable'')
      else
        (case (case from_mode of VStr m \<Rightarrow> map_of ALLOWED_EXITS m | _ \<Rightarrow> None) of
           None \<Rightarrow> Inr ()
         | Some exits \<Rightarrow>
             ebind (in_names to_mode exits) (\<lambda>ok. check ok (TransitionError ''illegal transition''))))"

section \<open>Pure calculations\<close>

text \<open>\<open>a >= b\<close> on numbers and on strings; other values raise.\<close>

definition py_ge :: "pyval \<Rightarrow> pyval \<Rightarrow> bool result" where
  "py_ge v w =
     (case (v, w) of
        (VStr s, VStr t) \<Rightarrow> Inr (\<not> str_less s t)
      | _ \<Rightarrow>
        (case (num_value v, num_value w) of
           (Some a, Some b) \<Rightarrow> Inr (float_less b a \<or> (a = b \<and> a \<noteq> NaN))
         | _ \<Rightarrow> Inl (TypeError ''>='')))"

datatype safety_verdict = V_OK | V_REIGNITE | V_ERROR

definition evaluate_flameout :: "pyval \<Rightarrow> pyval \<Rightarrow> pyval \<Rightarrow> safety_verdict result" where
  "evaluate_flameout ptemp startup_temp reignite_retries =
     ebind (py_ge ptemp startup_temp) (\<lambda>ok.
       Inr (if ok then V_OK else if py_eq reignite_retries (VInt 0) then V_ERROR else V_REIGNITE))"

definition over_max_temp :: "pyval \<Rightarrow> pyval \<Rightarrow> bool result" where
  "over_max_temp ptemp safety_settings =
     ebind (vindex safety_settings ''maxtemp'') (\<lambda>maxtemp. py_less maxtemp ptemp)"

text \<open>Settings of the calculations below are the numbers the code reads, as rationals.\<close>

definition startup_temp_bounds :: "rat \<Rightarrow> rat \<Rightarrow> rat \<Rightarrow> int" where
  "startup_temp_bounds ptemp minstartuptemp maxstartuptemp =
     (let bound = py_trunc (max (ptemp * (9 / 10)) minstartuptemp)
      in py_trunc (min (of_int bound) maxstartuptemp))"

record cycle_times =
  on_time :: rat
  off_time :: rat
  cycle_time :: rat
  cycle_ratio :: rat

definition cycle_of :: "rat \<Rightarrow> rat \<Rightarrow> cycle_times result" where
  "cycle_of on off =
     (if on + off = 0 then Inl ZeroDivisionError
      else Inr \<lparr>on_time = on, off_time = off, cycle_time = on + off, cycle_ratio = on / (on + off)\<rparr>)"

definition smoke_cycle_times :: "rat \<Rightarrow> rat \<Rightarrow> rat \<Rightarrow> cycle_times result" where
  "smoke_cycle_times on_s off_s pmode = cycle_of on_s (off_s + pmode * 10)"

definition prime_cycle_times :: "rat \<Rightarrow> rat \<Rightarrow> cycle_times result" where
  "prime_cycle_times prime_amount auger_rate =
     (if auger_rate = 0 then Inl ZeroDivisionError
      else cycle_of (of_int (py_trunc (prime_amount / auger_rate))) 1)"

fun select_from :: "rat \<Rightarrow> nat \<Rightarrow> rat list \<Rightarrow> nat" where
  "select_from t i [] = i"
| "select_from t i (x # xs) = (if t < x then i else select_from t (Suc i) xs)"

definition select_profile :: "rat \<Rightarrow> rat list \<Rightarrow> nat" where
  "select_profile startup_temp temp_range_list = select_from startup_temp 0 temp_range_list"

record start_profile =
  augerontime :: rat
  p_mode :: rat
  startuptime :: rat

definition profile_cycle :: "start_profile \<Rightarrow> rat \<Rightarrow> (cycle_times \<times> rat \<times> rat \<times> rat) result" where
  "profile_cycle profile off_s =
     ebind (cycle_of (augerontime profile) (off_s + p_mode profile * 10)) (\<lambda>c.
       Inr (c, startuptime profile, p_mode profile, augerontime profile))"

definition clamp_duty :: "rat \<Rightarrow> rat \<Rightarrow> rat \<Rightarrow> rat" where
  "clamp_duty duty min_duty max_duty = min (max duty min_duty) max_duty"

fun hold_duty_from :: "rat \<Rightarrow> rat \<Rightarrow> rat \<Rightarrow> rat list \<Rightarrow> rat list \<Rightarrow> rat option result" where
  "hold_duty_from err min_duty max_duty [] profiles = Inr None"
| "hold_duty_from err min_duty max_duty (r # rs) profiles =
     (if err \<le> r then
        (case profiles of [] \<Rightarrow> Inl IndexError | duty # _ \<Rightarrow> Inr (Some (min (max duty min_duty) max_duty)))
      else if rs = [] then Inr (Some max_duty)
      else hold_duty_from err min_duty max_duty rs (tl profiles))"

definition hold_duty_cycle :: "rat \<Rightarrow> rat \<Rightarrow> rat \<Rightarrow> rat \<Rightarrow> rat list \<Rightarrow> rat list \<Rightarrow> rat option result" where
  "hold_duty_cycle setpoint ptemp min_duty max_duty temp_range_list profile_duties =
     (if ptemp > setpoint then Inr (Some min_duty)
      else hold_duty_from (setpoint - ptemp) min_duty max_duty temp_range_list profile_duties)"

definition ramp_params :: "rat \<Rightarrow> rat \<Rightarrow> rat \<Rightarrow> rat \<Rightarrow> rat \<times> rat \<times> rat" where
  "ramp_params sp_on_time sp_duty min_duty max_duty = (sp_on_time, min_duty, max_duty * (sp_duty / 100))"

definition smoke_plus_max_ratio :: "rat \<Rightarrow> rat \<Rightarrow> bool \<Rightarrow> rat result" where
  "smoke_plus_max_ratio sp_on sp_off s_plus =
     (if s_plus then (if sp_on + sp_off = 0 then Inl ZeroDivisionError else Inr (sp_on / (sp_on + sp_off)))
      else Inr 1)"

definition controller_fan_authority :: "pyval \<Rightarrow> pydict \<Rightarrow> bool result" where
  "controller_fan_authority settings_v control =
     ebind (vpath settings_v [''platform'', ''dc_fan'']) (\<lambda>dc.
       if \<not> truthy dc then Inr False
       else ebind (dindex control ''pwm_control'') (\<lambda>p. Inr (truthy p)))"

text \<open>\<open>start_fan\<close>: the duty it passes to \<open>fan_on\<close>, none on an AC fan.\<close>

definition start_fan :: "bool \<Rightarrow> rat option \<Rightarrow> rat \<Rightarrow> rat \<Rightarrow> rat option" where
  "start_fan dc_fan duty min_duty max_duty =
     (if dc_fan then Some (case duty of Some d \<Rightarrow> clamp_duty d min_duty max_duty | None \<Rightarrow> max_duty) else None)"

section \<open>Requesting a transition\<close>

record world =
  db :: control_db
  display_pushes :: "pyval list"
  notified :: "string list"
  last_clock_stamp :: "clock_stamp option"

datatype transition_kind = NATURAL | SAFETY | TERMINAL

text \<open>\<open>x -= 1\<close> on a number.\<close>

definition decrement :: "pyval \<Rightarrow> pyval result" where
  "decrement v =
     (case v of
        VInt n \<Rightarrow> Inr (VInt (n - 1))
      | VBool b \<Rightarrow> Inr (VInt (of_bool b - 1))
      | VFloat (Fin q) \<Rightarrow> Inr (VFloat (Fin (q - 1)))
      | VFloat f \<Rightarrow> Inr (VFloat f)
      | _ \<Rightarrow> Inl (TypeError ''-=''))"

definition spend_retry :: "string \<Rightarrow> pydict \<Rightarrow> pydict result" where
  "spend_retry reignite_from control =
     ebind (dindex control ''safety'') (\<lambda>s.
     case s of
       VDict d \<Rightarrow>
         ebind (dindex d ''reigniteretries'') (\<lambda>n. ebind (decrement n) (\<lambda>n'.
           Inr (dput ''safety''
             (VDict (dput ''reignitelaststate'' (VStr reignite_from) (dput ''reigniteretries'' n' d))) control)))
     | _ \<Rightarrow> Inl (TypeError ''safety''))"

definition write_world :: "pydict \<Rightarrow> world \<Rightarrow> world" where
  "write_world control w = w\<lparr>db := write_control_snapshot control (db w)\<rparr>"

definition natural_transition ::
    "(int \<Rightarrow> nat \<Rightarrow> string) \<Rightarrow> pydict \<Rightarrow> pyval \<Rightarrow> pyval option \<Rightarrow> world \<Rightarrow> world \<times> pydict result" where
  "natural_transition ids control to_mode setpoint w =
     (case last_clock_stamp w of
        None \<Rightarrow> (w, Inr control)
      | Some now \<Rightarrow>
          let (db1, raised) = execute_control_writes ids now (db w); w1 = w\<lparr>db := db1\<rparr> in
          (case raised of
             Some e \<Rightarrow> (w1, Inl e)
           | None \<Rightarrow>
             (case ebind (read_control db1) (\<lambda>c. ebind (dindex c ''updated'') (\<lambda>u. Inr (c, truthy u))) of
                Inl e \<Rightarrow> (w1, Inl e)
              | Inr (c, True) \<Rightarrow> (w1, Inr c)
              | Inr (c, False) \<Rightarrow>
                  (case check_legal (dget_none c ''mode'') to_mode of
                     Inl e \<Rightarrow> (w1, Inl e)
                   | Inr _ \<Rightarrow>
                       let c1 = dput ''mode'' to_mode c;
                           c2 = (case setpoint of
                                   None \<Rightarrow> c1
                                 | Some sp \<Rightarrow> dput ''primary_setpoint'' (if py_eq to_mode (VStr M_HOLD) then sp else VInt 0) c1);
                           c3 = dput ''updated'' (VBool True) c2
                       in (write_world c3 w1, Inr c3)))))"

definition forced_transition ::
    "pydict \<Rightarrow> pyval \<Rightarrow> string option \<Rightarrow> string option \<Rightarrow> pyval option \<Rightarrow> world \<Rightarrow> world \<times> pydict result" where
  "forced_transition control to_mode reignite_from notify display w =
     (case check_legal (dget_none control ''mode'') to_mode of
        Inl e \<Rightarrow> (w, Inl e)
      | Inr _ \<Rightarrow>
          let w1 = (case display of None \<Rightarrow> w | Some d \<Rightarrow> w\<lparr>display_pushes := display_pushes w @ [d]\<rparr>);
              c1 = dput ''mode'' to_mode control
          in (case (case reignite_from of None \<Rightarrow> Inr c1 | Some m \<Rightarrow> spend_retry m c1) of
                Inl e \<Rightarrow> (w1, Inl e)
              | Inr c2 \<Rightarrow>
                  let c3 = dput ''updated'' (VBool True) c2;
                      w2 = write_world c3 w1;
                      w3 = (case notify of None \<Rightarrow> w2 | Some n \<Rightarrow> w2\<lparr>notified := notified w2 @ [n]\<rparr>)
                  in (w3, Inr c3)))"

definition request_transition ::
    "(int \<Rightarrow> nat \<Rightarrow> string) \<Rightarrow> pydict \<Rightarrow> pyval \<Rightarrow> transition_kind \<Rightarrow> pyval option \<Rightarrow> string option
       \<Rightarrow> string option \<Rightarrow> pyval option \<Rightarrow> world \<Rightarrow> world \<times> pydict result" where
  "request_transition ids control to_mode kind setpoint reignite_from notify display w =
     (if kind = NATURAL then natural_transition ids control to_mode setpoint w
      else forced_transition control to_mode reignite_from notify display w)"

definition next_mode :: "(int \<Rightarrow> nat \<Rightarrow> string) \<Rightarrow> pyval \<Rightarrow> pyval \<Rightarrow> world \<Rightarrow> world \<times> pydict result" where
  "next_mode ids to_mode setpoint w =
     (case read_control (db w) of
        Inl e \<Rightarrow> (w, Inl e)
      | Inr c \<Rightarrow> request_transition ids c to_mode NATURAL (Some setpoint) None None None w)"

section \<open>The guard engine\<close>

datatype guard = OVER_MAX_TEMP | FLAMEOUT_ERROR_SETUP | FLAMEOUT_REIGNITE_SETUP | FLAMEOUT_ERROR_INLOOP
  | FLAMEOUT_REIGNITE_INLOOP

record guard_edge =
  eg_guard :: guard
  eg_to :: string
  eg_kind :: transition_kind
  eg_notify :: string
  eg_display :: pyval
  eg_reignite_from_self :: bool

definition display_text :: "string \<Rightarrow> pyval" where
  "display_text s = VList [VStr ''text'', VStr s]"

definition flameout_edges :: "bool \<Rightarrow> guard_edge list" where
  "flameout_edges at_setup =
     [\<lparr>eg_guard = (if at_setup then FLAMEOUT_ERROR_SETUP else FLAMEOUT_ERROR_INLOOP), eg_to = M_ERROR,
        eg_kind = SAFETY, eg_notify = ''Grill_Error_02'', eg_display = display_text ''ERROR'',
        eg_reignite_from_self = False\<rparr>,
      \<lparr>eg_guard = (if at_setup then FLAMEOUT_REIGNITE_SETUP else FLAMEOUT_REIGNITE_INLOOP), eg_to = M_REIGNITE,
        eg_kind = SAFETY, eg_notify = ''Grill_Error_03'', eg_display = display_text ''Re-Ignite'',
        eg_reignite_from_self = True\<rparr>]"

definition guards :: "string \<Rightarrow> string \<Rightarrow> guard_edge list" where
  "guards mode phase =
     (if mode = ''*'' then
        (if phase = ''pre_act'' then
           [\<lparr>eg_guard = OVER_MAX_TEMP, eg_to = M_ERROR, eg_kind = SAFETY, eg_notify = ''Grill_Error_01'',
              eg_display = display_text ''ERROR'', eg_reignite_from_self = False\<rparr>]
         else [])
      else if mode = M_SMOKE \<or> mode = M_HOLD then
        (if phase = ''pre_loop'' then flameout_edges True
         else if phase = ''pre_act'' then flameout_edges False else [])
      else [])"

definition flameout_verdict :: "pydict \<Rightarrow> pyval option \<Rightarrow> safety_verdict result" where
  "flameout_verdict control ptemp =
     ebind (dindex control ''safety'') (\<lambda>s.
     ebind (case ptemp of None \<Rightarrow> vindex s ''afterstarttemp'' | Some t \<Rightarrow> Inr t) (\<lambda>t.
     ebind (vindex s ''startuptemp'') (\<lambda>st. ebind (vindex s ''reigniteretries'') (\<lambda>r.
       evaluate_flameout t st r))))"

definition guard_fires :: "guard \<Rightarrow> pyval \<Rightarrow> pydict \<Rightarrow> pyval \<Rightarrow> bool result" where
  "guard_fires g settings_v control ptemp =
     (case g of
        OVER_MAX_TEMP \<Rightarrow> ebind (vindex settings_v ''safety'') (\<lambda>s. over_max_temp ptemp s)
      | FLAMEOUT_ERROR_SETUP \<Rightarrow> ebind (flameout_verdict control None) (\<lambda>v. Inr (v = V_ERROR))
      | FLAMEOUT_REIGNITE_SETUP \<Rightarrow> ebind (flameout_verdict control None) (\<lambda>v. Inr (v = V_REIGNITE))
      | FLAMEOUT_ERROR_INLOOP \<Rightarrow> ebind (flameout_verdict control (Some ptemp)) (\<lambda>v. Inr (v = V_ERROR))
      | FLAMEOUT_REIGNITE_INLOOP \<Rightarrow> ebind (flameout_verdict control (Some ptemp)) (\<lambda>v. Inr (v = V_REIGNITE)))"

text \<open>
  The walk: whether an edge fired, with the control it left (the code updates \<open>mode_obj.control\<close> in place).
\<close>

fun walk_edges ::
    "(int \<Rightarrow> nat \<Rightarrow> string) \<Rightarrow> guard_edge list \<Rightarrow> string \<Rightarrow> pyval \<Rightarrow> pydict \<Rightarrow> pyval \<Rightarrow> world \<Rightarrow> world \<times> (bool \<times> pydict) result" where
  "walk_edges ids [] name settings_v control ptemp w = (w, Inr (False, control))"
| "walk_edges ids (e # es) name settings_v control ptemp w =
     (case guard_fires (eg_guard e) settings_v control ptemp of
        Inl x \<Rightarrow> (w, Inl x)
      | Inr False \<Rightarrow> walk_edges ids es name settings_v control ptemp w
      | Inr True \<Rightarrow>
          (case request_transition ids control (VStr (eg_to e)) (eg_kind e) None
                  (if eg_reignite_from_self e then Some name else None) (Some (eg_notify e)) (Some (eg_display e)) w of
             (w1, Inl x) \<Rightarrow> (w1, Inl x)
           | (w1, Inr c) \<Rightarrow> (w1, Inr (True, c))))"

definition evaluate_phase ::
    "(int \<Rightarrow> nat \<Rightarrow> string) \<Rightarrow> string \<Rightarrow> pyval \<Rightarrow> pydict \<Rightarrow> string \<Rightarrow> pyval \<Rightarrow> world \<Rightarrow> world \<times> (bool \<times> pydict) result" where
  "evaluate_phase ids name settings_v control phase ptemp w =
     walk_edges ids (guards ''*'' phase @ guards name phase) name settings_v control ptemp w"

section \<open>A concrete cook\<close>

definition demo_cook :: pydict where
  "demo_cook = [(''mode'', VStr M_SMOKE), (''updated'', VBool False), (''primary_setpoint'', VInt 0),
     (''safety'', VDict [(''startuptemp'', VInt 120), (''reigniteretries'', VInt 1), (''afterstarttemp'', VInt 150)])]"

definition demo_ids :: "int \<Rightarrow> nat \<Rightarrow> string" where
  "demo_ids _ _ = demo_uuid"

definition demo_world :: world where
  "demo_world = \<lparr>db = (demo_db [])\<lparr>general := Some demo_cook\<rparr>, display_pushes = [], notified = [],
     last_clock_stamp = Some (demo_stamp 0)\<rparr>"

section \<open>The transition graph\<close>

lemma check_legal_listed:
  "check_legal (VStr m) (VStr to_m) = Inr () \<longleftrightarrow>
     (case map_of ALLOWED_EXITS m of None \<Rightarrow> True | Some exits \<Rightarrow> to_m \<in> set exits)"
  by (auto simp: check_legal_def in_names_def check_def split: option.split)

lemma exits_stop_error:
  "map_of ALLOWED_EXITS m = Some exits \<Longrightarrow> M_STOP \<in> set exits \<and> M_ERROR \<in> set exits"
  by (auto simp: ALLOWED_EXITS_def split: if_splits)

text \<open>The grill can always be commanded down: from every mode the control dictionary can hold, listed in the
  graph or not, a transition to \<open>Stop\<close> and one to \<open>Error\<close> is legal.\<close>

theorem stop_is_always_legal:
  assumes "hashable v"
  shows "check_legal v (VStr M_STOP) = Inr () \<and> check_legal v (VStr M_ERROR) = Inr ()"
proof (cases v)
  case (VStr m)
  then show ?thesis
    using exits_stop_error [of m] by (auto simp: check_legal_listed split: option.split)
qed (use assms in \<open>auto simp: check_legal_def\<close>)

lemma stop_is_always_legal_witness: "check_legal (VStr M_SHUTDOWN) (VStr M_STOP) = Inr ()"
  using stop_is_always_legal [of "VStr M_SHUTDOWN"] by simp

text \<open>A move between two listed modes, and the modes a chain of them reaches.\<close>

inductive reaches :: "string \<Rightarrow> string \<Rightarrow> bool" where
  here: "reaches m m"
| move: "reaches m k \<Longrightarrow> map_of ALLOWED_EXITS k = Some exits \<Longrightarrow> n \<in> set exits \<Longrightarrow> reaches m n"

inductive_cases reachesE: "reaches m n"

lemma final_exits:
  "map_of ALLOWED_EXITS M_SHUTDOWN = Some [M_STOP, M_ERROR]" "map_of ALLOWED_EXITS M_MONITOR = Some [M_STOP, M_ERROR]"
  "map_of ALLOWED_EXITS M_MANUAL = Some [M_STOP, M_ERROR]" "map_of ALLOWED_EXITS M_STOP = None"
  "map_of ALLOWED_EXITS M_ERROR = None"
  by code_simp+

text \<open>No chain of legal transitions out of \<open>Shutdown\<close>, \<open>Monitor\<close> or \<open>Manual\<close> lights or feeds the fire
  again: the only further modes it reaches are \<open>Stop\<close> and \<open>Error\<close>.\<close>

theorem shutdown_never_relights:
  assumes "reaches m n" "m \<in> {M_SHUTDOWN, M_MONITOR, M_MANUAL}"
  shows "n \<in> {m, M_STOP, M_ERROR}"
  using assms
proof (induction rule: reaches.induct)
  case (move m k exits n)
  then have "k \<in> {m, M_STOP, M_ERROR}" "m \<in> {M_SHUTDOWN, M_MONITOR, M_MANUAL}" by auto
  with move(2,3) show ?case
    using final_exits by fastforce
qed simp

lemma shutdown_never_relights_witness: "M_STOP \<in> {M_SHUTDOWN, M_STOP, M_ERROR}"
proof (rule shutdown_never_relights)
  show "reaches M_SHUTDOWN M_STOP"
    by (rule reaches.move [OF reaches.here final_exits(1)]) simp
qed simp

section \<open>Authoritative and natural transitions\<close>

lemma write_world_sel [simp]: "general (db (write_world c w)) = Some c" "last_clock_stamp (write_world c w) = last_clock_stamp w"
  "q_control (db (write_world c w)) = q_control (db w)" "settings (db (write_world c w)) = settings (db w)"
  by (simp_all add: write_world_def write_control_snapshot_def)

lemma forced_transition_InrD:
  assumes "forced_transition control to_mode reignite_from notify display w = (w', Inr c)"
  shows "check_legal (dget_none control ''mode'') to_mode = Inr ()"
    "general (db w') = Some c" "dget c ''mode'' = Some to_mode" "dget c ''updated'' = Some (VBool True)"
    "q_control (db w') = q_control (db w)" "last_clock_stamp w' = last_clock_stamp w"
    "\<And>k. k \<notin> {''mode'', ''updated'', ''safety''} \<Longrightarrow> dget c k = dget control k"
    "reignite_from = None \<Longrightarrow> dget c ''safety'' = dget control ''safety''"
proof -
  obtain c2 where c2: "(case reignite_from of None \<Rightarrow> Inr (dput ''mode'' to_mode control)
        | Some m \<Rightarrow> spend_retry m (dput ''mode'' to_mode control)) = Inr c2" "c = dput ''updated'' (VBool True) c2"
    and legal: "check_legal (dget_none control ''mode'') to_mode = Inr ()"
    and w': "general (db w') = Some c" "q_control (db w') = q_control (db w)" "last_clock_stamp w' = last_clock_stamp w"
    using assms by (auto simp: forced_transition_def Let_def split: sum.splits option.splits)
  have "dget c2 k = dget (dput ''mode'' to_mode control) k" if "k \<noteq> ''safety''" for k
    using c2(1) that by (auto simp: spend_retry_def elim!: ebind_InrE split: option.splits pyval.splits)
  with c2 show "dget c ''mode'' = Some to_mode" "dget c ''updated'' = Some (VBool True)"
    "\<And>k. k \<notin> {''mode'', ''updated'', ''safety''} \<Longrightarrow> dget c k = dget control k" by auto
  show "reignite_from = None \<Longrightarrow> dget c ''safety'' = dget control ''safety''" using c2 by auto
  show "check_legal (dget_none control ''mode'') to_mode = Inr ()" "general (db w') = Some c"
    "q_control (db w') = q_control (db w)" "last_clock_stamp w' = last_clock_stamp w"
    using legal w' by auto
qed

text \<open>A safety or terminal transition is authoritative: when it succeeds the exit was legal, the stored
  control is the returned one, in the requested mode and flagged as updated, no reignition retry is spent
  unless it is a reignition, and every other member, the setpoint included, is untouched.\<close>

theorem forced_transition_effect:
  assumes "request_transition ids control to_mode SAFETY setpoint reignite_from notify display w = (w', Inr c)"
  shows "check_legal (dget_none control ''mode'') to_mode = Inr () \<and> general (db w') = Some c
    \<and> dget c ''mode'' = Some to_mode \<and> dget c ''updated'' = Some (VBool True)
    \<and> dget c ''primary_setpoint'' = dget control ''primary_setpoint''
    \<and> (reignite_from \<noteq> None \<or> dget c ''safety'' = dget control ''safety'')"
proof -
  have f: "forced_transition control to_mode reignite_from notify display w = (w', Inr c)"
    using assms by (simp add: request_transition_def)
  have "dget c ''primary_setpoint'' = dget control ''primary_setpoint''"
    by (rule forced_transition_InrD(7) [OF f]) simp
  with forced_transition_InrD(1-4,8) [OF f] show ?thesis by blast
qed

lemma natural_transition_InrD:
  assumes "natural_transition ids control to_mode setpoint w = (w', Inr c')" "last_clock_stamp w = Some now"
  obtains db1 c u where "execute_control_writes ids now (db w) = (db1, None)" "read_control db1 = Inr c"
    "dget c ''updated'' = Some u" "truthy u" "w' = w\<lparr>db := db1\<rparr>" "c' = c"
  | db1 c u where "execute_control_writes ids now (db w) = (db1, None)" "read_control db1 = Inr c"
    "dget c ''updated'' = Some u" "\<not> truthy u" "check_legal (dget_none c ''mode'') to_mode = Inr ()"
    "w' = write_world c' (w\<lparr>db := db1\<rparr>)"
    "c' = dput ''updated'' (VBool True) (case setpoint of None \<Rightarrow> dput ''mode'' to_mode c
       | Some sp \<Rightarrow> dput ''primary_setpoint'' (if py_eq to_mode (VStr M_HOLD) then sp else VInt 0) (dput ''mode'' to_mode c))"
proof -
  obtain db1 raised where ex: "execute_control_writes ids now (db w) = (db1, raised)" by force
  with assms have r: "raised = None" by (cases raised) (auto simp: natural_transition_def Let_def)
  obtain c u where c: "read_control db1 = Inr c" "dget c ''updated'' = Some u"
    using assms ex r by (cases "read_control db1")
      (auto simp: natural_transition_def dindex_def split: option.splits)
  show thesis
  proof (cases "truthy u")
    case True
    show thesis by (rule that(1) [OF ex [unfolded r] c True]) (use assms ex r c True in \<open>simp_all add: natural_transition_def dindex_def\<close>)
  next
    case False
    show thesis
    proof (cases "check_legal (dget_none c ''mode'') to_mode")
      case (Inl e)
      then show thesis using assms ex r c False by (simp add: natural_transition_def dindex_def)
    next
      case (Inr x)
      show thesis by (rule that(2) [OF ex [unfolded r] c False])
          (use assms ex r c False Inr in \<open>auto simp: natural_transition_def dindex_def Let_def\<close>)
    qed
  qed
qed

lemma demo_trip:
  "\<exists>w' c. request_transition ids demo_cook (VStr M_ERROR) SAFETY None None (Some ''Grill_Error_01'') None demo_world
     = (w', Inr c)"
  by (simp add: request_transition_def forced_transition_def demo_cook_def check_legal_def in_names_def check_def
      dget_none_def dget_def ALLOWED_EXITS_def mode_names Let_def)

lemma forced_transition_effect_witness:
  "\<exists>w' c. request_transition demo_ids demo_cook (VStr M_ERROR) SAFETY None None (Some ''Grill_Error_01'') None demo_world
       = (w', Inr c) \<and> general (db w') = Some c \<and> dget c ''mode'' = Some (VStr M_ERROR)"
  using demo_trip [of demo_ids] forced_transition_effect [of demo_ids demo_cook "VStr M_ERROR" None None "Some ''Grill_Error_01''" None demo_world]
  by blast

text \<open>A natural progression is guarded by the graph and yields to anything already requested: after draining
  the queue it either leaves the stored control exactly as the drain left it, because that is flagged as
  updated, or it moves legally from the mode then current to the requested one, flags the control, and stores
  the setpoint for \<open>Hold\<close> and zero otherwise.\<close>

theorem natural_transition_guarded:
  assumes "request_transition ids control to_mode NATURAL (Some sp) reignite_from notify display w = (w', Inr c')"
    and "last_clock_stamp w = Some now"
  shows "\<exists>db1 c. execute_control_writes ids now (db w) = (db1, None) \<and> read_control db1 = Inr c
    \<and> (truthy (dget_none c ''updated'') \<and> c' = c \<and> db w' = db1
       \<or> \<not> truthy (dget_none c ''updated'') \<and> check_legal (dget_none c ''mode'') to_mode = Inr ()
         \<and> general (db w') = Some c' \<and> dget c' ''mode'' = Some to_mode \<and> dget c' ''updated'' = Some (VBool True)
         \<and> dget c' ''primary_setpoint'' = Some (if py_eq to_mode (VStr M_HOLD) then sp else VInt 0))"
proof -
  have n: "natural_transition ids control to_mode (Some sp) w = (w', Inr c')"
    using assms(1) by (simp add: request_transition_def)
  show ?thesis
    using n assms(2)
    by (cases rule: natural_transition_InrD) (auto simp: dget_none_def)
qed

lemma demo_world_sel [simp]: "last_clock_stamp demo_world = Some (demo_stamp 0)" "general (db demo_world) = Some demo_cook"
  "rows (q_control (db demo_world)) = []"
  by (simp_all add: demo_world_def demo_db_def demo_queue_def)

lemma demo_progression:
  "\<exists>w' c. request_transition ids demo_cook (VStr M_HOLD) NATURAL (Some (VInt 225)) None None None demo_world = (w', Inr c)
     \<and> dget c ''mode'' = Some (VStr M_HOLD)"
  by (simp add: request_transition_def natural_transition_def execute_control_writes_def read_control_def dindex_def Let_def)
    (simp add: demo_cook_def check_legal_def in_names_def check_def dget_none_def dget_def ALLOWED_EXITS_def mode_names
      dput_def Let_def)

lemma natural_transition_guarded_witness:
  "\<exists>w' c. request_transition demo_ids demo_cook (VStr M_HOLD) NATURAL (Some (VInt 225)) None None None demo_world = (w', Inr c)
     \<and> (\<exists>db1 c0. execute_control_writes demo_ids (demo_stamp 0) (db demo_world) = (db1, None) \<and> read_control db1 = Inr c0)"
  using demo_progression [of demo_ids] natural_transition_guarded [of demo_ids demo_cook "VStr M_HOLD" "VInt 225" None None None demo_world]
  by (metis demo_world_sel(1))

text \<open>A safety trip survives the progression that follows it: when no further request is queued, a natural
  transition after a successful authoritative one changes nothing, whatever mode it asks for.\<close>

theorem safety_trip_survives:
  assumes "forced_transition control to_mode reignite_from notify display w = (w1, Inr c1)"
    and "rows (q_control (db w)) = []" "last_clock_stamp w = Some now"
  shows "natural_transition ids c to_mode' setpoint w1 = (w1, Inr c1)"
proof -
  note f = forced_transition_InrD [OF assms(1)]
  have "execute_control_writes ids now (db w1) = (db w1, None)"
    using f(2,5) assms(2) by (simp add: execute_control_writes_def)
  moreover have "read_control (db w1) = Inr c1" using f(2) by (simp add: read_control_def)
  ultimately show ?thesis
    using f(4,6) assms(3) by (simp add: natural_transition_def dindex_def)
qed


lemma safety_trip_survives_witness:
  "\<exists>w1 c1. forced_transition demo_cook (VStr M_ERROR) None (Some ''Grill_Error_01'') None demo_world = (w1, Inr c1)
     \<and> natural_transition demo_ids c1 (VStr M_HOLD) (Some (VInt 225)) w1 = (w1, Inr c1)"
proof -
  obtain w1 c1 where f: "forced_transition demo_cook (VStr M_ERROR) None (Some ''Grill_Error_01'') None demo_world = (w1, Inr c1)"
    using demo_trip by (auto simp: request_transition_def)
  from safety_trip_survives [OF f] f show ?thesis by auto
qed

section \<open>The in-loop safety decision\<close>

text \<open>What a fired edge does to the world: the overlay, the stored control, the notification.\<close>

definition tripped :: "pydict \<Rightarrow> string \<Rightarrow> string \<Rightarrow> world \<Rightarrow> world" where
  "tripped c shown note w =
     (let w1 = write_world c (w\<lparr>display_pushes := display_pushes w @ [display_text shown]\<rparr>)
      in w1\<lparr>notified := notified w1 @ [note]\<rparr>)"

lemma evaluate_flameout_numbers:
  "evaluate_flameout (VFloat (Fin t)) (VInt s) (VInt n)
     = Inr (if of_int s \<le> t then V_OK else if n = 0 then V_ERROR else V_REIGNITE)"
  by (auto simp: evaluate_flameout_def py_ge_def num_eq_def)

lemma cook_exits:
  "m \<in> {M_SMOKE, M_HOLD} \<Longrightarrow> check_legal (VStr m) (VStr M_ERROR) = Inr () \<and> check_legal (VStr m) (VStr M_REIGNITE) = Inr ()"
  by (elim insertE emptyE) (simp_all, code_simp+)

lemma guards_pre_act:
  assumes "name \<in> {M_SMOKE, M_HOLD}"
  shows "guards ''*'' ''pre_act'' @ guards name ''pre_act'' =
    \<lparr>eg_guard = OVER_MAX_TEMP, eg_to = M_ERROR, eg_kind = SAFETY, eg_notify = ''Grill_Error_01'',
       eg_display = display_text ''ERROR'', eg_reignite_from_self = False\<rparr> # flameout_edges False"
  using assms by (auto simp: guards_def mode_names)

text \<open>C36: In \<open>Smoke\<close> and \<open>Hold\<close> the in-loop safety check decides by temperature alone, in this order: above the
  maximum it trips to \<open>Error\<close>; at or above the flameout threshold it does nothing; below it with no retry left
  it trips to \<open>Error\<close>; with a retry left it moves to \<open>Reignite\<close>, spends exactly one retry and records the mode to
  return to. The check cannot raise.\<close>

theorem pre_act_decision:
  assumes "name \<in> {M_SMOKE, M_HOLD}" "dget control ''mode'' = Some (VStr name)"
    "vpath (VDict settings_d) [''safety'', ''maxtemp''] = Inr (VInt m)"
    "dget control ''safety'' = Some (VDict sd)" "dget sd ''startuptemp'' = Some (VInt s)"
    "dget sd ''reigniteretries'' = Some (VInt n)"
  shows "evaluate_phase ids name (VDict settings_d) control ''pre_act'' (VFloat (Fin t)) w =
    (let error = dput ''updated'' (VBool True) (dput ''mode'' (VStr M_ERROR) control);
         reignite = dput ''updated'' (VBool True) (dput ''safety'' (VDict (dput ''reignitelaststate'' (VStr name)
            (dput ''reigniteretries'' (VInt (n - 1)) sd))) (dput ''mode'' (VStr M_REIGNITE) control))
     in if of_int m < t then (tripped error ''ERROR'' ''Grill_Error_01'' w, Inr (True, error))
        else if of_int s \<le> t then (w, Inr (False, control))
        else if n = 0 then (tripped error ''ERROR'' ''Grill_Error_02'' w, Inr (True, error))
        else (tripped reignite ''Re-Ignite'' ''Grill_Error_03'' w, Inr (True, reignite)))"
proof -
  have over: "guard_fires OVER_MAX_TEMP (VDict settings_d) control (VFloat (Fin t)) = Inr (of_int m < t)"
    using assms(3) by (auto simp: guard_fires_def over_max_temp_def py_less.simps elim!: ebind_InrE)
  have flame: "flameout_verdict control (Some (VFloat (Fin t)))
      = Inr (if of_int s \<le> t then V_OK else if n = 0 then V_ERROR else V_REIGNITE)"
    using assms(4-6) by (simp add: flameout_verdict_def vindex_def dindex_def evaluate_flameout_numbers)
  have fires: "guard_fires FLAMEOUT_ERROR_INLOOP (VDict settings_d) control (VFloat (Fin t)) = Inr (\<not> of_int s \<le> t \<and> n = 0)"
    "guard_fires FLAMEOUT_REIGNITE_INLOOP (VDict settings_d) control (VFloat (Fin t)) = Inr (\<not> of_int s \<le> t \<and> n \<noteq> 0)"
    by (simp_all add: guard_fires_def flame)
  have legal: "check_legal (dget_none control ''mode'') (VStr M_ERROR) = Inr ()"
      "check_legal (dget_none control ''mode'') (VStr M_REIGNITE) = Inr ()"
    using cook_exits assms(1,2) by (auto simp: dget_none_def)
  have spend: "spend_retry name (dput ''mode'' (VStr M_REIGNITE) control) = Inr (dput ''safety'' (VDict (dput ''reignitelaststate'' (VStr name)
            (dput ''reigniteretries'' (VInt (n - 1)) sd))) (dput ''mode'' (VStr M_REIGNITE) control))"
    using assms(4,6) by (simp add: spend_retry_def dindex_def decrement_def)
  show ?thesis
    by (simp add: evaluate_phase_def guards_pre_act [OF assms(1)] over flameout_edges_def fires
      request_transition_def forced_transition_def legal spend tripped_def Let_def)
qed


lemma pre_act_decision_witness:
  "evaluate_phase demo_ids M_SMOKE (VDict [(''safety'', VDict [(''maxtemp'', VInt 550)])]) demo_cook ''pre_act'' (VFloat (Fin 600))
      demo_world
    = (tripped (dput ''updated'' (VBool True) (dput ''mode'' (VStr M_ERROR) demo_cook)) ''ERROR'' ''Grill_Error_01'' demo_world,
       Inr (True, dput ''updated'' (VBool True) (dput ''mode'' (VStr M_ERROR) demo_cook)))"
  using pre_act_decision [of M_SMOKE demo_cook "[(''safety'', VDict [(''maxtemp'', VInt 550)])]" 550
      "[(''startuptemp'', VInt 120), (''reigniteretries'', VInt 1), (''afterstarttemp'', VInt 150)]" 120 1 demo_ids 600 demo_world]
  by (simp add: demo_cook_def vindex_def dindex_def Let_def)

end
