(* ===== verification/Pulse_Scheduler.thy ===== *)
theory Pulse_Scheduler
  imports Py_Prelude
begin

text \<open>
  \<open>controller/runtime/logic/pulse.py\<close> and \<open>grillplat/actuator_capabilities.py\<close>: the scheduler that
  realises a requested auger duty as one contiguous pulse per frame, carrying the unrealised part as
  credit, and the accounting of the delivered milliseconds. The object is the record \<open>scheduler\<close>, a
  method is a function of it; the constructor's and the arguments' checks are those of the code. Times
  are exact rationals.
\<close>

section \<open>Timing and frames\<close>

record auger_timing =
  pulse_s :: int
  frame_s :: int

definition mk_auger_timing :: "pyval \<Rightarrow> pyval \<Rightarrow> auger_timing result" where
  "mk_auger_timing p f =
     (case (p, f) of
        (VInt pulse, VInt frame) \<Rightarrow>
          if pulse \<le> 0 \<or> frame \<le> 0
            then Inl (ValueError ''auger pulse and frame durations must be positive integers'')
          else if frame mod pulse \<noteq> 0
            then Inl (ValueError ''auger frame duration must be divisible by pulse duration'')
          else Inr \<lparr>pulse_s = pulse, frame_s = frame\<rparr>
      | _ \<Rightarrow> Inl (ValueError ''auger pulse and frame durations must be positive integers''))"

definition AUGER_TIMING :: auger_timing where
  "AUGER_TIMING = \<lparr>pulse_s = 2, frame_s = 20\<rparr>"

datatype pulse_reason = FRAME_STARTED | FRAME_CONTINUED | FRAME_SKIPPED | RESET

datatype reset_reason = R_SAFETY | R_LID | R_MANUAL | R_MODE_CHANGE

record frame_result =
  fr_start :: rat
  fr_end :: rat
  fr_ended_at :: rat
  fr_complete :: bool
  fr_skipped :: bool
  fr_request :: rat
  fr_credit_before :: rat
  fr_credit_after :: rat
  fr_scheduled_s :: int
  fr_delivered_ms :: int
  fr_transitions :: nat
  fr_start_on :: bool
  fr_end_on :: bool
  fr_reset :: "reset_reason option"

record pulse_decision =
  pd_reason :: pulse_reason
  pd_frame_start :: rat
  pd_request :: rat
  pd_scheduled_s :: int
  pd_credit :: rat
  pd_command_on :: bool
  pd_transition :: "(rat \<times> bool) option"
  pd_delivered_ms :: int
  pd_frame_delivered_ms :: int
  pd_reset :: "reset_reason option"
  pd_completed :: "frame_result list"

record scheduler =
  timing :: auger_timing
  maximum_request :: rat
  credit_before :: rat
  credit :: rat
  delivered_ms :: int
  frame_start_on :: bool
  frame_delivered_ms :: int
  frame_start :: "rat option"
  last_on :: bool
  last_at :: "rat option"
  latched :: rat
  transitions :: nat
  pending_reset :: "reset_reason option"
  scheduled :: int

definition validate_finite :: "string \<Rightarrow> pyval \<Rightarrow> rat result" where
  "validate_finite name v = finite_or (ValueError name) v"

definition new_scheduler :: "auger_timing \<Rightarrow> pyval \<Rightarrow> scheduler result" where
  "new_scheduler tm maximum =
     ebind (validate_finite ''maximum_request'' maximum) (\<lambda>m.
       if \<not> (0 < m \<and> m \<le> 1) then Inl (ValueError ''maximum_request must be in (0, 1]'')
       else Inr \<lparr>timing = tm, maximum_request = m, credit_before = 0, credit = 0, delivered_ms = 0,
              frame_start_on = False, frame_delivered_ms = 0, frame_start = None, last_on = False,
              last_at = None, latched = 0, transitions = 0, pending_reset = None, scheduled = 0\<rparr>)"

section \<open>The methods\<close>

definition validate_request :: "scheduler \<Rightarrow> pyval \<Rightarrow> rat result" where
  "validate_request s request =
     ebind (validate_finite ''request'' request) (\<lambda>r.
       if \<not> (0 \<le> r \<and> r \<le> maximum_request s)
       then Inl (ValueError ''request must be within scheduler authority'') else Inr r)"

definition observe_actual :: "scheduler \<Rightarrow> bool \<Rightarrow> scheduler" where
  "observe_actual s actual =
     (if actual \<noteq> last_on s then s\<lparr>transitions := transitions s + 1, last_on := actual\<rparr> else s)"

definition account_until :: "scheduler \<Rightarrow> rat \<Rightarrow> scheduler result" where
  "account_until s now =
     (case last_at s of
        None \<Rightarrow> Inl AssertionError
      | Some prev \<Rightarrow>
          let elapsed = round_ms now - round_ms prev;
              s1 = (if last_on s then s\<lparr>delivered_ms := delivered_ms s + elapsed,
                      frame_delivered_ms := frame_delivered_ms s + elapsed\<rparr> else s)
          in Inr (s1\<lparr>last_at := Some now\<rparr>))"

definition finish_frame ::
    "scheduler \<Rightarrow> rat option \<Rightarrow> bool \<Rightarrow> bool \<Rightarrow> reset_reason option \<Rightarrow> frame_result option" where
  "finish_frame s ended cmplt skip rr =
     (case (frame_start s, ended) of
        (Some start, Some e) \<Rightarrow>
          Some \<lparr>fr_start = start, fr_end = start + of_int (frame_s (timing s)), fr_ended_at = e,
            fr_complete = cmplt, fr_skipped = skip, fr_request = latched s,
            fr_credit_before = credit_before s, fr_credit_after = credit s, fr_scheduled_s = scheduled s,
            fr_delivered_ms = frame_delivered_ms s, fr_transitions = transitions s,
            fr_start_on = frame_start_on s, fr_end_on = last_on s, fr_reset = rr\<rparr>
      | _ \<Rightarrow> None)"

definition skip_frame :: "scheduler \<Rightarrow> rat \<Rightarrow> frame_result \<times> scheduler" where
  "skip_frame s start =
     (let fin = start + of_int (frame_s (timing s));
          ms = (if last_on s then round_ms fin - round_ms start else 0)
      in (\<lparr>fr_start = start, fr_end = fin, fr_ended_at = fin, fr_complete = False, fr_skipped = True,
            fr_request = latched s, fr_credit_before = credit s, fr_credit_after = 0,
            fr_scheduled_s = (if last_on s then frame_s (timing s) else 0), fr_delivered_ms = ms,
            fr_transitions = 0, fr_start_on = last_on s, fr_end_on = last_on s, fr_reset = None\<rparr>,
          s\<lparr>credit := 0, delivered_ms := delivered_ms s + ms\<rparr>))"

text \<open>\<open>int(floor(capped / pulse) * pulse)\<close>, the whole pulses a frame is granted.\<close>

definition granted :: "scheduler \<Rightarrow> rat \<Rightarrow> int" where
  "granted s requested =
     (let capped = min (min requested (maximum_request s * of_int (frame_s (timing s)))) (of_int (frame_s (timing s)))
      in \<lfloor>capped / of_int (pulse_s (timing s))\<rfloor> * pulse_s (timing s))"

definition begin_frame :: "scheduler \<Rightarrow> rat \<Rightarrow> rat \<Rightarrow> bool \<Rightarrow> scheduler" where
  "begin_frame s request start actual =
     (let requested = request * of_int (frame_s (timing s)) + credit s; g = granted s requested
      in s\<lparr>credit_before := credit s, scheduled := g, credit := requested - of_int g,
           frame_start_on := actual, last_on := actual, frame_delivered_ms := 0,
           frame_start := Some start, latched := request, transitions := 0, last_at := Some start\<rparr>)"

text \<open>The frames a late poll has missed, from the one starting at \<open>start\<close>.\<close>

fun skip_frames :: "nat \<Rightarrow> scheduler \<Rightarrow> rat \<Rightarrow> frame_result list \<times> scheduler" where
  "skip_frames 0 s start = ([], s)"
| "skip_frames (Suc n) s start =
     (let (f, s1) = skip_frame s start;
          (fs, s2) = skip_frames n s1 (start + of_int (frame_s (timing s)))
      in (f # fs, s2))"

definition advance_frames :: "scheduler \<Rightarrow> rat \<Rightarrow> rat \<Rightarrow> (frame_result list \<times> scheduler) result" where
  "advance_frames s request now =
     (case frame_start s of
        None \<Rightarrow> Inl AssertionError
      | Some start \<Rightarrow>
          let frame = of_int (frame_s (timing s)); nominal_end = start + frame in
          if now < nominal_end then ebind (account_until s now) (\<lambda>s1. Inr ([], s1))
          else
            let crossed = \<lfloor>(now - start) / frame\<rfloor> in
            ebind (account_until s nominal_end) (\<lambda>s1.
            case finish_frame s1 (Some nominal_end) True False None of
              None \<Rightarrow> Inl AssertionError
            | Some first \<Rightarrow>
                let (skips, s2) = skip_frames (nat (crossed - 1)) s1 nominal_end;
                    s3 = begin_frame s2 request
                           (if crossed > 1 then nominal_end + of_int (crossed - 1) * frame else nominal_end)
                           (last_on s2)
                in ebind (account_until s3 now) (\<lambda>s4. Inr (first # skips, s4))))"

definition reset :: "scheduler \<Rightarrow> reset_reason \<Rightarrow> frame_result option \<times> scheduler" where
  "reset s reason =
     (finish_frame s (last_at s) False False (Some reason),
      s\<lparr>credit_before := 0, credit := 0, frame_delivered_ms := 0, frame_start := None, last_at := None,
        last_on := False, latched := 0, transitions := 0, scheduled := 0, pending_reset := Some reason\<rparr>)"

definition decide ::
    "scheduler \<Rightarrow> rat \<Rightarrow> bool \<Rightarrow> pulse_reason \<Rightarrow> reset_reason option \<Rightarrow> frame_result list
       \<Rightarrow> pulse_decision result" where
  "decide s now actual reason rr completed =
     (case frame_start s of
        None \<Rightarrow> Inl AssertionError
      | Some start \<Rightarrow>
          let on = (now - start < of_int (scheduled s)) in
          Inr \<lparr>pd_reason = reason, pd_frame_start = start, pd_request = latched s,
            pd_scheduled_s = scheduled s, pd_credit = credit s, pd_command_on = on,
            pd_transition = (if on \<noteq> actual then Some (now, on) else None),
            pd_delivered_ms = delivered_ms s, pd_frame_delivered_ms = frame_delivered_ms s,
            pd_reset = (if reason = RESET then rr else None), pd_completed = completed\<rparr>)"

definition advance :: "scheduler \<Rightarrow> pyval \<Rightarrow> pyval \<Rightarrow> pyval \<Rightarrow> (pulse_decision \<times> scheduler) result" where
  "advance s request at_v actual_v =
     ebind (validate_request s request) (\<lambda>r.
     ebind (validate_finite ''at_s'' at_v) (\<lambda>now.
     case actual_v of
       VBool actual \<Rightarrow>
         if (case last_at s of None \<Rightarrow> False | Some prev \<Rightarrow> now < prev)
           then Inl (ValueError ''at_s must be monotone'')
         else
           (case frame_start s of
              None \<Rightarrow>
                let s1 = (begin_frame s r now actual)\<lparr>pending_reset := None\<rparr>;
                    reason = (if pending_reset s = None then FRAME_STARTED else RESET)
                in ebind (decide s1 now actual reason (pending_reset s) []) (\<lambda>d. Inr (d, s1))
            | Some _ \<Rightarrow>
                ebind (advance_frames s r now) (\<lambda>(completed, s1).
                let s2 = observe_actual s1 actual;
                    reason = (if list_ex fr_skipped completed then FRAME_SKIPPED
                              else if completed \<noteq> [] then FRAME_STARTED else FRAME_CONTINUED)
                in ebind (decide s2 now actual reason (pending_reset s) completed) (\<lambda>d. Inr (d, s2))))
     | _ \<Rightarrow> Inl (TypeError ''actual_auger_on must be a bool'')))"

section \<open>The invariant\<close>

definition timing_ok :: "auger_timing \<Rightarrow> bool" where
  "timing_ok tm \<longleftrightarrow> 0 < pulse_s tm \<and> 0 < frame_s tm \<and> pulse_s tm dvd frame_s tm"

abbreviation frame_len :: "scheduler \<Rightarrow> rat" where
  "frame_len s \<equiv> of_int (frame_s (timing s))"

abbreviation pulse_len :: "scheduler \<Rightarrow> rat" where
  "pulse_len s \<equiv> of_int (pulse_s (timing s))"

definition sched_static :: "scheduler \<Rightarrow> bool" where
  "sched_static s \<longleftrightarrow> timing_ok (timing s) \<and> 0 < maximum_request s \<and> maximum_request s \<le> 1"

definition frame_ok :: "scheduler \<Rightarrow> bool" where
  "frame_ok s \<longleftrightarrow>
     (case (frame_start s, last_at s) of
        (None, None) \<Rightarrow> scheduled s = 0 \<and> credit s = 0 \<and> frame_delivered_ms s = 0
      | (Some start, Some l) \<Rightarrow> start \<le> l \<and> l < start + frame_len s
          \<and> 0 \<le> frame_delivered_ms s \<and> frame_delivered_ms s \<le> round_ms l - round_ms start
          \<and> credit s = latched s * frame_len s + credit_before s - of_int (scheduled s)
      | _ \<Rightarrow> False)"

definition sched_ok :: "scheduler \<Rightarrow> bool" where
  "sched_ok s \<longleftrightarrow> sched_static s \<and> frame_ok s
     \<and> 0 \<le> credit s \<and> 0 \<le> credit_before s \<and> 0 \<le> latched s \<and> latched s \<le> maximum_request s
     \<and> pulse_s (timing s) dvd scheduled s \<and> 0 \<le> scheduled s
     \<and> of_int (scheduled s) \<le> maximum_request s * frame_len s"

lemma AUGER_TIMING_ok: "timing_ok AUGER_TIMING"
  by (simp add: timing_ok_def AUGER_TIMING_def)

lemma mk_auger_timing_ok: "mk_auger_timing p f = Inr tm \<Longrightarrow> timing_ok tm"
  by (auto simp: mk_auger_timing_def timing_ok_def split: pyval.splits if_splits)

lemma new_scheduler_ok:
  "timing_ok tm \<Longrightarrow> new_scheduler tm m = Inr s \<Longrightarrow> sched_ok s \<and> timing s = tm \<and> delivered_ms s = 0
     \<and> frame_start s = None \<and> credit s = 0"
  by (auto simp: new_scheduler_def sched_ok_def sched_static_def frame_ok_def timing_ok_def elim!: ebind_InrE split: if_splits)

section \<open>What a frame is granted\<close>

lemma granted_dvd: "pulse_s (timing s) dvd granted s q"
  by (simp add: granted_def Let_def)

lemma floor_pulse:
  fixes x :: rat and p :: int
  assumes "0 < p"
  shows "of_int (\<lfloor>x / of_int p\<rfloor> * p) \<le> x" "x < of_int (\<lfloor>x / of_int p\<rfloor> * p) + of_int p"
proof -
  define f where "f = \<lfloor>x / of_int p\<rfloor>"
  have "of_int f \<le> x / of_int p" "x / of_int p < of_int f + 1"
    unfolding f_def by linarith+
  with assms have "of_int f * of_int p \<le> x" "x < (of_int f + 1) * of_int p"
    by (simp_all add: pos_le_divide_eq pos_divide_less_eq)
  then show "of_int (\<lfloor>x / of_int p\<rfloor> * p) \<le> x" "x < of_int (\<lfloor>x / of_int p\<rfloor> * p) + of_int p"
    by (simp_all add: f_def [symmetric] algebra_simps)
qed

lemma granted_bounds:
  assumes "sched_static s" "0 \<le> q"
  shows "0 \<le> granted s q" "of_int (granted s q) \<le> q" "of_int (granted s q) \<le> maximum_request s * frame_len s"
    "granted s q \<le> frame_s (timing s)"
proof -
  let ?c = "min (min q (maximum_request s * frame_len s)) (frame_len s)"
  have p: "0 < pulse_s (timing s)" and c: "0 \<le> ?c"
    using assms by (auto simp: sched_static_def timing_ok_def)
  have le: "of_int (granted s q) \<le> ?c"
    using floor_pulse(1) [OF p, of ?c] by (simp add: granted_def Let_def)
  show "0 \<le> granted s q"
    using p c by (simp add: granted_def Let_def)
  show "of_int (granted s q) \<le> q" "of_int (granted s q) \<le> maximum_request s * frame_len s"
    using le by simp_all
  have "(of_int (granted s q) :: rat) \<le> of_int (frame_s (timing s))" using le by simp
  then show "granted s q \<le> frame_s (timing s)" by (simp only: of_int_le_iff)
qed

text \<open>
  When the authority is a whole number of pulses (it is with the production \<open>maximum_request = 1\<close>) the
  credit stays below one pulse.
\<close>

definition whole_authority :: "scheduler \<Rightarrow> bool" where
  "whole_authority s \<longleftrightarrow> (\<exists>k. maximum_request s * frame_len s = of_int (k * pulse_s (timing s)))"

lemma whole_authority_1: "maximum_request s = 1 \<Longrightarrow> timing_ok (timing s) \<Longrightarrow> whole_authority s"
  by (auto simp: whole_authority_def timing_ok_def dvd_def mult.commute)

lemma granted_remainder:
  assumes "sched_static s" "whole_authority s" "0 \<le> q" "q < maximum_request s * frame_len s + pulse_len s"
  shows "q - of_int (granted s q) < pulse_len s"
proof (cases "q \<le> maximum_request s * frame_len s")
  case True
  have p: "0 < pulse_s (timing s)" and "maximum_request s * frame_len s \<le> frame_len s"
    using assms(1) by (simp_all add: sched_static_def timing_ok_def)
  then have "min (min q (maximum_request s * frame_len s)) (frame_len s) = q" using True by simp
  then show ?thesis using floor_pulse(2) [OF p, of q] by (simp add: granted_def Let_def)
next
  case False
  obtain k where k: "maximum_request s * frame_len s = of_int (k * pulse_s (timing s))"
    using assms(2) by (auto simp: whole_authority_def)
  have p: "0 < pulse_s (timing s)" and "maximum_request s * frame_len s \<le> frame_len s"
    using assms(1) by (simp_all add: sched_static_def timing_ok_def)
  then have "min (min q (maximum_request s * frame_len s)) (frame_len s) = of_int (k * pulse_s (timing s))"
    using False k by simp
  then have "granted s q = k * pulse_s (timing s)"
    using p by (simp add: granted_def)
  then show ?thesis using assms(4) k by simp
qed

section \<open>The methods in closed form\<close>

lemma account_until_known:
  "last_at s = Some p \<Longrightarrow> account_until s t = Inr (s\<lparr>
     delivered_ms := delivered_ms s + of_bool (last_on s) * (round_ms t - round_ms p),
     frame_delivered_ms := frame_delivered_ms s + of_bool (last_on s) * (round_ms t - round_ms p),
     last_at := Some t\<rparr>)"
  by (simp add: account_until_def Let_def)

lemma skip_frames_known:
  "skip_frames n s st = (fs, s') \<Longrightarrow>
     s' = s\<lparr>credit := (if n = 0 then credit s else 0),
            delivered_ms := delivered_ms s
              + of_bool (last_on s) * (round_ms (st + of_nat n * frame_len s) - round_ms st)\<rparr>
     \<and> length fs = n \<and> list_all fr_skipped fs
     \<and> sum_list (map fr_delivered_ms fs)
         = of_bool (last_on s) * (round_ms (st + of_nat n * frame_len s) - round_ms st)"
proof (induction n arbitrary: s st fs s')
  case (Suc n)
  obtain f s1 where f: "skip_frame s st = (f, s1)" by force
  obtain gs s2 where g: "skip_frames n s1 (st + frame_len s) = (gs, s2)" by force
  from Suc.IH [OF g] f g Suc.prems show ?case
    by (auto simp: skip_frame_def Let_def algebra_simps)
qed simp

text \<open>The state and results of an advance over \<open>k\<close> frame ends, \<open>k \<ge> 1\<close>.\<close>

definition crossed_state :: "scheduler \<Rightarrow> rat \<Rightarrow> rat \<Rightarrow> rat \<Rightarrow> rat \<Rightarrow> int \<Rightarrow> scheduler" where
  "crossed_state s st l r t k =
     (begin_frame (s\<lparr>credit := (if k = 1 then credit s else 0)\<rparr>) r (st + of_int k * frame_len s) (last_on s))
       \<lparr>delivered_ms := delivered_ms s + of_bool (last_on s) * (round_ms t - round_ms l),
        frame_delivered_ms := of_bool (last_on s) * (round_ms t - round_ms (st + of_int k * frame_len s)),
        last_at := Some t\<rparr>"

definition finished_at :: "scheduler \<Rightarrow> rat \<Rightarrow> rat \<Rightarrow> frame_result \<Rightarrow> bool" where
  "finished_at s st l f \<longleftrightarrow> fr_start f = st \<and> fr_end f = st + frame_len s \<and> fr_complete f \<and> \<not> fr_skipped f
     \<and> fr_request f = latched s \<and> fr_credit_before f = credit_before s \<and> fr_credit_after f = credit s
     \<and> fr_scheduled_s f = scheduled s
     \<and> fr_delivered_ms f = frame_delivered_ms s + of_bool (last_on s) * (round_ms (st + frame_len s) - round_ms l)"

lemma frame_count:
  fixes st t F :: rat
  assumes "0 < F" "st + F \<le> t" and k: "k = \<lfloor>(t - st) / F\<rfloor>"
  shows "1 \<le> k" "st + of_int k * F \<le> t" "t < st + of_int k * F + F"
proof -
  have "1 \<le> (t - st) / F" using assms by (simp add: pos_le_divide_eq)
  then show "1 \<le> k" by (simp add: k le_floor_iff)
  have "of_int k \<le> (t - st) / F" "(t - st) / F < of_int k + 1" unfolding k by linarith+
  with assms(1) show "st + of_int k * F \<le> t" "t < st + of_int k * F + F"
    by (simp_all add: pos_le_divide_eq pos_divide_less_eq algebra_simps)
qed

lemma advance_frames_within:
  "frame_start s = Some st \<Longrightarrow> last_at s = Some l \<Longrightarrow> t < st + frame_len s \<Longrightarrow>
     advance_frames s r t = Inr ([], s\<lparr>
       delivered_ms := delivered_ms s + of_bool (last_on s) * (round_ms t - round_ms l),
       frame_delivered_ms := frame_delivered_ms s + of_bool (last_on s) * (round_ms t - round_ms l),
       last_at := Some t\<rparr>)"
  by (simp add: advance_frames_def Let_def account_until_known)

lemma advance_frames_crossing:
  assumes st: "frame_start s = Some st" and l: "last_at s = Some l" and F: "0 < frame_s (timing s)"
    and t: "st + frame_len s \<le> t" and k: "k = \<lfloor>(t - st) / frame_len s\<rfloor>"
  shows "\<exists>f fs. advance_frames s r t = Inr (f # fs, crossed_state s st l r t k)
    \<and> finished_at s st l f \<and> int (length fs) = k - 1 \<and> list_all fr_skipped fs
    \<and> sum_list (map fr_delivered_ms fs)
        = of_bool (last_on s) * (round_ms (st + of_int k * frame_len s) - round_ms (st + frame_len s))"
proof -
  have F': "0 < frame_len s" using F by simp
  note kb = frame_count [OF F' t k]
  define s1 where "s1 = s\<lparr>
     delivered_ms := delivered_ms s + of_bool (last_on s) * (round_ms (st + frame_len s) - round_ms l),
     frame_delivered_ms := frame_delivered_ms s + of_bool (last_on s) * (round_ms (st + frame_len s) - round_ms l),
     last_at := Some (st + frame_len s)\<rparr>"
  have a1: "account_until s (st + frame_len s) = Inr s1"
    using account_until_known [OF l] by (simp add: s1_def)
  obtain f where f: "finish_frame s1 (Some (st + frame_len s)) True False None = Some f" "finished_at s st l f"
    using st by (simp add: finish_frame_def s1_def finished_at_def)
  obtain fs s2 where sk: "skip_frames (nat (k - 1)) s1 (st + frame_len s) = (fs, s2)" by force
  have n: "of_nat (nat (k - 1)) = (of_int (k - 1) :: rat)" using kb(1) by simp
  have fin: "st + frame_len s + of_int (k - 1) * frame_len s = st + of_int k * frame_len s"
    by (simp add: algebra_simps)
  have sel: "timing s1 = timing s" "last_on s1 = last_on s" "credit s1 = credit s" by (simp_all add: s1_def)
  note s2 = skip_frames_known [OF sk, unfolded n sel fin]
  have k1: "nat (k - 1) = 0 \<longleftrightarrow> k = 1" using kb(1) by auto
  have s2': "s2 = s1\<lparr>credit := (if k = 1 then credit s else 0),
      delivered_ms := delivered_ms s1 + of_bool (last_on s) * (round_ms (st + of_int k * frame_len s) - round_ms (st + frame_len s))\<rparr>"
    using s2 by (simp only: k1)
  have beg: "begin_frame s2 r (if k > 1 then st + frame_len s + of_int (k - 1) * frame_len s else st + frame_len s) (last_on s2)
     = begin_frame s2 r (st + of_int k * frame_len s) (last_on s)"
  proof -
    have start: "(if k > 1 then st + frame_len s + of_int (k - 1) * frame_len s else st + frame_len s)
        = st + of_int k * frame_len s"
      using fin kb(1) by (cases "k = 1") (simp_all only: fin, auto)
    have on: "last_on s2 = last_on s" by (simp add: s2' sel)
    show ?thesis unfolding start on ..
  qed
  have "account_until (begin_frame s2 r (st + of_int k * frame_len s) (last_on s)) t = Inr (crossed_state s st l r t k)"
  proof -
    define A where "A = st + of_int k * frame_len s"
    have tele: "d + (X - L) + (T - X) = d + (T - L)" for d X L T :: int by simp
    show ?thesis
      unfolding crossed_state_def A_def [symmetric] s2' s1_def
      by (subst account_until_known)
        (auto intro!: scheduler.equality simp: begin_frame_def Let_def granted_def tele)
  qed
  then have "advance_frames s r t = Inr (f # fs, crossed_state s st l r t k)"
    using st t f(1) sk by (simp add: advance_frames_def Let_def a1 k [symmetric] beg del: of_int_diff)
  with f(2) s2 fin kb(1) show ?thesis by (auto simp: s1_def)
qed

section \<open>What an advance does\<close>

lemma finite_or_InrD: "finite_or e v = Inr q \<Longrightarrow> in_dbl q"
  by (auto simp: finite_or_def split: pyval.splits option.splits if_splits dest: fin_num_in_dbl)

lemma decide_InrD:
  "decide s now actual reason rr completed = Inr d \<Longrightarrow> \<exists>start. frame_start s = Some start
     \<and> pd_reason d = reason \<and> pd_frame_start d = start \<and> pd_request d = latched s \<and> pd_scheduled_s d = scheduled s
     \<and> pd_credit d = credit s \<and> pd_command_on d = (now - start < of_int (scheduled s))
     \<and> pd_delivered_ms d = delivered_ms s \<and> pd_frame_delivered_ms d = frame_delivered_ms s
     \<and> pd_completed d = completed \<and> pd_transition d = (if pd_command_on d \<noteq> actual then Some (now, pd_command_on d) else None)"
  by (auto simp: decide_def Let_def split: option.splits)

lemma advance_cases:
  assumes "advance s request at_v actual_v = Inr (d, s')"
  obtains (first) r t a where "0 \<le> r" "r \<le> maximum_request s" "actual_v = VBool a" "frame_start s = None"
      "s' = (begin_frame s r t a)\<lparr>pending_reset := None\<rparr>" "pd_completed d = []"
      "validate_finite ''request'' request = Inr r" "validate_finite ''at_s'' at_v = Inr t"
    | (later) r t a st completed s1 where "0 \<le> r" "r \<le> maximum_request s" "actual_v = VBool a"
      "frame_start s = Some st" "\<And>l. last_at s = Some l \<Longrightarrow> l \<le> t"
      "advance_frames s r t = Inr (completed, s1)" "s' = observe_actual s1 a" "pd_completed d = completed"
      "validate_finite ''request'' request = Inr r" "validate_finite ''at_s'' at_v = Inr t"
proof -
  from assms obtain r t where rt: "validate_request s request = Inr r" "validate_finite ''at_s'' at_v = Inr t"
    unfolding advance_def by (elim ebind_InrE)
  then have r: "validate_finite ''request'' request = Inr r" "0 \<le> r" "r \<le> maximum_request s"
    by (auto simp: validate_request_def elim!: ebind_InrE split: if_splits)
  obtain a where a: "actual_v = VBool a"
    using assms rt by (auto simp: advance_def split: pyval.splits)
  have mono: "l \<le> t" if "last_at s = Some l" for l
    using assms rt a that by (auto simp: advance_def split: if_splits)
  show thesis
  proof (cases "frame_start s")
    case None
    then have "s' = (begin_frame s r t a)\<lparr>pending_reset := None\<rparr> \<and> pd_completed d = []"
      using assms rt a by (auto simp: advance_def Let_def elim!: ebind_InrE dest!: decide_InrD split: if_splits)
    with None rt r a show thesis by (intro first) auto
  next
    case (Some st)
    then obtain completed s1 where "advance_frames s r t = Inr (completed, s1)" "s' = observe_actual s1 a"
        "pd_completed d = completed"
      using assms rt a by (auto simp: advance_def Let_def elim!: ebind_InrE dest!: decide_InrD split: if_splits prod.splits)
    with Some rt r a mono show thesis by (intro later) auto
  qed
qed

lemma observe_actual_sel [simp]:
  "timing (observe_actual s a) = timing s" "maximum_request (observe_actual s a) = maximum_request s"
  "credit_before (observe_actual s a) = credit_before s" "credit (observe_actual s a) = credit s"
  "delivered_ms (observe_actual s a) = delivered_ms s" "frame_delivered_ms (observe_actual s a) = frame_delivered_ms s"
  "frame_start (observe_actual s a) = frame_start s" "last_at (observe_actual s a) = last_at s"
  "latched (observe_actual s a) = latched s" "scheduled (observe_actual s a) = scheduled s"
  "last_on (observe_actual s a) = a" "pending_reset (observe_actual s a) = pending_reset s"
  by (simp_all add: observe_actual_def)

lemma observe_actual_ok [simp]: "sched_ok (observe_actual s a) = sched_ok s"
  by (simp add: sched_ok_def sched_static_def frame_ok_def split: option.split)

lemma begin_frame_sel [simp]:
  "timing (begin_frame s r t a) = timing s" "maximum_request (begin_frame s r t a) = maximum_request s"
  "credit_before (begin_frame s r t a) = credit s" "delivered_ms (begin_frame s r t a) = delivered_ms s"
  "frame_delivered_ms (begin_frame s r t a) = 0" "frame_start (begin_frame s r t a) = Some t"
  "last_at (begin_frame s r t a) = Some t" "latched (begin_frame s r t a) = r"
  "last_on (begin_frame s r t a) = a"
  "scheduled (begin_frame s r t a) = granted s (r * frame_len s + credit s)"
  "credit (begin_frame s r t a) = r * frame_len s + credit s - of_int (granted s (r * frame_len s + credit s))"
  by (simp_all add: begin_frame_def Let_def)

lemma sched_ok_frame: "sched_ok s \<Longrightarrow> frame_start s = Some st \<Longrightarrow>
    \<exists>l. last_at s = Some l \<and> st \<le> l \<and> l < st + frame_len s \<and> 0 \<le> frame_delivered_ms s
      \<and> frame_delivered_ms s \<le> round_ms l - round_ms st \<and> 0 < frame_s (timing s)
      \<and> credit s = latched s * frame_len s + credit_before s - of_int (scheduled s)"
  by (auto simp: sched_ok_def frame_ok_def sched_static_def timing_ok_def split: option.splits)

lemma begin_frame_ok:
  assumes "sched_static s" "0 \<le> credit s" "0 \<le> r" "r \<le> maximum_request s"
  shows "sched_ok (begin_frame s r t a)"
proof -
  have "0 \<le> r * frame_len s + credit s"
    using assms by (simp add: sched_static_def timing_ok_def)
  from granted_bounds [OF assms(1) this] granted_dvd assms show ?thesis
    by (simp add: sched_ok_def sched_static_def frame_ok_def timing_ok_def)
qed

lemma sched_okD: "sched_ok s \<Longrightarrow> sched_static s \<and> 0 \<le> credit s \<and> 0 < frame_s (timing s)"
  by (simp add: sched_ok_def sched_static_def timing_ok_def)

lemma crossed_state_ok:
  assumes "sched_ok s" "0 \<le> r" "r \<le> maximum_request s" "st + of_int k * frame_len s \<le> t"
    "t < st + of_int k * frame_len s + frame_len s"
  shows "sched_ok (crossed_state s st l r t k)"
proof -
  let ?b = "begin_frame (s\<lparr>credit := (if k = 1 then credit s else 0)\<rparr>) r (st + of_int k * frame_len s) (last_on s)"
  have "sched_static (s\<lparr>credit := (if k = 1 then credit s else 0)\<rparr>)"
    using assms(1) by (simp add: sched_ok_def sched_static_def)
  then have b: "sched_ok ?b"
    using assms by (intro begin_frame_ok) (auto simp: sched_ok_def)
  have "0 \<le> round_ms t - round_ms (st + of_int k * frame_len s)"
    using round_ms_mono [OF assms(4)] by simp
  with b assms(4,5) show ?thesis
    by (auto simp: crossed_state_def sched_ok_def sched_static_def frame_ok_def)
qed

lemma reset_ok: "sched_ok s \<Longrightarrow> sched_ok (snd (reset s why))"
  by (auto simp: reset_def sched_ok_def sched_static_def frame_ok_def timing_ok_def)

lemma advance_ok:
  assumes "sched_ok s" "advance s request at_v actual_v = Inr (d, s')"
  shows "sched_ok s' \<and> timing s' = timing s \<and> maximum_request s' = maximum_request s"
  using assms(2)
proof (cases rule: advance_cases)
  case (first r t a)
  then have "sched_ok (begin_frame s r t a)"
    using sched_okD [OF assms(1)] by (intro begin_frame_ok) auto
  with first show ?thesis by (simp add: sched_ok_def sched_static_def frame_ok_def)
next
  case (later r t a st completed s1)
  then obtain l where l: "last_at s = Some l" "st \<le> l" "l < st + frame_len s" "0 \<le> frame_delivered_ms s"
      "frame_delivered_ms s \<le> round_ms l - round_ms st" "0 < frame_s (timing s)" "l \<le> t"
    using sched_ok_frame [OF assms(1)] by blast
  show ?thesis
  proof (cases "t < st + frame_len s")
    case True
    have "round_ms l \<le> round_ms t" using l by (intro round_ms_mono)
    with True l later assms(1) advance_frames_within [OF later(4) l(1) True, of r] show ?thesis
      by (auto simp: sched_ok_def sched_static_def frame_ok_def)
  next
    case False
    define k where "k = \<lfloor>(t - st) / frame_len s\<rfloor>"
    from False have ge: "st + frame_len s \<le> t" by simp
    have F: "0 < frame_len s" using l by simp
    from frame_count [OF F ge k_def] advance_frames_crossing [OF later(4) l(1) l(6) ge k_def, of r] later
    have "s' = observe_actual (crossed_state s st l r t k) a" "st + of_int k * frame_len s \<le> t"
        "t < st + of_int k * frame_len s + frame_len s" by auto
    with crossed_state_ok [OF assms(1) later(1,2)] show ?thesis
      by (simp add: crossed_state_def)
  qed
qed

section \<open>Runs\<close>

datatype sched_event = Advance pyval pyval pyval | Reset reset_reason

fun sched_step :: "scheduler \<Rightarrow> sched_event \<Rightarrow> scheduler result" where
  "sched_step s (Advance request at_v actual_v) = ebind (advance s request at_v actual_v) (\<lambda>(d, s'). Inr s')"
| "sched_step s (Reset why) = Inr (snd (reset s why))"

lemma sched_stepE:
  assumes "sched_step s e = Inr s'"
  obtains (adv) request at_v actual_v d where "e = Advance request at_v actual_v" "advance s request at_v actual_v = Inr (d, s')"
    | (res) why where "e = Reset why" "s' = snd (reset s why)"
  using assms by (cases e) (auto elim!: ebind_InrE)

text \<open>The delivered time of one advance, wherever the frame ends fall.\<close>

lemma advance_delivered:
  assumes "sched_ok s" "advance s request at_v actual_v = Inr (d, s')"
    and t: "validate_finite ''at_s'' at_v = Inr t" and a: "actual_v = VBool a"
  shows "last_at s' = Some t \<and> last_on s' = a
    \<and> delivered_ms s' = delivered_ms s
        + (case last_at s of None \<Rightarrow> 0 | Some l \<Rightarrow> of_bool (last_on s) * (round_ms t - round_ms l))
    \<and> sum_list (map fr_delivered_ms (pd_completed d)) + frame_delivered_ms s'
        = frame_delivered_ms s + (case last_at s of None \<Rightarrow> 0 | Some l \<Rightarrow> of_bool (last_on s) * (round_ms t - round_ms l))
    \<and> (case last_at s of None \<Rightarrow> True | Some l \<Rightarrow> l \<le> t)"
  using assms(2)
proof (cases rule: advance_cases)
  case (first r t' a')
  moreover have "last_at s = None" "frame_delivered_ms s = 0"
    using assms(1) first(4) by (auto simp: sched_ok_def frame_ok_def split: option.splits)
  ultimately show ?thesis using t a by simp
next
  case (later r t' a' st completed s1)
  with t a have eq: "t' = t" "a' = a" by auto
  obtain l where l: "last_at s = Some l" "0 < frame_s (timing s)"
    using sched_ok_frame [OF assms(1) later(4)] by blast
  show ?thesis
  proof (cases "t < st + frame_len s")
    case True
    with later eq l advance_frames_within [OF later(4) l(1) True, of r] show ?thesis by auto
  next
    case False
    define k where "k = \<lfloor>(t - st) / frame_len s\<rfloor>"
    from False have ge: "st + frame_len s \<le> t" by simp
    obtain f fs where fs: "advance_frames s r t = Inr (f # fs, crossed_state s st l r t k)" "finished_at s st l f"
      "sum_list (map fr_delivered_ms fs)
        = of_bool (last_on s) * (round_ms (st + of_int k * frame_len s) - round_ms (st + frame_len s))"
      using advance_frames_crossing [OF later(4) l(1,2) ge k_def, of r] by blast
    with later eq(1) have out: "pd_completed d = f # fs" "s' = observe_actual (crossed_state s st l r t k) a'" by auto
    show ?thesis
      unfolding out using l later(5) eq fs(2,3)
      by (cases "last_on s") (simp_all add: crossed_state_def finished_at_def)
  qed
qed

interpretation pulse: ranked_machine sched_step sched_ok delivered_ms
proof unfold_locales
  fix s t e
  assume ok: "sched_ok s" and st: "sched_step s e = Inr t"
  from st show "sched_ok t"
    by (cases rule: sched_stepE) (use ok advance_ok reset_ok in auto)
  from st show "delivered_ms s \<le> delivered_ms t"
  proof (cases rule: sched_stepE)
    case (adv request at_v actual_v d)
    from adv(2) obtain u a where u: "validate_finite ''at_s'' at_v = Inr u" "actual_v = VBool a"
      by (cases rule: advance_cases) auto
    from advance_delivered [OF ok adv(2) u] show ?thesis
      by (auto split: option.splits intro: round_ms_mono)
  qed (simp add: reset_def)
qed

text \<open>Whatever the sequence of polls and resets, a scheduler built by the constructor keeps the pulse
  contract: the pulse it schedules is a whole number of pulse quanta, never negative, never longer than the
  frame nor than the authority, the carried credit is never negative, and the delivered time never exceeds
  the elapsed part of the frame.\<close>

theorem pulse_contract:
  assumes "mk_auger_timing p f = Inr tm" "new_scheduler tm m = Inr s0" "efold sched_step s0 es = Inr s"
  shows "pulse_s (timing s) dvd scheduled s \<and> 0 \<le> scheduled s \<and> scheduled s \<le> frame_s (timing s)
    \<and> of_int (scheduled s) \<le> maximum_request s * frame_len s \<and> 0 \<le> credit s
    \<and> (case (frame_start s, last_at s) of
         (Some st, Some l) \<Rightarrow> frame_delivered_ms s \<le> round_ms l - round_ms st | _ \<Rightarrow> frame_delivered_ms s = 0)"
proof -
  have ok: "sched_ok s"
    using pulse.run_inv [OF _ assms(3)] new_scheduler_ok [OF mk_auger_timing_ok [OF assms(1)] assms(2)] by blast
  have "maximum_request s * frame_len s \<le> frame_len s"
    using ok by (simp add: sched_ok_def sched_static_def timing_ok_def)
  then have "(of_int (scheduled s) :: rat) \<le> of_int (frame_s (timing s))"
    using ok by (simp add: sched_ok_def)
  with ok show ?thesis
    by (auto simp: sched_ok_def frame_ok_def split: option.splits)
qed

section \<open>Credit\<close>

definition credit_ok :: "scheduler \<Rightarrow> bool" where
  "credit_ok s \<longleftrightarrow> sched_ok s \<and> whole_authority s \<and> credit s < pulse_len s \<and> credit_before s < pulse_len s"

lemma begin_frame_credit:
  assumes "sched_static s" "whole_authority s" "0 \<le> credit s" "credit s < pulse_len s" "0 \<le> r" "r \<le> maximum_request s"
  shows "credit (begin_frame s r t a) < pulse_len s"
proof -
  have F: "0 < frame_len s" using assms(1) by (simp add: sched_static_def timing_ok_def)
  then have "0 \<le> r * frame_len s" "r * frame_len s \<le> maximum_request s * frame_len s"
    using assms by (simp_all add: mult_right_mono)
  with granted_remainder [OF assms(1,2), of "r * frame_len s + credit s"] assms show ?thesis by simp
qed

lemma advance_credit_ok:
  assumes "credit_ok s" "advance s request at_v actual_v = Inr (d, s')"
  shows "credit_ok s'"
proof -
  have ok: "sched_ok s" "whole_authority s" "credit s < pulse_len s" "credit_before s < pulse_len s"
    using assms(1) by (auto simp: credit_ok_def)
  have static: "sched_static s" "0 \<le> credit s" "0 < frame_s (timing s)" and p: "0 < pulse_len s"
    using sched_okD [OF ok(1)] by (auto simp: sched_static_def timing_ok_def)
  from advance_ok [OF ok(1) assms(2)] ok(2)
  have ok': "sched_ok s'" "whole_authority s'" "timing s' = timing s" by (auto simp: whole_authority_def)
  from assms(2) have "credit s' < pulse_len s \<and> credit_before s' < pulse_len s"
  proof (cases rule: advance_cases)
    case (first r t a)
    with begin_frame_credit [OF static(1) ok(2) static(2) ok(3)] ok(3) show ?thesis by simp
  next
    case (later r t a st completed s1)
    obtain l where l: "last_at s = Some l" using sched_ok_frame [OF ok(1) later(4)] by blast
    show ?thesis
    proof (cases "t < st + frame_len s")
      case True
      with later advance_frames_within [OF later(4) l True, of r] ok show ?thesis by auto
    next
      case False
      define k where "k = \<lfloor>(t - st) / frame_len s\<rfloor>"
      from False have ge: "st + frame_len s \<le> t" by simp
      have s1: "s1 = crossed_state s st l r t k"
        using later advance_frames_crossing [OF later(4) l static(3) ge k_def, of r] by auto
      let ?s0 = "s\<lparr>credit := (if k = 1 then credit s else 0)\<rparr>"
      have "sched_static ?s0" "whole_authority ?s0" "0 \<le> credit ?s0" "credit ?s0 < pulse_len s"
        using static ok p by (auto simp: sched_static_def whole_authority_def)
      with begin_frame_credit [of ?s0 r "st + of_int k * frame_len s" "last_on s"] later(1,2) s1 later(7)
      show ?thesis by (auto simp: crossed_state_def)
    qed
  qed
  with ok' show ?thesis by (simp add: credit_ok_def)
qed

interpretation quantised: guarded_machine sched_step credit_ok
proof unfold_locales
  fix s t e
  assume ok: "credit_ok s" and st: "sched_step s e = Inr t"
  from st show "credit_ok t"
  proof (cases rule: sched_stepE)
    case (res why)
    have "0 < pulse_len s" using ok by (simp add: credit_ok_def sched_ok_def sched_static_def timing_ok_def)
    with res ok reset_ok [of s why] show ?thesis by (simp add: credit_ok_def reset_def whole_authority_def)
  qed (use ok advance_credit_ok in auto)
qed

section \<open>Polling the scheduler\<close>

fun polls :: "scheduler \<Rightarrow> (rat \<times> rat \<times> bool) list \<Rightarrow> (pulse_decision list \<times> scheduler) result" where
  "polls s [] = Inr ([], s)"
| "polls s ((request, t, a) # ps) =
     ebind (advance s (VFloat (Fin request)) (VFloat (Fin t)) (VBool a)) (\<lambda>(d, s').
     ebind (polls s' ps) (\<lambda>(ds, s''). Inr (d # ds, s'')))"

abbreviation frames :: "pulse_decision list \<Rightarrow> frame_result list" where
  "frames ds \<equiv> concat (map pd_completed ds)"

lemma polls_ConsE:
  assumes "polls s ((request, t, a) # ps) = Inr (ds, s')"
  obtains d ds1 s1 where "ds = d # ds1" "advance s (VFloat (Fin request)) (VFloat (Fin t)) (VBool a) = Inr (d, s1)"
    "polls s1 ps = Inr (ds1, s')"
  using assms by (auto elim!: ebind_InrE)

lemma finite_poll: "advance s (VFloat (Fin request)) (VFloat (Fin t)) (VBool a) = Inr (d, s1) \<Longrightarrow>
    validate_finite ''at_s'' (VFloat (Fin t)) = Inr t"
  by (cases rule: advance_cases) (auto simp: validate_finite_def finite_or_def split: if_splits)

section \<open>Delivered time\<close>

text \<open>The time the auger was observed on, each observation holding until the next.\<close>

fun observed_ms :: "(rat \<times> bool) list \<Rightarrow> int" where
  "observed_ms ((t, a) # (t', a') # ps) = of_bool a * (round_ms t' - round_ms t) + observed_ms ((t', a') # ps)"
| "observed_ms _ = 0"

lemma polls_delivered:
  assumes "sched_ok s" "polls s ps = Inr (ds, s')"
  shows "delivered_ms s' = delivered_ms s
      + observed_ms ((case last_at s of None \<Rightarrow> [] | Some l \<Rightarrow> [(l, last_on s)]) @ map snd ps)
    \<and> sum_list (map fr_delivered_ms (frames ds)) + frame_delivered_ms s' - delivered_ms s'
        = frame_delivered_ms s - delivered_ms s"
  using assms
proof (induction ps arbitrary: s ds)
  case Nil
  then show ?case by (auto split: option.split)
next
  case (Cons p ps)
  obtain request t a where p: "p = (request, t, a)" by (cases p)
  from Cons.prems(2) obtain d ds1 s1 where d: "ds = d # ds1"
      "advance s (VFloat (Fin request)) (VFloat (Fin t)) (VBool a) = Inr (d, s1)" "polls s1 ps = Inr (ds1, s')"
    unfolding p by (rule polls_ConsE)
  from advance_ok [OF Cons.prems(1) d(2)] have ok: "sched_ok s1" by blast
  note one = advance_delivered [OF Cons.prems(1) d(2) finite_poll [OF d(2)] refl]
  have "observed_ms ((case last_at s of None \<Rightarrow> [] | Some l \<Rightarrow> [(l, last_on s)]) @ map snd (p # ps))
      = (delivered_ms s1 - delivered_ms s) + observed_ms ((t, a) # map snd ps)"
    using one by (cases "last_at s") (simp_all add: p)
  with Cons.IH [OF ok d(3)] one d(1) show ?case by simp
qed

text \<open>C31: The delivered time is exactly the observed time: from a fresh scheduler, after any sequence of
  accepted polls, the total delivered milliseconds equal the time the auger was observed on (each observation
  holding until the next), and they are split without loss or overlap into the frames completed on the way
  and the current frame, wherever frame ends and missed frames fall.\<close>

theorem delivered_is_observed_on_time:
  assumes "mk_auger_timing p f = Inr tm" "new_scheduler tm m = Inr s0" "polls s0 ps = Inr (ds, s)"
  shows "delivered_ms s = observed_ms (map snd ps)
    \<and> sum_list (map fr_delivered_ms (frames ds)) + frame_delivered_ms s = delivered_ms s"
proof -
  from new_scheduler_ok [OF mk_auger_timing_ok [OF assms(1)] assms(2)]
  have s0: "sched_ok s0" "delivered_ms s0 = 0" "frame_start s0 = None" by auto
  then have "last_at s0 = None" "frame_delivered_ms s0 = 0"
    by (auto simp: sched_ok_def frame_ok_def split: option.splits)
  with polls_delivered [OF s0(1) assms(3)] s0(2) show ?thesis by simp
qed

section \<open>Mean duty\<close>

abbreviation frame_error :: "scheduler \<Rightarrow> frame_result \<Rightarrow> rat" where
  "frame_error s f \<equiv> fr_request f * frame_len s - of_int (fr_scheduled_s f)"

lemma advance_duty:
  assumes "sched_ok s" "advance s request at_v actual_v = Inr (d, s')" "\<not> list_ex fr_skipped (pd_completed d)"
  shows "sum_list (map (frame_error s) (pd_completed d))
    = credit_before s' - (if frame_start s = None then credit s else credit_before s)"
  using assms(2)
proof (cases rule: advance_cases)
  case (first r t a)
  then show ?thesis by simp
next
  case (later r t a st completed s1)
  obtain l where l: "last_at s = Some l" "0 < frame_s (timing s)"
      "credit s = latched s * frame_len s + credit_before s - of_int (scheduled s)"
    using sched_ok_frame [OF assms(1) later(4)] by blast
  show ?thesis
  proof (cases "t < st + frame_len s")
    case True
    with later advance_frames_within [OF later(4) l(1) True, of r] show ?thesis by auto
  next
    case False
    define k where "k = \<lfloor>(t - st) / frame_len s\<rfloor>"
    from False have ge: "st + frame_len s \<le> t" by simp
    obtain f fs where fs: "advance_frames s r t = Inr (f # fs, crossed_state s st l r t k)" "finished_at s st l f"
        "int (length fs) = k - 1" "list_all fr_skipped fs"
      using advance_frames_crossing [OF later(4) l(1,2) ge k_def, of r] by blast
    with later have out: "pd_completed d = f # fs" "s' = observe_actual (crossed_state s st l r t k) a" by auto
    with assms(3) fs(4) have "fs = []" by (cases fs) auto
    with fs(3) have "k = 1" by simp
    with out fs(2) \<open>fs = []\<close> l(3) later(4) show ?thesis
      by (simp add: crossed_state_def finished_at_def)
  qed
qed

lemma polls_duty:
  assumes "credit_ok s" "polls s ps = Inr (ds, s')" "\<not> list_ex fr_skipped (frames ds)"
  shows "credit_ok s' \<and> timing s' = timing s
    \<and> sum_list (map (frame_error s) (frames ds))
       = (if frame_start s' = None then credit s' else credit_before s')
         - (if frame_start s = None then credit s else credit_before s)"
  using assms
proof (induction ps arbitrary: s ds)
  case (Cons p ps)
  obtain request t a where p: "p = (request, t, a)" by (cases p)
  from Cons.prems(2) obtain d ds1 s1 where d: "ds = d # ds1"
      "advance s (VFloat (Fin request)) (VFloat (Fin t)) (VBool a) = Inr (d, s1)" "polls s1 ps = Inr (ds1, s')"
    unfolding p by (rule polls_ConsE)
  have ok: "sched_ok s" using Cons.prems(1) by (simp add: credit_ok_def)
  have c1: "credit_ok s1" using advance_credit_ok [OF Cons.prems(1) d(2)] .
  have t1: "timing s1 = timing s" using advance_ok [OF ok d(2)] by blast
  have started: "frame_start s1 \<noteq> None"
    using advance_delivered [OF ok d(2) finite_poll [OF d(2)] refl] c1
    by (auto simp: credit_ok_def sched_ok_def frame_ok_def split: option.splits)
  have "\<not> list_ex fr_skipped (pd_completed d)" "\<not> list_ex fr_skipped (frames ds1)"
    using Cons.prems(3) d(1) by auto
  with Cons.IH [OF c1 d(3)] advance_duty [OF ok d(2)] d(1) t1 started show ?case by simp
qed simp


section \<open>Missed frames\<close>

text \<open>Frames stay on their grid and a missed frame is forfeited, not made up for: a poll of a started
  scheduler moves the frame start by a whole number \<open>k\<close> of frames to the one containing the poll, reports
  exactly those \<open>k\<close> frames, all but the first of them skipped, and when it skipped one (\<open>k\<close> at least 2) the
  new frame carries no credit in and schedules at most its own request.\<close>

theorem missed_frames_are_forfeited:
  assumes "sched_ok s" "frame_start s = Some st" "advance s request at_v actual_v = Inr (d, s')"
    and "validate_finite ''at_s'' at_v = Inr t"
  shows "\<exists>k. frame_start s' = Some (st + of_nat k * frame_len s) \<and> pd_frame_start d = st + of_nat k * frame_len s
    \<and> st + of_nat k * frame_len s \<le> t \<and> t < st + of_nat k * frame_len s + frame_len s
    \<and> length (pd_completed d) = k \<and> list_all fr_skipped (tl (pd_completed d))
    \<and> (k < 2 \<or> credit_before s' = 0 \<and> of_int (scheduled s') \<le> latched s' * frame_len s)"
proof -
  have start: "frame_start s' = Some (pd_frame_start d)"
    using assms(2,3) by (auto simp: advance_def Let_def elim!: ebind_InrE dest!: decide_InrD
        split: pyval.splits if_splits prod.splits)
  from assms(3) show ?thesis
  proof (cases rule: advance_cases)
    case (first r t' a)
    with assms(2) show ?thesis by simp
  next
    case (later r t' a st' completed s1)
    with assms(2,4) have eq: "st' = st" "t' = t" by auto
    obtain l where l: "last_at s = Some l" "st \<le> l" "0 < frame_s (timing s)"
      using sched_ok_frame [OF assms(1,2)] by blast
    show ?thesis
    proof (cases "t < st + frame_len s")
      case True
      have "st \<le> t" using l later(5) [OF l(1)] eq by linarith
      with True later(6-8) eq start assms(2) advance_frames_within [OF assms(2) l(1) True, of r] show ?thesis
        by (intro exI [of _ 0]) auto
    next
      case False
      define k where "k = \<lfloor>(t - st) / frame_len s\<rfloor>"
      from False have ge: "st + frame_len s \<le> t" by simp
      have F: "0 < frame_len s" using l by simp
      note kb = frame_count [OF F ge k_def]
      obtain f fs where fs: "advance_frames s r t = Inr (f # fs, crossed_state s st l r t k)"
          "int (length fs) = k - 1" "list_all fr_skipped fs"
        using advance_frames_crossing [OF assms(2) l(1,3) ge k_def, of r] by blast
      with later eq have out: "pd_completed d = f # fs" "s' = observe_actual (crossed_state s st l r t k) a" by auto
      have n: "of_nat (nat k) = (of_int k :: rat)" using kb(1) by simp
      have sched: "of_int (granted (s\<lparr>credit := 0\<rparr>) (r * frame_len s)) \<le> r * frame_len s"
        using granted_bounds(2) [of "s\<lparr>credit := 0\<rparr>" "r * frame_len s"] sched_okD [OF assms(1)] later(1)
        by (simp add: sched_static_def)
      show ?thesis
        using kb fs(2,3) out start sched
        by (intro exI [of _ "nat k"]) (auto simp: n crossed_state_def)
    qed
  qed
qed

section \<open>A concrete scheduler\<close>

definition demo_scheduler :: scheduler where
  "demo_scheduler = \<lparr>timing = AUGER_TIMING, maximum_request = 1, credit_before = 0, credit = 0, delivered_ms = 0,
     frame_start_on = False, frame_delivered_ms = 0, frame_start = None, last_on = False, last_at = None,
     latched = 0, transitions = 0, pending_reset = None, scheduled = 0\<rparr>"

lemma demo_timing: "mk_auger_timing (VInt 2) (VInt 20) = Inr AUGER_TIMING"
  by (simp add: mk_auger_timing_def AUGER_TIMING_def)

lemma demo_scheduler_new: "new_scheduler AUGER_TIMING (VFloat (Fin 1)) = Inr demo_scheduler"
  by (simp add: new_scheduler_def validate_finite_def finite_or_def in_dbl_small demo_scheduler_def)

definition demo_polls :: "(rat \<times> rat \<times> bool) list" where
  "demo_polls = [(1/4, 0, False), (1/4, 1, True), (1/4, 5, False), (1/4, 21, True), (1/4, 26, False), (1/4, 41, False)]"

lemma demo_polls_accepted:
  "case polls demo_scheduler demo_polls of
     Inr (ds, s) \<Rightarrow> \<not> list_ex fr_skipped (frames ds) \<and> delivered_ms s = 9000
       \<and> map fr_scheduled_s (frames ds) = [4, 6] | Inl _ \<Rightarrow> False"
  by code_simp

lemma demo_polls_run:
  obtains ds s where "polls demo_scheduler demo_polls = Inr (ds, s)" "\<not> list_ex fr_skipped (frames ds)"
    "delivered_ms s = 9000" "map fr_scheduled_s (frames ds) = [4, 6]"
  using demo_polls_accepted by (auto split: sum.split_asm)

lemma delivered_is_observed_on_time_witness:
  "\<exists>ds s. polls demo_scheduler demo_polls = Inr (ds, s) \<and> delivered_ms s = observed_ms (map snd demo_polls)
     \<and> delivered_ms s = 9000"
proof -
  obtain ds s where p: "polls demo_scheduler demo_polls = Inr (ds, s)" "delivered_ms s = 9000"
    using demo_polls_run by metis
  from delivered_is_observed_on_time [OF demo_timing demo_scheduler_new p(1)] p show ?thesis by blast
qed


definition demo_events :: "sched_event list" where
  "demo_events = [Advance (VFloat (Fin (1/4))) (VInt 0) (VBool False), Advance (VFloat (Fin (1/2))) (VInt 3) (VBool True),
     Reset R_LID, Advance (VInt 1) (VInt 9) (VBool False)]"

lemma demo_events_accepted:
  "case efold sched_step demo_scheduler demo_events of Inr s \<Rightarrow> scheduled s = 20 | Inl _ \<Rightarrow> False"
  by code_simp

lemma pulse_contract_witness:
  "\<exists>s. efold sched_step demo_scheduler demo_events = Inr s \<and> pulse_s (timing s) dvd scheduled s \<and> scheduled s = 20"
proof -
  obtain s where s: "efold sched_step demo_scheduler demo_events = Inr s" "scheduled s = 20"
    using demo_events_accepted by (auto split: sum.split_asm)
  from pulse_contract [OF demo_timing demo_scheduler_new s(1)] s show ?thesis by blast
qed

definition demo_running :: scheduler where
  "demo_running = begin_frame demo_scheduler (1/4) 0 True"

lemma demo_running_ok: "sched_ok demo_running"
  unfolding demo_running_def
  by (rule begin_frame_ok) (simp_all add: demo_scheduler_def sched_static_def AUGER_TIMING_ok)

lemma demo_late: "case advance demo_running (VFloat (Fin (1/4))) (VInt 65) (VBool True) of Inr _ \<Rightarrow> True | Inl _ \<Rightarrow> False"
  by code_simp

lemma missed_frames_are_forfeited_witness:
  "\<exists>d s'. advance demo_running (VFloat (Fin (1/4))) (VInt 65) (VBool True) = Inr (d, s')
     \<and> (\<exists>k. pd_frame_start d = 0 + of_nat k * frame_len demo_running \<and> length (pd_completed d) = k)"
proof -
  obtain d s' where adv: "advance demo_running (VFloat (Fin (1/4))) (VInt 65) (VBool True) = Inr (d, s')"
    using demo_late by (auto split: sum.split_asm)
  have "frame_start demo_running = Some 0" by (simp add: demo_running_def)
  moreover have "validate_finite ''at_s'' (VInt 65) = Inr 65"
    by (simp add: validate_finite_def finite_or_def in_dbl_small)
  ultimately show ?thesis using missed_frames_are_forfeited [OF demo_running_ok _ adv] adv by blast
qed

end
