(* ===== verification/Frame_Observation.thy ===== *)
theory Frame_Observation
  imports Clock_Domain Pulse_Scheduler
begin

text \<open>
  The immutable values the framed-pulse runtime builds: the combustion allocation
  (\<open>controller/mpc_allocator.py\<close>), the applied output (\<open>controller/applied_output.py\<close>) and the frame
  observation a learner is trained on (\<open>FrameObservation\<close> of \<open>controller/model_learning/contracts.py\<close>), each with
  the checks of its constructor.

  Temperatures are \<open>pyfloat\<close>, since the code tests them for finiteness; duties and loads are finite numbers here,
  exact rationals.
\<close>

section \<open>Trace enumerations\<close>

datatype inhibit = INH_NONE | INH_LID_OPEN | INH_MANUAL_OVERRIDE | INH_SAFETY | INH_STALE_COMMAND

datatype clamp_reason = CLAMP_NONE | CLAMP_AUGER_MAX | CLAMP_AUGER_MIN | CLAMP_AUGER_NONFINITE | CLAMP_FAN_MIN
  | CLAMP_FAN_MAX

datatype ambient_source = AMB_MEASURED | AMB_MANUAL | AMB_WEATHER | AMB_CONFIGURED

datatype ambient_uncertainty = UNC_MEASURED | UNC_ESTIMATED | UNC_UNMEASURED

section \<open>The allocator\<close>

definition ALLOCATOR_REVISION :: int where "ALLOCATOR_REVISION = 2"

definition normalized_combustion_load :: "pyfloat \<Rightarrow> rat result" where
  "normalized_combustion_load v =
     (case v of
        Fin load \<Rightarrow> if 0 \<le> load \<and> load \<le> 1 then Inr load
                    else Inl (ValueError ''normalized combustion load must be finite and within [0, 1]'')
      | _ \<Rightarrow> Inl (ValueError ''normalized combustion load must be finite and within [0, 1]''))"

definition normalized_load_from_auger_duty :: "pyfloat \<Rightarrow> pyfloat \<Rightarrow> rat result" where
  "normalized_load_from_auger_duty auger_duty u_max =
     (case auger_duty of
        Fin duty \<Rightarrow>
          (case u_max of
             Fin maximum \<Rightarrow>
               if maximum \<le> 0 then Inl (ValueError ''u_max must be finite and greater than zero'')
               else Inr (min 1 (max 0 (duty / maximum)))
           | _ \<Rightarrow> Inl (ValueError ''u_max must be finite and greater than zero''))
      | _ \<Rightarrow> Inl (ValueError ''measured auger duty must be finite''))"

record allocation_result =
  al_load :: rat
  al_auger_duty :: rat
  al_fan_duty :: "rat option"
  al_u_max :: rat
  al_fan_min_pct :: rat
  al_fan_max_pct :: rat
  al_fan_enabled :: bool
  al_auger_clamp :: clamp_reason
  al_fan_clamp :: clamp_reason
  al_revision :: int

definition allocate :: "pyfloat \<Rightarrow> pyfloat \<Rightarrow> pyfloat \<Rightarrow> pyfloat \<Rightarrow> bool \<Rightarrow> allocation_result result" where
  "allocate load_v u_max fan_min_pct fan_max_pct enable_fan =
     ebind (normalized_combustion_load load_v) (\<lambda>load.
     case u_max of
       Fin maximum \<Rightarrow>
         if maximum \<le> 0 then Inl (ValueError ''u_max must be finite and greater than zero'')
         else
           (case (fan_min_pct, fan_max_pct) of
              (Fin fan_min, Fin fan_max) \<Rightarrow>
                if fan_min > fan_max then Inl (ValueError ''fan bounds must be finite and ordered'')
                else Inr \<lparr>al_load = load, al_auger_duty = load * maximum,
                       al_fan_duty = (if enable_fan then Some (fan_min + load * (fan_max - fan_min)) else None),
                       al_u_max = maximum, al_fan_min_pct = fan_min, al_fan_max_pct = fan_max,
                       al_fan_enabled = enable_fan, al_auger_clamp = CLAMP_NONE, al_fan_clamp = CLAMP_NONE,
                       al_revision = ALLOCATOR_REVISION\<rparr>
            | _ \<Rightarrow> Inl (ValueError ''fan bounds must be finite and ordered''))
     | _ \<Rightarrow> Inl (ValueError ''u_max must be finite and greater than zero''))"

section \<open>The applied output\<close>

datatype output_source = SRC_CONTROLLER | SRC_LID_OPEN | SRC_MANUAL_OVERRIDE | SRC_SEED

fun source_value :: "output_source \<Rightarrow> string" where
  "source_value SRC_CONTROLLER = ''controller''"
| "source_value SRC_LID_OPEN = ''lid_open''"
| "source_value SRC_MANUAL_OVERRIDE = ''manual_override''"
| "source_value SRC_SEED = ''seed''"

datatype disposition = PROGRESS | COMPLETE | DISCARDED

definition CALIBRATION_ACTIONS :: "string list" where
  "CALIBRATION_ACTIONS =
     [''none'', ''start'', ''pause'', ''resume'', ''stop'', ''reset-progress'', ''safety-cancel'']"

record applied_output =
  ao_ratio :: rat
  ao_source :: output_source
  ao_timestamp :: rat
  ao_requested :: "rat option"
  ao_result_revision :: int
  ao_calibration_revision :: int
  ao_calibration_action :: string
  ao_calibration_generation :: int
  ao_disposition :: disposition
  ao_sample_complete :: bool

definition non_negative_int :: "int \<Rightarrow> string \<Rightarrow> unit result" where
  "non_negative_int n name = check (0 \<le> n) (ValueError name)"

definition mk_applied_output :: "applied_output \<Rightarrow> applied_output result" where
  "mk_applied_output a =
     ebind (non_negative_int (ao_result_revision a) ''producing_result_revision'') (\<lambda>_.
     ebind (non_negative_int (ao_calibration_revision a) ''producing_calibration_revision'') (\<lambda>_.
     ebind (non_negative_int (ao_calibration_generation a) ''producing_calibration_generation'') (\<lambda>_.
     ebind (check (ao_calibration_action a \<in> set CALIBRATION_ACTIONS) (ValueError ''invalid producing calibration action'')) (\<lambda>_.
       Inr a))))"

definition controller_commanded :: "applied_output \<Rightarrow> bool" where
  "controller_commanded a \<longleftrightarrow> ao_source a = SRC_CONTROLLER"

definition classify_output_source :: "bool \<Rightarrow> bool \<Rightarrow> output_source" where
  "classify_output_source lid_open manual_override_active =
     (if manual_override_active then SRC_MANUAL_OVERRIDE else if lid_open then SRC_LID_OPEN else SRC_CONTROLLER)"

definition seed_output :: "rat \<Rightarrow> rat \<Rightarrow> bool \<Rightarrow> bool \<Rightarrow> bool \<Rightarrow> applied_output result" where
  "seed_output ratio timestamp lid_open manual_override_active auger_output =
     (let src = classify_output_source lid_open manual_override_active
      in mk_applied_output \<lparr>ao_ratio = (if auger_output then ratio else 0),
           ao_source = (if src = SRC_CONTROLLER then SRC_SEED else src), ao_timestamp = timestamp,
           ao_requested = None, ao_result_revision = 0, ao_calibration_revision = 0,
           ao_calibration_action = ''none'', ao_calibration_generation = 0, ao_disposition = PROGRESS,
           ao_sample_complete = False\<rparr>)"

section \<open>The frame observation\<close>

record observation =
  ob_frame_start :: rat
  ob_frame_end :: rat
  ob_temp_c :: pyfloat
  ob_setpoint_c :: pyfloat
  ob_ambient_c :: pyfloat
  ob_requested_q :: rat
  ob_realized_q :: rat
  ob_requested_auger_duty :: rat
  ob_delivered_on :: rat
  ob_requested_fan_duty :: "rat option"
  ob_actual_fan_duty :: "rat option"
  ob_result_revision :: int
  ob_output_source :: string
  ob_lid_open :: bool
  ob_safety_inhibited :: bool
  ob_manual_override :: bool
  ob_stale :: bool
  ob_skipped :: bool
  ob_reset :: bool
  ob_continuous :: bool
  ob_role_generation :: int
  ob_wall_start_ms :: int
  ob_wall_end_ms :: int
  ob_sequence :: int
  ob_probe_valid :: bool
  ob_probe_source :: "string option"
  ob_ambient_source :: ambient_source
  ob_ambient_uncertainty :: ambient_uncertainty
  ob_baseline_q :: "rat option"
  ob_probe_q :: rat
  ob_allocated_q :: "rat option"
  ob_scheduled_on :: "rat option"
  ob_realized_auger_duty :: "rat option"
  ob_allocator_revision :: "int option"
  ob_clamp_reasons :: "clamp_reason list"
  ob_calibration_stage :: "string option"
  ob_calibration_fit :: bool
  ob_join_reason :: "string option"
  ob_temperature_band :: "string option"
  ob_command_revision :: int
  ob_command_action :: string
  ob_cancellation_reason :: "string option"
  ob_baseline_allocation :: "allocation_result option"
  ob_combined_allocation :: "allocation_result option"
  ob_calibration_status :: string
  ob_cancellation_revision :: int
  ob_cancellation_action :: string
  ob_completed_stages :: "string list"

definition finite_float :: "pyfloat \<Rightarrow> string \<Rightarrow> rat result" where
  "finite_float f name = (case f of Fin q \<Rightarrow> Inr q | _ \<Rightarrow> Inl (ValueError name))"

definition bounded_duty :: "rat \<Rightarrow> string \<Rightarrow> unit result" where
  "bounded_duty d name = check (0 \<le> d \<and> d \<le> 1) (ValueError name)"

definition bounded_duty_opt :: "rat option \<Rightarrow> string \<Rightarrow> unit result" where
  "bounded_duty_opt d name = (case d of None \<Rightarrow> Inr () | Some x \<Rightarrow> bounded_duty x name)"

definition is_close :: "rat \<Rightarrow> rat \<Rightarrow> bool" where
  "is_close a b \<longleftrightarrow> \<bar>a - b\<bar> \<le> 1 / 10 ^ 12"

definition blank :: "string option \<Rightarrow> bool" where
  "blank s = (case s of None \<Rightarrow> False | Some t \<Rightarrow> strip_chars is_space t = [])"

definition allocation_matches :: "allocation_result option \<Rightarrow> rat \<Rightarrow> bool" where
  "allocation_matches a expected = (case a of None \<Rightarrow> True | Some r \<Rightarrow> is_close (al_load r) expected)"

definition band_of :: "rat \<Rightarrow> rat \<Rightarrow> string" where
  "band_of temp setpoint =
     (if temp < setpoint - 1 then ''below-target'' else if temp > setpoint + 1 then ''above-target'' else ''near-target'')"

text \<open>\<open>__post_init__\<close>: the checks in the order of the code, and the members it normalises.\<close>

definition check_all :: "(bool \<times> string) list \<Rightarrow> unit result" where
  "check_all cs = efold (\<lambda>_ (ok, why). check ok (ValueError why)) () cs"

definition mk_observation :: "observation \<Rightarrow> observation result" where
  "mk_observation o1 =
     (let start_ms = round_ms (ob_frame_start o1); end_ms = round_ms (ob_frame_end o1);
          q = ob_requested_q o1; bq = (case ob_baseline_q o1 of None \<Rightarrow> q | Some b \<Rightarrow> b)
      in ebind (check_all
           [(start_ms < end_ms, ''frame_end_s must be greater than frame_start_s at millisecond resolution''),
            (0 \<le> ob_wall_start_ms o1, ''wall_start_ms''), (0 \<le> ob_wall_end_ms o1, ''wall_end_ms'')]) (\<lambda>_.
         ebind (finite_float (ob_temp_c o1) ''temp_c'') (\<lambda>temp.
         ebind (finite_float (ob_setpoint_c o1) ''setpoint_c'') (\<lambda>setpoint.
         ebind (finite_float (ob_ambient_c o1) ''ambient_c'') (\<lambda>_.
         ebind (bounded_duty q ''requested_q'') (\<lambda>_.
         ebind (bounded_duty (ob_realized_q o1) ''realized_q'') (\<lambda>_.
         ebind (bounded_duty (ob_requested_auger_duty o1) ''requested_auger_duty'') (\<lambda>_.
         ebind (check_all [(0 \<le> ob_delivered_on o1 \<and> ob_delivered_on o1 \<le> of_int (end_ms - start_ms) / 1000,
             ''delivered_on_s must be within the frame duration'')]) (\<lambda>_.
         ebind (bounded_duty_opt (ob_requested_fan_duty o1) ''requested_fan_duty'') (\<lambda>_.
         ebind (bounded_duty_opt (ob_actual_fan_duty o1) ''actual_fan_duty'') (\<lambda>_.
         ebind (check_all
           [(0 \<le> ob_result_revision o1, ''result_revision''), (0 \<le> ob_role_generation o1, ''role_generation''),
            (0 \<le> ob_sequence o1, ''observation_sequence''), (\<not> blank (ob_probe_source o1), ''probe_source'')]) (\<lambda>_.
         ebind (bounded_duty_opt (ob_baseline_q o1) ''baseline_q'') (\<lambda>_.
         ebind (check_all
           [(- 1 \<le> ob_probe_q o1 \<and> ob_probe_q o1 \<le> 1, ''probe_q must be in [-1, 1]''),
            (is_close q (min 1 (max 0 (bq + ob_probe_q o1))), ''requested_q must equal clipped baseline_q plus probe_q'')]) (\<lambda>_.
         ebind (bounded_duty_opt (ob_allocated_q o1) ''allocated_q'') (\<lambda>_.
         ebind (check_all [(0 \<le> (case ob_scheduled_on o1 of None \<Rightarrow> ob_delivered_on o1 | Some x \<Rightarrow> x), ''scheduled_on_s'')]) (\<lambda>_.
         ebind (bounded_duty_opt (ob_realized_auger_duty o1) ''realized_auger_duty'') (\<lambda>_.
         ebind (check_all
           [(case ob_allocator_revision o1 of None \<Rightarrow> True | Some r \<Rightarrow> 0 \<le> r, ''allocator_revision''),
            (0 \<le> ob_command_revision o1, ''calibration_command_revision''),
            (ob_command_action o1 \<in> set CALIBRATION_ACTIONS, ''invalid calibration_command_action''),
            (\<not> blank (ob_cancellation_reason o1), ''calibration_cancellation_reason''),
            (allocation_matches (ob_baseline_allocation o1) bq, ''baseline_allocation''),
            (allocation_matches (ob_combined_allocation o1) q, ''combined_allocation''),
            (ob_calibration_status o1 \<in> {''inactive'', ''accepted'', ''rejected'', ''active'', ''cancelled''}, ''invalid calibration_status''),
            (0 \<le> ob_cancellation_revision o1, ''cancellation_command_revision''),
            (ob_cancellation_action o1 \<in> {''none'', ''pause'', ''stop'', ''reset-progress'', ''safety-cancel''},
               ''invalid cancellation_command_action''),
            (\<not> blank (ob_temperature_band o1), ''temperature_band''), (\<not> blank (ob_calibration_stage o1), ''calibration_stage''),
            (distinct (ob_completed_stages o1) \<and> (\<forall>s \<in> set (ob_completed_stages o1). s \<in> {''low'', ''middle'', ''high''}),
               ''completed_calibration_stages must be unique known heating stages''),
            (\<not> (ob_calibration_fit o1 \<and> ob_calibration_stage o1 = None), ''calibration_fit requires calibration_stage''),
            (\<not> blank (ob_join_reason o1), ''allocation_join_reason''), (ob_output_source o1 \<noteq> [], ''output_source'')]) (\<lambda>_.
         Inr (o1\<lparr>ob_frame_start := of_int start_ms / 1000, ob_frame_end := of_int end_ms / 1000,
           ob_baseline_q := Some bq,
           ob_allocated_q := Some (case ob_allocated_q o1 of None \<Rightarrow> q | Some x \<Rightarrow> x),
           ob_scheduled_on := Some (case ob_scheduled_on o1 of None \<Rightarrow> ob_delivered_on o1 | Some x \<Rightarrow> x),
           ob_realized_auger_duty := Some (case ob_realized_auger_duty o1 of None \<Rightarrow> ob_realized_q o1 | Some x \<Rightarrow> x),
           ob_allocator_revision := Some (case ob_allocator_revision o1 of None \<Rightarrow> 0 | Some r \<Rightarrow> r),
           ob_temperature_band := Some (case ob_temperature_band o1 of None \<Rightarrow> band_of temp setpoint | Some b \<Rightarrow> b)\<rparr>)))))))))))))))))))"

end
