(* ===== verification/Actuation_Journal.thy ===== *)
theory Actuation_Journal
  imports Clock_Domain
begin

text \<open>
  \<open>controller/runtime/actuation_delivery.py\<close>: the bounded journal of delivered actuator states, its
  integrals over an interval, and the proxy that journals the readback around every actuator call.

  A method that updates the journal and may raise returns the journal as it is at the exception with the
  exception (the callers below catch it and go on with that journal). What the outside supplies to one
  proxied call, the clocks, the two readbacks and the outcome of the platform's own method, is the record
  \<open>call_trace\<close>. Locks are not modelled: each method runs under the command lock, so calls are a sequence.
\<close>

section \<open>Events\<close>

datatype channel = AUGER | FAN | FAN_PWM

definition channels :: "channel list" where
  "channels = [AUGER, FAN, FAN_PWM]"

fun channel_name :: "channel \<Rightarrow> string" where
  "channel_name AUGER = ''auger''"
| "channel_name FAN = ''fan''"
| "channel_name FAN_PWM = ''fan-pwm''"

datatype certainty = EXACT | UNKNOWN

text \<open>A delivered value, a Boolean for a switched output or a duty in \<open>[0, 1]\<close>.\<close>

datatype level = Switch bool | Duty rat

fun level_on :: "level \<Rightarrow> bool" where
  "level_on (Switch b) = b"
| "level_on (Duty q) = (q \<noteq> 0)"

fun level_duty :: "level \<Rightarrow> rat" where
  "level_duty (Switch b) = of_bool b"
| "level_duty (Duty q) = q"

text \<open>\<open>_TimelineEvent\<close>: every one is built with exactly one of the value and the reason.\<close>

datatype timeline_event = Known (ev_ms: int) level | Unknown (ev_ms: int) string

record edge =
  ed_channel :: channel
  ed_previous :: level
  ed_current :: level
  ed_monotonic_ms :: int
  ed_wall_ms :: int
  ed_source :: string

record cursor =
  cu_value :: level
  cu_exact :: bool
  cu_reason :: "string option"

record journal =
  capacity :: nat
  edges :: "edge list"
  timelines :: "channel \<Rightarrow> timeline_event list"
  evicted_before :: "channel \<Rightarrow> int option"
  last_monotonic_ms :: "int option"

text \<open>\<open>deque(maxlen=n)\<close>: appending to a full deque drops its head.\<close>

definition deque_append :: "nat \<Rightarrow> 'a \<Rightarrow> 'a list \<Rightarrow> 'a list" where
  "deque_append n x xs = (if length xs < n then xs @ [x] else drop (Suc (length xs) - n) (xs @ [x]))"

definition new_journal :: "pyval \<Rightarrow> journal result" where
  "new_journal cap =
     (case cap of
        VInt n \<Rightarrow>
          if n \<le> 0 then Inl (ValueError ''actuation edge capacity must be a positive integer'')
          else Inr \<lparr>capacity = nat n, edges = [], timelines = (\<lambda>_. []), evicted_before = (\<lambda>_. None),
                 last_monotonic_ms = None\<rparr>
      | _ \<Rightarrow> Inl (ValueError ''actuation edge capacity must be a positive integer''))"

definition milliseconds :: "pyval \<Rightarrow> string \<Rightarrow> int result" where
  "milliseconds v label =
     (case v of
        VInt n \<Rightarrow> if n < 0 then Inl (ValueError label) else Inr n
      | _ \<Rightarrow> Inl (ValueError label))"

text \<open>Decimal digits, for the reasons that name an instant.\<close>

fun show_nat :: "nat \<Rightarrow> string" where
  "show_nat n = (if n < 10 then [char_of (48 + n)] else show_nat (n div 10) @ [char_of (48 + n mod 10)])"

declare show_nat.simps [simp del]

definition show_int :: "int \<Rightarrow> string" where
  "show_int i = (if i < 0 then ''-'' @ show_nat (nat (- i)) else show_nat (nat i))"

section \<open>Writing the journal\<close>

type_synonym journal_op = "journal \<Rightarrow> journal \<times> pyexn option"

definition jseq :: "journal_op \<Rightarrow> journal_op \<Rightarrow> journal_op" where
  "jseq f g j = (case f j of (j', None) \<Rightarrow> g j' | r \<Rightarrow> r)"

fun jeach :: "('a \<Rightarrow> journal_op) \<Rightarrow> 'a list \<Rightarrow> journal_op" where
  "jeach f [] j = (j, None)"
| "jeach f (x # xs) j = jseq (f x) (jeach f xs) j"

definition append_timeline :: "channel \<Rightarrow> timeline_event \<Rightarrow> journal_op" where
  "append_timeline ch e j =
     (let tl = timelines j ch in
      if tl \<noteq> [] \<and> ev_ms e < ev_ms (last tl)
        then (j, Some (ValueError ''actuation event clock regressed''))
      else
        let earliest = (if length tl > 1 then ev_ms (tl ! 1) else ev_ms e);
            boundary = (case evicted_before j ch of None \<Rightarrow> earliest | Some b \<Rightarrow> max b earliest);
            j1 = (if length tl = capacity j
                  then j\<lparr>evicted_before := (evicted_before j)(ch := Some boundary)\<rparr> else j)
        in (j1\<lparr>timelines := (timelines j)(ch := deque_append (capacity j) e tl)\<rparr>, None))"

definition mark_uncertain_locked :: "string \<Rightarrow> int \<Rightarrow> channel list \<Rightarrow> journal_op" where
  "mark_uncertain_locked why ms chs = jeach (\<lambda>ch. append_timeline ch (Unknown ms why)) chs"

definition accept_monotonic :: "int \<Rightarrow> journal_op" where
  "accept_monotonic ms j =
     (if (case last_monotonic_ms j of None \<Rightarrow> False | Some prev \<Rightarrow> ms < prev)
      then (j, Some (ValueError ''monotonic clock regressed''))
      else (j\<lparr>last_monotonic_ms := Some ms\<rparr>, None))"

definition mark_uncertain :: "pyval \<Rightarrow> pyval \<Rightarrow> channel option \<Rightarrow> journal_op" where
  "mark_uncertain why at_ms chan j =
     (case why of
        VStr r \<Rightarrow>
          if strip_chars is_space r = [] then (j, Some (ValueError ''actuation uncertainty reason must be non-empty''))
          else
            (case milliseconds at_ms ''uncertainty timestamp'' of
               Inl e \<Rightarrow> (j, Some e)
             | Inr ms \<Rightarrow>
                 jseq (accept_monotonic ms)
                   (mark_uncertain_locked r ms (case chan of None \<Rightarrow> channels | Some c \<Rightarrow> [c])) j)
      | _ \<Rightarrow> (j, Some (ValueError ''actuation uncertainty reason must be non-empty'')))"

definition mark_uncertain_at_boundary :: "string \<Rightarrow> channel list \<Rightarrow> journal_op" where
  "mark_uncertain_at_boundary why chs j =
     mark_uncertain_locked why (case last_monotonic_ms j of None \<Rightarrow> 0 | Some ms \<Rightarrow> ms) chs j"

definition capture_timestamp :: "pyval result \<Rightarrow> pyval result \<Rightarrow> journal \<Rightarrow> journal \<times> (int \<times> int) result" where
  "capture_timestamp monotonic wall_clock j =
     (case ebind monotonic (\<lambda>m. ebind (milliseconds m ''monotonic clock'') (\<lambda>ms.
             ebind wall_clock (\<lambda>w. ebind (milliseconds w ''wall clock'') (\<lambda>wms. Inr (ms, wms))))) of
        Inl e \<Rightarrow> (j, Inl e)
      | Inr (ms, wms) \<Rightarrow>
          (case accept_monotonic ms j of
             (j', Some e) \<Rightarrow> (j', Inl e)
           | (j', None) \<Rightarrow> (j', Inr (ms, wms))))"

definition establish_pre :: "channel \<Rightarrow> level \<Rightarrow> int \<Rightarrow> journal_op" where
  "establish_pre ch v ms j =
     (let tl = timelines j ch in
      case (if tl = [] then None else Some (last tl)) of
        Some (Known _ w) \<Rightarrow>
          if w \<noteq> v then
            jseq (append_timeline ch (Unknown ms (channel_name ch @ '' pre-readback disagreed with retained state'')))
              (append_timeline ch (Known ms v)) j
          else (j, None)
      | _ \<Rightarrow> append_timeline ch (Known ms v) j)"

definition append_edge :: "edge \<Rightarrow> journal_op" where
  "append_edge ed j = (j\<lparr>edges := deque_append (capacity j) ed (edges j)\<rparr>, None)"

definition record_pre :: "(channel \<Rightarrow> level option) \<Rightarrow> int \<Rightarrow> channel \<Rightarrow> journal_op" where
  "record_pre before ms ch j = (case before ch of None \<Rightarrow> (j, None) | Some v \<Rightarrow> establish_pre ch v ms j)"

definition record_post ::
    "(channel \<Rightarrow> level option) \<Rightarrow> (channel \<Rightarrow> level option) \<Rightarrow> int \<Rightarrow> int \<Rightarrow> string \<Rightarrow> channel \<Rightarrow> journal_op" where
  "record_post before after ms wall_ms source ch j =
     (case after ch of
        None \<Rightarrow> (j, None)
      | Some v \<Rightarrow>
          (case before ch of
             Some p \<Rightarrow>
               if p \<noteq> v then
                 jseq (append_timeline ch (Known ms v))
                   (append_edge \<lparr>ed_channel = ch, ed_previous = p, ed_current = v, ed_monotonic_ms = ms,
                      ed_wall_ms = wall_ms, ed_source = source\<rparr>) j
               else establish_pre ch v ms j
           | None \<Rightarrow> establish_pre ch v ms j))"

definition record_success ::
    "channel list \<Rightarrow> (channel \<Rightarrow> level option) \<Rightarrow> (channel \<Rightarrow> level option) \<Rightarrow> (channel \<times> string) list
       \<Rightarrow> int \<Rightarrow> int \<Rightarrow> string \<Rightarrow> journal_op" where
  "record_success chs before after invalid_after ms wall_ms source =
     jseq (jeach (record_pre before ms) chs)
       (jseq (jeach (record_post before after ms wall_ms source) chs)
         (jeach (\<lambda>(ch, r). mark_uncertain_locked r ms [ch]) invalid_after))"

section \<open>Integrating\<close>

definition apply_event :: "cursor \<Rightarrow> timeline_event \<Rightarrow> cursor" where
  "apply_event c e =
     (case e of
        Known _ v \<Rightarrow> c\<lparr>cu_value := v, cu_exact := True, cu_reason := None\<rparr>
      | Unknown _ r \<Rightarrow> c\<lparr>cu_exact := False, cu_reason := Some r\<rparr>)"

definition default_level :: "channel \<Rightarrow> level" where
  "default_level ch = (if ch = FAN_PWM then Duty 0 else Switch False)"

definition default_cursor :: "journal \<Rightarrow> channel \<Rightarrow> int \<Rightarrow> cursor" where
  "default_cursor j ch start =
     \<lparr>cu_value = default_level ch, cu_exact = False, cu_reason = Some
        (case evicted_before j ch of
           Some b \<Rightarrow>
             if start < b then channel_name ch @ '' history evicted before '' @ show_int b @ ''ms''
             else ''initial '' @ channel_name ch @ '' state is unknown''
         | None \<Rightarrow> ''initial '' @ channel_name ch @ '' state is unknown'')\<rparr>"

definition cursor_locked :: "journal \<Rightarrow> channel \<Rightarrow> int \<Rightarrow> int \<Rightarrow> cursor \<times> timeline_event list" where
  "cursor_locked j ch start fin =
     (foldl apply_event (default_cursor j ch start) (List.filter (\<lambda>e. ev_ms e \<le> start) (timelines j ch)),
      List.filter (\<lambda>e. \<not> ev_ms e \<le> start \<and> ev_ms e \<le> fin) (timelines j ch))"

record integral =
  in_auger_ms :: rat
  in_fan_ms :: rat
  in_duty_ms :: rat
  in_auger_exact :: bool
  in_fan_exact :: bool
  in_reasons :: "string list"

definition append_reason :: "string option \<Rightarrow> string list \<Rightarrow> string list" where
  "append_reason why ordered =
     (let owned = (case why of None \<Rightarrow> ''actuation state is unknown''
                   | Some r \<Rightarrow> if r = [] then ''actuation state is unknown'' else r)
      in if owned \<in> set ordered then ordered else ordered @ [owned])"

definition accumulate :: "(channel \<Rightarrow> cursor) \<Rightarrow> int \<Rightarrow> int \<Rightarrow> integral \<Rightarrow> integral" where
  "accumulate cs until from_ms acc =
     (let d = until - from_ms; auger = cs AUGER; fan = cs FAN; pwm = cs FAN_PWM in
      if d \<le> 0 then acc
      else \<lparr>in_auger_ms = in_auger_ms acc + (if level_on (cu_value auger) then of_int d else 0),
            in_fan_ms = in_fan_ms acc + (if level_on (cu_value fan) then of_int d else 0),
            in_duty_ms = in_duty_ms acc
              + (if level_on (cu_value fan) then of_int d * level_duty (cu_value pwm) else 0),
            in_auger_exact = (in_auger_exact acc \<and> cu_exact auger),
            in_fan_exact = (in_fan_exact acc \<and> cu_exact fan \<and> cu_exact pwm),
            in_reasons =
              (let r1 = (if cu_exact auger then in_reasons acc else append_reason (cu_reason auger) (in_reasons acc));
                   r2 = (if cu_exact fan then r1 else append_reason (cu_reason fan) r1)
               in if cu_exact pwm then r2 else append_reason (cu_reason pwm) r2)\<rparr>)"

type_synonym future = "(int \<times> channel \<times> timeline_event) list"

fun apply_all :: "(channel \<Rightarrow> cursor) \<Rightarrow> future \<Rightarrow> (channel \<Rightarrow> cursor)" where
  "apply_all cs [] = cs"
| "apply_all cs ((_, ch, e) # es) = apply_all (cs(ch := apply_event (cs ch) e)) es"

text \<open>The outer loop: accumulate up to the next event time, then apply every event of that time.\<close>

function integrate_loop ::
    "(channel \<Rightarrow> cursor) \<Rightarrow> integral \<Rightarrow> int \<Rightarrow> future \<Rightarrow> (channel \<Rightarrow> cursor) \<times> integral \<times> int" where
  "integrate_loop cs acc from_ms [] = (cs, acc, from_ms)"
| "integrate_loop cs acc from_ms (x # xs) =
     integrate_loop (apply_all cs (x # takeWhile (\<lambda>y. fst y = fst x) xs)) (accumulate cs (fst x) from_ms acc)
       (fst x) (dropWhile (\<lambda>y. fst y = fst x) xs)"
  by pat_completeness auto
termination
  by (relation "measure (\<lambda>(_, _, _, es). length es)") (auto simp: le_imp_less_Suc length_dropWhile_le)

definition integrate_empty :: integral where
  "integrate_empty = \<lparr>in_auger_ms = 0, in_fan_ms = 0, in_duty_ms = 0, in_auger_exact = True, in_fan_exact = True,
     in_reasons = []\<rparr>"

definition start_cursors :: "journal \<Rightarrow> int \<Rightarrow> int \<Rightarrow> channel \<Rightarrow> cursor" where
  "start_cursors j start fin ch = fst (cursor_locked j ch start fin)"

definition future_events :: "journal \<Rightarrow> int \<Rightarrow> int \<Rightarrow> future" where
  "future_events j start fin =
     sort_key fst (concat (map (\<lambda>ch. map (\<lambda>e. (ev_ms e, ch, e)) (snd (cursor_locked j ch start fin))) channels))"

record delivered_integral =
  di_start_ms :: int
  di_end_ms :: int
  di_auger_on_s :: rat
  di_fan_on_s :: rat
  di_fan_duty_s :: rat
  di_auger_start :: bool
  di_auger_end :: bool
  di_fan_start :: bool
  di_fan_end :: bool
  di_pwm_start :: rat
  di_pwm_end :: rat
  di_auger_certainty :: certainty
  di_fan_certainty :: certainty
  di_unknown_reasons :: "string list"

definition integrate :: "journal \<Rightarrow> pyval \<Rightarrow> pyval \<Rightarrow> delivered_integral result" where
  "integrate j start_ms end_ms =
     ebind (milliseconds start_ms ''integration start'') (\<lambda>start.
     ebind (milliseconds end_ms ''integration end'') (\<lambda>fin.
       if fin \<le> start then Inl (ValueError ''actuation integration interval must be positive and monotonic'')
       else
         let cs = start_cursors j start fin;
             (ce, acc1, prev) = integrate_loop cs integrate_empty start (future_events j start fin);
             acc = accumulate ce fin prev acc1
         in Inr \<lparr>di_start_ms = start, di_end_ms = fin,
              di_auger_on_s = in_auger_ms acc / 1000, di_fan_on_s = in_fan_ms acc / 1000,
              di_fan_duty_s = in_duty_ms acc / 1000,
              di_auger_start = level_on (cu_value (cs AUGER)), di_auger_end = level_on (cu_value (ce AUGER)),
              di_fan_start = level_on (cu_value (cs FAN)), di_fan_end = level_on (cu_value (ce FAN)),
              di_pwm_start = level_duty (cu_value (cs FAN_PWM)), di_pwm_end = level_duty (cu_value (ce FAN_PWM)),
              di_auger_certainty = (if in_auger_exact acc then EXACT else UNKNOWN),
              di_fan_certainty = (if in_fan_exact acc then EXACT else UNKNOWN),
              di_unknown_reasons = in_reasons acc\<rparr>))"

definition mean_fan_duty :: "journal \<Rightarrow> int \<Rightarrow> int \<Rightarrow> rat option result" where
  "mean_fan_duty j start fin =
     (if fin \<le> start then Inr None
      else ebind (integrate j (VInt start) (VInt fin)) (\<lambda>i.
        if di_fan_certainty i \<noteq> EXACT then Inr None
        else Inr (Some (100000 * di_fan_duty_s i / of_int (fin - start)))))"

section \<open>The platform proxy\<close>

record proxy =
  pwm_capable :: "bool option"
  readback_authoritative :: bool
  has_output_readback :: bool

text \<open>\<open>_pwm_capability\<close>: the first of \<open>dc_fan\<close> and \<open>pwm_fan\<close> that is exactly a Boolean.\<close>

definition pwm_capability :: "pyval option \<Rightarrow> pyval option \<Rightarrow> bool option" where
  "pwm_capability dc_fan pwm_fan =
     (case dc_fan of
        Some (VBool b) \<Rightarrow> Some b
      | _ \<Rightarrow> (case pwm_fan of Some (VBool b) \<Rightarrow> Some b | _ \<Rightarrow> None))"

definition new_proxy :: "pyval option \<Rightarrow> pyval option \<Rightarrow> bool \<Rightarrow> pyval \<Rightarrow> proxy result" where
  "new_proxy dc_fan pwm_fan has_readback authoritative =
     (case authoritative of
        VBool b \<Rightarrow> Inr \<lparr>pwm_capable = pwm_capability dc_fan pwm_fan, readback_authoritative = b,
                      has_output_readback = has_readback\<rparr>
      | _ \<Rightarrow> Inl (ValueError ''readback_authoritative must be a bool''))"

text \<open>\<open>type(exc).__name__\<close> and \<open>str(exc)\<close>, as the reasons print them.\<close>

fun exn_text :: "pyexn \<Rightarrow> string" where
  "exn_text (ValueError m) = ''ValueError: '' @ m"
| "exn_text (TypeError m) = ''TypeError: '' @ m"
| "exn_text (KeyError m) = ''KeyError: '' @ m"
| "exn_text (AttributeError m) = ''AttributeError: '' @ m"
| "exn_text OverflowError = ''OverflowError: ''"
| "exn_text IndexError = ''IndexError: ''"
| "exn_text ZeroDivisionError = ''ZeroDivisionError: ''"
| "exn_text (RuntimeError m) = ''RuntimeError: '' @ m"
| "exn_text AssertionError = ''AssertionError: ''"
| "exn_text (ControlDeltaError m) = ''ControlDeltaError: '' @ m"
| "exn_text (TransitionError m) = ''TransitionError: '' @ m"

type_synonym levels = "channel \<Rightarrow> level option"
type_synonym errors = "(channel \<times> string) list"

definition error_of :: "errors \<Rightarrow> channel \<Rightarrow> string option" where
  "error_of es ch = map_of es ch"

definition switch_readback :: "pydict \<Rightarrow> channel \<Rightarrow> string \<Rightarrow> levels \<times> errors \<Rightarrow> levels \<times> errors" where
  "switch_readback raw ch key acc =
     (case (dget_none raw key, acc) of
        (VBool b, (vs, es)) \<Rightarrow> (vs(ch := Some (Switch b)), es)
      | (_, (vs, es)) \<Rightarrow> (vs, es @ [(ch, key @ '' readback must be an exact bool'')]))"

text \<open>\<open>float(pwm)\<close> of an integer beyond the range raises, and the whole readback fails.\<close>

definition pwm_readback :: "proxy \<Rightarrow> pydict \<Rightarrow> levels \<times> errors \<Rightarrow> (levels \<times> errors) result" where
  "pwm_readback p raw acc =
     (let (vs, es) = acc; pwm = dget_none raw ''pwm'';
          bad = Inr (vs, es @ [(FAN_PWM, ''pwm readback must be finite percent in [0, 100]'')]);
          judge = (\<lambda>q. if 0 \<le> q \<and> q \<le> 100 then Inr (vs(FAN_PWM := Some (Duty (q / 100))), es) else bad)
      in if pwm = VNone \<and> pwm_capable p = Some False then Inr (vs(FAN_PWM := Some (Duty 1)), es)
         else
           (case pwm of
              VInt n \<Rightarrow> if in_dbl (of_int n) then judge (of_int n) else Inl OverflowError
            | VFloat (Fin q) \<Rightarrow> judge q
            | VFloat _ \<Rightarrow> bad
            | _ \<Rightarrow> Inr (vs, es @ [(FAN_PWM, ''pwm readback must be numeric percent'')])))"

definition readback :: "proxy \<Rightarrow> pyval result \<Rightarrow> levels \<times> errors" where
  "readback p reading =
     (case ebind reading (\<lambda>raw.
             case raw of
               VDict d \<Rightarrow> pwm_readback p d (switch_readback d FAN ''fan'' (switch_readback d AUGER ''auger'' ((\<lambda>_. None), [])))
             | _ \<Rightarrow> Inr ((\<lambda>_. None), map (\<lambda>ch. (ch, ''output readback is not a mapping'')) channels)) of
        Inr r \<Rightarrow> r
      | Inl e \<Rightarrow> ((\<lambda>_. None), map (\<lambda>ch. (ch, ''output readback failed: '' @ exn_text e)) channels))"

text \<open>What the environment supplies to one proxied call.\<close>

record 'r call_trace =
  ct_monotonic :: "pyval result"
  ct_wall :: "pyval result"
  ct_before :: "pyval result"
  ct_outcome :: "'r result"
  ct_after :: "pyval result"

text \<open>An exception of the marking itself is swallowed, the journal staying as it is then.\<close>

definition mark_observation_uncertain :: "string \<Rightarrow> channel list \<Rightarrow> int option \<Rightarrow> journal \<Rightarrow> journal" where
  "mark_observation_uncertain why chs ms j =
     fst (case ms of
            None \<Rightarrow> mark_uncertain_at_boundary why chs j
          | Some m \<Rightarrow> mark_uncertain_locked why m chs j)"

definition invalid_channels :: "levels \<Rightarrow> errors \<Rightarrow> channel list \<Rightarrow> errors" where
  "invalid_channels after after_errors observed =
     map (\<lambda>ch. (ch, case error_of after_errors ch of
             Some r \<Rightarrow> r | None \<Rightarrow> channel_name ch @ '' missing from post-call readback''))
       (List.filter (\<lambda>ch. after ch = None) observed)"

definition invoke ::
    "proxy \<Rightarrow> string \<Rightarrow> channel list \<Rightarrow> bool \<Rightarrow> channel list option \<Rightarrow> channel list \<Rightarrow> 'r call_trace
       \<Rightarrow> journal \<Rightarrow> journal \<times> 'r result" where
  "invoke p source affected async observed post_uncertain tr j =
     (let (j1, stamp) = capture_timestamp (ct_monotonic tr) (ct_wall tr) j;
          failure = (case stamp of Inl e \<Rightarrow> Some (''actuation clock capture failed: '' @ exn_text e) | Inr _ \<Rightarrow> None);
          ms = (case stamp of Inl _ \<Rightarrow> None | Inr (m, _) \<Rightarrow> Some m);
          (before, _) = readback p (ct_before tr)
      in case ct_outcome tr of
           Inl e \<Rightarrow>
             let r = source @ '' failed: '' @ exn_text e;
                 r' = (case failure of Some f \<Rightarrow> f @ ''; '' @ r | None \<Rightarrow> r)
             in (mark_observation_uncertain r' affected ms j1, Inl e)
         | Inr result \<Rightarrow>
             let (after, after_errors) = readback p (ct_after tr) in
             (case stamp of
                Inl _ \<Rightarrow> (mark_observation_uncertain (the failure) affected None j1, Inr result)
              | Inr (m, w) \<Rightarrow>
                  if async then
                    (mark_observation_uncertain
                       ''pwm_fan_ramp delivery is asynchronous and has no exact completion callback'' affected ms j1,
                     Inr result)
                  else if \<not> readback_authoritative p \<and> \<not> has_output_readback p then
                    (mark_observation_uncertain (source @ '' readback is not certified authoritative'') affected ms j1,
                     Inr result)
                  else
                    let chs = (case observed of None \<Rightarrow> affected | Some os \<Rightarrow> os);
                        j2 = (case record_success chs before after (invalid_channels after after_errors chs) m w source j1 of
                                (j', None) \<Rightarrow> j'
                              | (j', Some e) \<Rightarrow>
                                  mark_observation_uncertain (source @ '' journal update failed: '' @ exn_text e) affected ms j')
                    in (if post_uncertain \<noteq> []
                        then mark_observation_uncertain (source @ '' did not stop an active asynchronous ramp'')
                               post_uncertain ms j2
                        else j2, Inr result)))"

definition auger_on :: "proxy \<Rightarrow> 'r call_trace \<Rightarrow> journal \<Rightarrow> journal \<times> 'r result" where
  "auger_on p = invoke p ''auger_on'' [AUGER] False None []"

definition auger_off :: "proxy \<Rightarrow> 'r call_trace \<Rightarrow> journal \<Rightarrow> journal \<times> 'r result" where
  "auger_off p = invoke p ''auger_off'' [AUGER] False None []"

definition fan_on :: "proxy \<Rightarrow> 'r call_trace \<Rightarrow> journal \<Rightarrow> journal \<times> 'r result" where
  "fan_on p = invoke p ''fan_on'' [FAN, FAN_PWM] False None []"

definition fan_off :: "proxy \<Rightarrow> 'r call_trace \<Rightarrow> journal \<Rightarrow> journal \<times> 'r result" where
  "fan_off p = invoke p ''fan_off'' [FAN, FAN_PWM] False (Some [FAN]) []"

definition fan_toggle :: "proxy \<Rightarrow> 'r call_trace \<Rightarrow> journal \<Rightarrow> journal \<times> 'r result" where
  "fan_toggle p = invoke p ''fan_toggle'' [FAN, FAN_PWM] False (Some [FAN]) []"

text \<open>\<open>override_ramping\<close> is the second argument, true when absent; only an exact \<open>False\<close> leaves a ramp alone.\<close>

definition set_duty_cycle :: "proxy \<Rightarrow> pyval \<Rightarrow> 'r call_trace \<Rightarrow> journal \<Rightarrow> journal \<times> 'r result" where
  "set_duty_cycle p override_ramping =
     (if override_ramping = VBool False
      then invoke p ''set_duty_cycle'' [FAN_PWM] False (Some []) [FAN_PWM]
      else invoke p ''set_duty_cycle'' [FAN_PWM] False (Some [FAN, FAN_PWM]) [])"

definition pwm_fan_ramp :: "proxy \<Rightarrow> 'r call_trace \<Rightarrow> journal \<Rightarrow> journal \<times> 'r result" where
  "pwm_fan_ramp p = invoke p ''pwm_fan_ramp'' [FAN, FAN_PWM] True None []"

definition observe_outputs :: "proxy \<Rightarrow> unit call_trace \<Rightarrow> journal \<Rightarrow> journal" where
  "observe_outputs p tr j =
     (if \<not> has_output_readback p then j
      else
        (case capture_timestamp (ct_monotonic tr) (ct_wall tr) j of
           (j1, Inl e) \<Rightarrow> mark_observation_uncertain (''output observation failed: '' @ exn_text e) channels None j1
         | (j1, Inr (ms, wms)) \<Rightarrow>
             let (after, errs) = readback p (ct_after tr) in
             (case record_success channels (\<lambda>_. None) after errs ms wms ''observe_outputs'' j1 of
                (j', None) \<Rightarrow> j'
              | (j', Some e) \<Rightarrow>
                  mark_observation_uncertain (''output observation failed: '' @ exn_text e) channels (Some ms) j')))"

section \<open>Well-formed journals\<close>

definition bound :: "journal \<Rightarrow> int" where
  "bound j = (case last_monotonic_ms j of None \<Rightarrow> 0 | Some m \<Rightarrow> m)"

definition timeline_ok :: "journal \<Rightarrow> channel \<Rightarrow> bool" where
  "timeline_ok j ch \<longleftrightarrow> length (timelines j ch) \<le> capacity j \<and> sorted (map ev_ms (timelines j ch))
     \<and> (\<forall>e \<in> set (timelines j ch). 0 \<le> ev_ms e \<and> ev_ms e \<le> bound j)
     \<and> (case evicted_before j ch of None \<Rightarrow> True
        | Some b \<Rightarrow> length (timelines j ch) = capacity j \<and> ev_ms (hd (timelines j ch)) = b)"

definition journal_ok :: "journal \<Rightarrow> bool" where
  "journal_ok j \<longleftrightarrow> 0 < capacity j \<and> length (edges j) \<le> capacity j \<and> 0 \<le> bound j \<and> (\<forall>ch. timeline_ok j ch)"

text \<open>An operation that writes at the current instant \<open>ms\<close> never fails and keeps the journal well formed.\<close>

definition safe :: "int \<Rightarrow> journal_op \<Rightarrow> bool" where
  "safe ms f \<longleftrightarrow> (\<forall>j. journal_ok j \<longrightarrow> bound j = ms \<longrightarrow>
     (\<exists>j'. f j = (j', None) \<and> journal_ok j' \<and> bound j' = ms))"

lemma safeD: "safe ms f \<Longrightarrow> journal_ok j \<Longrightarrow> bound j = ms \<Longrightarrow>
    \<exists>j'. f j = (j', None) \<and> journal_ok j' \<and> bound j' = ms"
  by (simp add: safe_def)

lemma deque_append_length: "length xs \<le> n \<Longrightarrow> 0 < n \<Longrightarrow> length (deque_append n x xs) \<le> n"
  by (simp add: deque_append_def)

lemma deque_append_full: "length xs = n \<Longrightarrow> deque_append n x xs = drop 1 (xs @ [x])"
  by (simp add: deque_append_def)

lemma deque_append_set: "set (deque_append n x xs) \<subseteq> insert x (set xs)"
  using set_drop_subset [of "Suc (length xs) - n" "xs @ [x]"] by (auto simp: deque_append_def)

lemma deque_append_sorted:
  fixes f :: "'a \<Rightarrow> 'b::linorder"
  assumes "sorted (map f xs)" "\<forall>y \<in> set xs. f y \<le> f x"
  shows "sorted (map f (deque_append n x xs))"
proof -
  have "sorted (map f (xs @ [x]))" using assms by (simp add: sorted_append)
  then have "sorted (map f (drop k (xs @ [x])))" for k
    by (simp only: drop_map [symmetric] sorted_wrt_drop)
  from this [of 0] this [of "Suc (length xs) - n"] show ?thesis
    by (simp only: deque_append_def drop_0 split: if_split) simp
qed

lemma append_timeline_safe:
  assumes "journal_ok j" "ev_ms e = bound j"
  shows "\<exists>j'. append_timeline ch e j = (j', None) \<and> journal_ok j' \<and> bound j' = bound j
    \<and> timelines j' = (timelines j)(ch := deque_append (capacity j) e (timelines j ch)) \<and> capacity j' = capacity j"
proof -
  let ?tl = "timelines j ch" and ?n = "capacity j"
  have ok: "timeline_ok j ch" "0 < ?n" "0 \<le> bound j" using assms(1) by (simp_all add: journal_ok_def)
  then have le: "\<forall>x \<in> set ?tl. ev_ms x \<le> ev_ms e" using assms(2) by (simp add: timeline_ok_def)
  then have no: "\<not> (?tl \<noteq> [] \<and> ev_ms e < ev_ms (last ?tl))"
    by (metis last_in_set not_less)
  let ?earliest = "if length ?tl > 1 then ev_ms (?tl ! 1) else ev_ms e"
  let ?boundary = "case evicted_before j ch of None \<Rightarrow> ?earliest | Some b \<Rightarrow> max b ?earliest"
  define j' where "j' = (if length ?tl = ?n then j\<lparr>evicted_before := (evicted_before j)(ch := Some ?boundary)\<rparr> else j)
      \<lparr>timelines := (timelines j)(ch := deque_append ?n e ?tl)\<rparr>"
  have ap: "append_timeline ch e j = (j', None)"
    using no by (simp only: append_timeline_def Let_def j'_def if_False)
  have j': "timelines j' = (timelines j)(ch := deque_append ?n e ?tl)" "capacity j' = ?n" "edges j' = edges j"
      "last_monotonic_ms j' = last_monotonic_ms j"
      "evicted_before j' = (if length ?tl = ?n then (evicted_before j)(ch := Some ?boundary) else evicted_before j)"
    by (simp_all add: j'_def)
  have b: "bound j' = bound j" using j'(4) by (simp add: bound_def)
  have "timeline_ok j' ch"
  proof -
    have full: "length (deque_append ?n e ?tl) = ?n \<and>
        ev_ms (hd (deque_append ?n e ?tl)) = ?boundary"
      if len: "length ?tl = ?n"
    proof -
      obtain x xs where x: "?tl = x # xs" using len ok(2) by (cases ?tl) auto
      have "b \<le> ?earliest" if "evicted_before j ch = Some b" for b
        using ok(1) that x le by (cases xs) (auto simp: timeline_ok_def)
      then show ?thesis using x len [symmetric]
        by (cases xs) (auto simp: deque_append_full split: option.split)
    qed
    have "evicted_before j ch = None" if "length ?tl \<noteq> ?n"
      using ok(1) that by (auto simp: timeline_ok_def split: option.splits)
    then show ?thesis
      using ok le assms(2) deque_append_set [of ?n e ?tl] full b
      by (auto simp: timeline_ok_def j' deque_append_length intro!: deque_append_sorted)
  qed
  moreover have "timeline_ok j' c" if "c \<noteq> ch" for c
  proof -
    have "timeline_ok j c" using assms(1) by (simp add: journal_ok_def)
    with that b show ?thesis by (auto simp: timeline_ok_def j' split: option.splits)
  qed
  ultimately have "timeline_ok j' c" for c by (cases "c = ch") auto
  then have "journal_ok j'" using assms(1) j'(2,3) b by (simp add: journal_ok_def)
  with ap j' b show ?thesis by blast
qed

lemma append_timeline_safe_op: "ev_ms e = ms \<Longrightarrow> safe ms (append_timeline ch e)"
  unfolding safe_def using append_timeline_safe by metis

lemma jseq_safe [intro!]: "safe ms f \<Longrightarrow> safe ms g \<Longrightarrow> safe ms (jseq f g)"
  unfolding safe_def jseq_def by (metis (mono_tags, lifting) case_prod_conv option.simps(4))

lemma skip_safe [simp]: "safe ms (\<lambda>j. (j, None))"
  by (simp add: safe_def)

lemma jeach_safe: "(\<And>x. x \<in> set xs \<Longrightarrow> safe ms (f x)) \<Longrightarrow> safe ms (jeach f xs)"
proof (induction xs)
  case (Cons x xs)
  then have "safe ms (jseq (f x) (jeach f xs))" by (intro jseq_safe) auto
  then show ?case by (simp add: safe_def)
qed (simp add: safe_def)

lemma mark_safe [simp]: "safe ms (mark_uncertain_locked r ms chs)"
  unfolding mark_uncertain_locked_def by (intro jeach_safe append_timeline_safe_op) simp

lemma establish_pre_safe: "safe ms (establish_pre ch v ms)"
proof -
  have "safe ms (append_timeline ch (Known ms v))" "safe ms (append_timeline ch (Unknown ms r))" for r
    by (simp_all add: append_timeline_safe_op)
  moreover from this have "safe ms (jseq (append_timeline ch (Unknown ms r)) (append_timeline ch (Known ms v)))" for r
    by blast
  ultimately show ?thesis
    unfolding safe_def establish_pre_def Let_def
    by (auto split: option.split timeline_event.split)
qed

lemma append_edge_safe: "safe ms (append_edge ed)"
  unfolding safe_def append_edge_def
proof (intro allI impI)
  fix j assume j: "journal_ok j" "bound j = ms"
  let ?j = "j\<lparr>edges := deque_append (capacity j) ed (edges j)\<rparr>"
  have "bound ?j = ms" using j(2) by (simp add: bound_def)
  moreover have "journal_ok ?j"
    using j(1) by (auto simp: journal_ok_def bound_def timeline_ok_def deque_append_length split: option.splits)
  ultimately show "\<exists>j'. (?j, None) = (j', None) \<and> journal_ok j' \<and> bound j' = ms" by blast
qed

lemma record_success_safe: "safe ms (record_success chs before after bad ms w source)"
proof -
  have "safe ms (record_pre before ms ch)" for ch
    using establish_pre_safe by (cases "before ch") (simp_all add: record_pre_def safe_def)
  moreover have "safe ms (record_post before after ms w source ch)" for ch
  proof -
    have j: "safe ms (jseq (append_timeline ch (Known ms v)) (append_edge ed))" for v ed
      by (intro jseq_safe append_timeline_safe_op append_edge_safe) simp
    show ?thesis
      using establish_pre_safe j
      by (cases "after ch"; cases "before ch") (auto simp: record_post_def safe_def)
  qed
  ultimately show ?thesis
    unfolding record_success_def by (intro jseq_safe jeach_safe) (auto split: prod.split)
qed

lemma mark_observation_ok:
  assumes "journal_ok j" "case ms of None \<Rightarrow> True | Some m \<Rightarrow> bound j = m"
  shows "journal_ok (mark_observation_uncertain r chs ms j) \<and> bound (mark_observation_uncertain r chs ms j) = bound j"
proof (cases ms)
  case None
  obtain j' where "mark_uncertain_locked r (bound j) chs j = (j', None)" "journal_ok j'" "bound j' = bound j"
    using safeD [OF mark_safe assms(1) refl] by blast
  with None show ?thesis
    by (simp add: mark_observation_uncertain_def mark_uncertain_at_boundary_def bound_def [symmetric])
next
  case (Some m)
  then obtain j' where "mark_uncertain_locked r m chs j = (j', None)" "journal_ok j'" "bound j' = m"
    using safeD [OF mark_safe assms(1), of m] assms(2) by auto
  with Some assms(2) show ?thesis by (simp add: mark_observation_uncertain_def)
qed

lemma milliseconds_InrD: "milliseconds v l = Inr m \<Longrightarrow> 0 \<le> m"
  by (auto simp: milliseconds_def split: pyval.splits if_splits)

lemma journal_ok_later:
  assumes "journal_ok j" "bound j \<le> m"
  shows "journal_ok (j\<lparr>last_monotonic_ms := Some m\<rparr>) \<and> bound (j\<lparr>last_monotonic_ms := Some m\<rparr>) = m"
proof -
  have "timeline_ok (j\<lparr>last_monotonic_ms := Some m\<rparr>) ch" for ch
    using assms by (fastforce simp: journal_ok_def timeline_ok_def bound_def split: option.splits)
  with assms show ?thesis by (simp add: journal_ok_def bound_def)
qed

lemma accept_monotonic_cases:
  assumes "journal_ok j" "0 \<le> m"
  shows "accept_monotonic m j = (j, Some (ValueError ''monotonic clock regressed'')) \<and> m < bound j
    \<or> accept_monotonic m j = (j\<lparr>last_monotonic_ms := Some m\<rparr>, None) \<and> bound j \<le> m"
  using assms by (auto simp: accept_monotonic_def bound_def split: option.splits)

lemma capture_cases:
  assumes "journal_ok j"
  obtains (failed) e where "capture_timestamp mt wt j = (j, Inl e)"
    | (captured) m w where "capture_timestamp mt wt j = (j\<lparr>last_monotonic_ms := Some m\<rparr>, Inr (m, w))"
      "bound j \<le> m" "0 \<le> m"
proof -
  let ?r = "ebind mt (\<lambda>m. ebind (milliseconds m ''monotonic clock'') (\<lambda>ms.
             ebind wt (\<lambda>w. ebind (milliseconds w ''wall clock'') (\<lambda>wms. Inr (ms, wms)))))"
  show thesis
  proof (cases ?r)
    case (Inl e)
    then show thesis using failed [of e] by (simp add: capture_timestamp_def)
  next
    case (Inr mw)
    obtain m w where mw: "mw = (m, w)" by force
    have m: "0 \<le> m"
      using Inr mw by (auto elim!: ebind_InrE dest: milliseconds_InrD)
    from accept_monotonic_cases [OF assms m] Inr mw m show thesis
      using failed captured by (auto simp: capture_timestamp_def)
  qed
qed

lemma invoke_ok:
  assumes "journal_ok j"
  shows "journal_ok (fst (invoke p src aff async obs post tr j))"
proof (cases rule: capture_cases [OF assms, of "ct_monotonic tr" "ct_wall tr"])
  case (1 e)
  then show ?thesis
    using assms mark_observation_ok [OF assms, of None]
    by (auto simp: invoke_def Let_def split: sum.split prod.split option.split)
next
  case (2 m w)
  let ?j = "j\<lparr>last_monotonic_ms := Some m\<rparr>"
  have ok: "journal_ok ?j" "bound ?j = m" using journal_ok_later [OF assms 2(2)] by auto
  then have mark: "journal_ok (mark_observation_uncertain r chs (Some m) ?j)" for r chs
    using mark_observation_ok [OF ok(1), of "Some m"] by simp
  have rec: "\<exists>j'. record_success chs before after bad m w s ?j = (j', None) \<and> journal_ok j' \<and> bound j' = m"
    for chs before after bad s using safeD [OF record_success_safe ok] .
  have mark': "journal_ok (mark_observation_uncertain r chs (Some m) j')" if "journal_ok j'" "bound j' = m" for r chs j'
    using mark_observation_ok [OF that(1), of "Some m"] that(2) by simp
  show ?thesis
  proof (cases "ct_outcome tr")
    case (Inl e)
    with 2 mark show ?thesis by (auto simp: invoke_def Let_def split: prod.split)
  next
    case (Inr r)
    obtain before errs where b: "readback p (ct_before tr) = (before, errs)" by force
    obtain after aerrs where a: "readback p (ct_after tr) = (after, aerrs)" by force
    let ?chs = "case obs of None \<Rightarrow> aff | Some os \<Rightarrow> os"
    obtain j' where j': "record_success ?chs before after (invalid_channels after aerrs ?chs) m w src ?j = (j', None)"
        "journal_ok j'" "bound j' = m" using rec by blast
    show ?thesis
      using 2 Inr a b j' mark mark' by (simp add: invoke_def Let_def)
  qed
qed

lemma observe_outputs_ok:
  assumes "journal_ok j"
  shows "journal_ok (observe_outputs p tr j)"
proof (cases rule: capture_cases [OF assms, of "ct_monotonic tr" "ct_wall tr"])
  case (1 e)
  then show ?thesis
    using assms mark_observation_ok [OF assms, of None] by (auto simp: observe_outputs_def)
next
  case (2 m w)
  let ?j = "j\<lparr>last_monotonic_ms := Some m\<rparr>"
  have ok: "journal_ok ?j" "bound ?j = m" using journal_ok_later [OF assms 2(2)] by auto
  obtain after errs where a: "readback p (ct_after tr) = (after, errs)" by force
  obtain j' where "record_success channels (\<lambda>_. None) after errs m w ''observe_outputs'' ?j = (j', None)" "journal_ok j'"
    using safeD [OF record_success_safe ok] by blast
  with 2 a assms show ?thesis by (auto simp: observe_outputs_def)
qed

lemma mark_uncertain_ok:
  assumes "journal_ok j"
  shows "journal_ok (fst (mark_uncertain why at_ms chan j))"
proof -
  have "journal_ok (fst (jseq (accept_monotonic m) (mark_uncertain_locked r m chs) j))"
    if m: "0 \<le> m" for m r chs
    using accept_monotonic_cases [OF assms m]
  proof
    assume "accept_monotonic m j = (j, Some (ValueError ''monotonic clock regressed'')) \<and> m < bound j"
    with assms show ?thesis by (simp add: jseq_def)
  next
    assume a: "accept_monotonic m j = (j\<lparr>last_monotonic_ms := Some m\<rparr>, None) \<and> bound j \<le> m"
    then have "journal_ok (j\<lparr>last_monotonic_ms := Some m\<rparr>)" "bound (j\<lparr>last_monotonic_ms := Some m\<rparr>) = m"
      using journal_ok_later [OF assms] by auto
    from safeD [OF mark_safe this, of r chs] obtain j' where
      "mark_uncertain_locked r m chs (j\<lparr>last_monotonic_ms := Some m\<rparr>) = (j', None)" "journal_ok j'" by blast
    with a show ?thesis by (simp add: jseq_def)
  qed
  then show ?thesis
    using assms by (auto simp: mark_uncertain_def split: pyval.split sum.split dest: milliseconds_InrD)
qed

text \<open>A proxied platform as a machine: each call is one step, whatever the hardware does.\<close>

datatype platform_call =
    Auger_on "unit call_trace" | Auger_off "unit call_trace" | Fan_on "unit call_trace"
  | Fan_off "unit call_trace" | Fan_toggle "unit call_trace" | Set_duty_cycle pyval "unit call_trace"
  | Pwm_fan_ramp "unit call_trace" | Observe_outputs "unit call_trace"
  | Mark_uncertain pyval pyval "channel option"

fun journal_call :: "proxy \<Rightarrow> journal \<Rightarrow> platform_call \<Rightarrow> journal" where
  "journal_call p j (Auger_on tr) = fst (auger_on p tr j)"
| "journal_call p j (Auger_off tr) = fst (auger_off p tr j)"
| "journal_call p j (Fan_on tr) = fst (fan_on p tr j)"
| "journal_call p j (Fan_off tr) = fst (fan_off p tr j)"
| "journal_call p j (Fan_toggle tr) = fst (fan_toggle p tr j)"
| "journal_call p j (Set_duty_cycle o_r tr) = fst (set_duty_cycle p o_r tr j)"
| "journal_call p j (Pwm_fan_ramp tr) = fst (pwm_fan_ramp p tr j)"
| "journal_call p j (Observe_outputs tr) = observe_outputs p tr j"
| "journal_call p j (Mark_uncertain why at_ms chan) = fst (mark_uncertain why at_ms chan j)"

definition journal_step :: "proxy \<Rightarrow> journal \<Rightarrow> platform_call \<Rightarrow> journal result" where
  "journal_step p j c = Inr (journal_call p j c)"

interpretation delivery: guarded_machine "journal_step p" journal_ok for p
proof unfold_locales
  fix j c j'
  assume "journal_ok j" "journal_step p j c = Inr j'"
  then show "journal_ok j'"
    by (cases c) (auto simp: journal_step_def auger_on_def auger_off_def fan_on_def fan_off_def fan_toggle_def
        set_duty_cycle_def pwm_fan_ramp_def invoke_ok observe_outputs_ok mark_uncertain_ok)
qed

lemma new_journal_ok: "new_journal cap = Inr j \<Longrightarrow> journal_ok j"
  by (auto simp: new_journal_def journal_ok_def bound_def timeline_ok_def split: pyval.splits if_splits)

lemma journal_steps: "efold (journal_step p) j cs = Inr (foldl (journal_call p) j cs)"
  by (induction cs arbitrary: j) (simp_all add: journal_step_def)

text \<open>The journal stays bounded and ordered whatever the hardware does: after any sequence of proxied
  calls, observations and marks, with clocks that fail or go back, readbacks that are malformed and platform
  methods that raise, every retained timeline and the edge list hold at most \<open>capacity\<close> entries, every
  timeline is in time order, and the eviction boundary of a channel is the time of its oldest retained event.\<close>

theorem journal_bounded_and_ordered:
  assumes "new_journal cap = Inr j0"
  shows "let j = foldl (journal_call p) j0 cs in
    length (edges j) \<le> capacity j \<and> length (timelines j ch) \<le> capacity j \<and> sorted (map ev_ms (timelines j ch))
    \<and> (case evicted_before j ch of None \<Rightarrow> True | Some b \<Rightarrow> ev_ms (hd (timelines j ch)) = b)"
proof -
  have "journal_ok (foldl (journal_call p) j0 cs)"
    using delivery.run_inv [OF new_journal_ok [OF assms] journal_steps] .
  then show ?thesis
    by (auto simp: Let_def journal_ok_def timeline_ok_def split: option.split dest: spec [of _ ch])
qed

text \<open>The proxy is transparent: every proxied call returns the platform's own result or raises the
  platform's own exception, whatever the journaling around it ran into.\<close>

theorem proxy_is_transparent:
  "snd (auger_on p tr j) = ct_outcome tr \<and> snd (auger_off p tr j) = ct_outcome tr
    \<and> snd (fan_on p tr j) = ct_outcome tr \<and> snd (fan_off p tr j) = ct_outcome tr
    \<and> snd (fan_toggle p tr j) = ct_outcome tr \<and> snd (set_duty_cycle p orr tr j) = ct_outcome tr
    \<and> snd (pwm_fan_ramp p tr j) = ct_outcome tr"
proof -
  have "snd (invoke p src aff async obs post tr j) = ct_outcome tr" for src aff async obs post
    by (auto simp: invoke_def Let_def split: prod.split sum.split option.split)
  then show ?thesis
    by (simp add: auger_on_def auger_off_def fan_on_def fan_off_def fan_toggle_def set_duty_cycle_def pwm_fan_ramp_def)
qed

section \<open>The integral is the millisecond sum\<close>

text \<open>The state of each channel at one instant of a window opening at \<open>start\<close>.\<close>

definition cursors_at :: "journal \<Rightarrow> int \<Rightarrow> int \<Rightarrow> channel \<Rightarrow> cursor" where
  "cursors_at j start t ch =
     foldl apply_event (default_cursor j ch start) (List.filter (\<lambda>e. ev_ms e \<le> t) (timelines j ch))"

text \<open>The reference: one millisecond at a time.\<close>

definition slow_integral :: "journal \<Rightarrow> int \<Rightarrow> int \<Rightarrow> integral" where
  "slow_integral j start fin =
     foldl (\<lambda>acc t. accumulate (cursors_at j start t) (t + 1) t acc) integrate_empty [start..fin - 1]"

lemma append_reason_mono: "set r \<subseteq> set (append_reason why r)"
  by (auto simp: append_reason_def Let_def)

lemma append_reason_again: "set (append_reason why r) \<subseteq> set r' \<Longrightarrow> append_reason why r' = r'"
  by (auto simp: append_reason_def Let_def split: if_splits)

definition add_reasons :: "(channel \<Rightarrow> cursor) \<Rightarrow> string list \<Rightarrow> string list" where
  "add_reasons cs r =
     (let r1 = (if cu_exact (cs AUGER) then r else append_reason (cu_reason (cs AUGER)) r);
          r2 = (if cu_exact (cs FAN) then r1 else append_reason (cu_reason (cs FAN)) r1)
      in if cu_exact (cs FAN_PWM) then r2 else append_reason (cu_reason (cs FAN_PWM)) r2)"

lemma add_reasons_again: "add_reasons cs (add_reasons cs r) = add_reasons cs r"
proof -
  define r1 where "r1 = (if cu_exact (cs AUGER) then r else append_reason (cu_reason (cs AUGER)) r)"
  define r2 where "r2 = (if cu_exact (cs FAN) then r1 else append_reason (cu_reason (cs FAN)) r1)"
  define r3 where "r3 = (if cu_exact (cs FAN_PWM) then r2 else append_reason (cu_reason (cs FAN_PWM)) r2)"
  have r: "add_reasons cs r = r3" by (simp add: add_reasons_def r1_def r2_def r3_def)
  have sub: "set r1 \<subseteq> set r2" "set r2 \<subseteq> set r3"
    using append_reason_mono by (auto simp: r2_def r3_def)
  have "append_reason (cu_reason (cs AUGER)) r3 = r3" if "\<not> cu_exact (cs AUGER)"
    using that sub by (intro append_reason_again [of _ r]) (auto simp: r1_def)
  moreover have "append_reason (cu_reason (cs FAN)) r3 = r3" if "\<not> cu_exact (cs FAN)"
    using that sub by (intro append_reason_again [of _ r1]) (auto simp: r2_def)
  moreover have "append_reason (cu_reason (cs FAN_PWM)) r3 = r3" if "\<not> cu_exact (cs FAN_PWM)"
    using that by (intro append_reason_again [of _ r2]) (auto simp: r3_def)
  ultimately have "add_reasons cs r3 = r3" by (simp add: add_reasons_def)
  then show ?thesis by (simp add: r)
qed

lemma accumulate_alt:
  "accumulate cs until from_ms acc =
     (let d = until - from_ms in
      if d \<le> 0 then acc
      else \<lparr>in_auger_ms = in_auger_ms acc + of_int d * of_bool (level_on (cu_value (cs AUGER))),
            in_fan_ms = in_fan_ms acc + of_int d * of_bool (level_on (cu_value (cs FAN))),
            in_duty_ms = in_duty_ms acc
              + of_int d * (of_bool (level_on (cu_value (cs FAN))) * level_duty (cu_value (cs FAN_PWM))),
            in_auger_exact = (in_auger_exact acc \<and> cu_exact (cs AUGER)),
            in_fan_exact = (in_fan_exact acc \<and> cu_exact (cs FAN) \<and> cu_exact (cs FAN_PWM)),
            in_reasons = add_reasons cs (in_reasons acc)\<rparr>)"
  by (simp add: accumulate_def Let_def add_reasons_def)

lemma accumulate_split:
  assumes "a \<le> b" "b \<le> c"
  shows "accumulate cs c b (accumulate cs b a acc) = accumulate cs c a acc"
proof -
  consider "a = b" | "b = c" | "a < b" "b < c" using assms by linarith
  then show ?thesis
  proof cases
    case 3
    then show ?thesis
      by (simp add: accumulate_alt Let_def add_reasons_again algebra_simps)
  qed (simp_all add: accumulate_alt)
qed

lemma accumulate_by_ms:
  "a \<le> b \<Longrightarrow> foldl (\<lambda>acc t. accumulate cs (t + 1) t acc) acc [a..b - 1] = accumulate cs b a acc"
proof (induction "nat (b - a)" arbitrary: b)
  case 0
  then show ?case by (simp add: accumulate_alt)
next
  case (Suc n)
  then have "a \<le> b - 1" "n = nat (b - 1 - a)" by linarith+
  with Suc.hyps(1) [of "b - 1"]
  have "foldl (\<lambda>acc t. accumulate cs (t + 1) t acc) acc [a..b - 1 - 1] = accumulate cs (b - 1) a acc" by simp
  moreover have "[a..b - 1] = [a..b - 1 - 1] @ [b - 1]"
    using \<open>a \<le> b - 1\<close> by (simp add: upto_rec2)
  ultimately show ?case
    using accumulate_split [of a "b - 1" b cs acc] \<open>a \<le> b - 1\<close> by simp
qed

lemma apply_all_append: "apply_all cs (xs @ ys) = apply_all (apply_all cs xs) ys"
  by (induction cs xs rule: apply_all.induct) (simp_all del: fun_upd_apply)

lemma foldl_cong_set:
  "(\<And>acc t. t \<in> set ts \<Longrightarrow> f acc t = g acc t) \<Longrightarrow> foldl f acc ts = foldl g acc ts"
  by (induction ts arbitrary: acc) simp_all

lemma dropWhile_greater:
  fixes f :: "'a \<Rightarrow> 'b::linorder"
  assumes "sorted (map f xs)" "\<forall>x \<in> set xs. T \<le> f x" "y \<in> set (dropWhile (\<lambda>x. f x = T) xs)"
  shows "T < f y"
  using assms
proof (induction xs)
  case (Cons x xs)
  show ?case
  proof (cases "f x = T")
    case False
    with Cons.prems show ?thesis by (auto simp: less_le_trans)
  qed (use Cons in auto)
qed simp

lemma integrate_loop_by_ms:
  assumes "sorted (map fst es)" "\<forall>x \<in> set es. from_ms < fst x \<and> fst x \<le> fin" "from_ms \<le> fin"
    and "integrate_loop cs acc from_ms es = (ce, acc', prev)"
  shows "ce = apply_all cs es \<and> accumulate ce fin prev acc'
    = foldl (\<lambda>acc t. accumulate (apply_all cs (List.filter (\<lambda>x. fst x \<le> t) es)) (t + 1) t acc) acc [from_ms..fin - 1]"
  using assms
proof (induction cs acc from_ms es rule: integrate_loop.induct)
  case (1 cs acc from_ms)
  then show ?case by (auto simp: accumulate_by_ms)
next
  case (2 cs acc from_ms x xs)
  let ?T = "fst x"
  let ?g = "takeWhile (\<lambda>y. fst y = ?T) xs" and ?r = "dropWhile (\<lambda>y. fst y = ?T) xs"
  let ?cs = "apply_all cs (x # ?g)"
  have xs: "xs = ?g @ ?r" by simp
  have srt: "sorted (map fst xs)" "\<forall>y \<in> set xs. ?T \<le> fst y" using 2(2) by auto
  have rs: "sorted (map fst ?r)"
    using srt(1) by (metis dropWhile_eq_drop drop_map sorted_wrt_drop)
  have gt: "?T < fst y" if "y \<in> set ?r" for y
    using dropWhile_greater [OF srt that] .
  have fin: "\<forall>y \<in> set ?r. ?T < fst y \<and> fst y \<le> fin"
    using gt 2(3) set_dropWhileD by fastforce
  have T: "from_ms < ?T" "?T \<le> fin" using 2(3) by auto
  have run: "integrate_loop ?cs (accumulate cs ?T from_ms acc) ?T ?r = (ce, acc', prev)" using 2(5) by simp
  note ih = 2(1) [OF rs fin T(2) run]
  have split: "[from_ms..fin - 1] = [from_ms..?T - 1] @ [?T..fin - 1]"
    using T upto_split1 [of from_ms ?T "fin - 1"] by (cases "?T = fin") auto
  have before: "List.filter (\<lambda>y. fst y \<le> t) (x # xs) = []" if "t \<in> set [from_ms..?T - 1]" for t
    using that srt(2) by (force simp: filter_empty_conv)
  have after: "apply_all cs (List.filter (\<lambda>y. fst y \<le> t) (x # xs)) = apply_all ?cs (List.filter (\<lambda>y. fst y \<le> t) ?r)"
    if "t \<in> set [?T..fin - 1]" for t
  proof -
    have "List.filter (\<lambda>y. fst y \<le> t) ?g = ?g"
      using that by (auto simp: filter_id_conv dest: set_takeWhileD)
    then have "List.filter (\<lambda>y. fst y \<le> t) (x # xs) = (x # ?g) @ List.filter (\<lambda>y. fst y \<le> t) ?r"
      using that by (subst xs) (simp del: takeWhile_dropWhile_id)
    then show ?thesis by (simp only: apply_all_append)
  qed
  have "foldl (\<lambda>acc t. accumulate (apply_all cs (List.filter (\<lambda>y. fst y \<le> t) (x # xs))) (t + 1) t acc) acc [from_ms..?T - 1]
      = foldl (\<lambda>acc t. accumulate cs (t + 1) t acc) acc [from_ms..?T - 1]"
    by (rule foldl_cong_set) (simp only: before apply_all.simps)
  then have "foldl (\<lambda>acc t. accumulate (apply_all cs (List.filter (\<lambda>y. fst y \<le> t) (x # xs))) (t + 1) t acc) acc [from_ms..?T - 1]
      = accumulate cs ?T from_ms acc"
    using accumulate_by_ms [of from_ms ?T cs acc] T(1) by (metis less_imp_le)
  moreover have "foldl (\<lambda>acc t. accumulate (apply_all cs (List.filter (\<lambda>y. fst y \<le> t) (x # xs))) (t + 1) t acc) a [?T..fin - 1]
      = foldl (\<lambda>acc t. accumulate (apply_all ?cs (List.filter (\<lambda>y. fst y \<le> t) ?r)) (t + 1) t acc) a [?T..fin - 1]" for a
    by (rule foldl_cong_set) (simp only: after)
  moreover have "apply_all cs (x # xs) = apply_all ?cs ?r"
    by (subst (1) xs, subst append_Cons [symmetric], subst apply_all_append) (rule refl)
  moreover note ih [THEN conjunct1] ih [THEN conjunct2]
  ultimately show ?case
    by (intro conjI) (simp only: | simp only: split foldl_append)+
qed

lemma apply_all_channel:
  "apply_all cs es ch = foldl apply_event (cs ch) (map (\<lambda>x. snd (snd x)) (List.filter (\<lambda>x. fst (snd x) = ch) es))"
  by (induction cs es rule: apply_all.induct) (simp_all del: fun_upd_apply add: fun_upd_same fun_upd_other)

lemma future_channel:
  assumes "sorted (map ev_ms (timelines j ch))"
  shows "map (\<lambda>x. snd (snd x)) (List.filter (\<lambda>x. fst (snd x) = ch) (List.filter (\<lambda>x. fst x \<le> t) (future_events j start fin)))
    = List.filter (\<lambda>e. ev_ms e \<le> t \<and> start < ev_ms e \<and> ev_ms e \<le> fin) (timelines j ch)"
proof -
  define evs where "evs c = List.filter (\<lambda>e. \<not> ev_ms e \<le> start \<and> ev_ms e \<le> fin) (timelines j c)" for c
  define raw where "raw = concat (map (\<lambda>c. map (\<lambda>e. (ev_ms e, c, e)) (evs c)) channels)"
  have fut: "future_events j start fin = sort_key fst raw"
    by (simp add: future_events_def raw_def evs_def cursor_locked_def)
  have mine: "List.filter (\<lambda>x. fst (snd x) = ch) raw = map (\<lambda>e. (ev_ms e, ch, e)) (evs ch)"
    by (cases ch) (simp_all add: raw_def channels_def filter_map o_def)
  have "sorted (map ev_ms (evs ch))"
    unfolding evs_def using sorted_filter [of ev_ms "timelines j ch"] assms by blast
  then have "sorted (map fst (map (\<lambda>e. (ev_ms e, ch, e)) (evs ch)))" by (simp add: o_def)
  then have "List.filter (\<lambda>x. fst (snd x) = ch) (sort_key fst raw) = map (\<lambda>e. (ev_ms e, ch, e)) (evs ch)"
    by (simp only: filter_sort mine sort_key_id_if_sorted)
  moreover have "List.filter (\<lambda>x. fst (snd x) = ch) (List.filter (\<lambda>x. fst x \<le> t) zs)
      = List.filter (\<lambda>x. fst x \<le> t) (List.filter (\<lambda>x. fst (snd x) = ch) zs)" for zs :: future
    by (simp add: conj_commute)
  ultimately have "List.filter (\<lambda>x. fst (snd x) = ch) (List.filter (\<lambda>x. fst x \<le> t) (future_events j start fin))
      = List.filter (\<lambda>x. fst x \<le> t) (map (\<lambda>e. (ev_ms e, ch, e)) (evs ch))"
    by (simp only: fut)
  then show ?thesis
    by (simp add: filter_map o_def evs_def not_le) (auto intro: filter_cong)
qed

lemma sorted_filter_split:
  fixes f :: "'a \<Rightarrow> 'b::linorder"
  assumes "sorted (map f xs)" "a \<le> b"
  shows "List.filter (\<lambda>x. f x \<le> b) xs = List.filter (\<lambda>x. f x \<le> a) xs @ List.filter (\<lambda>x. a < f x \<and> f x \<le> b) xs"
  using assms(1)
proof (induction xs)
  case (Cons x xs)
  show ?case
  proof (cases "f x \<le> a")
    case True
    with Cons assms(2) show ?thesis by auto
  next
    case False
    then have "List.filter (\<lambda>y. f y \<le> a) (x # xs) = []"
      using Cons.prems by (force simp: filter_empty_conv)
    moreover have "List.filter (\<lambda>y. f y \<le> b) (x # xs) = List.filter (\<lambda>y. a < f y \<and> f y \<le> b) (x # xs)"
      using False Cons.prems by (intro filter_cong) force+
    ultimately show ?thesis by simp
  qed
qed simp

lemma cursors_at_future:
  assumes "sorted (map ev_ms (timelines j ch))" "start \<le> t" "t \<le> fin"
  shows "apply_all (start_cursors j start fin) (List.filter (\<lambda>x. fst x \<le> t) (future_events j start fin)) ch
    = cursors_at j start t ch"
proof -
  have "List.filter (\<lambda>e. ev_ms e \<le> t \<and> start < ev_ms e \<and> ev_ms e \<le> fin) (timelines j ch)
      = List.filter (\<lambda>e. start < ev_ms e \<and> ev_ms e \<le> t) (timelines j ch)"
    using assms(3) by (intro filter_cong) auto
  then show ?thesis
    by (simp only: apply_all_channel future_channel [OF assms(1)] cursors_at_def start_cursors_def cursor_locked_def
        sorted_filter_split [OF assms(1,2)] fst_conv foldl_append)
qed

lemma integrate_slow:
  assumes "\<And>ch. sorted (map ev_ms (timelines j ch))" "start < fin"
    and "integrate_loop (start_cursors j start fin) integrate_empty start (future_events j start fin) = (ce, acc, prev)"
  shows "accumulate ce fin prev acc = slow_integral j start fin" "ce = cursors_at j start fin"
proof -
  have srt: "sorted (map fst (future_events j start fin))" by (simp add: future_events_def)
  have rng: "\<forall>x \<in> set (future_events j start fin). start < fst x \<and> fst x \<le> fin"
    by (auto simp: future_events_def cursor_locked_def)
  have at: "apply_all (start_cursors j start fin) (List.filter (\<lambda>x. fst x \<le> t) (future_events j start fin))
      = cursors_at j start t" if "start \<le> t" "t \<le> fin" for t
    using cursors_at_future [OF assms(1) that] by blast
  note loop = integrate_loop_by_ms [OF srt rng _ assms(3)]
  show "accumulate ce fin prev acc = slow_integral j start fin"
    using loop assms(2) unfolding slow_integral_def
    by (auto simp: at intro!: foldl_cong_set)
  have "List.filter (\<lambda>x. fst x \<le> fin) (future_events j start fin) = future_events j start fin"
    using rng by (simp add: filter_id_conv)
  with loop at [of fin] assms(2) show "ce = cursors_at j start fin" by simp
qed

section \<open>Integrals in closed form\<close>

lemma slow_values:
  "in_auger_ms (foldl (\<lambda>acc t. accumulate (S t) (t + 1) t acc) acc ts)
     = in_auger_ms acc + sum_list (map (\<lambda>t. of_bool (level_on (cu_value (S t AUGER)))) ts)"
  "in_fan_ms (foldl (\<lambda>acc t. accumulate (S t) (t + 1) t acc) acc ts)
     = in_fan_ms acc + sum_list (map (\<lambda>t. of_bool (level_on (cu_value (S t FAN)))) ts)"
  "in_duty_ms (foldl (\<lambda>acc t. accumulate (S t) (t + 1) t acc) acc ts)
     = in_duty_ms acc + sum_list (map (\<lambda>t. of_bool (level_on (cu_value (S t FAN))) * level_duty (cu_value (S t FAN_PWM))) ts)"
  "in_auger_exact (foldl (\<lambda>acc t. accumulate (S t) (t + 1) t acc) acc ts)
     = (in_auger_exact acc \<and> (\<forall>t \<in> set ts. cu_exact (S t AUGER)))"
  "in_fan_exact (foldl (\<lambda>acc t. accumulate (S t) (t + 1) t acc) acc ts)
     = (in_fan_exact acc \<and> (\<forall>t \<in> set ts. cu_exact (S t FAN) \<and> cu_exact (S t FAN_PWM)))"
  by (induction ts arbitrary: acc) (auto simp: accumulate_alt Let_def)

definition auger_ms :: "journal \<Rightarrow> int \<Rightarrow> int \<Rightarrow> rat" where
  "auger_ms j a b = (\<Sum>t \<in> {a..<b}. of_bool (level_on (cu_value (cursors_at j a t AUGER))))"

definition fan_ms :: "journal \<Rightarrow> int \<Rightarrow> int \<Rightarrow> rat" where
  "fan_ms j a b = (\<Sum>t \<in> {a..<b}. of_bool (level_on (cu_value (cursors_at j a t FAN))))"

definition duty_ms :: "journal \<Rightarrow> int \<Rightarrow> int \<Rightarrow> rat" where
  "duty_ms j a b = (\<Sum>t \<in> {a..<b}. of_bool (level_on (cu_value (cursors_at j a t FAN)))
      * level_duty (cu_value (cursors_at j a t FAN_PWM)))"

lemma upto_set: "set [a..b - 1] = {a..<b :: int}"
  by auto

lemma integrate_InrD:
  assumes "journal_ok j" "integrate j (VInt a) (VInt b) = Inr i"
  shows "0 \<le> a \<and> a < b \<and> di_auger_on_s i = auger_ms j a b / 1000 \<and> di_fan_on_s i = fan_ms j a b / 1000
    \<and> di_fan_duty_s i = duty_ms j a b / 1000
    \<and> (di_auger_certainty i = EXACT \<longleftrightarrow> (\<forall>t \<in> {a..<b}. cu_exact (cursors_at j a t AUGER)))
    \<and> (di_fan_certainty i = EXACT \<longleftrightarrow>
        (\<forall>t \<in> {a..<b}. cu_exact (cursors_at j a t FAN) \<and> cu_exact (cursors_at j a t FAN_PWM)))"
proof -
  obtain ce acc prev where run: "integrate_loop (start_cursors j a b) integrate_empty a (future_events j a b) = (ce, acc, prev)"
    by (metis prod_cases3)
  have ab: "0 \<le> a" "a < b"
    using assms(2) by (auto simp: integrate_def milliseconds_def split: if_splits)
  have "sorted (map ev_ms (timelines j ch))" for ch
    using assms(1) by (simp add: journal_ok_def timeline_ok_def)
  note slow = integrate_slow [OF this ab(2) run]
  have i: "di_auger_on_s i = in_auger_ms (slow_integral j a b) / 1000" "di_fan_on_s i = in_fan_ms (slow_integral j a b) / 1000"
      "di_fan_duty_s i = in_duty_ms (slow_integral j a b) / 1000"
      "di_auger_certainty i = (if in_auger_exact (slow_integral j a b) then EXACT else UNKNOWN)"
      "di_fan_certainty i = (if in_fan_exact (slow_integral j a b) then EXACT else UNKNOWN)"
    using assms(2) ab run slow(1) by (auto simp: integrate_def milliseconds_def Let_def)
  have sums: "in_auger_ms (slow_integral j a b) = auger_ms j a b" "in_fan_ms (slow_integral j a b) = fan_ms j a b"
      "in_duty_ms (slow_integral j a b) = duty_ms j a b"
    unfolding slow_integral_def slow_values interv_sum_list_conv_sum_set_int upto_set auger_ms_def fan_ms_def duty_ms_def
    by (simp_all only: integrate_empty_def integral.select_convs add_0)
  have exact: "in_auger_exact (slow_integral j a b) = (\<forall>t \<in> {a..<b}. cu_exact (cursors_at j a t AUGER))"
      "in_fan_exact (slow_integral j a b)
        = (\<forall>t \<in> {a..<b}. cu_exact (cursors_at j a t FAN) \<and> cu_exact (cursors_at j a t FAN_PWM))"
    unfolding slow_integral_def slow_values upto_set by (simp_all add: integrate_empty_def)
  show ?thesis
    using ab i sums exact by auto
qed

lemma integrate_total: "0 \<le> a \<Longrightarrow> a < b \<Longrightarrow> \<exists>i. integrate j (VInt a) (VInt b) = Inr i"
  by (auto simp: integrate_def milliseconds_def Let_def split: prod.split)

text \<open>C32: The event-driven integral is the pointwise one: for a well-formed journal, the auger and fan seconds and
  the duty integral over a window are the sums over its milliseconds of the delivered state at each (the fan
  counting its programmed duty while on), and a channel's certainty is exact precisely when its state is
  exactly known at every millisecond of the window.\<close>

theorem integral_is_millisecond_sum:
  assumes "journal_ok j" "integrate j (VInt a) (VInt b) = Inr i"
  shows "di_auger_on_s i = (\<Sum>t \<in> {a..<b}. of_bool (level_on (cu_value (cursors_at j a t AUGER)))) / 1000
    \<and> di_fan_on_s i = (\<Sum>t \<in> {a..<b}. of_bool (level_on (cu_value (cursors_at j a t FAN)))) / 1000
    \<and> di_fan_duty_s i = (\<Sum>t \<in> {a..<b}. of_bool (level_on (cu_value (cursors_at j a t FAN)))
        * level_duty (cu_value (cursors_at j a t FAN_PWM))) / 1000
    \<and> (di_auger_certainty i = EXACT) = (\<forall>t \<in> {a..<b}. cu_exact (cursors_at j a t AUGER))
    \<and> (di_fan_certainty i = EXACT) = (\<forall>t \<in> {a..<b}. cu_exact (cursors_at j a t FAN) \<and> cu_exact (cursors_at j a t FAN_PWM))"
  using integrate_InrD [OF assms] by (simp add: auger_ms_def fan_ms_def duty_ms_def)

section \<open>Consecutive windows\<close>

text \<open>A quantity that adds over adjacent windows, and its sum over a chain of them.\<close>

fun chain :: "(int \<Rightarrow> int \<Rightarrow> rat) \<Rightarrow> int \<Rightarrow> int list \<Rightarrow> rat" where
  "chain amount a [] = 0"
| "chain amount a (b # bs) = amount a b + chain amount b bs"

locale interval_additive =
  fixes amount :: "int \<Rightarrow> int \<Rightarrow> rat"
  assumes additive: "a \<le> b \<Longrightarrow> b \<le> c \<Longrightarrow> amount a b + amount b c = amount a c"
begin

lemma total_self: "amount a a = 0"
  using additive [of a a a] by simp

lemma chain_total: "sorted (a # bs) \<Longrightarrow> chain amount a bs = amount a (last (a # bs))"
proof (induction bs arbitrary: a)
  case (Cons b bs)
  then have "b \<le> last (b # bs)" by (auto simp: last_conv_nth sorted_nth_mono)
  with Cons additive [of a b "last (b # bs)"] show ?case by simp
qed (simp add: total_self)

end

text \<open>The value of a cursor does not depend on the start of the window.\<close>

lemma cursor_value_start:
  "cu_value c = cu_value d \<Longrightarrow> cu_value (foldl apply_event c es) = cu_value (foldl apply_event d es)"
proof (induction es arbitrary: c d)
  case (Cons e es)
  have "cu_value (apply_event c e) = cu_value (apply_event d e)"
    using Cons.prems by (cases e) (simp_all add: apply_event_def)
  from Cons.IH [OF this] show ?case by simp
qed simp

lemma cursors_at_value: "cu_value (cursors_at j a t ch) = cu_value (cursors_at j b t ch)"
  unfolding cursors_at_def by (rule cursor_value_start) (simp add: default_cursor_def)

lemma sum_window:
  fixes a b c :: int and f :: "int \<Rightarrow> rat"
  assumes "a \<le> b" "b \<le> c"
  shows "sum f {a..<b} + sum f {b..<c} = sum f {a..<c}"
proof -
  have "{a..<c} = {a..<b} \<union> {b..<c}" using assms by auto
  moreover have "sum f ({a..<b} \<union> {b..<c}) = sum f {a..<b} + sum f {b..<c}"
    by (rule sum.union_disjoint) auto
  ultimately show ?thesis by simp
qed

interpretation auger_total: interval_additive "auger_ms j" for j
proof
  fix a b c :: int assume "a \<le> b" "b \<le> c"
  then show "auger_ms j a b + auger_ms j b c = auger_ms j a c"
    unfolding auger_ms_def cursors_at_value [of j b _ _ a] by (rule sum_window)
qed

interpretation duty_total: interval_additive "duty_ms j" for j
proof
  fix a b c :: int assume "a \<le> b" "b \<le> c"
  then show "duty_ms j a b + duty_ms j b c = duty_ms j a c"
    unfolding duty_ms_def cursors_at_value [of j b _ _ a] by (rule sum_window)
qed

fun windows :: "int \<Rightarrow> int list \<Rightarrow> (int \<times> int) list" where
  "windows a [] = []"
| "windows a (b # bs) = (a, b) # windows b bs"

definition integrate_window :: "journal \<Rightarrow> int \<times> int \<Rightarrow> delivered_integral result" where
  "integrate_window j w = integrate j (VInt (fst w)) (VInt (snd w))"

lemma integrate_window_pair: "integrate_window j (a, b) = integrate j (VInt a) (VInt b)"
  by (simp add: integrate_window_def)

lemma windows_chain:
  assumes "journal_ok j" "emap_list (integrate_window j) (windows a bs) = Inr is"
  shows "sorted (a # bs) \<and> sum_list (map di_auger_on_s is) = chain (auger_ms j) a bs / 1000
    \<and> sum_list (map di_fan_duty_s is) = chain (duty_ms j) a bs / 1000"
  using assms(2)
proof (induction bs arbitrary: a "is")
  case (Cons b bs)
  then obtain i is' where i: "integrate j (VInt a) (VInt b) = Inr i"
      "emap_list (integrate_window j) (windows b bs) = Inr is'" "is = i # is'"
    by (auto simp: integrate_window_pair elim!: ebind_InrE)
  from Cons.IH [OF i(2)] integrate_InrD [OF assms(1) i(1)] i(3) show ?case
    by (auto simp: add_divide_distrib)
qed simp

text \<open>Adjacent windows partition the delivery: integrating the consecutive frames of a span gives auger seconds
  and duty integrals that add up exactly to those of the whole span, so no delivered millisecond is lost or
  counted twice at a frame boundary.\<close>

theorem windows_partition_delivery:
  assumes "journal_ok j" "emap_list (integrate_window j) (windows a bs) = Inr is"
    and "integrate j (VInt a) (VInt (last (a # bs))) = Inr i"
  shows "sum_list (map di_auger_on_s is) = di_auger_on_s i \<and> sum_list (map di_fan_duty_s is) = di_fan_duty_s i"
proof -
  note w = windows_chain [OF assms(1,2)]
  then show ?thesis
    using integrate_InrD [OF assms(1,3)] auger_total.chain_total [of a bs j] duty_total.chain_total [of a bs j] by simp
qed

section \<open>Eviction\<close>

lemma exact_last:
  "cu_exact (foldl apply_event c es) \<Longrightarrow> \<not> cu_exact c \<Longrightarrow> \<exists>m v. es \<noteq> [] \<and> last es = Known m v"
  by (induction es rule: rev_induct) (auto simp: apply_event_def split: timeline_event.splits)

lemma last_known_decides:
  "es \<noteq> [] \<Longrightarrow> last es = Known m v \<Longrightarrow>
     cu_value (foldl apply_event c es) = v \<and> cu_exact (foldl apply_event c es)"
  by (induction es rule: rev_induct) (auto simp: apply_event_def)

lemma filter_le_append:
  fixes f :: "'a \<Rightarrow> 'b::linorder"
  assumes "sorted (map f (xs @ ys))" "List.filter (\<lambda>x. f x \<le> t) ys \<noteq> []"
  shows "List.filter (\<lambda>x. f x \<le> t) (xs @ ys) = xs @ List.filter (\<lambda>x. f x \<le> t) ys"
proof -
  from assms(2) obtain y where "y \<in> set ys" "f y \<le> t" by (auto simp: filter_empty_conv)
  with assms(1) have "\<forall>x \<in> set xs. f x \<le> t" by (fastforce simp: sorted_append)
  then show ?thesis by (simp add: filter_id_conv)
qed

text \<open>A journal that lost nothing: the same journal with older events in front.\<close>

definition with_history :: "(channel \<Rightarrow> timeline_event list) \<Rightarrow> journal \<Rightarrow> journal" where
  "with_history older j = j\<lparr>timelines := (\<lambda>ch. older ch @ timelines j ch),
     capacity := Max ((\<lambda>ch. length (older ch @ timelines j ch)) ` set channels) + capacity j,
     evicted_before := (\<lambda>_. None)\<rparr>"

definition history_ok :: "(channel \<Rightarrow> timeline_event list) \<Rightarrow> journal \<Rightarrow> bool" where
  "history_ok older j \<longleftrightarrow> (\<forall>ch. sorted (map ev_ms (older ch @ timelines j ch))
     \<and> (\<forall>e \<in> set (older ch). 0 \<le> ev_ms e \<and> ev_ms e \<le> bound j))"

lemma with_history_ok:
  assumes "journal_ok j" "history_ok older j"
  shows "journal_ok (with_history older j)"
proof -
  have "length (older ch @ timelines j ch) \<le> Max ((\<lambda>ch. length (older ch @ timelines j ch)) ` set channels)" for ch
    by (rule Max_ge) (cases ch; simp add: channels_def)+
  then have "timeline_ok (with_history older j) ch" for ch
    using assms by (auto simp: with_history_def timeline_ok_def journal_ok_def history_ok_def bound_def
        intro: le_trans trans_le_add1)
  moreover have "bound (with_history older j) = bound j" by (simp add: with_history_def bound_def)
  ultimately show ?thesis using assms(1) by (simp add: journal_ok_def with_history_def)
qed

lemma cursors_at_history:
  assumes "history_ok older j" "cu_exact (cursors_at j a t ch)"
  shows "cu_value (cursors_at (with_history older j) a t ch) = cu_value (cursors_at j a t ch)
    \<and> cu_exact (cursors_at (with_history older j) a t ch)"
proof -
  let ?es = "List.filter (\<lambda>e. ev_ms e \<le> t) (timelines j ch)"
  have "\<not> cu_exact (default_cursor j ch a)" by (simp add: default_cursor_def)
  from exact_last [OF assms(2) [unfolded cursors_at_def] this]
  obtain m v where l: "?es \<noteq> []" "last ?es = Known m v" by blast
  have "List.filter (\<lambda>e. ev_ms e \<le> t) (older ch @ timelines j ch) = older ch @ ?es"
    using assms(1) l(1) by (intro filter_le_append) (auto simp: history_ok_def)
  then have "cursors_at (with_history older j) a t ch
      = foldl apply_event (default_cursor (with_history older j) ch a) (older ch @ ?es)"
    by (simp add: cursors_at_def with_history_def)
  moreover have "older ch @ ?es \<noteq> []" "last (older ch @ ?es) = Known m v" using l by auto
  ultimately show ?thesis
    using last_known_decides l unfolding cursors_at_def by metis
qed

text \<open>Eviction never falsifies evidence: if the bounded journal calls the auger and the fan exact over a window,
  then the journal that had kept every older event gives the same auger, fan and duty integrals for it, also
  exact; a window the bound has cut into is never reported exact with another value.\<close>

theorem eviction_never_falsifies:
  assumes "journal_ok j" "history_ok older j" "integrate j (VInt a) (VInt b) = Inr i"
    and "di_auger_certainty i = EXACT" "di_fan_certainty i = EXACT"
  shows "\<exists>i'. integrate (with_history older j) (VInt a) (VInt b) = Inr i'
    \<and> di_auger_on_s i' = di_auger_on_s i \<and> di_fan_on_s i' = di_fan_on_s i \<and> di_fan_duty_s i' = di_fan_duty_s i
    \<and> di_auger_certainty i' = EXACT \<and> di_fan_certainty i' = EXACT"
proof -
  note i = integrate_InrD [OF assms(1,3)]
  then obtain i' where i': "integrate (with_history older j) (VInt a) (VInt b) = Inr i'"
    using integrate_total [of a b] by blast
  note f = integrate_InrD [OF with_history_ok [OF assms(1,2)] i']
  have e: "cu_exact (cursors_at j a t AUGER)" "cu_exact (cursors_at j a t FAN)" "cu_exact (cursors_at j a t FAN_PWM)"
    if "t \<in> {a..<b}" for t
    using i assms(4,5) that by blast+
  note h = cursors_at_history [OF assms(2) e(1)] cursors_at_history [OF assms(2) e(2)] cursors_at_history [OF assms(2) e(3)]
  have "auger_ms (with_history older j) a b = auger_ms j a b"
    unfolding auger_ms_def by (intro sum.cong refl) (simp only: h(1))
  moreover have "fan_ms (with_history older j) a b = fan_ms j a b"
    unfolding fan_ms_def by (intro sum.cong refl) (simp only: h(2))
  moreover have "duty_ms (with_history older j) a b = duty_ms j a b"
    unfolding duty_ms_def by (intro sum.cong refl) (simp only: h(2,3))
  ultimately show ?thesis using i f i' h by auto
qed

section \<open>Failed calls\<close>

definition ends_unknown :: "journal \<Rightarrow> channel \<Rightarrow> int \<Rightarrow> bool" where
  "ends_unknown j ch ms \<longleftrightarrow> timelines j ch \<noteq> [] \<and> (\<exists>r. last (timelines j ch) = Unknown ms r)"

lemma deque_append_last: "0 < n \<Longrightarrow> deque_append n x xs \<noteq> [] \<and> last (deque_append n x xs) = x"
  by (auto simp: deque_append_def)

lemma mark_ends_unknown:
  assumes "journal_ok j" "bound j = ms"
  shows "\<exists>j'. mark_uncertain_locked r ms chs j = (j', None) \<and> journal_ok j' \<and> bound j' = ms
    \<and> (\<forall>ch. ch \<in> set chs \<or> ends_unknown j ch ms \<longrightarrow> ends_unknown j' ch ms)"
  using assms
proof (induction chs arbitrary: j)
  case Nil
  then show ?case by (simp add: mark_uncertain_locked_def)
next
  case (Cons c cs)
  from append_timeline_safe [OF Cons.prems(1), of "Unknown ms r" c] Cons.prems(2) obtain j1 where
    j1: "append_timeline c (Unknown ms r) j = (j1, None)" "journal_ok j1" "bound j1 = ms"
      "timelines j1 = (timelines j)(c := deque_append (capacity j) (Unknown ms r) (timelines j c))" by auto
  have "0 < capacity j" using Cons.prems(1) by (simp add: journal_ok_def)
  with j1(4) have e: "ends_unknown j1 c ms" "ends_unknown j ch ms \<Longrightarrow> ends_unknown j1 ch ms" for ch
    using deque_append_last [of "capacity j" "Unknown ms r"] by (auto simp: ends_unknown_def)
  from Cons.IH [OF j1(2,3)] e j1(1) show ?case
    by (auto simp: mark_uncertain_locked_def jseq_def)
qed

lemma ends_unknown_inexact:
  assumes "journal_ok j" "ends_unknown j ch ms" "ms \<le> t"
  shows "\<not> cu_exact (cursors_at j a t ch)"
proof -
  obtain es r where es: "timelines j ch = es @ [Unknown ms r]"
    using assms(2) by (metis append_butlast_last_id ends_unknown_def)
  with assms(3) show ?thesis by (simp add: cursors_at_def apply_event_def)
qed


section \<open>A concrete platform\<close>

definition demo_proxy :: proxy where
  "demo_proxy = \<lparr>pwm_capable = Some True, readback_authoritative = False, has_output_readback = True\<rparr>"

definition demo_reading :: "bool \<Rightarrow> bool \<Rightarrow> pyval result" where
  "demo_reading auger fan = Inr (VDict [(''auger'', VBool auger), (''fan'', VBool fan), (''pwm'', VInt 50)])"

definition demo_trace :: "int \<Rightarrow> pyval result \<Rightarrow> unit result \<Rightarrow> pyval result \<Rightarrow> unit call_trace" where
  "demo_trace ms before outcome after = \<lparr>ct_monotonic = Inr (VInt ms), ct_wall = Inr (VInt 0), ct_before = before,
     ct_outcome = outcome, ct_after = after\<rparr>"

definition demo_calls :: "platform_call list" where
  "demo_calls =
     [Observe_outputs (demo_trace 10 (demo_reading False True) (Inr ()) (demo_reading False True)),
      Auger_on (demo_trace 20 (demo_reading False True) (Inr ()) (demo_reading True True)),
      Auger_off (demo_trace 50 (demo_reading True True) (Inr ()) (demo_reading False True))]"

definition demo_journal0 :: journal where
  "demo_journal0 = \<lparr>capacity = 2, edges = [], timelines = (\<lambda>_. []), evicted_before = (\<lambda>_. None),
     last_monotonic_ms = None\<rparr>"

definition demo_journal :: journal where
  "demo_journal = foldl (journal_call demo_proxy) demo_journal0 demo_calls"

lemma demo_journal0_new: "new_journal (VInt 2) = Inr demo_journal0"
  by (simp add: new_journal_def demo_journal0_def)

lemma demo_journal_ok: "journal_ok demo_journal"
  unfolding demo_journal_def
  by (rule delivery.run_inv [OF new_journal_ok [OF demo_journal0_new] journal_steps])

lemma demo_timelines:
  "map (timelines demo_journal) channels =
     [[Known 20 (Switch True), Known 50 (Switch False)], [Known 10 (Switch True)], [Known 10 (Duty (1 / 2))]]"
  by code_simp

lemma journal_bounded_and_ordered_witness:
  "let j = foldl (journal_call demo_proxy) demo_journal0 demo_calls in
    length (edges j) \<le> capacity j \<and> length (timelines j AUGER) \<le> capacity j \<and> sorted (map ev_ms (timelines j AUGER))
    \<and> (case evicted_before j AUGER of None \<Rightarrow> True | Some b \<Rightarrow> ev_ms (hd (timelines j AUGER)) = b)"
  by (rule journal_bounded_and_ordered [OF demo_journal0_new])

lemma demo_integral:
  "case integrate demo_journal (VInt 20) (VInt 60) of
     Inr i \<Rightarrow> di_auger_on_s i = 3 / 100 \<and> di_fan_duty_s i = 2 / 100 \<and> di_auger_certainty i = EXACT
       \<and> di_fan_certainty i = EXACT | Inl _ \<Rightarrow> False"
  by code_simp

lemma demo_integralE:
  obtains i where "integrate demo_journal (VInt 20) (VInt 60) = Inr i" "di_auger_on_s i = 3 / 100"
    "di_auger_certainty i = EXACT" "di_fan_certainty i = EXACT"
  using demo_integral by (auto split: sum.split_asm)

lemma integral_is_millisecond_sum_witness:
  "(\<Sum>t \<in> {20..<60}. of_bool (level_on (cu_value (cursors_at demo_journal 20 t AUGER)))) / 1000 = (3 / 100 :: rat)"
proof -
  obtain i where "integrate demo_journal (VInt 20) (VInt 60) = Inr i" "di_auger_on_s i = 3 / 100"
    using demo_integralE by metis
  with integral_is_millisecond_sum [OF demo_journal_ok this(1)] show ?thesis by simp
qed

lemma windows_partition_delivery_witness:
  "\<exists>is. emap_list (integrate_window demo_journal) (windows 20 [33, 60]) = Inr is
     \<and> sum_list (map di_auger_on_s is) = 3 / 100"
proof -
  obtain i where i: "integrate demo_journal (VInt 20) (VInt 60) = Inr i" "di_auger_on_s i = 3 / 100"
    using demo_integralE by metis
  obtain k l where "integrate demo_journal (VInt 20) (VInt 33) = Inr k" "integrate demo_journal (VInt 33) (VInt 60) = Inr l"
    using integrate_total [of 20 33 demo_journal] integrate_total [of 33 60 demo_journal] by auto
  then have w: "emap_list (integrate_window demo_journal) (windows 20 [33, 60]) = Inr [k, l]"
    by (simp add: integrate_window_def)
  from windows_partition_delivery [OF demo_journal_ok w, of i] i w show ?thesis by auto
qed

definition demo_older :: "channel \<Rightarrow> timeline_event list" where
  "demo_older ch = (if ch = AUGER then [Known 10 (Switch False)] else [])"

lemma demo_history: "history_ok demo_older demo_journal"
proof -
  have "list_all (\<lambda>ch. sorted (map ev_ms (demo_older ch @ timelines demo_journal ch))
      \<and> list_all (\<lambda>e. 0 \<le> ev_ms e \<and> ev_ms e \<le> bound demo_journal) (demo_older ch)) channels"
    by code_simp
  then have "sorted (map ev_ms (demo_older ch @ timelines demo_journal ch))
      \<and> list_all (\<lambda>e. 0 \<le> ev_ms e \<and> ev_ms e \<le> bound demo_journal) (demo_older ch)" for ch
    by (cases ch) (simp_all only: channels_def list.pred_inject)
  then show ?thesis by (simp add: history_ok_def list_all_iff)
qed

lemma eviction_never_falsifies_witness:
  "\<exists>i. integrate (with_history demo_older demo_journal) (VInt 20) (VInt 60) = Inr i \<and> di_auger_on_s i = 3 / 100"
proof -
  obtain i where i: "integrate demo_journal (VInt 20) (VInt 60) = Inr i" "di_auger_on_s i = 3 / 100"
      "di_auger_certainty i = EXACT" "di_fan_certainty i = EXACT"
    using demo_integralE by metis
  from eviction_never_falsifies [OF demo_journal_ok demo_history i(1,3,4)] i(2) show ?thesis by auto
qed

definition demo_failed :: "unit call_trace" where
  "demo_failed = demo_trace 80 (demo_reading False True) (Inl (RuntimeError ''relay'')) (demo_reading False True)"

lemma demo_failed_bound: "bound (fst (invoke demo_proxy ''auger_on'' [AUGER] False None [] demo_failed demo_journal)) = 80"
  by code_simp


end
