(* ===== verification/Framed_Pulse.thy ===== *)
theory Framed_Pulse
  imports Frame_Observation Actuation_Journal
begin

text \<open>
  \<open>controller/runtime/framed_pulse.py\<close>: the runtime that owns the pulse scheduler of a cook, latches the
  controller's request for the length of one frame, accounts for the delivered auger time, and turns every
  completed frame into feedback for the controller and into an observation for the learner.

  A method is an \<open>action\<close> on the record \<open>framed\<close> (the object's attributes): the object as it is when the
  method returns or raises. The controller state it shares with \<open>HoldMode\<close> is the member \<open>fp_controller\<close>, whose
  \<open>pulse_frame_*\<close> attributes, which the code only writes together, are its \<open>cs_mirror\<close>. The wall clock is a
  function \<open>wall\<close> of the number of readings made, the delivery journal an argument \<open>dj\<close> (its value at the call).
  Times, duties and loads are exact rationals; a sample's temperatures and acquisition time are \<open>pyfloat\<close>.
\<close>

section \<open>Data\<close>

record frame_identity =
  fi_result_revision :: int
  fi_combustion_load :: "rat option"
  fi_baseline_load :: rat
  fi_requested_duty :: rat
  fi_requested_fan :: "rat option"
  fi_maximum_duty :: rat
  fi_stale_command :: bool
  fi_allocator_revision :: int
  fi_clamp_reasons :: "clamp_reason list"
  fi_evidence_checked :: bool
  fi_allocation_revision :: "int option"
  fi_command_revision :: int
  fi_command_action :: string
  fi_command_generation :: int
  fi_cancellation_reason :: "string option"
  fi_output_source :: output_source
  fi_baseline_allocation :: "allocation_result option"
  fi_calibration_status :: string
  fi_cancellation_revision :: int
  fi_cancellation_action :: string
  fi_combined_allocation :: "allocation_result option"
  fi_probe_load :: rat
  fi_stage :: "string option"
  fi_completed_stages :: "string list"

record latched_frame = frame_identity +
  lf_role_generation :: int

record controller_state =
  cs_output :: rat
  cs_fan_duty :: "rat option"
  cs_result_revision :: int
  cs_requested_duty :: rat
  cs_combustion_load :: "rat option"
  cs_baseline_load :: rat
  cs_requested_fan :: "rat option"
  cs_maximum_duty :: rat
  cs_stale_command :: bool
  cs_feedback_start :: "rat option"
  cs_feedback_delivered_on :: rat
  cs_metrics_delivered_on :: rat
  cs_allocator_revision :: int
  cs_clamp_reasons :: "clamp_reason list"
  cs_evidence_checked :: bool
  cs_allocation_revision :: "int option"
  cs_accepted_command_revision :: int
  cs_command_revision :: int
  cs_command_action :: string
  cs_command_generation :: int
  cs_cancellation_reason :: "string option"
  cs_baseline_allocation :: "allocation_result option"
  cs_calibration_status :: string
  cs_cancellation_revision :: int
  cs_cancellation_action :: string
  cs_combined_allocation :: "allocation_result option"
  cs_probe_load :: rat
  cs_stage :: "string option"
  cs_completed_stages :: "string list"
  cs_mirror :: frame_identity

record sample =
  sm_temperature :: "pyfloat option"
  sm_setpoint :: pyfloat
  sm_ambient_c :: pyfloat
  sm_units :: string
  sm_role_generation :: int
  sm_acquired_at :: "pyfloat option"

record feedback =
  fb_applied :: applied_output
  fb_realized_load :: rat
  fb_measured_source :: bool
  fb_dispatch :: bool

record completion =
  cm_frame :: frame_result
  cm_wall_start_ms :: int
  cm_wall_end_ms :: int
  cm_inhibit :: inhibit
  cm_result_revision :: int
  cm_source :: output_source
  cm_requested_load :: rat
  cm_requested_fan :: "rat option"
  cm_stale_command :: bool
  cm_applied_fan :: "rat option"
  cm_frame_key :: "(int \<times> int) option"
  cm_observation :: "observation option"
  cm_applied :: "applied_output option"
  cm_realized_load :: "rat option"
  cm_missing_reason :: "string option"
  cm_sequence :: "int option"
  cm_duplicate :: bool
  cm_terminal_start :: "rat option"
  cm_terminal_duty :: "rat option"
  cm_terminal_load :: "rat option"

record framed_result =
  re_decision :: pulse_decision
  re_completions :: "completion list"
  re_feedback :: "feedback option"
  re_delivered_delta :: rat
  re_observations :: "observation list"

record pending_observation =
  po_observation :: observation
  po_sample :: sample
  po_frame_end :: rat
  po_duration :: rat

record framed =
  fp_wall_start_ms :: int
  fp_wall_reads :: nat
  fp_scheduler :: "scheduler option"
  fp_controller :: "controller_state option"
  fp_frame :: "latched_frame option"
  fp_last_key :: "(int \<times> int) option"
  fp_sequence :: int
  fp_delivery_start_ms :: int
  fp_pending :: "pending_observation option"

definition new_framed :: framed where
  "new_framed = \<lparr>fp_wall_start_ms = 0, fp_wall_reads = 0, fp_scheduler = None, fp_controller = None,
     fp_frame = None, fp_last_key = None, fp_sequence = 0, fp_delivery_start_ms = 0, fp_pending = None\<rparr>"

definition frame_seconds :: "framed \<Rightarrow> rat" where
  "frame_seconds s = (case fp_scheduler s of None \<Rightarrow> 0 | Some sch \<Rightarrow> of_int (frame_s (timing sch)))"

section \<open>Latching\<close>

definition wall_clock_ms :: "(nat \<Rightarrow> int) \<Rightarrow> (framed, int) action" where
  "wall_clock_ms wall s = (s\<lparr>fp_wall_reads := Suc (fp_wall_reads s)\<rparr>, Inr (wall (fp_wall_reads s)))"

definition update_controller :: "(controller_state \<Rightarrow> controller_state) \<Rightarrow> (framed, unit) action" where
  "update_controller h = amodify (\<lambda>s. s\<lparr>fp_controller := map_option h (fp_controller s)\<rparr>)"

definition configured :: "(framed, scheduler \<times> controller_state \<times> latched_frame) action" where
  "configured s =
     (case (fp_scheduler s, fp_controller s, fp_frame s) of
        (Some sch, Some c, Some f) \<Rightarrow> (s, Inr (sch, c, f))
      | _ \<Rightarrow> (s, Inl (RuntimeError ''framed pulse runtime requires a pulse scheduler'')))"

definition latched_of :: "int \<Rightarrow> controller_state \<Rightarrow> latched_frame" where
  "latched_of role_generation c =
     (let revision = max 0 (cs_result_revision c)
      in \<lparr>fi_result_revision = revision, fi_combustion_load = cs_combustion_load c,
          fi_baseline_load = cs_baseline_load c, fi_requested_duty = cs_requested_duty c,
          fi_requested_fan = cs_requested_fan c, fi_maximum_duty = cs_maximum_duty c,
          fi_stale_command = cs_stale_command c, fi_allocator_revision = cs_allocator_revision c,
          fi_clamp_reasons = cs_clamp_reasons c, fi_evidence_checked = cs_evidence_checked c,
          fi_allocation_revision = cs_allocation_revision c, fi_command_revision = cs_command_revision c,
          fi_command_action = cs_command_action c, fi_command_generation = cs_command_generation c,
          fi_cancellation_reason = cs_cancellation_reason c,
          fi_output_source = (if 0 < revision \<or> cs_combustion_load c \<noteq> None then SRC_CONTROLLER else SRC_SEED),
          fi_baseline_allocation = cs_baseline_allocation c, fi_calibration_status = cs_calibration_status c,
          fi_cancellation_revision = cs_cancellation_revision c,
          fi_cancellation_action = cs_cancellation_action c, fi_combined_allocation = cs_combined_allocation c,
          fi_probe_load = cs_probe_load c, fi_stage = cs_stage c, fi_completed_stages = cs_completed_stages c,
          lf_role_generation = role_generation\<rparr>)"

definition mirror_frame :: "latched_frame \<Rightarrow> (framed, unit) action" where
  "mirror_frame f = update_controller (\<lambda>c. c\<lparr>cs_mirror := frame_identity.truncate f\<rparr>)"

definition latch_frame :: "int \<Rightarrow> (framed, latched_frame) action" where
  "latch_frame role_generation s =
     (case fp_controller s of
        None \<Rightarrow> araise (RuntimeError ''framed pulse runtime is not configured'') s
      | Some c \<Rightarrow>
          let f = latched_of role_generation c
          in abind (mirror_frame f) (\<lambda>_. areturn f) s)"

text \<open>\<open>self._frame = self._latch_frame(g)\<close>.\<close>

definition relatch :: "int \<Rightarrow> (framed, unit) action" where
  "relatch role_generation = abind (latch_frame role_generation) (\<lambda>f. amodify (\<lambda>s. s\<lparr>fp_frame := Some f\<rparr>))"

definition framed_latch :: "int \<Rightarrow> (framed, unit) action" where
  "framed_latch role_generation = abind configured (\<lambda>_. relatch role_generation)"

text \<open>What \<open>configure\<close> writes of the controller state; the remaining \<open>pulse_frame_*\<close> attributes are written by the
  latch that follows.\<close>

definition configured_controller :: "rat \<Rightarrow> int \<Rightarrow> controller_state \<Rightarrow> controller_state" where
  "configured_controller now command_revision c =
     c\<lparr>cs_result_revision := - 1, cs_requested_duty := 0, cs_combustion_load := None, cs_baseline_load := 0,
       cs_requested_fan := None, cs_maximum_duty := 1, cs_stale_command := False, cs_allocator_revision := 0,
       cs_clamp_reasons := [], cs_evidence_checked := False, cs_allocation_revision := None,
       cs_feedback_start := Some now, cs_feedback_delivered_on := 0, cs_metrics_delivered_on := 0,
       cs_accepted_command_revision := command_revision, cs_command_revision := 0, cs_command_action := ''none'',
       cs_command_generation := 0, cs_cancellation_reason := None, cs_baseline_allocation := None,
       cs_calibration_status := ''inactive'', cs_cancellation_revision := 0, cs_cancellation_action := ''none'',
       cs_combined_allocation := None, cs_probe_load := 0, cs_stage := None, cs_completed_stages := [],
       cs_mirror := (cs_mirror c)\<lparr>fi_result_revision := 0, fi_combustion_load := None, fi_baseline_load := 0,
         fi_requested_duty := 0, fi_requested_fan := None, fi_maximum_duty := 1, fi_stale_command := False,
         fi_allocator_revision := 0, fi_clamp_reasons := [], fi_evidence_checked := False,
         fi_allocation_revision := None\<rparr>\<rparr>"

definition framed_configure ::
    "(nat \<Rightarrow> int) \<Rightarrow> string \<Rightarrow> controller_state \<Rightarrow> auger_timing \<Rightarrow> rat \<Rightarrow> int \<Rightarrow> (framed, unit) action" where
  "framed_configure wall actuation_mode c tm now command_revision =
     (if actuation_mode \<noteq> ''framed_pulse'' then araise (ValueError ''FramedPulseRuntime requires framed pulse actuation'')
      else
        abind (amodify (\<lambda>s. s\<lparr>fp_controller := Some c\<rparr>)) (\<lambda>_.
        abind (alift (new_scheduler tm (VFloat (Fin 1)))) (\<lambda>sch.
        abind (amodify (\<lambda>s. s\<lparr>fp_scheduler := Some sch\<rparr>)) (\<lambda>_.
        abind (wall_clock_ms wall) (\<lambda>t.
        abind (amodify (\<lambda>s. s\<lparr>fp_wall_start_ms := t, fp_last_key := None, fp_sequence := 0,
          fp_delivery_start_ms := 0, fp_pending := None\<rparr>)) (\<lambda>_.
        abind (update_controller (configured_controller now command_revision)) (\<lambda>_.
          relatch 0)))))))"

section \<open>Adopting a controller result\<close>

text \<open>
  What \<open>HoldMode._decide_safety_manual_lid_inhibition\<close> writes of the controller state for a runner result, between
  two polls: a result is adopted if it is newer than the last, or carries a cancellation or a handled calibration.
  The second component is the fan duty persisted to the control snapshot, if any.
\<close>

record handoff =
  ho_probe_load :: rat
  ho_stage :: "string option"
  ho_completed_stages :: "string list"
  ho_command_revision :: int
  ho_command_action :: string
  ho_command_generation :: int
  ho_reason :: "string option"
  ho_status :: string

record solve_result =
  so_revision :: int
  so_cycle_ratio :: rat
  so_allocation :: "allocation_result option"
  so_baseline_allocation :: "allocation_result option"
  so_fan_duty :: "rat option"
  so_stale :: bool

record runner_result =
  rr_result :: "solve_result option"
  rr_cancellation_reason :: "string option"
  rr_calibration :: "handoff option"
  rr_calibration_handled :: bool

definition adopt_request :: "runner_result \<Rightarrow> solve_result \<Rightarrow> controller_state \<Rightarrow> controller_state" where
  "adopt_request rr so c =
     (let cal = rr_calibration rr; alloc = so_allocation so;
          load = map_option al_load alloc;
          reasons = (case alloc of None \<Rightarrow> []
            | Some a \<Rightarrow> filter (\<lambda>r. r \<noteq> CLAMP_NONE) [al_auger_clamp a, al_fan_clamp a])
      in c\<lparr>cs_output := so_cycle_ratio so, cs_result_revision := so_revision so,
           cs_requested_duty := max 0 (min 1 (so_cycle_ratio so)), cs_combustion_load := load,
           cs_baseline_load := (case so_baseline_allocation so of Some a \<Rightarrow> al_load a
             | None \<Rightarrow> (case load of None \<Rightarrow> 0 | Some q \<Rightarrow> q)),
           cs_probe_load := (case cal of None \<Rightarrow> 0 | Some h \<Rightarrow> ho_probe_load h),
           cs_stage := (case cal of None \<Rightarrow> None | Some h \<Rightarrow> ho_stage h),
           cs_completed_stages := (case cal of None \<Rightarrow> [] | Some h \<Rightarrow> ho_completed_stages h),
           cs_maximum_duty := (case alloc of None \<Rightarrow> 1 | Some a \<Rightarrow> al_u_max a),
           cs_allocator_revision := (case alloc of None \<Rightarrow> 0 | Some a \<Rightarrow> al_revision a),
           cs_clamp_reasons := reasons, cs_baseline_allocation := so_baseline_allocation so,
           cs_combined_allocation := alloc,
           cs_command_revision := (case cal of None \<Rightarrow> 0 | Some h \<Rightarrow> ho_command_revision h),
           cs_command_action := (case cal of None \<Rightarrow> ''none'' | Some h \<Rightarrow> ho_command_action h),
           cs_command_generation := (case cal of None \<Rightarrow> 0 | Some h \<Rightarrow> ho_command_generation h),
           cs_cancellation_reason := (case rr_cancellation_reason rr of
               Some r \<Rightarrow> Some r
             | None \<Rightarrow> if \<not> rr_calibration_handled rr then (case cal of None \<Rightarrow> None | Some h \<Rightarrow> ho_reason h)
                       else cs_cancellation_reason c),
           cs_calibration_status := (case cal of None \<Rightarrow> ''inactive'' | Some h \<Rightarrow> ho_status h),
           cs_evidence_checked := True,
           cs_allocation_revision := (case alloc of None \<Rightarrow> None | Some _ \<Rightarrow> Some (so_revision so)),
           cs_requested_fan := so_fan_duty so\<rparr>)"

definition adopt_result :: "bool \<Rightarrow> runner_result \<Rightarrow> controller_state \<Rightarrow> controller_state \<times> rat option" where
  "adopt_result fan_authority rr c =
     (case rr_result rr of
        None \<Rightarrow> (c, None)
      | Some so \<Rightarrow>
          let adopts = (0 < so_revision so \<and> (cs_result_revision c < so_revision so
                 \<or> rr_cancellation_reason rr \<noteq> None \<or> rr_calibration_handled rr));
              c1 = (if adopts then adopt_request rr so c else c);
              duty = (if adopts \<and> fan_authority then so_fan_duty so else None);
              c2 = (case duty of None \<Rightarrow> c1 | Some d \<Rightarrow> c1\<lparr>cs_fan_duty := Some d\<rparr>)
          in (c2\<lparr>cs_stale_command := so_stale so\<rparr>, duty))"

section \<open>Accounting and feedback\<close>

definition record_delivery :: "rat \<Rightarrow> (framed, rat) action" where
  "record_delivery delivered_on =
     abind configured (\<lambda>(_, c, _).
       let delta_ms = round_ms delivered_on - round_ms (cs_metrics_delivered_on c)
       in if delta_ms \<le> 0 then areturn 0
          else abind (update_controller (\<lambda>c. c\<lparr>cs_metrics_delivered_on := delivered_on\<rparr>)) (\<lambda>_.
            areturn (of_int delta_ms / 1000)))"

definition set_feedback :: "rat \<Rightarrow> rat \<Rightarrow> controller_state \<Rightarrow> controller_state" where
  "set_feedback now delivered_on c = c\<lparr>cs_feedback_start := Some now, cs_feedback_delivered_on := delivered_on\<rparr>"

definition report_feedback ::
    "rat \<Rightarrow> rat \<Rightarrow> output_source \<Rightarrow> latched_frame option \<Rightarrow> disposition \<Rightarrow> output_source option \<Rightarrow> bool
       \<Rightarrow> (framed, feedback option) action" where
  "report_feedback now delivered_on src completed disp prior dispatch =
     abind configured (\<lambda>(_, c, latched_f).
       let frame = (case completed of None \<Rightarrow> latched_f | Some f \<Rightarrow> f) in
       (case cs_feedback_start c of
          None \<Rightarrow> abind (update_controller (set_feedback now delivered_on)) (\<lambda>_. areturn None)
        | Some start \<Rightarrow>
            let elapsed_ms = round_ms now - round_ms start in
            if elapsed_ms \<le> 0 then areturn None
            else
              let delivered_ms = round_ms delivered_on - round_ms (cs_feedback_delivered_on c);
                  realized_duty = of_int delivered_ms / of_int elapsed_ms
              in abind (alift (normalized_load_from_auger_duty (Fin realized_duty) (Fin (fi_maximum_duty frame)))) (\<lambda>load.
                 abind (alift (mk_applied_output
                   \<lparr>ao_ratio = realized_duty, ao_source = src, ao_timestamp = now,
                    ao_requested = Some (fi_requested_duty frame),
                    ao_result_revision = max 0 (fi_result_revision frame),
                    ao_calibration_revision = fi_command_revision frame,
                    ao_calibration_action = fi_command_action frame,
                    ao_calibration_generation = fi_command_generation frame, ao_disposition = disp,
                    ao_sample_complete = (prior = Some SRC_SEED \<or> prior = Some SRC_CONTROLLER)\<rparr>)) (\<lambda>applied.
                 abind (update_controller (set_feedback now delivered_on)) (\<lambda>_.
                   areturn (Some \<lparr>fb_applied = applied, fb_realized_load = load,
                     fb_measured_source = (prior = Some SRC_CONTROLLER), fb_dispatch = dispatch\<rparr>))))))"

definition stamp_cancellation :: "string \<Rightarrow> int \<Rightarrow> string \<Rightarrow> (framed, unit) action" where
  "stamp_cancellation reason command_revision command_action =
     abind (aget fp_frame) (\<lambda>f.
     case f of
       None \<Rightarrow> areturn ()
     | Some f \<Rightarrow>
         if fi_calibration_status f \<noteq> ''active'' \<or> fi_probe_load f = 0 then areturn ()
         else
           let f' = f\<lparr>fi_cancellation_reason := Some reason, fi_calibration_status := ''cancelled'',
                       fi_cancellation_revision := command_revision, fi_cancellation_action := command_action\<rparr>
           in abind (amodify (\<lambda>s. s\<lparr>fp_frame := Some f'\<rparr>)) (\<lambda>_. mirror_frame f'))"

section \<open>The observation of a frame\<close>

text \<open>\<open>==\<close> on floats.\<close>

definition float_eq :: "pyfloat \<Rightarrow> pyfloat \<Rightarrow> bool" where
  "float_eq a b \<longleftrightarrow> a = b \<and> a \<noteq> NaN"

definition fahrenheit :: "string \<Rightarrow> bool" where
  "fahrenheit units \<longleftrightarrow> units = ''F'' \<or> units = ''f''"

definition to_c :: "pyfloat \<Rightarrow> string \<Rightarrow> pyfloat" where
  "to_c v units = (if fahrenheit units then (case v of Fin q \<Rightarrow> Fin ((q - 32) * 5 / 9) | f \<Rightarrow> f) else v)"

definition fan_fraction :: "rat option \<Rightarrow> rat option" where
  "fan_fraction duty = map_option (\<lambda>d. max 0 (min 1 (d / 100))) duty"

definition frame_key :: "frame_result \<Rightarrow> int \<times> int" where
  "frame_key f = (round_ms (fr_start f), round_ms (fr_ended_at f))"

definition observation_source :: "frame_result \<Rightarrow> inhibit \<Rightarrow> latched_frame \<Rightarrow> string" where
  "observation_source f inh l =
     (if inh = INH_MANUAL_OVERRIDE \<or> fr_reset f = Some R_MANUAL then source_value SRC_MANUAL_OVERRIDE
      else if inh = INH_LID_OPEN \<or> fr_reset f = Some R_LID then source_value SRC_LID_OPEN
      else if inh = INH_SAFETY \<or> fr_reset f = Some R_SAFETY \<or> fr_reset f = Some R_MODE_CHANGE
          \<or> fi_combustion_load l = None then ''unknown''
      else source_value SRC_CONTROLLER)"

definition join_reason :: "latched_frame \<Rightarrow> string option" where
  "join_reason l =
     (if \<not> fi_evidence_checked l then None
      else case fi_allocation_revision l of
        None \<Rightarrow> Some ''missing-allocation''
      | Some r \<Rightarrow> if r = fi_result_revision l then None else Some ''allocation-revision-mismatch'')"

text \<open>The sample was taken at or after the frame's end and less than a frame's length after it.\<close>

definition sample_in_window :: "frame_result \<Rightarrow> pyfloat option \<Rightarrow> bool" where
  "sample_in_window f acquired =
     (case acquired of
        Some (Fin a) \<Rightarrow> 0 \<le> a - fr_ended_at f \<and> a - fr_ended_at f < fr_ended_at f - fr_start f
      | _ \<Rightarrow> False)"

definition observation_of ::
    "frame_result \<Rightarrow> latched_frame \<Rightarrow> sample \<Rightarrow> pyfloat \<Rightarrow> inhibit \<Rightarrow> int \<Rightarrow> int \<Rightarrow> int \<Rightarrow> rat option
       \<Rightarrow> observation result" where
  "observation_of f l smp temperature inh sequence wall_start wall_end applied_fan =
     (let (start_ms, end_ms) = frame_key f;
          src = observation_source f inh l;
          lid = (inh = INH_LID_OPEN \<or> fr_reset f = Some R_LID);
          manual = (inh = INH_MANUAL_OVERRIDE \<or> fr_reset f = Some R_MANUAL);
          safety = (inh = INH_SAFETY \<or> fr_reset f = Some R_SAFETY);
          stale = (fi_stale_command l \<or> inh = INH_STALE_COMMAND);
          was_reset = (fr_reset f \<noteq> None);
          baseline_q = max 0 (min 1 (fi_baseline_load l));
          requested_q = max 0 (min 1 (baseline_q + fi_probe_load l));
          realized_duty = of_int (fr_delivered_ms f) / of_int (end_ms - start_ms)
      in ebind (normalized_load_from_auger_duty (Fin realized_duty) (Fin (fi_maximum_duty l))) (\<lambda>realized_q.
         mk_observation
          \<lparr>ob_frame_start = of_int start_ms / 1000, ob_frame_end = of_int end_ms / 1000,
           ob_temp_c = to_c temperature (sm_units smp), ob_setpoint_c = to_c (sm_setpoint smp) (sm_units smp),
           ob_ambient_c = sm_ambient_c smp, ob_requested_q = requested_q, ob_realized_q = realized_q,
           ob_requested_auger_duty = fr_request f, ob_delivered_on = of_int (fr_delivered_ms f) / 1000,
           ob_requested_fan_duty = fan_fraction (fi_requested_fan l), ob_actual_fan_duty = fan_fraction applied_fan,
           ob_result_revision = fi_result_revision l, ob_output_source = src, ob_lid_open = lid,
           ob_safety_inhibited = safety, ob_manual_override = manual, ob_stale = stale, ob_skipped = fr_skipped f,
           ob_reset = was_reset,
           ob_continuous = (\<not> (lid \<or> manual \<or> safety \<or> stale \<or> fr_skipped f \<or> was_reset \<or> src = ''unknown''
             \<or> \<not> sample_in_window f (sm_acquired_at smp))),
           ob_role_generation = lf_role_generation l, ob_wall_start_ms = wall_start, ob_wall_end_ms = wall_end,
           ob_sequence = sequence, ob_probe_valid = True, ob_probe_source = Some ''chamber'',
           ob_ambient_source = AMB_CONFIGURED, ob_ambient_uncertainty = UNC_UNMEASURED,
           ob_baseline_q = Some baseline_q, ob_probe_q = fi_probe_load l, ob_allocated_q = Some requested_q,
           ob_scheduled_on = Some (of_int (fr_scheduled_s f)), ob_realized_auger_duty = Some realized_duty,
           ob_allocator_revision = Some (fi_allocator_revision l), ob_clamp_reasons = fi_clamp_reasons l,
           ob_calibration_stage = fi_stage l, ob_calibration_fit = (fi_stage l \<noteq> None),
           ob_join_reason = join_reason l, ob_temperature_band = None,
           ob_command_revision = fi_command_revision l, ob_command_action = fi_command_action l,
           ob_cancellation_reason = fi_cancellation_reason l,
           ob_baseline_allocation = fi_baseline_allocation l, ob_combined_allocation = fi_combined_allocation l,
           ob_calibration_status = fi_calibration_status l, ob_cancellation_revision = fi_cancellation_revision l,
           ob_cancellation_action = fi_cancellation_action l,
           ob_completed_stages = fi_completed_stages l\<rparr>))"

text \<open>
  A pending observation meets the next sample: an acceptable one taken after the frame's end completes it, one
  taken before leaves it pending, anything else retires it as it was built.
\<close>

definition resolve_pending :: "sample \<Rightarrow> rat option \<Rightarrow> bool \<Rightarrow> (framed, observation list) action" where
  "resolve_pending smp now invalidate =
     abind (aget fp_pending) (\<lambda>po.
     case po of
       None \<Rightarrow> areturn []
     | Some p \<Rightarrow>
         let ob = po_observation p;
             deadline = po_frame_end p + po_duration p;
             compatible = (sm_role_generation smp = ob_role_generation ob \<and> sm_units smp = sm_units (po_sample p)
               \<and> float_eq (sm_setpoint smp) (sm_setpoint (po_sample p))
               \<and> float_eq (sm_ambient_c smp) (sm_ambient_c (po_sample p)));
             retire = (\<lambda>ob. abind (amodify (\<lambda>s. s\<lparr>fp_pending := None\<rparr>)) (\<lambda>_. areturn [ob]))
         in (case (sm_temperature smp, sm_acquired_at smp, now) of
               (Some (Fin temp), Some (Fin a), Some t) \<Rightarrow>
                 if \<not> invalidate \<and> compatible \<and> a \<le> t \<and> t < deadline then
                   if a < po_frame_end p then areturn []
                   else abind (alift (mk_observation (ob\<lparr>ob_temp_c := to_c (Fin temp) (sm_units smp), ob_continuous := True\<rparr>)))
                          retire
                 else retire ob
             | _ \<Rightarrow> retire ob))"

section \<open>Completing a frame\<close>

text \<open>\<open>PendingObservation\<close>: the frame's own sample is in hand, but was taken before the frame ended.\<close>

definition deferrable :: "bool \<Rightarrow> frame_result \<Rightarrow> sample \<Rightarrow> observation \<Rightarrow> bool" where
  "deferrable defer_sample f smp ob \<longleftrightarrow>
     defer_sample \<and> fr_complete f \<and> \<not> ob_continuous ob
     \<and> \<not> (ob_lid_open ob \<or> ob_manual_override ob \<or> ob_safety_inhibited ob \<or> ob_stale ob \<or> ob_skipped ob \<or> ob_reset ob)
     \<and> ob_output_source ob = ''controller''
     \<and> (case ob_temp_c ob of Fin _ \<Rightarrow> True | _ \<Rightarrow> False)
     \<and> (case sm_acquired_at smp of Some (Fin a) \<Rightarrow> fr_start f \<le> a \<and> a < fr_ended_at f | _ \<Rightarrow> False)"

text \<open>The observation of a frame that is not a duplicate: it, why there is none, and its sequence number.\<close>

definition observe_frame ::
    "frame_result \<Rightarrow> latched_frame \<Rightarrow> sample \<Rightarrow> inhibit \<Rightarrow> bool \<Rightarrow> int \<Rightarrow> int \<Rightarrow> rat option
       \<Rightarrow> (framed, observation option \<times> string option \<times> int option) action" where
  "observe_frame f l smp inh defer_sample wall_start wall_end applied_fan =
     abind (amodify (\<lambda>s. s\<lparr>fp_sequence := fp_sequence s + 1, fp_last_key := Some (frame_key f)\<rparr>)) (\<lambda>_.
     abind (aget fp_sequence) (\<lambda>sequence.
     case sm_temperature smp of
       None \<Rightarrow> areturn (None, Some ''missing-temperature'', Some sequence)
     | Some temperature \<Rightarrow>
         if fi_result_revision l \<le> 0 then areturn (None, Some ''missing-result-revision'', Some sequence)
         else
           abind (alift (observation_of f l smp temperature inh sequence wall_start wall_end applied_fan)) (\<lambda>ob.
             if deferrable defer_sample f smp ob then
               abind (amodify (\<lambda>s. s\<lparr>fp_pending := Some \<lparr>po_observation = ob, po_sample = smp,
                   po_frame_end = fr_ended_at f, po_duration = fr_ended_at f - fr_start f\<rparr>\<rparr>)) (\<lambda>_.
                 areturn (None, None, Some sequence))
             else areturn (Some ob, None, Some sequence))))"

record terminal =
  tm_applied :: "applied_output option"
  tm_realized_load :: "rat option"
  tm_start :: "rat option"
  tm_duty :: "rat option"
  tm_load :: "rat option"

definition no_terminal :: terminal where
  "no_terminal = \<lparr>tm_applied = None, tm_realized_load = None, tm_start = None, tm_duty = None, tm_load = None\<rparr>"

text \<open>
  The terminal feedback of a frame: what reached the auger over all of it, and over the part of it that no
  progress report has covered yet.
\<close>

definition terminal_feedback_of :: "frame_result \<Rightarrow> latched_frame \<Rightarrow> output_source \<Rightarrow> (framed, terminal) action" where
  "terminal_feedback_of f l src =
     (let (start_ms, end_ms) = frame_key f;
          duration_ms = end_ms - start_ms;
          ratio = of_int (fr_delivered_ms f) / of_int duration_ms;
          disp = (if fr_skipped f \<or> fr_reset f \<noteq> None then DISCARDED else COMPLETE)
      in abind (alift (normalized_load_from_auger_duty (Fin ratio) (Fin (fi_maximum_duty l)))) (\<lambda>realized_load.
         abind (alift (mk_applied_output
           \<lparr>ao_ratio = ratio, ao_source = src, ao_timestamp = fr_ended_at f, ao_requested = Some (fr_request f),
            ao_result_revision = fi_result_revision l, ao_calibration_revision = fi_command_revision l,
            ao_calibration_action = fi_command_action l, ao_calibration_generation = fi_command_generation l,
            ao_disposition = disp, ao_sample_complete = (disp = COMPLETE \<and> src = SRC_CONTROLLER)\<rparr>)) (\<lambda>applied.
         abind configured (\<lambda>(_, c, _).
         abind (aget fp_delivery_start_ms) (\<lambda>delivery_start.
           let feedback_ms = map_option round_ms (cs_feedback_start c);
               from_ms = max start_ms (case feedback_ms of None \<Rightarrow> start_ms | Some m \<Rightarrow> m);
               reported_on = (case feedback_ms of
                   Some m \<Rightarrow> if start_ms \<le> m then round_ms (cs_feedback_delivered_on c) - delivery_start else 0
                 | None \<Rightarrow> 0);
               remaining = end_ms - from_ms;
               remaining_on = fr_delivered_ms f - reported_on
           in if 0 < remaining \<and> 0 \<le> remaining_on \<and> remaining_on \<le> remaining then
                (let duty = of_int remaining_on / of_int remaining
                 in abind (alift (normalized_load_from_auger_duty (Fin duty) (Fin (fi_maximum_duty l)))) (\<lambda>load.
                    areturn \<lparr>tm_applied = Some applied, tm_realized_load = Some realized_load,
                      tm_start = Some (of_int from_ms / 1000), tm_duty = Some duty, tm_load = Some load\<rparr>))
              else areturn (no_terminal\<lparr>tm_applied := Some applied, tm_realized_load := Some realized_load\<rparr>))))))"

definition complete_frame ::
    "(nat \<Rightarrow> int) \<Rightarrow> journal option \<Rightarrow> latched_frame \<Rightarrow> sample \<Rightarrow> inhibit \<Rightarrow> bool \<Rightarrow> output_source \<Rightarrow> bool
       \<Rightarrow> frame_result \<Rightarrow> (framed, completion) action" where
  "complete_frame wall dj l smp inh terminal_feedback feedback_source defer_sample f =
     (let (start_ms, end_ms) = frame_key f;
          duration_ms = end_ms - start_ms;
          key = (if duration_ms \<le> 0 then None else Some (start_ms, end_ms))
      in abind (alift (case dj of None \<Rightarrow> Inr None | Some j \<Rightarrow> mean_fan_duty j start_ms end_ms)) (\<lambda>applied_fan.
         abind (aget (\<lambda>s. key \<noteq> None \<and> key = fp_last_key s)) (\<lambda>duplicate.
         abind (aget fp_wall_start_ms) (\<lambda>wall_start.
         abind (wall_clock_ms wall) (\<lambda>wall_end.
         abind (if \<not> duplicate \<and> 0 < duration_ms
                then abind (amodify (\<lambda>s. s\<lparr>fp_wall_start_ms := wall_end\<rparr>)) (\<lambda>_.
                       observe_frame f l smp inh defer_sample wall_start wall_end applied_fan)
                else areturn (None, None, None)) (\<lambda>(ob, missing, sequence).
         abind (if terminal_feedback \<and> 0 < duration_ms then terminal_feedback_of f l feedback_source
                else areturn no_terminal) (\<lambda>t.
         abind (if \<not> duplicate \<and> 0 < duration_ms
                then amodify (\<lambda>s. s\<lparr>fp_delivery_start_ms := fp_delivery_start_ms s + fr_delivered_ms f\<rparr>)
                else areturn ()) (\<lambda>_.
           areturn
             \<lparr>cm_frame = f, cm_wall_start_ms = wall_start, cm_wall_end_ms = wall_end, cm_inhibit = inh,
              cm_result_revision = fi_result_revision l, cm_source = feedback_source,
              cm_requested_load = (case fi_combustion_load l of None \<Rightarrow> 0 | Some q \<Rightarrow> q),
              cm_requested_fan = fi_requested_fan l, cm_stale_command = fi_stale_command l,
              cm_applied_fan = applied_fan, cm_frame_key = key, cm_observation = ob, cm_applied = tm_applied t,
              cm_realized_load = tm_realized_load t, cm_missing_reason = missing, cm_sequence = sequence,
              cm_duplicate = duplicate, cm_terminal_start = tm_start t, cm_terminal_duty = tm_duty t,
              cm_terminal_load = tm_load t\<rparr>))))))))"

definition framed_complete_frame ::
    "(nat \<Rightarrow> int) \<Rightarrow> journal option \<Rightarrow> frame_result \<Rightarrow> sample \<Rightarrow> inhibit \<Rightarrow> bool \<Rightarrow> output_source option
       \<Rightarrow> (framed, completion) action" where
  "framed_complete_frame wall dj f smp inh terminal_feedback feedback_source =
     abind configured (\<lambda>(_, _, l).
       complete_frame wall dj l smp inh terminal_feedback
         (case feedback_source of None \<Rightarrow> fi_output_source l | Some src \<Rightarrow> src) False f)"

section \<open>Polls, resets and observation gaps\<close>

text \<open>\<open>decision = scheduler.advance(controller.pulse_requested_duty, now, actual_auger_on)\<close>.\<close>

definition poll_scheduler :: "rat \<Rightarrow> bool \<Rightarrow> (framed, pulse_decision) action" where
  "poll_scheduler now actual =
     abind configured (\<lambda>(sch, c, _).
     abind (alift (advance sch (VFloat (Fin (cs_requested_duty c))) (VFloat (Fin now)) (VBool actual))) (\<lambda>(d, sch').
     abind (amodify (\<lambda>s. s\<lparr>fp_scheduler := Some sch'\<rparr>)) (\<lambda>_. areturn d)))"

definition delivered_on :: "pulse_decision \<Rightarrow> rat" where
  "delivered_on d = of_int (pd_delivered_ms d) / 1000"

definition relatch_at_boundary :: "(nat \<Rightarrow> int) \<Rightarrow> pulse_decision \<Rightarrow> sample \<Rightarrow> (framed, unit) action" where
  "relatch_at_boundary wall d smp =
     (if pd_reason d \<in> {FRAME_STARTED, FRAME_SKIPPED, RESET}
      then abind (relatch (sm_role_generation smp)) (\<lambda>_. abind (wall_clock_ms wall) (\<lambda>t.
             amodify (\<lambda>s. s\<lparr>fp_wall_start_ms := t\<rparr>)))
      else areturn ())"

definition current_frame :: "(framed, latched_frame) action" where
  "current_frame s = (case fp_frame s of None \<Rightarrow> (s, Inl AssertionError) | Some f \<Rightarrow> (s, Inr f))"

definition framed_advance ::
    "(nat \<Rightarrow> int) \<Rightarrow> journal option \<Rightarrow> rat \<Rightarrow> bool \<Rightarrow> sample \<Rightarrow> output_source option \<Rightarrow> (framed, framed_result) action" where
  "framed_advance wall dj now actual smp prior =
     abind configured (\<lambda>(_, _, previous).
     abind (resolve_pending smp (Some now) False) (\<lambda>observations.
     abind (poll_scheduler now actual) (\<lambda>d.
     abind (record_delivery (delivered_on d)) (\<lambda>delta.
     abind (amap_list (\<lambda>f. complete_frame wall dj previous smp INH_NONE True (fi_output_source previous)
              (length (pd_completed d) = 1 \<and> now < fr_ended_at f + (fr_ended_at f - fr_start f)) f) (pd_completed d)) (\<lambda>completions.
     abind (relatch_at_boundary wall d smp) (\<lambda>_.
     abind current_frame (\<lambda>current.
     abind (if pd_completed d \<noteq> [] then
              report_feedback (fr_ended_at (last (pd_completed d)))
                (of_int (pd_delivered_ms d - pd_frame_delivered_ms d) / 1000) (fi_output_source previous)
                (Some previous) PROGRESS prior False
            else if fi_result_revision previous = 0 \<and> 0 < fi_result_revision current then
              report_feedback now (delivered_on d) (fi_output_source current) (Some current) PROGRESS prior True
            else areturn None) (\<lambda>feedback.
       areturn \<lparr>re_decision = d, re_completions = completions, re_feedback = feedback, re_delivered_delta = delta,
                re_observations = observations\<rparr>))))))))"

fun reset_value :: "reset_reason \<Rightarrow> string" where
  "reset_value R_SAFETY = ''safety''"
| "reset_value R_LID = ''lid''"
| "reset_value R_MANUAL = ''manual''"
| "reset_value R_MODE_CHANGE = ''mode_change''"

text \<open>\<open>scheduler.reset(reason)\<close>.\<close>

definition reset_scheduler :: "reset_reason \<Rightarrow> (framed, frame_result option) action" where
  "reset_scheduler reason =
     abind configured (\<lambda>(sch, _, _).
     abind (amodify (\<lambda>s. s\<lparr>fp_scheduler := Some (snd (reset sch reason))\<rparr>)) (\<lambda>_.
       areturn (fst (reset sch reason))))"

definition framed_reset ::
    "(nat \<Rightarrow> int) \<Rightarrow> journal option \<Rightarrow> reset_reason \<Rightarrow> rat \<Rightarrow> inhibit \<Rightarrow> bool \<Rightarrow> sample \<Rightarrow> bool \<Rightarrow> bool
       \<Rightarrow> string option \<Rightarrow> int \<Rightarrow> string \<Rightarrow> output_source option \<Rightarrow> output_source option \<Rightarrow> (framed, framed_result) action" where
  "framed_reset wall dj reason now inh actual smp terminal_feedback want_feedback cancellation_reason
       command_revision command_action feedback_source prior =
     abind configured (\<lambda>(_, _, previous).
     abind (resolve_pending smp (Some now) True) (\<lambda>observations.
     abind (poll_scheduler now actual) (\<lambda>d.
     abind (record_delivery (delivered_on d)) (\<lambda>delta.
     abind (amap_list (complete_frame wall dj previous smp inh True (fi_output_source previous) False)
              (pd_completed d)) (\<lambda>completions.
     abind (relatch_at_boundary wall d smp) (\<lambda>_.
     abind (stamp_cancellation
              (case cancellation_reason of
                 Some (ch # r) \<Rightarrow> ch # r
               | _ \<Rightarrow> if reason = R_MODE_CHANGE then ''reset'' else reset_value reason)
              command_revision command_action) (\<lambda>_.
     abind current_frame (\<lambda>current.
     abind (reset_scheduler reason) (\<lambda>interrupted.
     abind (case interrupted of
              None \<Rightarrow> areturn []
            | Some f \<Rightarrow>
                abind (complete_frame wall dj current smp inh terminal_feedback
                  (case feedback_source of None \<Rightarrow> fi_output_source current | Some src \<Rightarrow> src) False f) (\<lambda>c. areturn [c]))
        (\<lambda>last_one.
     abind (if want_feedback \<and> pd_completed d = [] \<and> cancellation_reason = None \<and> \<not> terminal_feedback then
              report_feedback now (delivered_on d)
                (case feedback_source of None \<Rightarrow> fi_output_source current | Some src \<Rightarrow> src) None PROGRESS prior True
            else areturn None) (\<lambda>feedback.
     abind (update_controller (\<lambda>c. (set_feedback now (delivered_on d) c)\<lparr>cs_metrics_delivered_on := delivered_on d\<rparr>)) (\<lambda>_.
       areturn \<lparr>re_decision = d, re_completions = completions @ last_one, re_feedback = feedback,
                re_delivered_delta = delta, re_observations = observations\<rparr>))))))))))))"

definition invalidate_gap :: "(nat \<Rightarrow> int) \<Rightarrow> journal option \<Rightarrow> sample \<Rightarrow> (framed, framed_result) action" where
  "invalidate_gap wall dj smp =
     abind configured (\<lambda>_.
     abind (resolve_pending smp None True) (\<lambda>observations.
     abind (reset_scheduler R_SAFETY) (\<lambda>interrupted.
     abind (stamp_cancellation (reset_value R_SAFETY) 0 ''safety-cancel'') (\<lambda>_.
     abind current_frame (\<lambda>l.
     abind (case interrupted of
              None \<Rightarrow> areturn []
            | Some f \<Rightarrow>
                abind (complete_frame wall dj l (smp\<lparr>sm_temperature := None\<rparr>) INH_SAFETY True (fi_output_source l) False f)
                  (\<lambda>c. areturn [c])) (\<lambda>completions.
     abind configured (\<lambda>(_, c, _).
       areturn
         \<lparr>re_decision =
            \<lparr>pd_reason = RESET,
             pd_frame_start = (case interrupted of Some f \<Rightarrow> fr_start f
               | None \<Rightarrow> (case cs_feedback_start c of None \<Rightarrow> 0 | Some t \<Rightarrow> t)),
             pd_request = 0, pd_scheduled_s = 0, pd_credit = 0, pd_command_on = False, pd_transition = None,
             pd_delivered_ms = round_ms (cs_metrics_delivered_on c), pd_frame_delivered_ms = 0,
             pd_reset = Some R_SAFETY, pd_completed = (case interrupted of None \<Rightarrow> [] | Some f \<Rightarrow> [f])\<rparr>,
          re_completions = completions, re_feedback = None, re_delivered_delta = 0, re_observations = observations\<rparr>)))))))"

end
