(* ===== verification/Framed_Accounting.thy ===== *)
theory Framed_Accounting
  imports Framed_Pulse
begin

text \<open>
  What the framed-pulse runtime guarantees over a whole cook: which observations it hands over, which delivered
  time it charges, and what a frame is credited with. A cook is a list of \<open>framed_event\<close>, the calls \<open>HoldMode\<close> makes.
\<close>

section \<open>Runs\<close>

text \<open>One call of the mode, with the journal it reads, and the sequence numbers of the observations a result hands
  over: the resolved one first, then those of the completed frames.\<close>

datatype framed_event =
    Poll "journal option" rat bool sample "output_source option"
  | Interrupt "journal option" reset_reason rat inhibit bool sample bool bool "string option" int string
      "output_source option" "output_source option"
  | Gap "journal option" sample
  | Latch int
  | Adopt bool runner_result

fun framed_call :: "(nat \<Rightarrow> int) \<Rightarrow> framed_event \<Rightarrow> (framed, framed_result option) action" where
  "framed_call wall (Poll dj now actual smp prior) = abind (framed_advance wall dj now actual smp prior) (\<lambda>r. areturn (Some r))"
| "framed_call wall (Interrupt dj reason now inh actual smp tf wfb cr revn act src prior) =
     abind (framed_reset wall dj reason now inh actual smp tf wfb cr revn act src prior) (\<lambda>r. areturn (Some r))"
| "framed_call wall (Gap dj smp) = abind (invalidate_gap wall dj smp) (\<lambda>r. areturn (Some r))"
| "framed_call wall (Latch g) = abind (framed_latch g) (\<lambda>_. areturn None)"
| "framed_call wall (Adopt fan_authority rr) = abind (update_controller (\<lambda>c. fst (adopt_result fan_authority rr c))) (\<lambda>_. areturn None)"

definition completed_numbers :: "completion list \<Rightarrow> int list" where
  "completed_numbers cs = concat (map (\<lambda>c. case cm_observation c of None \<Rightarrow> [] | Some ob \<Rightarrow> [ob_sequence ob]) cs)"

definition numbers :: "framed_result \<Rightarrow> int list" where
  "numbers r = map ob_sequence (re_observations r) @ completed_numbers (re_completions r)"

text \<open>A run goes on with the object a raising call leaves behind; such a call hands nothing over.\<close>

fun framed_run :: "(nat \<Rightarrow> int) \<Rightarrow> framed \<Rightarrow> framed_event list \<Rightarrow> int list \<times> framed" where
  "framed_run wall s [] = ([], s)"
| "framed_run wall s (e # es) =
     (case framed_call wall e s of
        (t, Inr (Some r)) \<Rightarrow> (let (ns, u) = framed_run wall t es in (numbers r @ ns, u))
      | (t, _) \<Rightarrow> framed_run wall t es)"

section \<open>Sequence numbers\<close>

definition pend :: "framed \<Rightarrow> int set" where
  "pend s = (case fp_pending s of None \<Rightarrow> {} | Some p \<Rightarrow> {ob_sequence (po_observation p)})"

definition pend_ok :: "framed \<Rightarrow> bool" where
  "pend_ok s \<longleftrightarrow> pend s \<subseteq> {..fp_sequence s}"

definition moves :: "framed \<Rightarrow> framed \<Rightarrow> int list \<Rightarrow> bool" where
  "moves s t ns \<longleftrightarrow> pend_ok s \<and> fp_sequence s \<le> fp_sequence t \<and> distinct ns \<and> set ns \<inter> pend t = {}
     \<and> set ns \<union> pend t \<subseteq> pend s \<union> {fp_sequence s<..fp_sequence t}"

definition emits :: "int list \<Rightarrow> (framed, 'a) action \<Rightarrow> ('a \<Rightarrow> int list) \<Rightarrow> bool" where
  "emits ns m out \<longleftrightarrow> (\<forall>s0 s t r. moves s0 s ns \<longrightarrow> m s = (t, r) \<longrightarrow>
     moves s0 t (case r of Inl _ \<Rightarrow> [] | Inr x \<Rightarrow> out x))"

abbreviation quiet :: "(framed, 'a) action \<Rightarrow> bool" where
  "quiet m \<equiv> preserves (\<lambda>s. (fp_sequence s, fp_pending s)) m"

lemma moves_drop: "moves s t ns \<Longrightarrow> moves s t []"
  by (auto simp: moves_def)

lemma emitsI: "(\<And>s0 s t r. moves s0 s ns \<Longrightarrow> m s = (t, r) \<Longrightarrow>
    moves s0 t (case r of Inl _ \<Rightarrow> [] | Inr x \<Rightarrow> out x)) \<Longrightarrow> emits ns m out"
  by (simp add: emits_def)

lemma emits_bind:
  assumes "emits ns m out" "\<And>x. emits (out x) (f x) out'"
  shows "emits ns (abind m f) out'"
proof (rule emitsI)
  fix s0 s t r
  assume mv: "moves s0 s ns" and run: "abind m f s = (t, r)"
  obtain u q where u: "m s = (u, q)" by force
  with assms(1) mv have "moves s0 u (case q of Inl _ \<Rightarrow> [] | Inr x \<Rightarrow> out x)" by (simp add: emits_def)
  then show "moves s0 t (case r of Inl _ \<Rightarrow> [] | Inr x \<Rightarrow> out' x)"
    using run u assms(2) by (cases q) (auto simp: abind_def emits_def)
qed

lemma emits_quiet: "quiet m \<Longrightarrow> emits ns m (\<lambda>_. ns)"
proof (rule emitsI)
  fix s0 s t r
  assume "quiet m" and mv: "moves s0 s ns" and "m s = (t, r)"
  then have "fp_sequence t = fp_sequence s" "fp_pending t = fp_pending s" by (auto dest: preservesD)
  with mv show "moves s0 t (case r of Inl _ \<Rightarrow> [] | Inr _ \<Rightarrow> ns)"
    by (auto simp: moves_def pend_def split: sum.split)
qed

lemma quiet_steps [preserves_intros]:
  "quiet (wall_clock_ms wall)" "quiet (update_controller h)" "quiet configured" "quiet current_frame"
  by (auto simp: preserves_def wall_clock_ms_def update_controller_def configured_def current_frame_def split: option.splits)

lemma quiet_latch [preserves_intros]: "quiet (latch_frame g)"
proof -
  have "quiet (abind (mirror_frame f) (\<lambda>_. areturn f))" for f
    unfolding mirror_frame_def by (intro preserves_intros)
  then show ?thesis
    by (auto simp: preserves_def latch_frame_def Let_def split: option.splits)
qed

lemma quiet_methods [preserves_intros]:
  "quiet (relatch g)" "quiet (record_delivery x)" "quiet (stamp_cancellation a b c)" "quiet (poll_scheduler now act)"
  "quiet (reset_scheduler why)" "quiet (relatch_at_boundary wall d smp)" "quiet (terminal_feedback_of f l src)"
  "quiet (report_feedback now x src cmp disp prior dis)"
  unfolding relatch_def record_delivery_def stamp_cancellation_def poll_scheduler_def reset_scheduler_def
    relatch_at_boundary_def terminal_feedback_of_def report_feedback_def mirror_frame_def Let_def
  by (intro preserves_intros; simp)+

lemma mk_observation_sel:
  assumes "mk_observation ob = Inr ob'"
  shows "ob_sequence ob' = ob_sequence ob" "ob_continuous ob' = ob_continuous ob" "ob_temp_c ob' = ob_temp_c ob"
  using assms by (auto simp: mk_observation_def Let_def elim!: ebind_InrE)

lemma observation_of_sequence:
  "observation_of f l smp temp inh sequence ws we af = Inr ob \<Longrightarrow> ob_sequence ob = sequence"
  by (auto simp: observation_of_def Let_def dest!: mk_observation_sel(1) elim!: ebind_InrE split: prod.splits)

lemma emits_retire: "emits ns (resolve_pending smp now invalidate) (\<lambda>obs. ns @ map ob_sequence obs)"
proof (rule emitsI)
  fix s0 s t r
  assume mv: "moves s0 s ns" and run: "resolve_pending smp now invalidate s = (t, r)"
  have "t = s \<and> (r = Inr [] \<or> (\<exists>e. r = Inl e)) \<or> (\<exists>p ob. fp_pending s = Some p \<and> ob_sequence ob = ob_sequence (po_observation p)
      \<and> t = s\<lparr>fp_pending := None\<rparr> \<and> r = Inr [ob])"
    using run by (auto simp: resolve_pending_def Let_def abind_def dest: mk_observation_sel(1)
        split: option.splits pyfloat.splits if_splits sum.splits)
  with mv show "moves s0 t (case r of Inl _ \<Rightarrow> [] | Inr obs \<Rightarrow> ns @ map ob_sequence obs)"
    by (auto simp: moves_def pend_def)
qed

lemma emits_map:
  assumes "\<And>ns x. emits ns (f x) (\<lambda>y. ns @ out y)"
  shows "emits ns (amap_list f xs) (\<lambda>ys. ns @ concat (map out ys))"
proof (induction xs arbitrary: ns)
  case Nil
  then show ?case by (auto simp: emits_def)
next
  case (Cons x xs)
  show ?case
    unfolding amap_list.simps
  proof (rule emits_bind [OF assms], rule emits_bind [OF Cons.IH])
    show "emits ((ns @ out y) @ concat (map out ys)) (areturn (y # ys)) (\<lambda>ys. ns @ concat (map out ys))" for y ys
      by (auto simp: emits_def)
  qed
qed

lemma moves_next: "moves s0 s ns \<Longrightarrow> fp_sequence t = fp_sequence s + 1 \<Longrightarrow> fp_pending t = fp_pending s \<Longrightarrow>
    moves s0 t ns \<and> fp_sequence t \<notin> set ns \<union> pend t"
  by (auto simp: moves_def pend_ok_def pend_def subset_iff split: option.splits; force)

lemma emits_observe:
  "emits ns (observe_frame f l smp inh def ws we af) (\<lambda>(ob, _, _). ns @ (case ob of None \<Rightarrow> [] | Some ob \<Rightarrow> [ob_sequence ob]))"
proof (rule emitsI)
  fix s0 s t r
  assume mv: "moves s0 s ns" and run: "observe_frame f l smp inh def ws we af s = (t, r)"
  let ?u = "s\<lparr>fp_sequence := fp_sequence s + 1, fp_last_key := Some (frame_key f)\<rparr>"
  have u: "moves s0 ?u ns" "fp_sequence ?u \<notin> set ns \<union> pend ?u"
    using moves_next [OF mv, of ?u] by simp_all
  consider (none) "t = ?u" "(\<exists>e. r = Inl e) \<or> (\<exists>a b. r = Inr (None, a, b))"
    | (now) ob a b where "t = ?u" "r = Inr (Some ob, a, b)" "ob_sequence ob = fp_sequence ?u"
    | (later) p a b where "t = ?u\<lparr>fp_pending := Some p\<rparr>" "r = Inr (None, a, b)" "ob_sequence (po_observation p) = fp_sequence ?u"
  proof (cases "sm_temperature smp")
    case None
    then show thesis using run none by (auto simp: observe_frame_def)
  next
    case (Some temp)
    show thesis
    proof (cases "fi_result_revision l \<le> 0")
      case True
      then show thesis using run none Some by (auto simp: observe_frame_def)
    next
      case False
      show thesis
      proof (cases "observation_of f l smp temp inh (fp_sequence s + 1) ws we af")
        case (Inl e)
        then show thesis using run none Some False by (auto simp: observe_frame_def)
      next
        case (Inr ob)
        note num = observation_of_sequence [OF Inr]
        show thesis
        proof (cases "deferrable def f smp ob")
          case True
          show thesis
            by (rule later) (use run Some False Inr True num in \<open>auto simp: observe_frame_def\<close>)
        next
          case False
          show thesis
            by (rule now) (use run Some \<open>\<not> fi_result_revision l \<le> 0\<close> Inr False num in \<open>auto simp: observe_frame_def\<close>)
        qed
      qed
    qed
  qed
  then show "moves s0 t (case r of Inl _ \<Rightarrow> [] | Inr (ob, _, _) \<Rightarrow> ns @ (case ob of None \<Rightarrow> [] | Some ob \<Rightarrow> [ob_sequence ob]))"
  proof cases
    case none
    then show ?thesis using u(1) moves_drop by auto
  next
    case now
    then show ?thesis using u mv by (auto simp: moves_def)
  next
    case later
    then show ?thesis using u mv by (auto simp: moves_def pend_def)
  qed
qed

lemma emits_skip: "quiet m \<Longrightarrow> (\<And>x. emits ns (f x) out) \<Longrightarrow> emits ns (abind m f) out"
  by (rule emits_bind [OF emits_quiet])

lemma emits_return: "out x = ns \<Longrightarrow> emits ns (areturn x) out"
  by (simp add: emits_def)

lemma emits_complete:
  "emits ns (complete_frame wall dj l smp inh tf src def f) (\<lambda>c. ns @ completed_numbers [c])"
proof -
  have ob: "emits ns (if b then abind (amodify (\<lambda>s. s\<lparr>fp_wall_start_ms := we\<rparr>)) (\<lambda>_. observe_frame f l smp inh def ws we af)
         else areturn (None, None, None)) (\<lambda>(ob, _, _). ns @ (case ob of None \<Rightarrow> [] | Some ob \<Rightarrow> [ob_sequence ob]))" for b ws we af
    by (cases b) (auto intro!: emits_bind [OF emits_quiet emits_observe] emits_return preserves_intros)
  show ?thesis
    unfolding complete_frame_def Let_def
    apply (cases "frame_key f", simp only: prod.case)
    apply (rule emits_skip, rule preserves_basic quiet_steps)+
    apply (rule emits_bind [OF ob], clarsimp split del: if_split)
    apply (rule emits_skip, intro preserves_intros)+
     apply simp
    apply (simp add: emits_return completed_numbers_def)
    done
qed

lemma completed_numbers_simps [simp]: "completed_numbers [] = []"
  "completed_numbers (cs @ ds) = completed_numbers cs @ completed_numbers ds"
  "concat (map (\<lambda>c. completed_numbers [c]) cs) = completed_numbers cs"
  by (simp_all add: completed_numbers_def)

lemma emits_framed_advance: "emits ns (framed_advance wall dj now actual smp prior) (\<lambda>r. ns @ numbers r)"
  unfolding framed_advance_def
  apply (rule emits_skip, rule quiet_steps, clarsimp split del: if_split)
  apply (rule emits_bind [OF emits_retire])
  apply (rule emits_skip, rule quiet_methods)+
  apply (rule emits_bind [OF emits_map [OF emits_complete]])
  apply (rule emits_skip, intro preserves_intros)+
  apply (simp add: emits_return numbers_def)
  done

lemma emits_interrupted:
  "emits ns (case i of None \<Rightarrow> areturn [] | Some f \<Rightarrow> abind (complete_frame wall dj l smp inh tf src def f) (\<lambda>c. areturn [c]))
     (\<lambda>cs. ns @ completed_numbers cs)"
  by (cases i) (auto intro!: emits_bind [OF emits_complete] emits_return)

lemma emits_framed_reset:
  "emits ns (framed_reset wall dj why now inh actual smp tf wfb cr revn act src prior) (\<lambda>r. ns @ numbers r)"
  unfolding framed_reset_def
  apply (rule emits_skip, rule quiet_steps, clarsimp split del: if_split)
  apply (rule emits_bind [OF emits_retire])
  apply (rule emits_skip, rule quiet_methods)+
  apply (rule emits_bind [OF emits_map [OF emits_complete]])
  apply (rule emits_skip, rule quiet_methods quiet_steps)+
  apply (rule emits_bind [OF emits_interrupted])
  apply (rule emits_skip, intro preserves_intros)+
  apply (simp add: emits_return numbers_def)
  done

lemma emits_invalidate_gap: "emits ns (invalidate_gap wall dj smp) (\<lambda>r. ns @ numbers r)"
  unfolding invalidate_gap_def
  apply (rule emits_skip, rule quiet_steps)
  apply (rule emits_bind [OF emits_retire])
  apply (rule emits_skip, rule quiet_methods quiet_steps)+
  apply (rule emits_bind [OF emits_interrupted])
  apply (rule emits_skip, rule quiet_steps, clarsimp)
  apply (simp add: emits_return numbers_def)
  done

lemma emits_call: "emits ns (framed_call wall e) (\<lambda>r. ns @ (case r of None \<Rightarrow> [] | Some x \<Rightarrow> numbers x))"
proof (cases e)
  case (Latch g)
  have "quiet (framed_latch g)" unfolding framed_latch_def by (intro preserves_intros)
  with Latch show ?thesis by (auto intro!: emits_skip emits_return)
qed (auto intro!: emits_bind [OF emits_framed_advance] emits_bind [OF emits_framed_reset] emits_bind [OF emits_invalidate_gap]
      emits_skip preserves_intros emits_return)

lemma moves_trans: "moves s t xs \<Longrightarrow> moves t u ys \<Longrightarrow> moves s u (xs @ ys)"
  by (auto simp: moves_def pend_ok_def; force)

lemma moves_refl: "pend_ok s \<Longrightarrow> moves s s []"
  by (simp add: moves_def)

lemma moves_pend_ok: "moves s t ns \<Longrightarrow> pend_ok t"
  by (fastforce simp: moves_def pend_ok_def subset_iff)

lemma framed_run_moves: "pend_ok s \<Longrightarrow> framed_run wall s es = (ns, t) \<Longrightarrow> moves s t ns"
proof (induction es arbitrary: s ns)
  case Nil
  then show ?case by (simp add: moves_refl)
next
  case (Cons e es)
  obtain u q where q: "framed_call wall e s = (u, q)" by force
  have "moves s u (case q of Inl _ \<Rightarrow> [] | Inr r \<Rightarrow> [] @ (case r of None \<Rightarrow> [] | Some x \<Rightarrow> numbers x))"
    using emits_call [of "[]" wall e] moves_refl [OF Cons.prems(1)] q unfolding emits_def by blast
  with Cons.prems(2) q Cons.IH moves_pend_ok moves_trans show ?case
    by (fastforce split: sum.splits option.splits prod.splits)
qed


text \<open>A run in which every call returned, with its results.\<close>

fun framed_results :: "(nat \<Rightarrow> int) \<Rightarrow> framed \<Rightarrow> framed_event list \<Rightarrow> (framed_result list \<times> framed) result" where
  "framed_results wall s [] = Inr ([], s)"
| "framed_results wall s (e # es) =
     (case framed_call wall e s of
        (t, Inl x) \<Rightarrow> Inl x
      | (t, Inr r) \<Rightarrow> ebind (framed_results wall t es) (\<lambda>(rs, u). Inr ((case r of None \<Rightarrow> [] | Some x \<Rightarrow> [x]) @ rs, u)))"

lemma framed_results_run:
  "framed_results wall s es = Inr (rs, t) \<Longrightarrow> framed_run wall s es = (concat (map numbers rs), t)"
  by (induction es arbitrary: s rs)
    (auto elim!: ebind_InrE split: prod.splits sum.splits option.splits)

section \<open>The delivered time is charged once\<close>

definition books :: "framed \<Rightarrow> scheduler option \<times> rat option" where
  "books s = (fp_scheduler s, map_option cs_metrics_delivered_on (fp_controller s))"

definition delivered_total :: "framed \<Rightarrow> rat" where
  "delivered_total s = (case fp_scheduler s of None \<Rightarrow> 0 | Some sch \<Rightarrow> of_int (delivered_ms sch) / 1000)"

text \<open>The ledger balances at \<open>x\<close>: the metrics have been told exactly what the scheduler has observed.\<close>

definition balanced :: "rat \<Rightarrow> framed \<Rightarrow> bool" where
  "balanced x s \<longleftrightarrow> (\<exists>sch. fp_scheduler s = Some sch \<and> sched_ok sch \<and> x = of_int (delivered_ms sch) / 1000)
     \<and> map_option cs_metrics_delivered_on (fp_controller s) = Some x"

lemma preserves_pyfloat [preserves_intros]:
  "(\<And>q. preserves g (f q)) \<Longrightarrow> preserves g p \<Longrightarrow> preserves g n \<Longrightarrow> preserves g u \<Longrightarrow>
    preserves g (case v of Fin q \<Rightarrow> f q | PosInf \<Rightarrow> p | NegInf \<Rightarrow> n | NaN \<Rightarrow> u)"
  by (cases v) simp_all

lemma steady_steps [preserves_intros]:
  "preserves books (wall_clock_ms wall)" "preserves books configured" "preserves books current_frame"
  by (auto simp: preserves_def wall_clock_ms_def configured_def current_frame_def books_def split: option.splits)

lemma steady_update [preserves_intros]:
  "(\<And>c. cs_metrics_delivered_on (h c) = cs_metrics_delivered_on c) \<Longrightarrow> preserves books (update_controller h)"
  by (simp add: preserves_def update_controller_def books_def option.map_comp o_def)

lemma steady_latch [preserves_intros]: "preserves books (latch_frame g)"
  by (auto simp: preserves_def latch_frame_def Let_def mirror_frame_def update_controller_def books_def split: option.splits)

lemma steady_methods [preserves_intros]:
  "preserves books (relatch g)" "preserves books (stamp_cancellation a b c)"
  "preserves books (relatch_at_boundary wall d smp)" "preserves books (terminal_feedback_of f l src)"
  "preserves books (report_feedback now x src cmp disp prior dis)"
  "preserves books (resolve_pending smp nw inval)" "preserves books (observe_frame f l smp inh def ws we af)"
  unfolding relatch_def stamp_cancellation_def relatch_at_boundary_def terminal_feedback_of_def report_feedback_def
    mirror_frame_def Let_def resolve_pending_def observe_frame_def
  by (intro preserves_intros; simp add: books_def set_feedback_def)+


lemma balanced_books: "books t = books s \<Longrightarrow> balanced x t = balanced x s"
  by (simp add: balanced_def books_def)

lemma steady_keeps: "preserves books m \<Longrightarrow> keeps (balanced x) m"
  unfolding keeps_def preserves_def using balanced_books by blast

text \<open>Between a poll and the charge for it.\<close>

definition polled :: "rat \<Rightarrow> pulse_decision \<Rightarrow> framed \<Rightarrow> bool" where
  "polled x d s \<longleftrightarrow> (\<exists>sch n. fp_scheduler s = Some sch \<and> sched_ok sch \<and> pd_delivered_ms d = delivered_ms sch
       \<and> x = of_int n / 1000 \<and> n \<le> delivered_ms sch)
     \<and> map_option cs_metrics_delivered_on (fp_controller s) = Some x"

lemma triple_poll: "triple (balanced x) (poll_scheduler now actual) (polled x)"
proof (rule tripleI)
  fix s t d
  assume "balanced x s" and run: "poll_scheduler now actual s = (t, Inr d)"
  then obtain sch c where s: "fp_scheduler s = Some sch" "sched_ok sch" "x = of_int (delivered_ms sch) / 1000"
      "fp_controller s = Some c" "cs_metrics_delivered_on c = x"
    by (auto simp: balanced_def)
  let ?e = "Advance (VFloat (Fin (cs_requested_duty c))) (VFloat (Fin now)) (VBool actual)"
  obtain sch' where adv: "advance sch (VFloat (Fin (cs_requested_duty c))) (VFloat (Fin now)) (VBool actual) = Inr (d, sch')"
      "t = s\<lparr>fp_scheduler := Some sch'\<rparr>"
    using run s by (auto simp: poll_scheduler_def configured_def elim!: abind_InrE split: option.splits)
  have "sched_ok sch'" "delivered_ms sch \<le> delivered_ms sch'"
    using advance_ok [OF s(2) adv(1)] adv(1) pulse.step_rank [OF s(2), of ?e sch'] by auto
  moreover have "pd_delivered_ms d = delivered_ms sch'"
    using adv(1) by (auto simp: advance_def Let_def elim!: ebind_InrE dest!: decide_InrD split: option.splits if_splits prod.splits)
  ultimately show "polled x d t" using s adv(2) by (auto simp: polled_def)
qed

lemma triple_charge: "triple (polled x d) (record_delivery (delivered_on d))
    (\<lambda>delta s. balanced (x + delta) s \<and> (0 \<le> delta \<and> x + delta = delivered_on d))"
proof (rule tripleI)
  fix s t delta
  assume "polled x d s" and run: "record_delivery (delivered_on d) s = (t, Inr delta)"
  then obtain sch n c where s: "fp_scheduler s = Some sch" "sched_ok sch" "pd_delivered_ms d = delivered_ms sch"
      "x = of_int n / 1000" "n \<le> delivered_ms sch" "fp_controller s = Some c" "cs_metrics_delivered_on c = x"
    by (auto simp: polled_def)
  have ms: "round_ms (delivered_on d) = delivered_ms sch" "round_ms (cs_metrics_delivered_on c) = n"
    by (simp_all add: delivered_on_def s)
  have cfg: "configured s = (s, Inr (sch, c, the (fp_frame s)))"
    using run s by (auto simp: record_delivery_def configured_def elim!: abind_InrE split: option.splits)
  show "balanced (x + delta) t \<and> (0 \<le> delta \<and> x + delta = delivered_on d)"
    using run s by (auto simp: record_delivery_def abind_def cfg ms update_controller_def balanced_def delivered_on_def Let_def
        diff_divide_distrib split: if_splits)
qed

lemma keeps_reset_scheduler: "keeps (balanced x) (reset_scheduler why)"
  by (auto simp: keeps_def reset_scheduler_def configured_def abind_def balanced_def intro!: reset_ok split: option.splits)
    (simp_all add: reset_def)

lemma steady_complete [preserves_intros]: "preserves books (complete_frame wall dj l smp inh tf src def f)"
  unfolding complete_frame_def Let_def
  by (intro preserves_intros; simp add: books_def)

lemma steady_interrupted [preserves_intros]:
  "preserves books (case i of None \<Rightarrow> areturn [] | Some f \<Rightarrow> abind (complete_frame wall dj l smp inh tf src def f) (\<lambda>c. areturn [c]))"
  by (intro preserves_intros)

definition charge :: "framed_result option \<Rightarrow> rat" where
  "charge r = (case r of None \<Rightarrow> 0 | Some x \<Rightarrow> re_delivered_delta x)"

lemma steadyD: "preserves books m \<Longrightarrow> m s = (t, r) \<Longrightarrow> balanced x t = balanced x s"
  by (rule balanced_books) (rule preservesD)


lemma framed_advance_charges:
  "triple (balanced x) (framed_advance wall dj now actual smp prior)
     (\<lambda>r s. balanced (x + re_delivered_delta r) s \<and> 0 \<le> re_delivered_delta r)"
  unfolding framed_advance_def
  apply (rule triple_skip [OF steady_keeps], rule steady_steps, rule triple_prod, rule triple_prod)
  apply (rule triple_skip [OF steady_keeps], rule steady_methods)
  apply (rule triple_bind [OF triple_poll], rule triple_bind [OF triple_charge], rule triple_pure)
  apply (rule triple_skip [OF steady_keeps], intro preserves_intros)+
  apply (rule triple_return, simp)
  done

lemma framed_reset_charges:
  "triple (balanced x) (framed_reset wall dj why now inh actual smp tf wfb cr revn act src prior)
     (\<lambda>r s. balanced (x + re_delivered_delta r) s \<and> 0 \<le> re_delivered_delta r)"
  unfolding framed_reset_def
  apply (rule triple_skip [OF steady_keeps], rule steady_steps, rule triple_prod, rule triple_prod)
  apply (rule triple_skip [OF steady_keeps], rule steady_methods)
  apply (rule triple_bind [OF triple_poll], rule triple_bind [OF triple_charge], rule triple_pure)
  apply (rule triple_skip [OF steady_keeps], intro preserves_intros)+
  apply (rule triple_skip [OF keeps_reset_scheduler])
  apply (rule triple_skip [OF steady_keeps], rule steady_interrupted)
  apply (rule triple_skip [OF steady_keeps], intro preserves_intros)
  apply (rule triple_skip)
   apply (force simp: keeps_def update_controller_def balanced_def)
  apply (rule triple_return, simp)
  done

lemma invalidate_gap_charges:
  "triple (balanced x) (invalidate_gap wall dj smp) (\<lambda>r s. balanced x s \<and> re_delivered_delta r = 0)"
  unfolding invalidate_gap_def
  apply (rule triple_skip [OF steady_keeps], rule steady_steps)
  apply (rule triple_skip [OF steady_keeps], rule steady_methods)
  apply (rule triple_skip [OF keeps_reset_scheduler])
  apply (rule triple_skip [OF steady_keeps], intro preserves_intros)+
  apply (rule triple_prod, rule triple_prod, rule triple_return, simp)
  done

lemma framed_call_charges:
  "triple (balanced x) (framed_call wall e) (\<lambda>r s. balanced (x + charge r) s \<and> 0 \<le> charge r)"
proof (cases e)
  case (Latch g)
  have "preserves books (framed_latch g)" unfolding framed_latch_def by (intro preserves_intros)
  with Latch show ?thesis
    by (auto simp: charge_def intro!: triple_skip [OF steady_keeps] triple_return)
next
  case (Adopt a rr)
  have "preserves books (update_controller (\<lambda>c. fst (adopt_result a rr c)))"
    by (rule steady_update) (auto simp: adopt_result_def adopt_request_def Let_def split: option.split)
  with Adopt show ?thesis
    by (auto simp: charge_def intro!: triple_skip [OF steady_keeps] triple_return)
qed (auto simp: charge_def intro!: triple_return triple_bind [OF framed_advance_charges] triple_bind [OF framed_reset_charges]
       triple_bind [OF invalidate_gap_charges])

lemma framed_results_charges:
  assumes "balanced x s" "framed_results wall s es = Inr (rs, t)"
  shows "balanced (x + sum_list (map re_delivered_delta rs)) t \<and> (\<forall>r \<in> set rs. 0 \<le> re_delivered_delta r)"
  using assms
proof (induction es arbitrary: x s rs)
  case (Cons e es)
  from Cons.prems(2) obtain u r rs' where u: "framed_call wall e s = (u, Inr r)" "framed_results wall u es = Inr (rs', t)"
      and rs: "rs = (case r of None \<Rightarrow> [] | Some x \<Rightarrow> [x]) @ rs'"
    by (auto elim!: ebind_InrE split: prod.splits sum.splits)
  from tripleD [OF framed_call_charges Cons.prems(1) u(1)] have "balanced (x + charge r) u" "0 \<le> charge r" by auto
  with Cons.IH [OF this(1) u(2)] rs show ?case
    by (cases r) (auto simp: charge_def add.assoc)
qed simp

lemma configured_ledger:
  assumes "framed_configure wall mode c tm now rev0 s = (s0, Inr ())" "timing_ok tm"
  shows "balanced 0 s0"
  using assms new_scheduler_ok [OF assms(2)]
  by (auto simp: framed_configure_def wall_clock_ms_def update_controller_def relatch_def latch_frame_def Let_def
      mirror_frame_def balanced_def abind_def configured_controller_def split: if_splits sum.splits)

text \<open>C38: Over a cook whose calls return, the auger time charged to the pellet metrics, call by call, is never
  negative and adds up to exactly the auger-on time the scheduler has observed, whatever resets, gaps, latches and
  results came in between: no delivered millisecond is charged twice, none is lost.\<close>

theorem delivered_time_charged_once:
  assumes "framed_configure wall mode c tm now rev0 s = (s0, Inr ())" "timing_ok tm"
    and "framed_results wall s0 es = Inr (rs, t)"
  shows "sum_list (map re_delivered_delta rs) = delivered_total t \<and> (\<forall>r \<in> set rs. 0 \<le> re_delivered_delta r)"
  using framed_results_charges [OF configured_ledger [OF assms(1,2)] assms(3)]
  by (auto simp: balanced_def delivered_total_def)

section \<open>A concrete cook\<close>

definition demo_identity :: frame_identity where
  "demo_identity = \<lparr>fi_result_revision = 0, fi_combustion_load = None, fi_baseline_load = 0, fi_requested_duty = 0,
     fi_requested_fan = None, fi_maximum_duty = 1, fi_stale_command = False, fi_allocator_revision = 0,
     fi_clamp_reasons = [], fi_evidence_checked = False, fi_allocation_revision = None, fi_command_revision = 0,
     fi_command_action = ''none'', fi_command_generation = 0, fi_cancellation_reason = None,
     fi_output_source = SRC_SEED, fi_baseline_allocation = None, fi_calibration_status = ''inactive'',
     fi_cancellation_revision = 0, fi_cancellation_action = ''none'', fi_combined_allocation = None,
     fi_probe_load = 0, fi_stage = None, fi_completed_stages = []\<rparr>"

definition demo_controller :: controller_state where
  "demo_controller = \<lparr>cs_output = 0, cs_fan_duty = None, cs_result_revision = 0, cs_requested_duty = 0,
     cs_combustion_load = None, cs_baseline_load = 0, cs_requested_fan = None, cs_maximum_duty = 1,
     cs_stale_command = False, cs_feedback_start = None, cs_feedback_delivered_on = 0, cs_metrics_delivered_on = 0,
     cs_allocator_revision = 0, cs_clamp_reasons = [], cs_evidence_checked = False, cs_allocation_revision = None,
     cs_accepted_command_revision = 0, cs_command_revision = 0, cs_command_action = ''none'',
     cs_command_generation = 0, cs_cancellation_reason = None, cs_baseline_allocation = None,
     cs_calibration_status = ''inactive'', cs_cancellation_revision = 0, cs_cancellation_action = ''none'',
     cs_combined_allocation = None, cs_probe_load = 0, cs_stage = None, cs_completed_stages = [],
     cs_mirror = demo_identity\<rparr>"

definition demo_sample :: "rat \<Rightarrow> rat \<Rightarrow> sample" where
  "demo_sample temp at_s = \<lparr>sm_temperature = Some (Fin temp), sm_setpoint = Fin 107, sm_ambient_c = Fin 20,
     sm_units = ''C'', sm_role_generation = 0, sm_acquired_at = Some (Fin at_s)\<rparr>"

definition demo_allocation :: allocation_result where
  "demo_allocation = \<lparr>al_load = 1/2, al_auger_duty = 1/4, al_fan_duty = None, al_u_max = 1/2, al_fan_min_pct = 0,
     al_fan_max_pct = 100, al_fan_enabled = False, al_auger_clamp = CLAMP_NONE, al_fan_clamp = CLAMP_NONE, al_revision = 2\<rparr>"

definition demo_result :: "int \<Rightarrow> runner_result" where
  "demo_result revision = \<lparr>rr_result = Some \<lparr>so_revision = revision, so_cycle_ratio = 1/4, so_allocation = Some demo_allocation,
     so_baseline_allocation = Some demo_allocation, so_fan_duty = None, so_stale = False\<rparr>,
     rr_cancellation_reason = None, rr_calibration = None, rr_calibration_handled = False\<rparr>"

abbreviation demo_poll :: "rat \<Rightarrow> bool \<Rightarrow> rat \<Rightarrow> rat \<Rightarrow> framed_event" where
  "demo_poll now on temp at_s \<equiv> Poll None now on (demo_sample temp at_s) (Some SRC_CONTROLLER)"

definition demo_cook_events :: "framed_event list" where
  "demo_cook_events = [Adopt False (demo_result 1), Latch 0, demo_poll 0 True 100 0, demo_poll 21 False 103 19,
     demo_poll 22 False 104 22]"

definition demo_wall :: "nat \<Rightarrow> int" where
  "demo_wall n = 1000 * int n"

definition demo_configured :: "framed \<times> unit result" where
  "demo_configured = framed_configure demo_wall ''framed_pulse'' demo_controller AUGER_TIMING 0 0 new_framed"



lemma demo_configured_ok: "snd demo_configured = Inr ()"
  by code_simp

lemma demo_configuration: "framed_configure demo_wall ''framed_pulse'' demo_controller AUGER_TIMING 0 0 new_framed
    = (fst demo_configured, Inr ())"
  using demo_configured_ok by (metis demo_configured_def prod.collapse)

lemma demo_cook_returns:
  "case framed_results demo_wall (fst demo_configured) demo_cook_events of
     Inl _ \<Rightarrow> False
   | Inr (rs, t) \<Rightarrow> map numbers rs = [[], [], [1]] \<and> map re_delivered_delta rs = [0, 21, 0] \<and> fp_sequence t = 1"
  by code_simp

lemma demo_cook_results:
  obtains rs t where "framed_results demo_wall (fst demo_configured) demo_cook_events = Inr (rs, t)"
    "map numbers rs = [[], [], [1]]" "map re_delivered_delta rs = [0, 21, 0]"
  using demo_cook_returns by (auto split: sum.splits)


lemma delivered_time_charged_once_witness:
  "\<exists>rs t. framed_results demo_wall (fst demo_configured) demo_cook_events = Inr (rs, t) \<and> delivered_total t = 21"
proof -
  obtain rs t where r: "framed_results demo_wall (fst demo_configured) demo_cook_events = Inr (rs, t)"
      "map re_delivered_delta rs = [0, 21, 0]" by (rule demo_cook_results)
  with delivered_time_charged_once [OF demo_configuration AUGER_TIMING_ok r(1)] show ?thesis by simp
qed

section \<open>The allocator\<close>

lemma allocate_InrD:
  assumes "allocate q u lo hi fan = Inr a"
  obtains qq uu ll hh where "q = Fin qq" "0 \<le> qq" "qq \<le> 1" "u = Fin uu" "0 < uu" "lo = Fin ll" "hi = Fin hh" "ll \<le> hh"
    "al_load a = qq" "al_auger_duty a = qq * uu" "al_u_max a = uu"
    "al_fan_duty a = (if fan then Some (ll + qq * (hh - ll)) else None)"
  using assms
  by (auto simp: allocate_def normalized_combustion_load_def elim!: ebind_InrE split: pyfloat.splits if_splits)

text \<open>The allocator is lossless and bounded: the load recovered from the auger duty it commands is the load it
  was given, the duty never exceeds the authority, and a commanded fan duty stays within its bounds.\<close>

theorem allocation_roundtrip:
  assumes "allocate (Fin q) (Fin u_max) (Fin lo) (Fin hi) fan = Inr a"
  shows "normalized_load_from_auger_duty (Fin (al_auger_duty a)) (Fin u_max) = Inr q
    \<and> 0 \<le> al_auger_duty a \<and> al_auger_duty a \<le> u_max
    \<and> (\<forall>d. al_fan_duty a = Some d \<longrightarrow> lo \<le> d \<and> d \<le> hi)"
  using assms
proof (cases rule: allocate_InrD)
  case (1 qq uu ll hh)
  have "qq * (hh - ll) \<le> hh - ll"
    using 1 by (simp add: mult_left_le_one_le)
  then have "ll + qq * (hh - ll) \<le> hh" by linarith
  with 1 show ?thesis
    by (simp add: normalized_load_from_auger_duty_def mult_left_le_one_le)
qed

lemma allocation_roundtrip_witness:
  "\<exists>a. allocate (Fin (1/2)) (Fin (3/4)) (Fin 20) (Fin 80) True = Inr a \<and> al_fan_duty a = Some 50
     \<and> normalized_load_from_auger_duty (Fin (al_auger_duty a)) (Fin (3/4)) = Inr (1/2)"
proof -
  obtain a where a: "allocate (Fin (1/2)) (Fin (3/4)) (Fin 20) (Fin 80) True = Inr a" "al_fan_duty a = Some 50"
    by (simp add: allocate_def normalized_combustion_load_def)
  with allocation_roundtrip [OF a(1)] show ?thesis by blast
qed

section \<open>Well-formed observations\<close>

lemma check_all_Inr [simp]: "check_all cs = Inr u \<longleftrightarrow> (\<forall>(ok, why) \<in> set cs. ok)"
  by (induction cs) (auto simp: check_all_def ebind_Inr_iff)

lemma field_checks [simp]:
  "finite_float f n = Inr q \<longleftrightarrow> f = Fin q" "bounded_duty d n = Inr u \<longleftrightarrow> 0 \<le> d \<and> d \<le> 1"
  "bounded_duty_opt v n = Inr u \<longleftrightarrow> (\<forall>d. v = Some d \<longrightarrow> 0 \<le> d \<and> d \<le> 1)"
  by (auto simp: finite_float_def bounded_duty_def bounded_duty_opt_def split: pyfloat.split option.split)

lemma band_not_blank [simp]: "\<not> blank (Some (band_of t sp))"
  by (simp add: blank_def band_of_def strip_chars_def is_space_def)

lemma resolved:
  "\<forall>d. v = Some d \<longrightarrow> 0 \<le> d \<and> d \<le> 1 \<Longrightarrow> 0 \<le> q \<Longrightarrow> q \<le> 1 \<Longrightarrow> 0 \<le> (case v of None \<Rightarrow> q | Some b \<Rightarrow> b)"
  "\<forall>d. v = Some d \<longrightarrow> 0 \<le> d \<and> d \<le> 1 \<Longrightarrow> 0 \<le> q \<Longrightarrow> q \<le> 1 \<Longrightarrow> (case v of None \<Rightarrow> q | Some b \<Rightarrow> b) \<le> (1::rat)"
  "\<not> blank w \<Longrightarrow> \<not> blank (Some (case w of None \<Rightarrow> band_of t sp | Some b \<Rightarrow> b))"
  "(case n of None \<Rightarrow> True | Some r \<Rightarrow> 0 \<le> r) \<Longrightarrow> 0 \<le> (case n of None \<Rightarrow> 0 | Some r \<Rightarrow> (r::int))"
  by (auto split: option.splits)

lemma mk_observation_InrE:
  assumes "mk_observation raw = Inr ob"
  obtains t sp amb where "ob_temp_c raw = Fin t" "ob_setpoint_c raw = Fin sp" "ob_ambient_c raw = Fin amb"
    "round_ms (ob_frame_start raw) < round_ms (ob_frame_end raw)"
    "0 \<le> ob_requested_q raw" "ob_requested_q raw \<le> 1" "0 \<le> ob_realized_q raw" "ob_realized_q raw \<le> 1"
    "0 \<le> ob_delivered_on raw" "ob_delivered_on raw \<le> of_int (round_ms (ob_frame_end raw) - round_ms (ob_frame_start raw)) / 1000"
    "is_close (ob_requested_q raw) (min 1 (max 0 ((case ob_baseline_q raw of None \<Rightarrow> ob_requested_q raw | Some b \<Rightarrow> b) + ob_probe_q raw)))"
    "ob = raw\<lparr>ob_frame_start := of_int (round_ms (ob_frame_start raw)) / 1000,
       ob_frame_end := of_int (round_ms (ob_frame_end raw)) / 1000,
       ob_baseline_q := Some (case ob_baseline_q raw of None \<Rightarrow> ob_requested_q raw | Some b \<Rightarrow> b),
       ob_allocated_q := Some (case ob_allocated_q raw of None \<Rightarrow> ob_requested_q raw | Some x \<Rightarrow> x),
       ob_scheduled_on := Some (case ob_scheduled_on raw of None \<Rightarrow> ob_delivered_on raw | Some x \<Rightarrow> x),
       ob_realized_auger_duty := Some (case ob_realized_auger_duty raw of None \<Rightarrow> ob_realized_q raw | Some x \<Rightarrow> x),
       ob_allocator_revision := Some (case ob_allocator_revision raw of None \<Rightarrow> 0 | Some r \<Rightarrow> r),
       ob_temperature_band := Some (case ob_temperature_band raw of None \<Rightarrow> band_of t sp | Some b \<Rightarrow> b)\<rparr>"
    "mk_observation ob = Inr ob"
proof -
  note facts = assms [unfolded mk_observation_def Let_def, simplified ebind_Inr_iff]
  show thesis
    using facts
    apply (clarsimp)
    apply (rule that)
    apply (assumption | simp)+
    apply (simp add: mk_observation_def Let_def ebind_Inr_iff resolved)
    done
qed
text \<open>C39: An observation that was constructed is well formed, and constructing it again changes nothing: the frame has
  a positive length in whole milliseconds, temperatures are finite, loads are fractions, the delivered time fits the
  frame, the requested load is the clipped sum of baseline and probe, and the optional members are resolved.\<close>

theorem observation_well_formed:
  assumes "mk_observation raw = Inr ob"
  shows "mk_observation ob = Inr ob
    \<and> ob_frame_start ob < ob_frame_end ob \<and> 0 \<le> ob_delivered_on ob \<and> ob_delivered_on ob \<le> ob_frame_end ob - ob_frame_start ob
    \<and> (\<exists>t sp amb. ob_temp_c ob = Fin t \<and> ob_setpoint_c ob = Fin sp \<and> ob_ambient_c ob = Fin amb)
    \<and> 0 \<le> ob_requested_q ob \<and> ob_requested_q ob \<le> 1 \<and> 0 \<le> ob_realized_q ob \<and> ob_realized_q ob \<le> 1
    \<and> (\<exists>b. ob_baseline_q ob = Some b \<and> is_close (ob_requested_q ob) (min 1 (max 0 (b + ob_probe_q ob))))
    \<and> ob_allocated_q ob \<noteq> None \<and> ob_realized_auger_duty ob \<noteq> None \<and> ob_temperature_band ob \<noteq> None"
  using assms
proof (cases rule: mk_observation_InrE)
  case (1 t sp amb)
  show ?thesis
    by (intro conjI) (use 1(1-11,13) in \<open>simp_all add: 1(12) diff_divide_distrib divide_strict_right_mono\<close>)
qed

section \<open>What a frame is credited with\<close>

lemma triple_map:
  assumes "\<And>x. triple P (f x) (\<lambda>y s. P s \<and> R x y)"
  shows "triple P (amap_list f xs) (\<lambda>ys s. P s \<and> list_all2 R xs ys)"
proof (induction xs)
  case (Cons x xs)
  show ?case
    unfolding amap_list.simps
    by (rule triple_bind [OF assms], rule triple_pure, rule triple_bind [OF Cons.IH], rule triple_pure)
      (simp add: triple_return)
qed (auto simp: triple_def)

lemma triple_info:
  "(\<And>s t x. m s = (t, Inr x) \<Longrightarrow> A x) \<Longrightarrow> (\<And>x. A x \<Longrightarrow> triple (\<lambda>_. True) (f x) Q) \<Longrightarrow> triple (\<lambda>_. True) (abind m f) Q"
  by (force simp: triple_def elim: abind_InrE)

lemma triple_any: "(\<And>x. triple (\<lambda>_. True) (f x) Q) \<Longrightarrow> triple (\<lambda>_. True) (abind m f) Q"
  by (rule triple_info [where A = "\<lambda>_. True"]) simp_all

lemma triple_true: "(\<And>s t x. m s = (t, Inr x) \<Longrightarrow> A x) \<Longrightarrow> keeps P m \<Longrightarrow> triple P m (\<lambda>x s. P s \<and> A x)"
  by (auto simp: triple_def dest: keepsD)

text \<open>The completion of frame \<open>f\<close> speaks for the request \<open>l\<close>, and a continuous observation for a timely sample.\<close>

definition observation_credited :: "latched_frame \<Rightarrow> sample \<Rightarrow> frame_result \<Rightarrow> observation \<Rightarrow> bool" where
  "observation_credited l smp f ob \<longleftrightarrow> ob_result_revision ob = fi_result_revision l
     \<and> ob_role_generation ob = lf_role_generation l
     \<and> (ob_continuous ob \<longrightarrow> sample_in_window f (sm_acquired_at smp) \<and> fr_reset f = None \<and> \<not> fr_skipped f
          \<and> \<not> fi_stale_command l \<and> fi_combustion_load l \<noteq> None)"

definition credited :: "latched_frame \<Rightarrow> output_source \<Rightarrow> sample \<Rightarrow> frame_result \<Rightarrow> completion \<Rightarrow> bool" where
  "credited l src smp f cm \<longleftrightarrow> cm_frame cm = f \<and> cm_result_revision cm = fi_result_revision l \<and> cm_source cm = src
     \<and> (\<forall>a. cm_applied cm = Some a \<longrightarrow> ao_result_revision a = fi_result_revision l
           \<and> ao_calibration_revision a = fi_command_revision l \<and> ao_source a = src)
     \<and> (\<forall>ob. cm_observation cm = Some ob \<longrightarrow> observation_credited l smp f ob)"

lemma mk_observation_sel2:
  assumes "mk_observation raw = Inr ob"
  shows "ob_result_revision ob = ob_result_revision raw" "ob_role_generation ob = ob_role_generation raw"
  using assms by (auto simp: mk_observation_def Let_def elim!: ebind_InrE)

lemma mk_applied_InrD: "mk_applied_output a = Inr b \<Longrightarrow> b = a"
  by (auto simp: mk_applied_output_def elim!: ebind_InrE)

lemma observation_credit:
  assumes "observation_of f l smp temp inh sequence ws we af = Inr ob"
  shows "observation_credited l smp f ob"
proof -
  obtain raw where raw: "mk_observation raw = Inr ob" "ob_result_revision raw = fi_result_revision l"
      "ob_role_generation raw = lf_role_generation l"
      "ob_continuous raw \<longrightarrow> sample_in_window f (sm_acquired_at smp) \<and> fr_reset f = None \<and> \<not> fr_skipped f
         \<and> \<not> fi_stale_command l \<and> observation_source f inh l \<noteq> ''unknown'' \<and> inh \<noteq> INH_LID_OPEN \<and> inh \<noteq> INH_MANUAL_OVERRIDE"
    using assms unfolding observation_of_def Let_def
    by (cases "frame_key f") (simp, elim ebind_InrE, rule that, assumption, simp_all)
  moreover have "fr_reset f = None \<Longrightarrow> observation_source f inh l \<noteq> ''unknown'' \<Longrightarrow> inh \<noteq> INH_LID_OPEN \<Longrightarrow>
      inh \<noteq> INH_MANUAL_OVERRIDE \<Longrightarrow> fi_combustion_load l \<noteq> None"
    by (auto simp: observation_source_def split: if_splits)
  ultimately show ?thesis
    using mk_observation_sel(2) [OF raw(1)] mk_observation_sel2 [OF raw(1)] unfolding observation_credited_def by auto
qed

lemma observe_credit:
  assumes "observe_frame f l smp inh defer_s ws we af s = (t, Inr (Some ob, x))"
  shows "\<exists>temp sequence. observation_of f l smp temp inh sequence ws we af = Inr ob"
  using assms
  by (auto simp: observe_frame_def elim!: abind_InrE split: option.splits if_splits) blast

lemma terminal_credit:
  assumes "terminal_feedback_of f l src u = (v, Inr tm)" "tm_applied tm = Some a"
  shows "ao_result_revision a = fi_result_revision l \<and> ao_calibration_revision a = fi_command_revision l \<and> ao_source a = src"
  using assms unfolding terminal_feedback_of_def Let_def
  by (auto elim!: abind_InrE dest!: mk_applied_InrD split: if_splits prod.splits simp: no_terminal_def)

lemma complete_frame_credit:
  "triple (\<lambda>_. True) (complete_frame wall dj l smp inh tf src defer_s f) (\<lambda>cm _. credited l src smp f cm)"
proof -
  have obs: "observation_credited l smp f ob"
    if "(if b then abind (amodify h) (\<lambda>_. observe_frame f l smp inh defer_s ws we af) else areturn (None, None, None)) u
      = (v, Inr (Some ob, x))" for b h ws we af u v ob x
  proof (cases b)
    case True
    with that have "observe_frame f l smp inh defer_s ws we af (h u) = (v, Inr (Some ob, x))" by simp
    from observe_credit [OF this] show ?thesis by (auto dest: observation_credit)
  qed (use that in simp)
  have trm: "\<forall>a. tm_applied tm = Some a \<longrightarrow> ao_result_revision a = fi_result_revision l
        \<and> ao_calibration_revision a = fi_command_revision l \<and> ao_source a = src"
    if "(if b then terminal_feedback_of f l src else areturn no_terminal) u = (v, Inr tm)" for b u v tm
    using that terminal_credit by (cases b) (force simp: no_terminal_def)+
  show ?thesis
    unfolding complete_frame_def Let_def
    apply (rule triple_prod, rule triple_any, rule triple_any, rule triple_any, rule triple_any)
    apply (rule triple_info [where A = "\<lambda>(ob, _, _). \<forall>o1. ob = Some o1 \<longrightarrow> observation_credited l smp f o1"])
     apply (clarify, drule obs, assumption)
    apply (rule triple_prod, rule triple_prod, rule triple_info, erule trm, rule triple_any, rule triple_return)
    apply (simp add: credited_def)
    done
qed


text \<open>The request of the controller, as the next frame would latch it.\<close>

definition wants :: "framed \<Rightarrow> latched_frame option" where
  "wants s = map_option (latched_of 0) (fp_controller s)"

abbreviation latches :: "framed \<Rightarrow> latched_frame option \<times> latched_frame option" where
  "latches s \<equiv> (wants s, fp_frame s)"

lemma latches_steps [preserves_intros]:
  "preserves latches (wall_clock_ms wall)" "preserves latches configured" "preserves latches current_frame"
  by (auto simp: preserves_def wall_clock_ms_def configured_def current_frame_def wants_def split: option.splits)

lemma latches_update [preserves_intros]:
  "(\<And>c. latched_of 0 (h c) = latched_of 0 c) \<Longrightarrow> preserves latches (update_controller h)"
  by (simp add: preserves_def update_controller_def wants_def option.map_comp o_def)

lemma latches_methods [preserves_intros]:
  "preserves latches (terminal_feedback_of f l src)" "preserves latches (record_delivery x)"
  "preserves latches (report_feedback now x src cmp disp prior dis)" "preserves latches (poll_scheduler now actual)"
  "preserves latches (resolve_pending smp nw inval)" "preserves latches (observe_frame f l smp inh def ws we af)"
  unfolding terminal_feedback_of_def report_feedback_def record_delivery_def poll_scheduler_def Let_def resolve_pending_def
    observe_frame_def
  by (intro preserves_intros; simp add: wants_def set_feedback_def latched_of_def Let_def)+

lemma latches_complete [preserves_intros]: "preserves latches (complete_frame wall dj l smp inh tf src def f)"
  unfolding complete_frame_def Let_def
  by (intro preserves_intros; simp add: wants_def)

lemma latched_of_role: "latched_of g c = (latched_of 0 c)\<lparr>lf_role_generation := g\<rparr>"
  by (simp add: latched_of_def Let_def)

lemma triple_relatch:
  "triple (\<lambda>s. latches s = (Some w, l)) (relatch_at_boundary wall d smp)
     (\<lambda>_ s. pd_reason d \<in> {FRAME_STARTED, FRAME_SKIPPED, RESET} \<longrightarrow> fp_frame s = Some (w\<lparr>lf_role_generation := sm_role_generation smp\<rparr>))"
  by (rule tripleI)
    (auto simp: relatch_at_boundary_def relatch_def latch_frame_def wants_def Let_def mirror_frame_def update_controller_def
      wall_clock_ms_def abind_def latched_of_role [of "sm_role_generation smp"] split: if_splits option.splits)

lemma completed_reason: "advance sch r t a = Inr (d, sch') \<Longrightarrow> pd_completed d \<noteq> [] \<Longrightarrow> pd_reason d \<in> {FRAME_STARTED, FRAME_SKIPPED}"
  by (auto simp: advance_def Let_def elim!: ebind_InrE dest!: decide_InrD split: option.splits if_splits prod.splits pyval.splits)


lemma latches_keeps: "preserves latches m \<Longrightarrow> keeps (\<lambda>s. latches s = x) m"
  by (rule keeps_preserves) auto

lemma triple_configured: "triple (\<lambda>s. latches s = (w, Some l)) configured (\<lambda>(_, _, previous) s. latches s = (w, Some l) \<and> previous = l)"
  by (auto simp: triple_def configured_def split: option.splits)

lemma triple_poll_reason: "triple P (poll_scheduler now actual) (\<lambda>d _. pd_completed d \<noteq> [] \<longrightarrow> pd_reason d \<in> {FRAME_STARTED, FRAME_SKIPPED})"
  by (rule tripleI) (auto simp: poll_scheduler_def elim!: abind_InrE dest: completed_reason)

lemma triple_conj: "triple P m Q \<Longrightarrow> triple P m R \<Longrightarrow> triple P m (\<lambda>x s. Q x s \<and> R x s)"
  by (simp add: triple_def)

lemma framed_advance_credit:
  "triple (\<lambda>s. latches s = (Some w, Some l)) (framed_advance wall dj now actual smp prior)
     (\<lambda>r s. list_all2 (credited l (fi_output_source l) smp) (pd_completed (re_decision r)) (re_completions r)
        \<and> (pd_completed (re_decision r) \<noteq> [] \<longrightarrow> fp_frame s = Some (w\<lparr>lf_role_generation := sm_role_generation smp\<rparr>)))"
proof -
  have poll: "triple (\<lambda>s. latches s = (Some w, Some l)) (poll_scheduler now actual)
      (\<lambda>d s. latches s = (Some w, Some l) \<and> (pd_completed d \<noteq> [] \<longrightarrow> pd_reason d \<in> {FRAME_STARTED, FRAME_SKIPPED}))"
    by (rule triple_conj [OF triple_keeps [OF latches_keeps [OF latches_methods(4)]] triple_poll_reason])
  have complete: "triple (\<lambda>s. latches s = (Some w, Some l)) (complete_frame wall dj l smp INH_NONE True (fi_output_source l) b f)
      (\<lambda>cm s. latches s = (Some w, Some l) \<and> credited l (fi_output_source l) smp f cm)" for b f
    by (rule triple_conj [OF triple_keeps [OF latches_keeps [OF latches_complete]] triple_weaken [OF complete_frame_credit]]) simp_all
  show ?thesis
    unfolding framed_advance_def
    apply (rule triple_bind [OF triple_configured], rule triple_prod, rule triple_prod, simp only: prod.case, rule triple_pure, hypsubst)
    apply (rule triple_skip [OF latches_keeps], rule latches_methods)
    apply (rule triple_bind [OF poll], rule triple_pure)
    apply (rule triple_skip [OF latches_keeps], rule latches_methods)
    apply (rule triple_bind [OF triple_map [OF complete]], rule triple_pure)
    apply (rule triple_bind [OF triple_relatch])
    apply (rule triple_skip, rule keeps_preserves [OF latches_steps(3)], simp)
    apply (rule triple_skip, rule keeps_preserves [where g = latches], intro preserves_intros, simp)
    apply (rule triple_return, auto)
    done
qed

text \<open>A frame is credited to the request that was latched for it, never to a result adopted while it ran: every
  completion of a poll, one per completed frame in order, its feedback and its observation carry the revisions latched
  before the poll, and the controller's current request is latched for the frame that begins.\<close>

theorem frame_credited_as_latched:
  assumes "framed_advance wall dj now actual smp prior s = (t, Inr r)" "fp_frame s = Some l" "fp_controller s = Some c"
  shows "list_all2 (credited l (fi_output_source l) smp) (pd_completed (re_decision r)) (re_completions r)
    \<and> (pd_completed (re_decision r) \<noteq> [] \<longrightarrow> fp_frame t = Some (latched_of (sm_role_generation smp) c))"
  using tripleD [OF framed_advance_credit _ assms(1), of "latched_of 0 c" l] assms(2,3)
  by (simp add: wants_def latched_of_role [of "sm_role_generation smp"])

section \<open>Deferred observations\<close>

text \<open>A pending observation was built from a sample that predates the frame's end: it is never continuous.\<close>

definition shy :: "framed \<Rightarrow> bool" where
  "shy s \<longleftrightarrow> (\<forall>p. fp_pending s = Some p \<longrightarrow> \<not> ob_continuous (po_observation p))"

lemma quiet_shy: "quiet m \<Longrightarrow> keeps shy m"
  by (rule keeps_preserves) (auto simp: shy_def)

lemma shy_modify: "(\<And>s. fp_pending (h s) = fp_pending s) \<Longrightarrow> keeps shy (amodify h)"
  by (auto simp: shy_def)

lemma shy_resolve: "keeps shy (resolve_pending smp nw inval)"
proof -
  have retire: "keeps shy (amodify (\<lambda>s. s\<lparr>fp_pending := None\<rparr>))" by (auto simp: shy_def)
  show ?thesis
    unfolding resolve_pending_def Let_def
    by (intro keeps_bind keeps_basic keeps_option keeps_if) (auto intro!: keeps_bind retire split: option.split pyfloat.split)
qed

lemma shy_observe: "keeps shy (observe_frame f l smp inh def ws we af)"
proof -
  have rest: "keeps shy (if deferrable def f smp ob then
        abind (amodify (\<lambda>s. s\<lparr>fp_pending := Some \<lparr>po_observation = ob, po_sample = smp, po_frame_end = e, po_duration = d\<rparr>\<rparr>))
          (\<lambda>_. areturn y) else areturn z)" for ob e d y z
    by (auto simp: keeps_def shy_def deferrable_def)
  show ?thesis
    unfolding observe_frame_def by (intro keeps_bind keeps_basic keeps_option keeps_if shy_modify rest) simp_all
qed

lemma shy_complete: "keeps shy (complete_frame wall dj l smp inh tf src def f)"
  unfolding complete_frame_def Let_def
  by (intro keeps_bind keeps_basic keeps_prod keeps_if shy_observe shy_modify quiet_shy; (intro preserves_intros)?; simp)


lemma shy_interrupted:
  "keeps shy (case i of None \<Rightarrow> areturn [] | Some f \<Rightarrow> abind (complete_frame wall dj l smp inh tf src def f) (\<lambda>c. areturn [c]))"
  by (intro keeps_option keeps_bind keeps_basic shy_complete)

lemma shy_call: "keeps shy (framed_call wall e)"
proof (cases e)
  case (Poll dj now actual smp prior)
  show ?thesis
    unfolding Poll framed_call.simps framed_advance_def
    by (intro keeps_bind keeps_basic keeps_prod keeps_map shy_resolve shy_complete quiet_shy) (intro preserves_intros)+
next
  case (Interrupt dj why now inh actual smp tf wfb cr revn act src prior)
  show ?thesis
    unfolding Interrupt framed_call.simps framed_reset_def
    by (intro keeps_bind keeps_basic keeps_prod keeps_map shy_resolve shy_complete shy_interrupted quiet_shy) (intro preserves_intros)+
next
  case (Gap dj smp)
  show ?thesis
    unfolding Gap framed_call.simps invalidate_gap_def
    by (intro keeps_bind keeps_basic keeps_prod shy_resolve shy_interrupted quiet_shy) (intro preserves_intros)+
next
  case (Latch g)
  show ?thesis
    unfolding Latch framed_call.simps framed_latch_def by (intro quiet_shy preserves_intros)
qed (auto intro!: keeps_bind quiet_shy preserves_intros)

lemma shy_run: "framed_run wall s es = (ns, t) \<Longrightarrow> shy s \<Longrightarrow> shy t"
proof (induction es arbitrary: s ns)
  case (Cons e es)
  obtain u q where q: "framed_call wall e s = (u, q)" by force
  with Cons keepsD [OF shy_call] show ?case
    by (auto split: sum.splits option.splits prod.splits)
qed simp

lemma configured_shy: "framed_configure wall mode c tm now rev0 s = (s0, Inr ()) \<Longrightarrow> fp_pending s0 = None"
  by (auto simp: framed_configure_def wall_clock_ms_def update_controller_def abind_def relatch_def latch_frame_def Let_def
      mirror_frame_def split: if_splits sum.splits option.splits prod.splits)

lemma resolved_continuous:
  assumes "resolve_pending smp nw inval s = (t, Inr obs)" "ob \<in> set obs" "ob_continuous ob" "shy s"
  obtains p a u temp where "fp_pending s = Some p" "sm_acquired_at smp = Some (Fin a)" "nw = Some u"
    "sm_temperature smp = Some (Fin temp)" "po_frame_end p \<le> a" "a \<le> u" "u < po_frame_end p + po_duration p"
    "mk_observation ((po_observation p)\<lparr>ob_temp_c := to_c (Fin temp) (sm_units smp), ob_continuous := True\<rparr>) = Inr ob"
  using assms
  by (auto simp: resolve_pending_def Let_def shy_def elim!: abind_InrE split: option.splits pyfloat.splits if_splits)

lemma keeps_const [simp]: "keeps (\<lambda>_. A) m"
  by (simp add: keeps_def)

lemma advance_observations:
  "triple (\<lambda>u. u = s) (framed_advance wall dj now actual smp prior)
     (\<lambda>r _. \<exists>u. resolve_pending smp (Some now) False s = (u, Inr (re_observations r)))"
  unfolding framed_advance_def
  apply (rule triple_bind [where R = "\<lambda>_ u. u = s"])
   apply (auto simp: triple_def configured_def split: option.splits)[1]
  apply (rule triple_prod, rule triple_prod)
  apply (rule triple_bind [where R = "\<lambda>obs _. \<exists>u. resolve_pending smp (Some now) False s = (u, Inr obs)"])
   apply (auto simp: triple_def)[1]
  apply (rule triple_skip [OF keeps_const])+
  apply (rule triple_return, simp)
  done

text \<open>An observation that a later poll hands over as continuous was completed by a timely sample: one taken at or
  after the end of its frame, before the poll, itself less than a frame after that end. It keeps its sequence number
  and takes its temperature from that sample.\<close>

theorem deferred_sample_is_timely:
  assumes "framed_configure wall mode c tm start rev0 s' = (s0, Inr ())" "framed_run wall s0 es = (ns, s)"
    and "framed_advance wall dj now actual smp prior s = (t, Inr r)"
    and "ob \<in> set (re_observations r)" "ob_continuous ob"
  shows "\<exists>p a temp. fp_pending s = Some p \<and> sm_acquired_at smp = Some (Fin a) \<and> sm_temperature smp = Some (Fin temp)
    \<and> po_frame_end p \<le> a \<and> a \<le> now \<and> now < po_frame_end p + po_duration p
    \<and> ob_sequence ob = ob_sequence (po_observation p) \<and> ob_temp_c ob = to_c (Fin temp) (sm_units smp)"
proof -
  have "shy s" using shy_run [OF assms(2)] configured_shy [OF assms(1)] by (simp add: shy_def)
  moreover obtain u where "resolve_pending smp (Some now) False s = (u, Inr (re_observations r))"
    using tripleD [OF advance_observations refl assms(3)] by blast
  ultimately obtain p a temp where p: "fp_pending s = Some p" "sm_acquired_at smp = Some (Fin a)"
      "sm_temperature smp = Some (Fin temp)" "po_frame_end p \<le> a" "a \<le> now" "now < po_frame_end p + po_duration p"
      "mk_observation ((po_observation p)\<lparr>ob_temp_c := to_c (Fin temp) (sm_units smp), ob_continuous := True\<rparr>) = Inr ob"
    using assms(4,5) by (elim resolved_continuous [rotated]) auto
  with mk_observation_sel(1,3) [OF p(7)] show ?thesis by auto
qed


section \<open>Witnesses\<close>

lemma framed_run_append:
  "snd (framed_run wall s (es @ fs)) = snd (framed_run wall (snd (framed_run wall s es)) fs)"
  by (induction es arbitrary: s) (auto split: prod.split sum.split option.split, metis snd_conv)

definition demo_raw :: observation where
  "demo_raw = \<lparr>ob_frame_start = 0, ob_frame_end = 20, ob_temp_c = Fin 100, ob_setpoint_c = Fin 107, ob_ambient_c = Fin 20,
     ob_requested_q = 1/2, ob_realized_q = 1/2, ob_requested_auger_duty = 1/4, ob_delivered_on = 5,
     ob_requested_fan_duty = None, ob_actual_fan_duty = None, ob_result_revision = 1, ob_output_source = ''controller'',
     ob_lid_open = False, ob_safety_inhibited = False, ob_manual_override = False, ob_stale = False, ob_skipped = False,
     ob_reset = False, ob_continuous = False, ob_role_generation = 0, ob_wall_start_ms = 0, ob_wall_end_ms = 1000,
     ob_sequence = 1, ob_probe_valid = True, ob_probe_source = Some ''chamber'', ob_ambient_source = AMB_CONFIGURED,
     ob_ambient_uncertainty = UNC_UNMEASURED, ob_baseline_q = Some (1/2), ob_probe_q = 0, ob_allocated_q = None,
     ob_scheduled_on = None, ob_realized_auger_duty = None, ob_allocator_revision = None, ob_clamp_reasons = [],
     ob_calibration_stage = None, ob_calibration_fit = False, ob_join_reason = None, ob_temperature_band = None,
     ob_command_revision = 0, ob_command_action = ''none'', ob_cancellation_reason = None, ob_baseline_allocation = None,
     ob_combined_allocation = None, ob_calibration_status = ''inactive'', ob_cancellation_revision = 0,
     ob_cancellation_action = ''none'', ob_completed_stages = []\<rparr>"

lemma demo_raw_accepted:
  "case mk_observation demo_raw of Inl _ \<Rightarrow> False
   | Inr ob \<Rightarrow> ob_temperature_band ob = Some ''below-target''
       \<and> (case mk_observation (ob\<lparr>ob_temp_c := Fin 120, ob_continuous := True\<rparr>) of Inr _ \<Rightarrow> True | Inl _ \<Rightarrow> False)"
  by code_simp

lemma observation_well_formed_witness: "\<exists>ob. mk_observation demo_raw = Inr ob \<and> mk_observation ob = Inr ob"
proof -
  obtain ob where ob: "mk_observation demo_raw = Inr ob" using demo_raw_accepted by (auto split: sum.splits)
  with observation_well_formed [OF ob] show ?thesis by blast
qed

text \<open>Completing a deferred observation replaces its temperature but not the temperature band that was derived from
  the superseded sample: whatever the new temperature, the band handed to the learner is the old one.\<close>

theorem deferred_band_is_stale:
  assumes "mk_observation raw = Inr ob" "mk_observation (ob\<lparr>ob_temp_c := new_temp, ob_continuous := True\<rparr>) = Inr ob'"
  shows "ob_temperature_band ob' = ob_temperature_band ob \<and> ob_temp_c ob' = new_temp"
proof -
  have "ob_temperature_band ob \<noteq> None" using assms(1) by (cases rule: mk_observation_InrE) simp
  with assms(2) show ?thesis by (cases rule: mk_observation_InrE) auto
qed

lemma deferred_band_is_stale_witness:
  "\<exists>ob ob'. mk_observation demo_raw = Inr ob \<and> mk_observation (ob\<lparr>ob_temp_c := Fin 120, ob_continuous := True\<rparr>) = Inr ob'
     \<and> ob_temp_c ob' = Fin 120 \<and> ob_setpoint_c demo_raw = Fin 107 \<and> ob_temperature_band ob' = Some ''below-target''"
proof -
  obtain ob ob' where ob: "mk_observation demo_raw = Inr ob" "ob_temperature_band ob = Some ''below-target''"
      "mk_observation (ob\<lparr>ob_temp_c := Fin 120, ob_continuous := True\<rparr>) = Inr ob'"
    using demo_raw_accepted by (auto split: sum.splits)
  from deferred_band_is_stale [OF ob(1,3)] ob show ?thesis by (auto simp: demo_raw_def)
qed

definition demo_started :: framed where
  "demo_started = snd (framed_run demo_wall (fst demo_configured) [Adopt False (demo_result 1), Latch 0, demo_poll 0 True 100 0,
     Adopt False (demo_result 2)])"

lemma demo_boundary:
  "let s = demo_started in
   case framed_advance demo_wall None 21 False (demo_sample 103 19) (Some SRC_CONTROLLER) s of
     (t, Inl _) \<Rightarrow> False
   | (t, Inr r) \<Rightarrow> map cm_result_revision (re_completions r) = [1]
       \<and> map_option fi_result_revision (fp_frame s) = Some 1
       \<and> map_option cs_result_revision (fp_controller s) = Some 2
       \<and> (case framed_advance demo_wall None 22 False (demo_sample 104 22) (Some SRC_CONTROLLER) t of
            (u, Inl _) \<Rightarrow> False | (u, Inr q) \<Rightarrow> map ob_continuous (re_observations q) = [True])"
  by code_simp

lemma frame_credited_as_latched_witness:
  "\<exists>t r l. \<exists>c :: controller_state. framed_advance demo_wall None 21 False (demo_sample 103 19) (Some SRC_CONTROLLER) demo_started = (t, Inr r)
     \<and> map cm_result_revision (re_completions r) = [1] \<and> cs_result_revision c = 2
     \<and> list_all2 (credited l (fi_output_source l) (demo_sample 103 19)) (pd_completed (re_decision r)) (re_completions r)"
proof -
  obtain t r l c where st: "framed_advance demo_wall None 21 False (demo_sample 103 19) (Some SRC_CONTROLLER) demo_started = (t, Inr r)"
      "map cm_result_revision (re_completions r) = [1]" "fp_frame demo_started = Some l" "fp_controller demo_started = Some c"
      "cs_result_revision c = 2"
    using demo_boundary by (auto simp: Let_def split: prod.splits sum.splits)
  have "list_all2 (credited l (fi_output_source l) (demo_sample 103 19)) (pd_completed (re_decision r)) (re_completions r)"
    using frame_credited_as_latched [OF st(1,3,4)] by (rule conjunct1)
  with st(1,2,5) show ?thesis by auto
qed

lemma deferred_sample_is_timely_witness:
  "\<exists>t u q ob. framed_advance demo_wall None 22 False (demo_sample 104 22) (Some SRC_CONTROLLER) t = (u, Inr q)
     \<and> re_observations q = [ob] \<and> ob_temp_c ob = Fin 104"
proof -
  obtain t r u q ob where st: "framed_advance demo_wall None 21 False (demo_sample 103 19) (Some SRC_CONTROLLER) demo_started = (t, Inr r)"
      "framed_advance demo_wall None 22 False (demo_sample 104 22) (Some SRC_CONTROLLER) t = (u, Inr q)"
      "re_observations q = [ob]" "ob_continuous ob"
    using demo_boundary by (auto split: prod.splits sum.splits simp: map_eq_Cons_conv Let_def)
  have "snd (framed_run demo_wall (fst demo_configured) ([Adopt False (demo_result 1), Latch 0, demo_poll 0 True 100 0,
     Adopt False (demo_result 2)] @ [demo_poll 21 False 103 19])) = t"
    using st(1) unfolding framed_run_append demo_started_def [symmetric] by (simp add: abind_def split: prod.split)
  then obtain ns where ns: "framed_run demo_wall (fst demo_configured) ([Adopt False (demo_result 1), Latch 0, demo_poll 0 True 100 0,
     Adopt False (demo_result 2)] @ [demo_poll 21 False 103 19]) = (ns, t)"
    by (metis prod.collapse)
  have "ob_temp_c ob = Fin 104"
    using deferred_sample_is_timely [OF demo_configuration ns st(2), of ob] st(3,4)
    by (auto simp: demo_sample_def to_c_def fahrenheit_def)
  with st(2,3) show ?thesis by blast
qed

end
