(* ===== verification/Calibration_Coordinator.thy ===== *)
theory Calibration_Coordinator
  imports Py_Prelude
begin

text \<open>
  \<open>controller/model_learning/calibration.py\<close>: the guarded state machine of an operator calibration. It walks three
  heating stages; in each it superimposes a schedule of small signed probes on the controller's combustion load,
  and it ends the run the moment a guard, a prediction or the stage's timeout says so.

  The record \<open>coordinator\<close> holds the object's attributes; a method returns the decision and the coordinator
  afterwards, and raises nothing but what is written. The configuration \<open>cfg\<close> and the predictor \<open>predict\<close> (the
  callable given to the constructor, which may raise) are arguments. Numbers are exact rationals, so the sums and
  the variance of a stage are exact.
\<close>

section \<open>Configuration and context\<close>

definition STAGES :: "string list" where "STAGES = [''low'', ''middle'', ''high'']"

definition COAST :: string where "COAST = ''coast''"

definition NO_ROOM :: string where "NO_ROOM = ''no_probe_room''"

definition DWELL_COUNTS :: "int list" where "DWELL_COUNTS = [2, 3, 5, 4, 3, 2]"

record config =
  cf_centers :: "rat list"
  cf_max_probe :: rat
  cf_min_observations :: int
  cf_min_levels :: int
  cf_min_variance :: rat
  cf_min_positive :: int
  cf_min_negative :: int
  cf_timeout :: rat
  cf_tolerance :: rat

definition default_config :: config where
  "default_config = \<lparr>cf_centers = [(225 - 32) * 5 / 9, (325 - 32) * 5 / 9, (425 - 32) * 5 / 9],
     cf_max_probe = 5 / 100, cf_min_observations = 30, cf_min_levels = 3, cf_min_variance = 1 / 1000,
     cf_min_positive = 6, cf_min_negative = 6, cf_timeout = 3600, cf_tolerance = 2\<rparr>"

definition mk_config :: "config \<Rightarrow> config result" where
  "mk_config c =
     (case cf_centers c of
        [lo, mid, hi] \<Rightarrow>
          if mid \<le> lo \<or> hi \<le> mid then Inl (ValueError ''band_centers_c must contain three increasing finite values'')
          else if \<not> (0 < cf_max_probe c \<and> cf_max_probe c \<le> 1) then Inl (ValueError ''max_probe_q must be in (0, 1]'')
          else if cf_min_variance c < 0 then Inl (ValueError ''min_realized_variance must be non-negative'')
          else if cf_timeout c \<le> 0 \<or> cf_tolerance c < 0
            then Inl (ValueError ''timeout must be positive and band tolerance non-negative'')
          else if cf_min_observations c < 1 \<or> cf_min_levels c < 1 \<or> cf_min_positive c < 1 \<or> cf_min_negative c < 1
            then Inl (ValueError ''must be a positive integer'')
          else Inr c
      | _ \<Rightarrow> Inl (ValueError ''band_centers_c must contain three increasing finite values''))"

record cal_context =
  cx_now :: rat
  cx_temp :: rat
  cx_target :: rat
  cx_baseline_q :: rat
  cx_realized_q :: rat
  cx_ceiling :: rat
  cx_allocator :: rat
  cx_error_rate :: rat
  cx_capability :: rat
  cx_saturation :: rat
  cx_rank :: rat
  cx_coverage :: rat
  cx_lid_open :: bool
  cx_manual_mode :: bool
  cx_manual_output :: bool
  cx_safety_inhibited :: bool
  cx_temperature_guard :: bool
  cx_probe_valid :: bool
  cx_stale_result :: bool
  cx_skipped_frame :: bool
  cx_reset_frame :: bool
  cx_continuous :: bool
  cx_actuation_known :: bool
  cx_fallback :: bool

definition unit_ok :: "rat \<Rightarrow> bool" where
  "unit_ok x \<longleftrightarrow> 0 \<le> x \<and> x \<le> 1"

definition mk_context :: "cal_context \<Rightarrow> cal_context result" where
  "mk_context x =
     (if list_all unit_ok [cx_baseline_q x, cx_realized_q x, cx_allocator x, cx_error_rate x, cx_capability x,
          cx_saturation x, cx_rank x, cx_coverage x]
      then Inr x else Inl (ValueError ''must be in [0, 1]''))"

section \<open>Events, progress, decisions\<close>

record cal_event =
  ce_kind :: string
  ce_stage :: "string option"
  ce_intended :: rat
  ce_bounded :: rat
  ce_probe_sum :: rat
  ce_reasons :: "string list"

record progress =
  pg_eligible :: int
  pg_levels :: int
  pg_variance :: rat
  pg_positive :: int
  pg_negative :: int
  pg_rank :: rat
  pg_coverage :: rat
  pg_continuous :: bool
  pg_probe_sum :: rat
  pg_clipping :: rat

definition no_progress :: progress where
  "no_progress = \<lparr>pg_eligible = 0, pg_levels = 0, pg_variance = 0, pg_positive = 0, pg_negative = 0, pg_rank = 0,
     pg_coverage = 0, pg_continuous = True, pg_probe_sum = 0, pg_clipping = 0\<rparr>"

record cal_decision =
  de_active :: bool
  de_probe :: rat
  de_stage :: "string option"
  de_progress :: progress
  de_events :: "cal_event list"
  de_target :: "rat option"
  de_activation_ready :: bool
  de_revision :: int
  de_action :: string
  de_generation :: int
  de_completed :: "string list"
  de_outcome :: "string option"
  de_outcome_reasons :: "string list"

definition mk_decision ::
    "bool \<Rightarrow> rat \<Rightarrow> string option \<Rightarrow> progress \<Rightarrow> cal_event list \<Rightarrow> rat option \<Rightarrow> cal_decision" where
  "mk_decision active probe stage pg events target =
     \<lparr>de_active = active, de_probe = probe, de_stage = stage, de_progress = pg, de_events = events,
      de_target = target, de_activation_ready = False, de_revision = 0, de_action = ''none'', de_generation = 0,
      de_completed = [], de_outcome = None, de_outcome_reasons = []\<rparr>"

record cal_run =
  rs_revision :: int
  rs_seed :: int
  rs_index :: nat
  rs_started :: rat
  rs_position :: nat
  rs_plan :: "int list"
  rs_schedule :: "rat list"
  rs_eligible :: int
  rs_values :: "rat list"
  rs_positive :: int
  rs_negative :: int
  rs_probe_sum :: rat
  rs_rank :: rat
  rs_coverage :: rat
  rs_continuous :: bool
  rs_probe :: rat
  rs_clipping :: rat
  rs_coasting :: bool
  rs_history :: "progress list"

text \<open>\<open>_State(command, index, started, position, plan, schedule)\<close>, the rest at its defaults.\<close>

definition fresh_run :: "int \<Rightarrow> int \<Rightarrow> nat \<Rightarrow> rat \<Rightarrow> int list \<Rightarrow> rat list \<Rightarrow> cal_run" where
  "fresh_run revision seed index started plan schedule =
     \<lparr>rs_revision = revision, rs_seed = seed, rs_index = index, rs_started = started, rs_position = 0,
      rs_plan = plan, rs_schedule = schedule, rs_eligible = 0, rs_values = [], rs_positive = 0, rs_negative = 0,
      rs_probe_sum = 0, rs_rank = 0, rs_coverage = 0, rs_continuous = True, rs_probe = 0, rs_clipping = 0,
      rs_coasting = False, rs_history = []\<rparr>"

record coordinator =
  co_run :: "cal_run option"
  co_last :: "cal_decision option"
  co_paused :: bool
  co_history :: "progress list"

definition new_coordinator :: coordinator where
  "new_coordinator = \<lparr>co_run = None, co_last = None, co_paused = False, co_history = []\<rparr>"

type_synonym predictor = "(rat \<Rightarrow> rat \<Rightarrow> cal_context \<Rightarrow> pyfloat result) option"

section \<open>The probe schedule\<close>

text \<open>\<open>seed & 1\<close> and \<open>seed % 6\<close> of a Python integer.\<close>

definition signed_dwell_plan :: "int \<Rightarrow> int list" where
  "signed_dwell_plan seed =
     (let k = nat (seed mod 6); counts = drop k DWELL_COUNTS @ take k DWELL_COUNTS; sign = (if odd seed then -1 else 1)
      in concat (map (\<lambda>count. [sign * count, - sign * count]) counts))"

definition dwell_frames :: "int \<Rightarrow> int list" where
  "dwell_frames dwell = replicate (nat \<bar>dwell\<bar>) (if 0 < dwell then 1 else -1)"

fun expand :: "int list \<Rightarrow> int list" where
  "expand (a # b # plan) = dwell_frames a @ dwell_frames b @ [0] @ expand plan"
| "expand [a] = dwell_frames a @ [0]"
| "expand [] = []"

definition probe_schedule :: "config \<Rightarrow> int \<Rightarrow> rat list" where
  "probe_schedule cfg seed = map (\<lambda>s. of_int s * cf_max_probe cfg) (expand (signed_dwell_plan seed))"

section \<open>Judgements\<close>

definition guard_reasons :: "cal_context \<Rightarrow> string list" where
  "guard_reasons x =
     map snd (filter fst
       [(cx_lid_open x, ''lid_open''), (cx_manual_mode x, ''manual_mode''), (cx_manual_output x, ''manual_output''),
        (cx_safety_inhibited x, ''safety_inhibited''), (cx_temperature_guard x, ''temperature_guard''),
        (cx_stale_result x, ''stale_result''), (cx_skipped_frame x, ''skipped_frame''),
        (cx_reset_frame x, ''reset_frame''), (cx_fallback x, ''fallback''), (\<not> cx_probe_valid x, ''invalid_probe''),
        (\<not> cx_continuous x, ''discontinuity''), (\<not> cx_actuation_known x, ''unknown_actuation''),
        (min (cx_allocator x) (min (cx_error_rate x) (min (cx_capability x) (cx_saturation x))) \<le> 0,
          ''inadequate_headroom'')])"

definition probe_room :: "config \<Rightarrow> rat \<Rightarrow> cal_context \<Rightarrow> rat" where
  "probe_room cfg intended x =
     min (cf_max_probe cfg) (min (cx_allocator x) (min (cx_error_rate x) (min (cx_capability x)
       (min (cx_saturation x) (if intended < 0 then cx_baseline_q x else 1 - cx_baseline_q x)))))"

definition bound_probe :: "config \<Rightarrow> predictor \<Rightarrow> rat \<Rightarrow> cal_context \<Rightarrow> rat \<times> string list" where
  "bound_probe cfg predict intended x =
     (case predict of
        None \<Rightarrow> (0, [''prediction_unavailable''])
      | Some p \<Rightarrow>
          let room = probe_room cfg intended x in
          if room \<le> 0 then (0, [NO_ROOM])
          else
            let bounded = max (- room) (min room intended) in
            (case p (cx_baseline_q x) bounded x of
               Inr (Fin predicted) \<Rightarrow>
                 if cx_ceiling x \<le> predicted then (0, [''overshoot_prediction'']) else (bounded, [])
             | _ \<Rightarrow> (0, [''prediction_invalid''])))"

definition run_progress :: "cal_run \<Rightarrow> progress" where
  "run_progress r =
     (let vs = rs_values r; n = of_nat (length vs);
          mean = (if vs = [] then 0 else sum_list vs / n);
          variance = (if vs = [] then 0 else sum_list (map (\<lambda>v. (v - mean) ^ 2) vs) / n)
      in \<lparr>pg_eligible = rs_eligible r, pg_levels = int (length (remdups (map (\<lambda>v. py_round (v * 10 ^ 12)) vs))),
          pg_variance = variance, pg_positive = rs_positive r, pg_negative = rs_negative r, pg_rank = rs_rank r,
          pg_coverage = rs_coverage r, pg_continuous = rs_continuous r, pg_probe_sum = rs_probe_sum r,
          pg_clipping = rs_clipping r\<rparr>)"

definition ready :: "config \<Rightarrow> progress \<Rightarrow> bool" where
  "ready cfg p \<longleftrightarrow>
     cf_min_observations cfg \<le> pg_eligible p \<and> cf_min_levels cfg \<le> pg_levels p \<and> cf_min_variance cfg \<le> pg_variance p
     \<and> cf_min_positive cfg \<le> pg_positive p \<and> cf_min_negative cfg \<le> pg_negative p \<and> 1 \<le> pg_rank p \<and> 1 \<le> pg_coverage p
     \<and> pg_continuous p \<and> \<bar>pg_probe_sum p\<bar> \<le> cf_max_probe cfg"

definition incomplete_reasons :: "config \<Rightarrow> progress \<Rightarrow> string list" where
  "incomplete_reasons cfg p =
     map snd (filter fst
       [(pg_eligible p < cf_min_observations cfg, ''insufficient_observations''),
        (pg_levels p < cf_min_levels cfg, ''insufficient_levels''),
        (pg_variance p < cf_min_variance cfg, ''insufficient_variance''),
        (pg_positive p < cf_min_positive cfg, ''insufficient_positive''),
        (pg_negative p < cf_min_negative cfg, ''insufficient_negative''),
        (pg_rank p < 1 \<or> pg_coverage p < 1, ''rank_coverage''), (\<not> pg_continuous p, ''discontinuity''),
        (cf_max_probe cfg < \<bar>pg_probe_sum p\<bar>, ''nonzero_mean'')])"

section \<open>The state machine\<close>

definition actual_stage :: "coordinator \<Rightarrow> string option" where
  "actual_stage c = map_option (\<lambda>r. STAGES ! rs_index r) (co_run c)"

definition shown_stage :: "coordinator \<Rightarrow> string option" where
  "shown_stage c = (case co_run c of Some r \<Rightarrow> if rs_coasting r then Some COAST else actual_stage c | None \<Rightarrow> None)"

definition cal_event_of :: "string \<Rightarrow> string option \<Rightarrow> rat \<Rightarrow> rat \<Rightarrow> cal_run \<Rightarrow> string list \<Rightarrow> cal_event" where
  "cal_event_of kind stage intended bounded r reasons =
     \<lparr>ce_kind = kind, ce_stage = stage, ce_intended = intended, ce_bounded = bounded, ce_probe_sum = rs_probe_sum r,
      ce_reasons = reasons\<rparr>"

definition decision_of ::
    "config \<Rightarrow> bool \<Rightarrow> rat \<Rightarrow> string option \<Rightarrow> cal_run \<Rightarrow> cal_event list \<Rightarrow> cal_decision" where
  "decision_of cfg active probe stage r events =
     mk_decision active probe stage (run_progress r) events (Some (cf_centers cfg ! rs_index r))"

definition remember :: "cal_decision \<Rightarrow> coordinator \<Rightarrow> cal_decision \<times> coordinator" where
  "remember d c =
     (let d' = d\<lparr>de_completed := take (length (co_history c)) STAGES\<rparr> in (d', c\<lparr>co_last := Some d'\<rparr>))"

definition with_provenance ::
    "int \<Rightarrow> string \<Rightarrow> cal_decision \<times> coordinator \<Rightarrow> cal_decision \<times> coordinator" where
  "with_provenance revision action dc =
     remember ((fst dc)\<lparr>de_revision := revision, de_action := action\<rparr>) (snd dc)"

definition cal_terminal ::
    "string \<Rightarrow> string option \<Rightarrow> string list \<Rightarrow> cal_event list \<Rightarrow> coordinator \<Rightarrow> cal_decision \<times> coordinator" where
  "cal_terminal kind stage reasons prefix c =
     (let pg = (case co_run c of None \<Rightarrow> no_progress | Some r \<Rightarrow> run_progress r);
          d = mk_decision False 0 stage pg
                (prefix @ [\<lparr>ce_kind = kind, ce_stage = stage, ce_intended = 0, ce_bounded = 0,
                   ce_probe_sum = pg_probe_sum pg, ce_reasons = reasons\<rparr>]) None
      in remember (d\<lparr>de_outcome := Some kind, de_outcome_reasons := reasons\<rparr>) (c\<lparr>co_run := None, co_paused := False\<rparr>))"

definition cal_start ::
    "config \<Rightarrow> predictor \<Rightarrow> int \<Rightarrow> int \<Rightarrow> cal_context \<Rightarrow> coordinator \<Rightarrow> cal_decision \<times> coordinator" where
  "cal_start cfg predict revision seed x c =
     (if guard_reasons x \<noteq> [] then
        with_provenance revision ''start'' (cal_terminal ''start_rejected'' None (guard_reasons x) [] c)
      else if predict = None then
        with_provenance revision ''start'' (cal_terminal ''start_rejected'' None [''prediction_unavailable''] [] c)
      else
        let schedule = probe_schedule cfg seed;
            r = fresh_run revision seed 0 (cx_now x) (signed_dwell_plan seed) schedule;
            c1 = c\<lparr>co_run := Some r\<rparr>;
            (probe, reasons) = bound_probe cfg predict (hd schedule) x
        in if reasons \<noteq> [] \<and> reasons \<noteq> [NO_ROOM] then
             with_provenance revision ''start'' (cal_terminal ''start_rejected'' (Some ''low'') reasons [] c1)
           else
             let r1 = r\<lparr>rs_probe := probe\<rparr>;
                 events =
                   [cal_event_of ''start_accepted'' (Some ''low'') (hd schedule) probe r1 [],
                    cal_event_of ''stage_started'' (Some ''low'') (hd schedule) probe r1 []]
                   @ (if reasons = [NO_ROOM]
                      then [cal_event_of ''probe_skipped'' (Some ''low'') (hd schedule) 0 r1 [NO_ROOM]] else [])
             in with_provenance revision ''start''
                  (remember (mk_decision True probe (Some ''low'') (run_progress r1) events (Some (cf_centers cfg ! 0)))
                     (c1\<lparr>co_history := [], co_run := Some r1\<rparr>)))"

definition cal_stop :: "coordinator \<Rightarrow> cal_decision \<times> coordinator" where
  "cal_stop c =
     with_provenance 0 ''stop''
       (case co_run c of
          Some _ \<Rightarrow> cal_terminal ''stopped'' (actual_stage c) [''operator_stop''] [] c
        | None \<Rightarrow> (case co_last c of
             Some d \<Rightarrow> (d, c) | None \<Rightarrow> cal_terminal ''stopped'' None [''not_active''] [] c))"

definition cal_reset :: "coordinator \<Rightarrow> cal_decision \<times> coordinator" where
  "cal_reset c =
     (let stage = actual_stage c
      in with_provenance 0 ''reset-progress''
           (remember (mk_decision False 0 stage no_progress
               [\<lparr>ce_kind = ''progress_reset'', ce_stage = stage, ce_intended = 0, ce_bounded = 0, ce_probe_sum = 0,
                 ce_reasons = [''operator_reset'']\<rparr>] None)
             (c\<lparr>co_run := None, co_paused := False, co_history := []\<rparr>)))"

definition cal_cancel :: "string \<Rightarrow> coordinator \<Rightarrow> (cal_decision \<times> coordinator) result" where
  "cal_cancel reason c =
     (if reason = [] then Inl (ValueError ''reason must be a non-empty string'')
      else Inr (with_provenance 0 ''safety-cancel'' (cal_terminal ''safety_aborted'' (actual_stage c) [reason] [] c)))"

definition cal_pause :: "config \<Rightarrow> coordinator \<Rightarrow> cal_decision \<times> coordinator" where
  "cal_pause cfg c =
     with_provenance 0 ''pause''
       (case co_run c of
          None \<Rightarrow> (case co_last c of Some d \<Rightarrow> (d, c) | None \<Rightarrow> cal_terminal ''paused'' None [''not_active''] [] c)
        | Some r \<Rightarrow>
            remember (decision_of cfg True 0 (shown_stage c) r
                [cal_event_of ''paused'' (actual_stage c) (rs_probe r) 0 r []]) (c\<lparr>co_paused := True\<rparr>))"

definition cal_resume :: "config \<Rightarrow> predictor \<Rightarrow> cal_context \<Rightarrow> coordinator \<Rightarrow> cal_decision \<times> coordinator" where
  "cal_resume cfg predict x c =
     with_provenance 0 ''resume''
       (case co_run c of
          None \<Rightarrow> (case co_last c of Some d \<Rightarrow> (d, c) | None \<Rightarrow> cal_terminal ''incomplete'' None [''not_started''] [] c)
        | Some r \<Rightarrow>
            if guard_reasons x \<noteq> [] then cal_terminal ''safety_aborted'' (actual_stage c) (guard_reasons x) [] c
            else
              let (probe, reasons) = bound_probe cfg predict (rs_probe r) x in
              if reasons \<noteq> [] \<and> reasons \<noteq> [NO_ROOM] then cal_terminal ''safety_aborted'' (actual_stage c) reasons [] c
              else
                let r1 = r\<lparr>rs_probe := probe\<rparr>; c1 = c\<lparr>co_paused := False, co_run := Some r1\<rparr>
                in remember (decision_of cfg True probe (shown_stage c1) r1
                     [cal_event_of ''resumed'' (actual_stage c1) probe probe r1 []]) c1)"

definition resume_from_coast ::
    "config \<Rightarrow> predictor \<Rightarrow> cal_context \<Rightarrow> cal_run \<Rightarrow> coordinator \<Rightarrow> cal_decision \<times> coordinator" where
  "resume_from_coast cfg predict x r c =
     (let center = cf_centers cfg ! rs_index r in
      if cf_tolerance cfg < \<bar>cx_temp x - center\<bar> \<or> cf_tolerance cfg < \<bar>cx_target x - center\<bar>
      then remember (decision_of cfg True 0 (Some COAST) r []) c
      else
        let (probe, reasons) = bound_probe cfg predict (hd (rs_schedule r)) x in
        if reasons = [NO_ROOM] then remember (decision_of cfg True 0 (Some COAST) r []) c
        else if reasons \<noteq> [] then cal_terminal ''safety_aborted'' (actual_stage c) reasons [] c
        else
          let r1 = (fresh_run (rs_revision r) (rs_seed r) (rs_index r) (rs_started r) (rs_plan r) (rs_schedule r))
                     \<lparr>rs_probe := probe, rs_history := rs_history r\<rparr>;
              c1 = c\<lparr>co_run := Some r1\<rparr>
          in remember (decision_of cfg True probe (actual_stage c1) r1
               [cal_event_of ''stage_started'' (actual_stage c1) (hd (rs_schedule r1)) probe r1 []]) c1)"

definition wait_for_room :: "config \<Rightarrow> rat \<Rightarrow> cal_run \<Rightarrow> coordinator \<Rightarrow> cal_decision \<times> coordinator" where
  "wait_for_room cfg intended r c =
     (let r1 = r\<lparr>rs_position := rs_position r - 1, rs_probe := 0\<rparr>; c1 = c\<lparr>co_run := Some r1\<rparr>
      in remember (decision_of cfg True 0 (shown_stage c1) r1
           [cal_event_of ''probe_skipped'' (actual_stage c1) intended 0 r1 [NO_ROOM]]) c1)"

definition issue_probe ::
    "config \<Rightarrow> predictor \<Rightarrow> rat \<Rightarrow> cal_context \<Rightarrow> cal_run \<Rightarrow> coordinator \<Rightarrow> cal_decision \<times> coordinator" where
  "issue_probe cfg predict intended x r c =
     (let (probe, reasons) = bound_probe cfg predict intended x in
      if reasons = [NO_ROOM] then wait_for_room cfg intended r c
      else if reasons \<noteq> [] then cal_terminal ''safety_aborted'' (actual_stage c) reasons [] c
      else
        let r1 = r\<lparr>rs_probe := probe\<rparr>; c1 = c\<lparr>co_run := Some r1\<rparr>
        in remember (decision_of cfg True probe (shown_stage c1) r1
             [cal_event_of ''probe_changed'' (actual_stage c1) intended probe r1 []]) c1)"

definition complete_stage :: "config \<Rightarrow> cal_context \<Rightarrow> cal_run \<Rightarrow> coordinator \<Rightarrow> cal_decision \<times> coordinator" where
  "complete_stage cfg x r c =
     (let stage = actual_stage c;
          event = cal_event_of ''stage_completed'' stage 0 0 r [];
          c1 = c\<lparr>co_history := co_history c @ [run_progress r]\<rparr>
      in if rs_index r = length STAGES - 1 then cal_terminal ''completed'' stage [] [event] c1
         else
           let r1 = (fresh_run (rs_revision r) (rs_seed r) (Suc (rs_index r)) (cx_now x) (rs_plan r) (rs_schedule r))
                      \<lparr>rs_history := co_history c1, rs_coasting := True\<rparr>
           in remember (decision_of cfg True 0 (Some COAST) r1 [event]) (c1\<lparr>co_run := Some r1\<rparr>))"

text \<open>The run after the frame just realized.\<close>

definition observe_realized :: "cal_context \<Rightarrow> cal_run \<Rightarrow> cal_run" where
  "observe_realized x r =
     (let realized_probe = cx_realized_q x - cx_baseline_q x
      in r\<lparr>rs_position := Suc (rs_position r), rs_eligible := rs_eligible r + 1,
           rs_values := rs_values r @ [cx_realized_q x],
           rs_positive := rs_positive r + of_bool (0 < realized_probe),
           rs_negative := rs_negative r + of_bool (realized_probe < 0),
           rs_probe_sum := rs_probe_sum r + realized_probe, rs_rank := max (rs_rank r) (cx_rank x),
           rs_coverage := max (rs_coverage r) (cx_coverage x), rs_continuous := (rs_continuous r \<and> cx_continuous x),
           rs_probe := 0, rs_clipping := rs_clipping r + realized_probe - rs_probe r, rs_coasting := False\<rparr>)"

definition cal_advance :: "config \<Rightarrow> predictor \<Rightarrow> cal_context \<Rightarrow> coordinator \<Rightarrow> cal_decision \<times> coordinator" where
  "cal_advance cfg predict x c =
     (case co_run c of
        None \<Rightarrow> (case co_last c of Some d \<Rightarrow> (d, c) | None \<Rightarrow> cal_terminal ''incomplete'' None [''not_started''] [] c)
      | Some r \<Rightarrow>
          if co_paused c then
            (case co_last c of Some d \<Rightarrow> (d, c) | None \<Rightarrow> (decision_of cfg True 0 (shown_stage c) r [], c))
          else if cf_timeout cfg \<le> cx_now x - rs_started r then cal_terminal ''stage_timeout'' (actual_stage c) [''timeout''] [] c
          else if guard_reasons x \<noteq> [] then cal_terminal ''safety_aborted'' (actual_stage c) (guard_reasons x) [] c
          else if rs_coasting r then resume_from_coast cfg predict x r c
          else
            let r1 = observe_realized x r; c1 = c\<lparr>co_run := Some r1\<rparr> in
            if length (rs_schedule r1) \<le> rs_position r1 then
              (if cf_max_probe cfg < \<bar>rs_probe_sum r1\<bar> then issue_probe cfg predict (- rs_probe_sum r1) x r1 c1
               else if ready cfg (run_progress r1) then complete_stage cfg x r1 c1
               else remember (decision_of cfg True 0 (shown_stage c1) r1
                 [cal_event_of ''incomplete'' (actual_stage c1) 0 0 r1 (incomplete_reasons cfg (run_progress r1))]) c1)
            else issue_probe cfg predict (rs_schedule r1 ! rs_position r1) x r1 c1)"

section \<open>Snapshots\<close>

record cal_snapshot =
  sn_config :: config
  sn_state :: "cal_run option"
  sn_last :: "cal_decision option"
  sn_paused :: bool
  sn_dwell_counts :: "int list"
  sn_dwell_plan :: "int list"
  sn_completed :: "progress list"

definition cal_snapshot_of :: "config \<Rightarrow> coordinator \<Rightarrow> cal_snapshot" where
  "cal_snapshot_of cfg c =
     \<lparr>sn_config = cfg, sn_state = co_run c, sn_last = co_last c, sn_paused = co_paused c, sn_dwell_counts = DWELL_COUNTS,
      sn_dwell_plan = (case co_run c of None \<Rightarrow> [] | Some r \<Rightarrow> rs_plan r), sn_completed = co_history c\<rparr>"

definition cal_from_snapshot :: "cal_snapshot \<Rightarrow> config \<times> coordinator" where
  "cal_from_snapshot s =
     (sn_config s, \<lparr>co_run = sn_state s, co_last = sn_last s, co_paused = sn_paused s, co_history = sn_completed s\<rparr>)"

lemma cal_snapshot_roundtrip: "cal_from_snapshot (cal_snapshot_of cfg c) = (cfg, c)"
  by (simp add: cal_from_snapshot_def cal_snapshot_of_def)

end
