(* ===== verification/Calibration_Safety.thy ===== *)
theory Calibration_Safety
  imports Calibration_Coordinator
begin

text \<open>
  What the coordinator of \<open>Calibration_Coordinator\<close> guarantees. Its methods form one machine (\<open>cal_step\<close>) that keeps
  \<open>cal_ok\<close>, an instance of \<open>guarded_machine\<close>; a probe is traced back to the prediction that allowed it
  (\<open>issued\<close>); the start of a stage is bounded (\<open>due\<close>), which ends every run; and two places where the code
  does otherwise than it says are proved as such.
\<close>

section \<open>A calibration to try the theorems on\<close>

definition demo_context :: "rat \<Rightarrow> cal_context" where
  "demo_context now =
     \<lparr>cx_now = now, cx_temp = 107, cx_target = 107, cx_baseline_q = 1 / 4, cx_realized_q = 3 / 10, cx_ceiling = 250,
      cx_allocator = 1, cx_error_rate = 1, cx_capability = 1, cx_saturation = 1, cx_rank = 1, cx_coverage = 1,
      cx_lid_open = False, cx_manual_mode = False, cx_manual_output = False, cx_safety_inhibited = False,
      cx_temperature_guard = False, cx_probe_valid = True, cx_stale_result = False, cx_skipped_frame = False,
      cx_reset_frame = False, cx_continuous = True, cx_actuation_known = True, cx_fallback = False\<rparr>"

definition demo_predictor :: predictor where
  "demo_predictor = Some (\<lambda>baseline probe x. Inr (Fin (200 + 100 * probe)))"

lemma demo_config: "mk_config default_config = Inr default_config"
  by code_simp

text \<open>The operations of the coordinator as one machine.\<close>

datatype cal_op =
    Op_Start int int cal_context
  | Op_Stop
  | Op_Reset
  | Op_Cancel string
  | Op_Pause
  | Op_Resume cal_context
  | Op_Advance cal_context

fun cal_step :: "config \<Rightarrow> predictor \<Rightarrow> coordinator \<Rightarrow> cal_op \<Rightarrow> coordinator result" where
  "cal_step cfg p c (Op_Start revision seed x) = Inr (snd (cal_start cfg p revision seed x c))"
| "cal_step cfg p c Op_Stop = Inr (snd (cal_stop c))"
| "cal_step cfg p c Op_Reset = Inr (snd (cal_reset c))"
| "cal_step cfg p c (Op_Cancel reason) = ebind (cal_cancel reason c) (\<lambda>dc. Inr (snd dc))"
| "cal_step cfg p c Op_Pause = Inr (snd (cal_pause cfg c))"
| "cal_step cfg p c (Op_Resume x) = Inr (snd (cal_resume cfg p x c))"
| "cal_step cfg p c (Op_Advance x) = Inr (snd (cal_advance cfg p x c))"

section \<open>The schedule\<close>

lemma sum_dwell_frames [simp]: "sum_list (dwell_frames d) = d"
  by (simp add: dwell_frames_def sum_list_replicate)

lemma sum_expand: "sum_list (expand plan) = sum_list plan"
  by (induction plan rule: expand.induct) simp_all

lemma sum_signed_dwell_plan: "sum_list (signed_dwell_plan seed) = 0"
proof -
  have "sum_list (concat (map (\<lambda>n. [s * n, - s * n]) ns)) = (0 :: int)" for s ns
    by (induction ns) simp_all
  then show ?thesis by (simp add: signed_dwell_plan_def Let_def)
qed

lemma expand_entries: "set (expand plan) \<subseteq> {-1, 0, 1}"
  by (induction plan rule: expand.induct) (auto simp: dwell_frames_def)

lemma length_expand: "length (expand plan) = nat (sum_list (map abs plan)) + (length plan + 1) div 2"
proof (induction plan rule: expand.induct)
  case (1 a b plan)
  have "0 \<le> sum_list (map abs plan)" by (induction plan) auto
  with 1 show ?case by (simp add: dwell_frames_def nat_add_distrib)
qed (simp_all add: dwell_frames_def)

lemma sum_list_scaled: "sum_list (map (\<lambda>s. of_int s * (k :: rat)) xs) = of_int (sum_list xs) * k"
  by (induction xs) (simp_all add: algebra_simps)

lemma signed_dwell_plan_shape:
  obtains s ns where "s \<in> {-1, 1}" "signed_dwell_plan seed = concat (map (\<lambda>n. [s * n, - s * n]) ns)"
    "length ns = 6" "sum_list (map abs ns) = 19"
proof -
  define k where "k = nat (seed mod 6)"
  let ?ns = "drop k DWELL_COUNTS @ take k DWELL_COUNTS"
  have "length ?ns = length DWELL_COUNTS"
    by (metis add.commute append_take_drop_id length_append)
  then have *: "length ?ns = 6" by (simp add: DWELL_COUNTS_def)
  have "sum_list (map abs ?ns) = sum_list (map abs DWELL_COUNTS)"
    by (metis add.commute append_take_drop_id map_append sum_list_append)
  then have "sum_list (map abs ?ns) = 19" by (simp add: DWELL_COUNTS_def)
  with * show ?thesis
    by (intro that [of "if odd seed then -1 else 1" ?ns]) (auto simp: signed_dwell_plan_def Let_def k_def)
qed

lemma dwell_total: "sum_list (map abs (signed_dwell_plan seed)) = 38" "length (signed_dwell_plan seed) = 12"
proof -
  obtain s ns where s: "s \<in> {-1, 1}" "signed_dwell_plan seed = concat (map (\<lambda>n. [s * n, - s * n]) ns)"
    "length ns = 6" "sum_list (map abs ns) = 19" by (rule signed_dwell_plan_shape)
  have "sum_list (map abs (concat (map (\<lambda>n. [s * n, - s * n]) ns))) = 2 * sum_list (map abs ns)"
    using s(1) by (induction ns) auto
  with s(2,4) show "sum_list (map abs (signed_dwell_plan seed)) = 38" by simp
  have "length (concat (map (\<lambda>n. [s * n, - s * n]) ns)) = 2 * length ns" by (induction ns) simp_all
  with s(2,3) show "length (signed_dwell_plan seed) = 12" by simp
qed

lemma signed_dwell_plan_first: "signed_dwell_plan seed \<noteq> []"
  using dwell_total(2) [of seed] by auto

lemma length_probe_schedule: "length (probe_schedule cfg seed) = 44"
  by (simp add: probe_schedule_def length_expand dwell_total)

text \<open>The probe schedule of every seed has 44 slots, each the full probe up, the full probe down or
  none, and its slots add up to exactly zero: superimposing it on the load leaves the mean load as it was.\<close>

theorem probe_schedule_zero_mean:
  "sum_list (probe_schedule cfg seed) = 0 \<and> length (probe_schedule cfg seed) = 44
   \<and> set (probe_schedule cfg seed) \<subseteq> {cf_max_probe cfg, 0, - cf_max_probe cfg}"
proof (intro conjI)
  show "sum_list (probe_schedule cfg seed) = 0"
    by (simp add: probe_schedule_def sum_list_scaled sum_expand sum_signed_dwell_plan)
  show "set (probe_schedule cfg seed) \<subseteq> {cf_max_probe cfg, 0, - cf_max_probe cfg}"
    using expand_entries [of "signed_dwell_plan seed"] by (fastforce simp: probe_schedule_def)
qed (rule length_probe_schedule)

section \<open>What the coordinator keeps\<close>

text \<open>A run stands in the stage after the completed ones; every completed stage had met the requirements.\<close>

definition run_ok :: "config \<Rightarrow> progress list \<Rightarrow> cal_run \<Rightarrow> bool" where
  "run_ok cfg hist r \<longleftrightarrow>
     rs_index r < 3 \<and> length hist = rs_index r \<and> rs_schedule r = probe_schedule cfg (rs_seed r)
     \<and> \<bar>rs_probe r\<bar> \<le> cf_max_probe cfg"

definition core_ok :: "config \<Rightarrow> coordinator \<Rightarrow> bool" where
  "core_ok cfg c \<longleftrightarrow>
     (\<forall>r. co_run c = Some r \<longrightarrow> run_ok cfg (co_history c) r) \<and> list_all (ready cfg) (co_history c)
     \<and> length (co_history c) \<le> 3"

definition decision_ok :: "config \<Rightarrow> progress list \<Rightarrow> cal_decision \<Rightarrow> bool" where
  "decision_ok cfg hist d \<longleftrightarrow>
     \<bar>de_probe d\<bar> \<le> cf_max_probe cfg \<and> (de_active d \<or> de_probe d = 0)
     \<and> (de_outcome d = Some ''completed'' \<longrightarrow> length hist = 3)"

definition cal_ok :: "config \<Rightarrow> coordinator \<Rightarrow> bool" where
  "cal_ok cfg c \<longleftrightarrow>
     core_ok cfg c \<and> (co_run c \<noteq> None \<longrightarrow> co_last c \<noteq> None)
     \<and> (\<forall>d. co_last c = Some d \<longrightarrow>
          decision_ok cfg (co_history c) d \<and> de_completed d = take (length (co_history c)) STAGES)"

text \<open>An operation that succeeds answers with the decision it remembers.\<close>

definition good :: "config \<Rightarrow> cal_decision \<times> coordinator \<Rightarrow> bool" where
  "good cfg dc \<longleftrightarrow> cal_ok cfg (snd dc) \<and> co_last (snd dc) = Some (fst dc)"

lemma good_snd: "good cfg dc \<Longrightarrow> cal_ok cfg (snd dc)"
  by (simp add: good_def)

lemma cal_ok_core: "cal_ok cfg c \<Longrightarrow> core_ok cfg c"
  by (simp add: cal_ok_def)

lemma good_last: "cal_ok cfg c \<Longrightarrow> co_last c = Some d \<Longrightarrow> good cfg (d, c)"
  by (simp add: good_def)

lemma good_remember:
  "core_ok cfg c \<Longrightarrow> decision_ok cfg (co_history c) d \<Longrightarrow> good cfg (remember d c)"
  by (simp add: good_def remember_def Let_def cal_ok_def core_ok_def decision_ok_def)

lemma good_decision: "good cfg dc \<Longrightarrow> decision_ok cfg (co_history (snd dc)) (fst dc)"
  by (simp add: good_def cal_ok_def)

lemma decision_ok_provenance:
  "decision_ok cfg hist d \<Longrightarrow> decision_ok cfg hist (d\<lparr>de_revision := revision, de_action := action\<rparr>)"
  by (simp add: decision_ok_def)

lemma good_provenance: "good cfg dc \<Longrightarrow> good cfg (with_provenance revision action dc)"
  unfolding with_provenance_def
  by (intro good_remember decision_ok_provenance good_decision cal_ok_core good_snd)

lemma decision_ok_of [simp]:
  "decision_ok cfg hist (mk_decision active q stage pg events target)
   \<longleftrightarrow> \<bar>q\<bar> \<le> cf_max_probe cfg \<and> (active \<or> q = 0)"
  "decision_ok cfg hist (decision_of cfg active q stage r events)
   \<longleftrightarrow> \<bar>q\<bar> \<le> cf_max_probe cfg \<and> (active \<or> q = 0)"
  by (simp_all add: decision_ok_def mk_decision_def decision_of_def)

lemma good_terminal:
  assumes "core_ok cfg c" "0 \<le> cf_max_probe cfg" "kind = ''completed'' \<Longrightarrow> length (co_history c) = 3"
  shows "good cfg (cal_terminal kind stage reasons prefix c)"
proof -
  from assms(1) have "core_ok cfg (c\<lparr>co_run := None, co_paused := False\<rparr>)"
    by (simp add: core_ok_def)
  with assms(2,3) show ?thesis
    unfolding cal_terminal_def Let_def
    by (intro good_remember) (simp_all add: decision_ok_def mk_decision_def)
qed

text \<open>A probe is none, or what a predictor accepted within the room.\<close>

lemma bound_probe_cases:
  assumes "bound_probe cfg predict q x = (b, reasons)"
  obtains "b = 0" "reasons \<noteq> []"
    | p predicted where "predict = Some p" "reasons = []" "0 < probe_room cfg q x"
        "b = max (- probe_room cfg q x) (min (probe_room cfg q x) q)"
        "p (cx_baseline_q x) b x = Inr (Fin predicted)" "predicted < cx_ceiling x"
  using assms
  by (auto simp: bound_probe_def Let_def NO_ROOM_def split: option.splits if_splits sum.splits pyfloat.splits)

lemma probe_room_le: "probe_room cfg q x \<le> cf_max_probe cfg"
  by (simp add: probe_room_def)

lemma clamp_abs: "0 < (room :: rat) \<Longrightarrow> \<bar>max (- room) (min room q)\<bar> \<le> room"
  by (simp add: abs_le_iff)

lemma bound_probe_small:
  assumes "bound_probe cfg p q x = (b, reasons)" "0 \<le> cf_max_probe cfg"
  shows "\<bar>b\<bar> \<le> cf_max_probe cfg"
  using assms(1)
proof (cases rule: bound_probe_cases)
  case 1
  with assms(2) show ?thesis by simp
next
  case 2
  with clamp_abs [of "probe_room cfg q x" q] probe_room_le [of cfg q x] show ?thesis by simp
qed

lemma core_ok_run: "core_ok cfg c \<Longrightarrow> run_ok cfg (co_history c) r \<Longrightarrow> core_ok cfg (c\<lparr>co_run := Some r\<rparr>)"
  by (simp add: core_ok_def)

lemma run_ok_observe [simp]: "0 \<le> cf_max_probe cfg \<Longrightarrow> run_ok cfg hist r \<Longrightarrow> run_ok cfg hist (observe_realized x r)"
  by (simp add: run_ok_def observe_realized_def Let_def)


text \<open>The decisions a call falls back on when nothing runs.\<close>

lemma good_or_last:
  assumes "cal_ok cfg c" "0 \<le> cf_max_probe cfg" "kind \<noteq> ''completed''"
  shows "good cfg (case co_last c of Some d \<Rightarrow> (d, c) | None \<Rightarrow> cal_terminal kind stage reasons prefix c)"
  using assms by (auto intro: good_last good_terminal dest: cal_ok_core split: option.split)

lemma good_wait:
  assumes "core_ok cfg c" "run_ok cfg (co_history c) r" "0 \<le> cf_max_probe cfg"
  shows "good cfg (wait_for_room cfg q r c)"
  unfolding wait_for_room_def Let_def
  using assms by (intro good_remember core_ok_run) (simp_all add: run_ok_def)

lemma good_issue:
  assumes "core_ok cfg c" "run_ok cfg (co_history c) r" "0 \<le> cf_max_probe cfg"
  shows "good cfg (issue_probe cfg p q x r c)"
proof (cases "bound_probe cfg p q x")
  case (Pair b reasons)
  then have "\<bar>b\<bar> \<le> cf_max_probe cfg" using assms(3) by (rule bound_probe_small)
  with assms Pair show ?thesis
    unfolding issue_probe_def Let_def
    by (auto intro!: good_wait good_terminal good_remember core_ok_run simp: run_ok_def)
qed

lemma run_ok_fresh [simp]:
  "run_ok cfg hist (fresh_run revision seed i t plan (probe_schedule cfg seed))
   \<longleftrightarrow> i < 3 \<and> length hist = i \<and> 0 \<le> cf_max_probe cfg"
  by (auto simp: run_ok_def fresh_run_def)

lemma run_ok_provenance:
  "run_ok cfg hist r \<Longrightarrow> \<bar>q\<bar> \<le> cf_max_probe cfg \<Longrightarrow> run_ok cfg hist (r\<lparr>rs_probe := q\<rparr>)"
  by (simp add: run_ok_def)

lemma good_coast:
  assumes "cal_ok cfg c" "co_run c = Some r" "0 \<le> cf_max_probe cfg"
  shows "good cfg (resume_from_coast cfg p x r c)"
proof (cases "bound_probe cfg p (hd (rs_schedule r)) x")
  case (Pair b reasons)
  then have "\<bar>b\<bar> \<le> cf_max_probe cfg" using assms(3) by (rule bound_probe_small)
  moreover have "core_ok cfg c" "run_ok cfg (co_history c) r"
    using assms(1,2) by (auto simp: cal_ok_def core_ok_def)
  ultimately show ?thesis
    using assms(3) Pair unfolding resume_from_coast_def Let_def
    by (auto intro!: good_terminal good_remember core_ok_run simp: run_ok_def fresh_run_def)
qed

lemma good_complete_stage:
  assumes "core_ok cfg c" "co_run c = Some r" "ready cfg (run_progress r)" "0 \<le> cf_max_probe cfg"
  shows "good cfg (complete_stage cfg x r c)"
proof (cases "rs_index r = length STAGES - 1")
  case True
  have run: "run_ok cfg (co_history c) r" using assms(1,2) by (simp add: core_ok_def)
  with True have len: "length (co_history c) = 2" by (simp add: run_ok_def STAGES_def)
  have "good cfg (cal_terminal ''completed'' stage [] prefix (c\<lparr>co_history := co_history c @ [run_progress r]\<rparr>))"
    for stage prefix
  proof -
    have "cal_terminal ''completed'' stage [] prefix (c\<lparr>co_history := co_history c @ [run_progress r]\<rparr>)
      = remember (mk_decision False 0 stage (run_progress r)
          (prefix @ [\<lparr>ce_kind = ''completed'', ce_stage = stage, ce_intended = 0, ce_bounded = 0,
             ce_probe_sum = pg_probe_sum (run_progress r), ce_reasons = []\<rparr>]) None
            \<lparr>de_outcome := Some ''completed'', de_outcome_reasons := []\<rparr>)
          (c\<lparr>co_history := co_history c @ [run_progress r], co_run := None, co_paused := False\<rparr>)"
      using assms(2) by (simp add: cal_terminal_def Let_def)
    also have "good cfg \<dots>"
      using assms len by (intro good_remember) (simp_all add: core_ok_def decision_ok_def mk_decision_def)
    finally show ?thesis .
  qed
  with True show ?thesis by (simp add: complete_stage_def Let_def)
next
  case False
  have "run_ok cfg (co_history c) r" using assms(1,2) by (simp add: core_ok_def)
  with False assms show ?thesis
    unfolding complete_stage_def Let_def
    by (auto intro!: good_remember simp: core_ok_def run_ok_def fresh_run_def STAGES_def)
qed

lemma good_advance:
  assumes "cal_ok cfg c" "0 \<le> cf_max_probe cfg"
  shows "good cfg (cal_advance cfg p x c)"
proof (cases "co_run c")
  case None
  with assms show ?thesis by (auto simp: cal_advance_def intro!: good_or_last)
next
  case (Some r)
  note core = cal_ok_core [OF assms(1)]
  have run: "run_ok cfg (co_history c) r" using core Some by (simp add: core_ok_def)
  obtain d where d: "co_last c = Some d" using assms(1) Some by (auto simp: cal_ok_def)
  define r1 where "r1 = observe_realized x r"
  define c1 where "c1 = c\<lparr>co_run := Some r1\<rparr>"
  have r1: "run_ok cfg (co_history c1) r1" using run assms(2) by (simp add: r1_def c1_def)
  then have c1: "core_ok cfg c1" using core by (simp add: c1_def core_ok_run)
  have "good cfg (cal_terminal ''stage_timeout'' s rs [] c)" "good cfg (cal_terminal ''safety_aborted'' s rs [] c)" for s rs
    using core assms(2) by (auto intro: good_terminal)
  moreover have "good cfg (d, c)" using assms(1) d by (rule good_last)
  moreover have "good cfg (resume_from_coast cfg p x r c)" using assms Some by (intro good_coast)
  moreover have "good cfg (issue_probe cfg p q x r1 c1)" for q using c1 r1 assms(2) by (rule good_issue)
  moreover have "good cfg (complete_stage cfg x r1 c1)" if "ready cfg (run_progress r1)"
    using c1 _ that assms(2) by (rule good_complete_stage) (simp add: c1_def)
  moreover have "good cfg (remember (decision_of cfg True 0 (shown_stage c1) r1 es) c1)" for es
    using c1 assms(2) by (intro good_remember) simp_all
  ultimately show ?thesis
    using Some d unfolding cal_advance_def Let_def r1_def c1_def by simp
qed

lemma good_start:
  assumes "cal_ok cfg c" "0 \<le> cf_max_probe cfg"
  shows "good cfg (cal_start cfg p revision seed x c)"
proof -
  note core = cal_ok_core [OF assms(1)]
  define r where "r = fresh_run revision seed 0 (cx_now x) (signed_dwell_plan seed) (probe_schedule cfg seed)"
  obtain b reasons where b: "bound_probe cfg p (hd (probe_schedule cfg seed)) x = (b, reasons)" by force
  then have small: "\<bar>b\<bar> \<le> cf_max_probe cfg" using assms(2) by (rule bound_probe_small)
  have rejected: "good cfg (cal_terminal ''start_rejected'' s rs [] c)" for s rs
    using core assms(2) by (auto intro: good_terminal)
  have refused: "good cfg (cal_terminal ''start_rejected'' s rs [] (c\<lparr>co_run := Some r\<rparr>))" for s rs
  proof -
    have "cal_terminal ''start_rejected'' s rs [] (c\<lparr>co_run := Some r\<rparr>) =
      remember (mk_decision False 0 s (run_progress r)
          [\<lparr>ce_kind = ''start_rejected'', ce_stage = s, ce_intended = 0, ce_bounded = 0,
             ce_probe_sum = pg_probe_sum (run_progress r), ce_reasons = rs\<rparr>] None
            \<lparr>de_outcome := Some ''start_rejected'', de_outcome_reasons := rs\<rparr>)
          (c\<lparr>co_run := None, co_paused := False\<rparr>)"
      by (simp add: cal_terminal_def Let_def)
    also have "good cfg \<dots>"
      using core assms(2) by (intro good_remember) (simp_all add: core_ok_def decision_ok_def mk_decision_def)
    finally show ?thesis .
  qed
  have "good cfg (remember (mk_decision True b s pg es t) (c\<lparr>co_history := [], co_run := Some (r\<lparr>rs_probe := b\<rparr>)\<rparr>))"
    for s pg es t
    using small assms(2) by (intro good_remember) (simp_all add: core_ok_def r_def run_ok_provenance)
  with rejected refused b show ?thesis
    by (auto simp: cal_start_def Let_def r_def intro!: good_provenance)
qed

lemma good_resume:
  assumes "cal_ok cfg c" "0 \<le> cf_max_probe cfg"
  shows "good cfg (cal_resume cfg p x c)"
proof (cases "co_run c")
  case None
  with assms show ?thesis by (auto simp: cal_resume_def intro!: good_provenance good_or_last)
next
  case (Some r)
  note core = cal_ok_core [OF assms(1)]
  obtain b reasons where b: "bound_probe cfg p (rs_probe r) x = (b, reasons)" by force
  then have small: "\<bar>b\<bar> \<le> cf_max_probe cfg" using assms(2) by (rule bound_probe_small)
  have "run_ok cfg (co_history c) (r\<lparr>rs_probe := b\<rparr>)"
    using core Some small by (simp add: core_ok_def run_ok_provenance)
  then have "core_ok cfg (c\<lparr>co_paused := False, co_run := Some (r\<lparr>rs_probe := b\<rparr>)\<rparr>)"
    using core by (simp add: core_ok_def)
  then have "good cfg (remember (decision_of cfg True b s (r\<lparr>rs_probe := b\<rparr>) es)
      (c\<lparr>co_paused := False, co_run := Some (r\<lparr>rs_probe := b\<rparr>)\<rparr>))" for s es
    using small by (intro good_remember) simp_all
  with core assms(2) Some b show ?thesis
    by (auto simp: cal_resume_def Let_def intro!: good_provenance good_terminal)
qed

lemma good_pause:
  assumes "cal_ok cfg c" "0 \<le> cf_max_probe cfg"
  shows "good cfg (cal_pause cfg c)"
  using assms cal_ok_core [OF assms(1)]
  by (cases "co_run c") (auto simp: cal_pause_def core_ok_def intro!: good_provenance good_or_last good_remember)

lemma good_stop:
  assumes "cal_ok cfg c" "0 \<le> cf_max_probe cfg"
  shows "good cfg (cal_stop c)"
  using assms cal_ok_core [OF assms(1)]
  by (cases "co_run c") (auto simp: cal_stop_def intro!: good_provenance good_or_last good_terminal)

lemma good_reset:
  assumes "cal_ok cfg c" "0 \<le> cf_max_probe cfg"
  shows "good cfg (cal_reset c)"
  unfolding cal_reset_def Let_def
  using assms by (intro good_provenance good_remember) (simp_all add: core_ok_def)

lemma good_cancel:
  assumes "cal_ok cfg c" "0 \<le> cf_max_probe cfg" "cal_cancel reason c = Inr dc"
  shows "good cfg dc"
  using assms cal_ok_core [OF assms(1)]
  by (auto simp: cal_cancel_def intro!: good_provenance good_terminal split: if_splits)

lemma good_cancel_ok:
  "cal_cancel reason c = Inr (d, t) \<Longrightarrow> cal_ok cfg c \<Longrightarrow> 0 \<le> cf_max_probe cfg \<Longrightarrow> cal_ok cfg t"
  using good_cancel [THEN good_snd] by fastforce

lemmas good_operations = good_start good_stop good_reset good_pause good_resume good_advance


interpretation coordinator_machine: guarded_machine "cal_step cfg p" "\<lambda>c. 0 \<le> cf_max_probe cfg \<and> cal_ok cfg c"
proof
  fix c e t
  assume "0 \<le> cf_max_probe cfg \<and> cal_ok cfg c" "cal_step cfg p c e = Inr t"
  then show "0 \<le> cf_max_probe cfg \<and> cal_ok cfg t"
    by (cases e) (auto simp: ebind_Inr_iff intro: good_snd good_operations good_cancel_ok)
qed

lemma new_coordinator_ok [simp]: "cal_ok cfg new_coordinator"
  by (simp add: new_coordinator_def cal_ok_def core_ok_def)

lemma mk_config_probe: "mk_config c = Inr cfg \<Longrightarrow> 0 \<le> cf_max_probe cfg \<and> 0 < cf_timeout cfg"
  by (auto simp: mk_config_def split: list.splits if_splits)

text \<open>Over any sequence of operations, refused ones included, the decision in force asks for at most
  the configured probe, and a decision that is not active asks for none.\<close>

theorem probe_always_bounded:
  assumes "mk_config raw = Inr cfg" "co_last (foldl (attempt (cal_step cfg p)) new_coordinator ops) = Some d"
  shows "\<bar>de_probe d\<bar> \<le> cf_max_probe cfg \<and> (\<not> de_active d \<longrightarrow> de_probe d = 0)"
proof -
  from assms(1) have "0 \<le> cf_max_probe cfg \<and> cal_ok cfg (foldl (attempt (cal_step cfg p)) new_coordinator ops)"
    by (intro coordinator_machine.drive_inv) (simp add: mk_config_probe)
  with assms(2) show ?thesis by (auto simp: cal_ok_def decision_ok_def)
qed

theorem probe_always_bounded_witness:
  "\<exists>d. co_last (foldl (attempt (cal_step default_config demo_predictor)) new_coordinator
       [Op_Start 1 0 (demo_context 0), Op_Cancel [], Op_Advance (demo_context 20)]) = Some d
     \<and> \<bar>de_probe d\<bar> \<le> 5 / 100"
proof -
  let ?c = "foldl (attempt (cal_step default_config demo_predictor)) new_coordinator
       [Op_Start 1 0 (demo_context 0), Op_Cancel [], Op_Advance (demo_context 20)]"
  have "co_last ?c \<noteq> None" by code_simp
  then obtain d where d: "co_last ?c = Some d" by blast
  with probe_always_bounded [OF demo_config d] show ?thesis
    by (simp add: default_config_def)
qed




section \<open>A probe that is issued\<close>

definition issued :: "config \<Rightarrow> predictor \<Rightarrow> cal_context \<Rightarrow> rat \<Rightarrow> bool" where
  "issued cfg p x b \<longleftrightarrow> b = 0 \<or> (\<exists>q. bound_probe cfg p q x = (b, []))"

lemma issued_zero [simp]: "issued cfg p x 0"
  by (simp add: issued_def)

lemma issued_bound: "bound_probe cfg p q x = (b, reasons) \<Longrightarrow> reasons = [] \<or> b = 0"
  by (erule bound_probe_cases) auto

lemma remember_probe [simp]:
  "de_probe (fst (remember d c)) = de_probe d" "de_active (fst (remember d c)) = de_active d"
  "co_run (snd (remember d c)) = co_run c" "co_paused (snd (remember d c)) = co_paused c"
  by (simp_all add: remember_def Let_def)

lemma provenance_keeps [simp]:
  "de_probe (fst (with_provenance revision action dc)) = de_probe (fst dc)"
  "de_active (fst (with_provenance revision action dc)) = de_active (fst dc)"
  "co_run (snd (with_provenance revision action dc)) = co_run (snd dc)"
  "co_paused (snd (with_provenance revision action dc)) = co_paused (snd dc)"
  by (simp_all add: with_provenance_def)

lemma terminal_ends [simp]:
  "de_probe (fst (cal_terminal kind stage reasons prefix c)) = 0"
  "\<not> de_active (fst (cal_terminal kind stage reasons prefix c))"
  "co_run (snd (cal_terminal kind stage reasons prefix c)) = None"
  by (simp_all add: cal_terminal_def Let_def mk_decision_def)

lemma decision_of_simps [simp]:
  "de_probe (decision_of cfg active q stage r events) = q" "de_active (decision_of cfg active q stage r events) = active"
  "de_probe (mk_decision active q stage pg events target) = q" "de_active (mk_decision active q stage pg events target) = active"
  by (simp_all add: decision_of_def mk_decision_def)

lemma issued_steps:
  "issued cfg p x (de_probe (fst (issue_probe cfg p q x r c)))"
  "issued cfg p x (de_probe (fst (resume_from_coast cfg p x r c)))"
  "issued cfg p x (de_probe (fst (complete_stage cfg x r c)))"
proof -
  show "issued cfg p x (de_probe (fst (issue_probe cfg p q x r c)))"
    by (cases "bound_probe cfg p q x") (auto simp: issue_probe_def wait_for_room_def Let_def issued_def)
  show "issued cfg p x (de_probe (fst (resume_from_coast cfg p x r c)))"
    by (cases "bound_probe cfg p (hd (rs_schedule r)) x") (auto simp: resume_from_coast_def Let_def issued_def)
qed (simp add: complete_stage_def Let_def)

lemma issued_advance:
  assumes "co_run c = Some r" "\<not> co_paused c"
  shows "issued cfg p x (de_probe (fst (cal_advance cfg p x c)))
    \<and> (de_active (fst (cal_advance cfg p x c)) \<longrightarrow> guard_reasons x = [] \<and> cx_now x - rs_started r < cf_timeout cfg)"
  using assms by (simp add: cal_advance_def Let_def issued_steps)

lemma headroom_bounds:
  assumes "bound_probe cfg (Some f) q x = (b, [])" "unit_ok (cx_baseline_q x)"
  shows "\<bar>b\<bar> \<le> cx_allocator x \<and> \<bar>b\<bar> \<le> cx_error_rate x \<and> \<bar>b\<bar> \<le> cx_capability x \<and> \<bar>b\<bar> \<le> cx_saturation x
    \<and> unit_ok (cx_baseline_q x + b)"
  using assms(1)
proof (cases rule: bound_probe_cases)
  case (2 g predicted)
  let ?room = "probe_room cfg q x"
  have b: "\<bar>b\<bar> \<le> ?room" using clamp_abs [OF 2(3)] by (simp add: 2(4))
  have heads: "?room \<le> cx_allocator x" "?room \<le> cx_error_rate x" "?room \<le> cx_capability x" "?room \<le> cx_saturation x"
    by (simp_all add: probe_room_def)
  have "unit_ok (cx_baseline_q x + b)"
  proof (cases "q < 0")
    case True
    then have "?room \<le> cx_baseline_q x" by (simp add: probe_room_def)
    moreover have "b \<le> 0" using True 2(3) by (simp add: 2(4) min_def max_def)
    ultimately show ?thesis using b assms(2) by (simp add: unit_ok_def abs_le_iff)
  next
    case False
    then have "?room \<le> 1 - cx_baseline_q x" by (simp add: probe_room_def)
    moreover have "0 \<le> b" using False 2(3) by (simp add: 2(4) min_def max_def)
    ultimately show ?thesis using b assms(2) by (simp add: unit_ok_def abs_le_iff)
  qed
  with b heads show ?thesis by simp
qed simp

text \<open>C26: While nothing is paused, a frame keeps the run active only if no guard is violated and the stage
  has time left; and a probe it asks for fits every headroom, keeps the total load within its unit range, and was
  predicted to stay below the safety ceiling.\<close>

theorem issued_probe_is_safe:
  assumes "mk_context raw = Inr x" "co_run c = Some r" "\<not> co_paused c" "cal_advance cfg p x c = (d, c')"
  shows "(de_active d \<longrightarrow> guard_reasons x = [] \<and> cx_now x < rs_started r + cf_timeout cfg)
    \<and> (de_probe d \<noteq> 0 \<longrightarrow> (\<exists>f hottest. p = Some f \<and> f (cx_baseline_q x) (de_probe d) x = Inr (Fin hottest)
        \<and> hottest < cx_ceiling x \<and> \<bar>de_probe d\<bar> \<le> cx_allocator x \<and> \<bar>de_probe d\<bar> \<le> cx_error_rate x
        \<and> \<bar>de_probe d\<bar> \<le> cx_capability x \<and> \<bar>de_probe d\<bar> \<le> cx_saturation x
        \<and> unit_ok (cx_baseline_q x + de_probe d)))"
proof (intro conjI impI)
  note adv = issued_advance [OF assms(2,3), of cfg p x, unfolded assms(4) fst_conv]
  assume "de_active d"
  with adv show "guard_reasons x = []" "cx_now x < rs_started r + cf_timeout cfg" by auto
next
  note adv = issued_advance [OF assms(2,3), of cfg p x, unfolded assms(4) fst_conv]
  assume "de_probe d \<noteq> 0"
  with adv obtain q where q: "bound_probe cfg p q x = (de_probe d, [])" by (auto simp: issued_def)
  from assms(1) have "unit_ok (cx_baseline_q x)" by (auto simp: mk_context_def split: if_splits)
  then show "\<exists>f hottest. p = Some f \<and> f (cx_baseline_q x) (de_probe d) x = Inr (Fin hottest)
        \<and> hottest < cx_ceiling x \<and> \<bar>de_probe d\<bar> \<le> cx_allocator x \<and> \<bar>de_probe d\<bar> \<le> cx_error_rate x
        \<and> \<bar>de_probe d\<bar> \<le> cx_capability x \<and> \<bar>de_probe d\<bar> \<le> cx_saturation x
        \<and> unit_ok (cx_baseline_q x + de_probe d)"
    using q by (cases rule: bound_probe_cases [OF q]) (auto dest: headroom_bounds)
qed

theorem issued_probe_is_safe_witness:
  "\<exists>d c'. cal_advance default_config demo_predictor (demo_context 20)
        (snd (cal_start default_config demo_predictor 1 0 (demo_context 0) new_coordinator)) = (d, c')
     \<and> de_probe d \<noteq> 0 \<and> unit_ok (1 / 4 + de_probe d)"
proof -
  let ?c = "snd (cal_start default_config demo_predictor 1 0 (demo_context 0) new_coordinator)"
  have c: "co_run ?c \<noteq> None \<and> \<not> co_paused ?c" by code_simp
  then obtain r where r: "co_run ?c = Some r" by blast
  obtain d c' where d: "cal_advance default_config demo_predictor (demo_context 20) ?c = (d, c')" by force
  have x: "mk_context (demo_context 20) = Inr (demo_context 20)" by code_simp
  have "de_probe (fst (cal_advance default_config demo_predictor (demo_context 20) ?c)) \<noteq> 0" by code_simp
  with d have nz: "de_probe d \<noteq> 0" by simp
  with issued_probe_is_safe [OF x r _ d] c d show ?thesis
    by (auto simp: demo_context_def)
qed

section \<open>The run ends\<close>

text \<open>A stage starts at most one timeout after the one before.\<close>

definition due :: "config \<Rightarrow> rat \<Rightarrow> coordinator \<Rightarrow> bool" where
  "due cfg t0 c \<longleftrightarrow>
     (\<forall>r. co_run c = Some r \<longrightarrow> \<not> co_paused c \<and> rs_index r < 3 \<and> rs_started r \<le> t0 + of_nat (rs_index r) * cf_timeout cfg)"

lemma due_simps [simp]:
  "due cfg t0 (snd (remember d c)) = due cfg t0 c" "due cfg t0 (snd (with_provenance revision action dc)) = due cfg t0 (snd dc)"
  "due cfg t0 (snd (cal_terminal kind stage reasons prefix c))"
  by (simp_all add: due_def)

lemma due_run:
  "due cfg t0 c \<Longrightarrow> co_run c = Some r \<Longrightarrow> rs_index r' = rs_index r \<Longrightarrow> rs_started r' = rs_started r
   \<Longrightarrow> due cfg t0 (c\<lparr>co_run := Some r'\<rparr>)"
  by (simp add: due_def)

lemma due_issue: "due cfg t0 c \<Longrightarrow> co_run c = Some r \<Longrightarrow> due cfg t0 (snd (issue_probe cfg p q x r c))"
  by (cases "bound_probe cfg p q x") (auto simp: issue_probe_def wait_for_room_def Let_def intro!: due_run)

lemma due_coast: "due cfg t0 c \<Longrightarrow> co_run c = Some r \<Longrightarrow> due cfg t0 (snd (resume_from_coast cfg p x r c))"
  by (cases "bound_probe cfg p (hd (rs_schedule r)) x")
    (auto simp: resume_from_coast_def Let_def fresh_run_def intro!: due_run)

lemma due_complete:
  assumes "due cfg t0 c" "co_run c = Some r" "cx_now x < rs_started r + cf_timeout cfg"
  shows "due cfg t0 (snd (complete_stage cfg x r c))"
  using assms by (auto simp: complete_stage_def Let_def due_def STAGES_def fresh_run_def algebra_simps)

lemma due_advance:
  assumes "due cfg t0 c"
  shows "due cfg t0 (snd (cal_advance cfg p x c))"
proof (cases "co_run c")
  case None
  with assms show ?thesis by (simp add: cal_advance_def due_def split: option.split)
next
  case (Some r)
  define r1 where "r1 = observe_realized x r"
  have r1: "due cfg t0 (c\<lparr>co_run := Some r1\<rparr>)"
    using assms Some by (rule due_run) (simp_all add: r1_def observe_realized_def Let_def)
  then have steps: "due cfg t0 (snd (issue_probe cfg p q x r1 (c\<lparr>co_run := Some r1\<rparr>)))" for q
    by (rule due_issue) simp
  have completed: "due cfg t0 (snd (complete_stage cfg x r1 (c\<lparr>co_run := Some r1\<rparr>)))"
    if "cx_now x < rs_started r + cf_timeout cfg"
    using r1 _ by (rule due_complete) (simp_all add: that r1_def observe_realized_def Let_def)
  have "\<not> co_paused c" using assms Some by (simp add: due_def)
  with Some r1 steps completed assms show ?thesis
    unfolding r1_def by (auto simp: cal_advance_def Let_def due_coast)
qed

lemma advance_past_deadline:
  assumes "due cfg t0 c" "0 < cf_timeout cfg" "t0 + 3 * cf_timeout cfg \<le> cx_now x"
  shows "co_run (snd (cal_advance cfg p x c)) = None"
proof (cases "co_run c")
  case None
  then show ?thesis by (simp add: cal_advance_def split: option.split)
next
  case (Some r)
  with assms(1) have r: "\<not> co_paused c" "rs_index r < 3" "rs_started r \<le> t0 + of_nat (rs_index r) * cf_timeout cfg"
    by (auto simp: due_def)
  have "of_nat (rs_index r) * cf_timeout cfg \<le> 2 * cf_timeout cfg"
    using r(2) assms(2) by (intro mult_right_mono) (simp_all add: less_Suc_eq_le numeral_eq_Suc)
  with r(3) assms(3) have "cf_timeout cfg \<le> cx_now x - rs_started r" by simp
  with Some r(1) show ?thesis by (simp add: cal_advance_def)
qed


text \<open>The operations that neither begin a run nor hold it: everything but \<open>start\<close> and \<open>pause\<close>.\<close>

fun leaves_running :: "cal_op \<Rightarrow> bool" where
  "leaves_running (Op_Start _ _ _) = False"
| "leaves_running Op_Pause = False"
| "leaves_running _ = True"

lemma due_last:
  "due cfg t0 c \<Longrightarrow>
   due cfg t0 (snd (case co_last c of Some d \<Rightarrow> (d, c) | None \<Rightarrow> cal_terminal kind stage reasons prefix c))"
  by (cases "co_last c") simp_all

lemma due_stop: "due cfg t0 c \<Longrightarrow> due cfg t0 (snd (cal_stop c))"
  by (cases "co_run c") (simp_all add: cal_stop_def due_last)

lemma due_reset: "due cfg t0 (snd (cal_reset c))"
  by (simp add: cal_reset_def Let_def) (simp add: due_def)

lemma due_cancel: "cal_cancel reason c = Inr dc \<Longrightarrow> due cfg t0 (snd dc)"
  by (auto simp: cal_cancel_def split: if_splits)

lemma due_resume:
  assumes "due cfg t0 c"
  shows "due cfg t0 (snd (cal_resume cfg p x c))"
proof (cases "co_run c")
  case None
  with assms show ?thesis by (simp add: cal_resume_def due_last)
next
  case (Some r)
  with assms have "due cfg t0 (c\<lparr>co_paused := False, co_run := Some (r\<lparr>rs_probe := b\<rparr>)\<rparr>)" for b
    by (simp add: due_def)
  with Some show ?thesis
    by (cases "bound_probe cfg p (rs_probe r) x") (simp add: cal_resume_def Let_def)
qed

lemma due_step:
  assumes "leaves_running op" "due cfg t0 c"
  shows "due cfg t0 (attempt (cal_step cfg p) c op)"
proof (cases op)
  case (Op_Cancel reason)
  with assms(2) show ?thesis
    by (cases "cal_cancel reason c") (simp_all add: attempt_def due_cancel)
qed (use assms in \<open>simp_all add: attempt_def due_stop due_reset due_resume due_advance\<close>)

lemma idle_last:
  "co_run c = None \<Longrightarrow>
   co_run (snd (case co_last c of Some d \<Rightarrow> (d, c) | None \<Rightarrow> cal_terminal kind stage reasons prefix c)) = None"
  by (cases "co_last c") simp_all

lemma idle_cancel: "cal_cancel reason c = Inr dc \<Longrightarrow> co_run (snd dc) = None"
  by (auto simp: cal_cancel_def split: if_splits)

lemma idle_step:
  assumes "leaves_running op" "co_run c = None"
  shows "co_run (attempt (cal_step cfg p) c op) = None"
proof (cases op)
  case (Op_Cancel reason)
  with assms(2) show ?thesis
    by (cases "cal_cancel reason c") (simp_all add: attempt_def idle_cancel)
qed (use assms in \<open>simp_all add: attempt_def cal_stop_def cal_reset_def cal_resume_def cal_advance_def Let_def idle_last\<close>)

lemma due_start:
  assumes "\<not> co_paused c" "cal_start cfg p revision seed x c = (d, c')"
  shows "due cfg (cx_now x) c'"
proof -
  obtain b reasons where "bound_probe cfg p (hd (probe_schedule cfg seed)) x = (b, reasons)" by force
  then have "due cfg (cx_now x) (snd (cal_start cfg p revision seed x c))"
    using assms(1) by (auto simp: cal_start_def Let_def due_def fresh_run_def)
  with assms(2) show ?thesis by simp
qed

text \<open>C25: A calibration that is started and not paused ends: once a frame is advanced at or after three stage
  timeouts from its start, no run is active, whatever else happened in between and however the grill behaved.\<close>

theorem calibration_terminates:
  assumes "mk_config raw = Inr cfg" "\<not> co_paused c0" "cal_start cfg p revision seed x0 c0 = (d, c)"
    and "list_all leaves_running ops" "Op_Advance x \<in> set ops" "cx_now x0 + 3 * cf_timeout cfg \<le> cx_now x"
  shows "co_run (foldl (attempt (cal_step cfg p)) c ops) = None"
proof -
  have stays: "co_run (foldl (attempt (cal_step cfg p)) s es) = None" if "co_run s = None" "list_all leaves_running es" for s es
    using that by (induction es arbitrary: s) (simp_all add: idle_step)
  have "co_run (foldl (attempt (cal_step cfg p)) s es) = None"
    if "due cfg (cx_now x0) s" "list_all leaves_running es" "Op_Advance x \<in> set es" for s es
    using that
  proof (induction es arbitrary: s)
    case (Cons e es)
    show ?case
    proof (cases "e = Op_Advance x")
      case True
      have "co_run (attempt (cal_step cfg p) s e) = None"
        using advance_past_deadline [OF Cons.prems(1) _ assms(6)] mk_config_probe [OF assms(1)]
        by (simp add: True attempt_def)
      with stays Cons.prems(2) show ?thesis by simp
    next
      case False
      with Cons.prems have "co_run (foldl (attempt (cal_step cfg p)) (attempt (cal_step cfg p) s e) es) = None"
        by (intro Cons.IH) (simp_all add: due_step)
      then show ?thesis by simp
    qed
  qed simp
  with due_start [OF assms(2,3)] assms(4,5) show ?thesis by blast
qed

theorem calibration_terminates_witness:
  "co_run (foldl (attempt (cal_step default_config demo_predictor))
      (snd (cal_start default_config demo_predictor 1 0 (demo_context 0) new_coordinator))
      [Op_Advance (demo_context 20), Op_Advance (demo_context 10800)]) = None"
  by (rule calibration_terminates [where x = "demo_context 10800", OF demo_config _ surjective_pairing])
    (simp_all add: new_coordinator_def demo_context_def default_config_def)

section \<open>Where the code departs from what it says\<close>

text \<open>C24: \<open>start\<close> does not clear the pause: a run started while the last one was paused is never advanced. Every
  later frame returns the start's decision again, its probe included, with no guard and no timeout looked at.\<close>

theorem paused_restart_freezes_probe:
  assumes "co_paused c" "cal_start cfg p revision seed x c = (d, c')" "de_active d"
  shows "cal_advance cfg p y c' = (d, c') \<and> co_run c' \<noteq> None"
proof -
  obtain b reasons where b: "bound_probe cfg p (hd (probe_schedule cfg seed)) x = (b, reasons)" by force
  define r1 where "r1 = (fresh_run revision seed 0 (cx_now x) (signed_dwell_plan seed) (probe_schedule cfg seed))\<lparr>rs_probe := b\<rparr>"
  have "guard_reasons x = [] \<and> p \<noteq> None \<and> (reasons = [] \<or> reasons = [NO_ROOM])"
  proof (rule ccontr)
    assume "\<not> ?thesis"
    then have "\<not> de_active (fst (cal_start cfg p revision seed x c))"
      using b by (auto simp: cal_start_def Let_def)
    with assms(2,3) show False by simp
  qed
  then obtain dec where "cal_start cfg p revision seed x c
      = with_provenance revision ''start'' (remember dec (c\<lparr>co_history := [], co_run := Some r1\<rparr>))"
    using b by (auto simp: cal_start_def Let_def r1_def)
  with assms(1,2) have "co_paused c'" "co_run c' = Some r1" "co_last c' = Some d"
    by (auto simp: with_provenance_def remember_def Let_def)
  then show ?thesis by (simp add: cal_advance_def)
qed

theorem paused_restart_freezes_probe_witness:
  "\<exists>d c'. cal_start default_config demo_predictor 2 0 (demo_context 40)
        (snd (cal_pause default_config (snd (cal_start default_config demo_predictor 1 0 (demo_context 0) new_coordinator))))
        = (d, c')
     \<and> cal_advance default_config demo_predictor ((demo_context 999999)\<lparr>cx_lid_open := True\<rparr>) c' = (d, c')
     \<and> de_probe d = 1 / 20"
proof -
  let ?c = "snd (cal_pause default_config (snd (cal_start default_config demo_predictor 1 0 (demo_context 0) new_coordinator)))"
  have c: "co_paused ?c" by code_simp
  obtain d c' where d: "cal_start default_config demo_predictor 2 0 (demo_context 40) ?c = (d, c')" by force
  have "de_active (fst (cal_start default_config demo_predictor 2 0 (demo_context 40) ?c))
    \<and> de_probe (fst (cal_start default_config demo_predictor 2 0 (demo_context 40) ?c)) = 1 / 20" by code_simp
  with d have dd: "de_active d" "de_probe d = 1 / 20" by simp_all
  from paused_restart_freezes_probe [OF c d dd(1)] d dd(2) show ?thesis by auto
qed

text \<open>A slot that finds no room is tried again by the next frame, but the very first slot of a run is not: a start
  that finds no room waits at slot 0 with nothing issued, and the next frame goes on to slot 1.\<close>

theorem waiting_start_drops_slot:
  assumes "guard_reasons x = []" "bound_probe cfg p (hd (probe_schedule cfg seed)) x = (0, [NO_ROOM])"
    and "cal_start cfg p revision seed x c = (d, c')" "\<not> co_paused c"
    and "guard_reasons y = []" "cx_now y < cx_now x + cf_timeout cfg"
  shows "\<exists>r c1. co_run c1 = Some r \<and> rs_position r = 1
    \<and> cal_advance cfg p y c' = issue_probe cfg p (probe_schedule cfg seed ! 1) y r c1"
proof -
  define r0 where "r0 = (fresh_run revision seed 0 (cx_now x) (signed_dwell_plan seed) (probe_schedule cfg seed))\<lparr>rs_probe := 0\<rparr>"
  have "p \<noteq> None" using assms(2) by (auto simp: bound_probe_def NO_ROOM_def split: option.splits)
  then obtain dec where "cal_start cfg p revision seed x c
      = with_provenance revision ''start'' (remember dec (c\<lparr>co_history := [], co_run := Some r0\<rparr>))"
    using assms(1,2) by (auto simp: cal_start_def Let_def r0_def)
  with assms(3,4) have c': "\<not> co_paused c'" "co_run c' = Some r0"
    by (auto simp: with_provenance_def remember_def Let_def)
  have r: "rs_schedule (observe_realized y r0) = probe_schedule cfg seed" "rs_position (observe_realized y r0) = 1"
    by (simp_all add: observe_realized_def Let_def r0_def fresh_run_def)
  have "cal_advance cfg p y c'
      = issue_probe cfg p (probe_schedule cfg seed ! 1) y (observe_realized y r0) (c'\<lparr>co_run := Some (observe_realized y r0)\<rparr>)"
    using c' assms(5,6) r by (simp add: cal_advance_def Let_def length_probe_schedule r0_def fresh_run_def)
  with r show ?thesis by (intro exI conjI) simp_all
qed

theorem waiting_start_drops_slot_witness:
  "\<exists>r c1. co_run c1 = Some r \<and> rs_position r = 1
    \<and> cal_advance default_config demo_predictor (demo_context 20)
         (snd (cal_start default_config demo_predictor 1 1 ((demo_context 0)\<lparr>cx_baseline_q := 0\<rparr>) new_coordinator))
       = issue_probe default_config demo_predictor (probe_schedule default_config 1 ! 1) (demo_context 20) r c1"
  by (rule waiting_start_drops_slot [OF _ _ surjective_pairing]) code_simp+

text \<open>The retry of every later slot.\<close>

lemma wait_retries_slot:
  assumes "wait_for_room cfg q r c = (d, c')" "co_run c' = Some r'" "0 < rs_position r"
  shows "rs_position (observe_realized y r') = rs_position r"
  using assms by (auto simp: wait_for_room_def remember_def Let_def observe_realized_def)


end
