(* ===== verification/Calibration_Runtime.thy ===== *)
theory Calibration_Runtime
  imports Calibration_Safety Frame_Observation
begin

text \<open>
  \<open>controller/mpc_calibration.py\<close>: the owner of operator commands, provenance and output feedback around the
  calibration coordinator. Methods are actions on the record \<open>cal_runtime\<close>, which stands as it is where a method
  raises. The temperature forecast given to \<open>advance\<close> is an argument of the model, as are the readings of the
  monotonic clock: \<open>clock k\<close> is the \<open>k\<close>-th reading, \<open>rt_reads\<close> the number taken.
\<close>

section \<open>Commands, feedback, state\<close>

fun is_fin :: "pyfloat \<Rightarrow> bool" where
  "is_fin (Fin x) = True"
| "is_fin _ = False"

fun fin_val :: "pyfloat \<Rightarrow> rat" where
  "fin_val (Fin x) = x"
| "fin_val _ = 0"

record cal_command =
  cc_action :: string
  cc_revision :: int
  cc_ambient :: pyfloat
  cc_source :: string
  cc_empty_grill :: bool
  cc_pellets :: bool
  cc_seed :: int

definition mk_command :: "cal_command \<Rightarrow> cal_command result" where
  "mk_command c =
     ebind (check (cc_action c \<in> {''start'', ''pause'', ''resume'', ''stop'', ''reset-progress''})
              (ValueError ''invalid calibration action'')) (\<lambda>_.
     ebind (check (1 \<le> cc_revision c) (ValueError ''calibration command revision must be positive'')) (\<lambda>_.
     ebind (check (is_fin (cc_ambient c)) (ValueError ''calibration temperatures must be finite'')) (\<lambda>_.
     ebind (check (cc_source c \<in> {''measured'', ''manual'', ''weather'', ''configured''})
              (ValueError ''invalid calibration ambient source'')) (\<lambda>_.
     ebind (check (cc_empty_grill c \<and> cc_pellets c) (ValueError ''calibration confirmations are required'')) (\<lambda>_.
       Inr c)))))"

datatype operation = Command cal_command | Cancellation string

record frame_feedback =
  ff_baseline :: rat
  ff_realized :: rat
  ff_continuous :: bool
  ff_known :: bool
  ff_disposition :: disposition
  ff_result_revision :: int
  ff_command_revision :: int
  ff_command_action :: string
  ff_command_generation :: int

record cal_runtime =
  rt_horizon :: nat
  rt_u_max :: rat
  rt_coordinator :: coordinator
  rt_operations :: "operation list"
  rt_feedback :: "frame_feedback list"
  rt_frame_results :: "(int \<times> rat \<times> cal_decision) list"
  rt_last_revision :: int
  rt_ambient :: rat
  rt_ceiling :: rat
  rt_target :: rat
  rt_realized :: rat
  rt_generation :: int
  rt_feedback_at :: "rat option"
  rt_decision :: cal_decision
  rt_reads :: nat

definition idle_decision :: cal_decision where
  "idle_decision = mk_decision False 0 None no_progress [] None"

definition new_runtime :: "int \<Rightarrow> pyfloat \<Rightarrow> cal_runtime result" where
  "new_runtime horizon u_max =
     (if horizon < 1 then Inl (ValueError ''horizon_steps must be a positive integer'')
      else case u_max of
        Fin u \<Rightarrow>
          if u \<le> 0 then Inl (ValueError ''u_max must be finite and positive'')
          else Inr \<lparr>rt_horizon = nat horizon, rt_u_max = u, rt_coordinator = new_coordinator, rt_operations = [],
                 rt_feedback = [], rt_frame_results = [], rt_last_revision = 0, rt_ambient = 0, rt_ceiling = 0,
                 rt_target = 0, rt_realized = 0, rt_generation = 0, rt_feedback_at = None,
                 rt_decision = idle_decision, rt_reads = 0\<rparr>
      | _ \<Rightarrow> Inl (ValueError ''u_max must be finite and positive''))"

type_synonym 'a rt_action = "(cal_runtime, 'a) action"

type_synonym forecast = "rat list \<Rightarrow> rat list \<Rightarrow> pyfloat list result"

section \<open>Setters and requests\<close>

definition finite_celsius :: "string \<Rightarrow> pyfloat \<Rightarrow> rat result" where
  "finite_celsius message v = (case v of Fin x \<Rightarrow> Inr x | _ \<Rightarrow> Inl (ValueError message))"

definition set_target :: "pyfloat \<Rightarrow> unit rt_action" where
  "set_target v =
     abind (alift (finite_celsius ''calibration target must be finite Celsius'' v)) (\<lambda>x. amodify (rt_target_update (\<lambda>_. x)))"

definition set_ceiling :: "pyfloat \<Rightarrow> unit rt_action" where
  "set_ceiling v =
     abind (alift (finite_celsius ''safety ceiling must be finite Celsius'' v)) (\<lambda>x. amodify (rt_ceiling_update (\<lambda>_. x)))"

definition request_calibration :: "cal_command \<Rightarrow> unit rt_action" where
  "request_calibration c =
     abind (aget rt_last_revision) (\<lambda>seen.
       if cc_revision c < seen then araise (ValueError ''calibration command revision must be monotonic'')
       else if cc_revision c = seen then areturn ()
       else amodify (\<lambda>s. s\<lparr>rt_operations := rt_operations s @ [Command c], rt_last_revision := cc_revision c\<rparr>))"

definition queue_cancel :: "string \<Rightarrow> unit rt_action" where
  "queue_cancel reason =
     (if reason = [] then araise (ValueError ''calibration cancellation reason must be a non-empty string'')
      else amodify (\<lambda>s. s\<lparr>rt_operations := rt_operations s @ [Cancellation reason]\<rparr>))"

text \<open>Run a coordinator method and publish its decision, stamped with the provenance given.\<close>

definition publish :: "cal_decision \<times> coordinator \<Rightarrow> cal_decision option rt_action" where
  "publish dc =
     abind (amodify (\<lambda>s. s\<lparr>rt_coordinator := snd dc, rt_decision := fst dc\<rparr>)) (\<lambda>_. areturn (Some (fst dc)))"

definition stamp :: "int \<Rightarrow> string \<Rightarrow> int \<Rightarrow> cal_decision \<times> coordinator \<Rightarrow> cal_decision \<times> coordinator" where
  "stamp revision action generation dc =
     ((fst dc)\<lparr>de_revision := revision, de_action := action, de_generation := generation\<rparr>, snd dc)"

definition cancel_now :: "string \<Rightarrow> cal_decision option rt_action" where
  "cancel_now reason = abind (aget rt_coordinator) (\<lambda>c. abind (alift (cal_cancel reason c)) publish)"

definition cancel_immediately :: "string \<Rightarrow> cal_decision option rt_action" where
  "cancel_immediately reason =
     (if reason = [] then araise (ValueError ''calibration cancellation reason must be a non-empty string'')
      else abind (amodify (\<lambda>s. s\<lparr>rt_operations := [], rt_feedback := [], rt_frame_results := []\<rparr>)) (\<lambda>_. cancel_now reason))"

section \<open>One control step\<close>

definition runtime_context :: "rat \<Rightarrow> rat \<Rightarrow> rat option \<Rightarrow> bool \<Rightarrow> bool \<Rightarrow> (nat \<Rightarrow> rat) \<Rightarrow> cal_context rt_action" where
  "runtime_context baseline temp realized unbroken known clock =
     abind (aget id) (\<lambda>s.
     abind (amodify (rt_reads_update Suc)) (\<lambda>_.
       alift (mk_context
         \<lparr>cx_now = clock (rt_reads s), cx_temp = temp, cx_target = rt_target s, cx_baseline_q = baseline,
          cx_realized_q = (case realized of Some q \<Rightarrow> q | None \<Rightarrow> rt_realized s), cx_ceiling = rt_ceiling s,
          cx_allocator = 1, cx_error_rate = 1, cx_capability = 1, cx_saturation = 1, cx_rank = 1, cx_coverage = 1,
          cx_lid_open = False, cx_manual_mode = False, cx_manual_output = False, cx_safety_inhibited = False,
          cx_temperature_guard = False, cx_probe_valid = True, cx_stale_result = False, cx_skipped_frame = False,
          cx_reset_frame = False, cx_continuous = unbroken, cx_actuation_known = known, cx_fallback = False\<rparr>)))"

definition predict_max_c :: "nat \<Rightarrow> forecast \<Rightarrow> rat \<Rightarrow> predictor" where
  "predict_max_c horizon forecast ambient =
     Some (\<lambda>baseline probe x.
       ebind (forecast (replicate horizon (max 0 (min 1 (baseline + probe)))) (replicate horizon ambient)) (\<lambda>temperatures.
         if length temperatures = horizon \<and> list_all is_fin temperatures
         then Inr (Fin (Max (set (map fin_val temperatures))))
         else Inl (FloatingPointError ''grey-box calibration forecast is non-finite'')))"

definition predictor_of :: "forecast \<Rightarrow> cal_runtime \<Rightarrow> predictor" where
  "predictor_of forecast s = predict_max_c (rt_horizon s) forecast (rt_ambient s)"

definition provenance_matches :: "cal_decision \<Rightarrow> frame_feedback \<Rightarrow> bool" where
  "provenance_matches d f \<longleftrightarrow>
     de_active d \<and> de_revision d = ff_command_revision f \<and> de_action d = ff_command_action f
     \<and> de_generation d = ff_command_generation f"

definition consume_one :: "rat \<Rightarrow> forecast \<Rightarrow> (nat \<Rightarrow> rat) \<Rightarrow> frame_feedback \<Rightarrow> cal_decision option \<Rightarrow> cal_decision option rt_action" where
  "consume_one temp forecast clock f decision =
     abind (aget rt_decision) (\<lambda>provenance.
       if \<not> provenance_matches provenance f then areturn decision
       else if ff_disposition f = DISCARDED then cancel_now ''discarded_frame''
       else
         abind (runtime_context (ff_baseline f) temp (Some (ff_realized f)) (ff_continuous f) (ff_known f) clock) (\<lambda>x.
         abind (aget id) (\<lambda>s.
           publish (stamp (de_revision provenance) (de_action provenance) (de_generation provenance)
             (cal_advance default_config (predictor_of forecast s) x (rt_coordinator s))))))"

fun consume_feedback ::
    "rat \<Rightarrow> forecast \<Rightarrow> (nat \<Rightarrow> rat) \<Rightarrow> frame_feedback list \<Rightarrow> cal_decision option \<Rightarrow> cal_decision option rt_action" where
  "consume_feedback temp forecast clock [] decision = areturn decision"
| "consume_feedback temp forecast clock (f # fs) decision =
     abind (amodify (rt_feedback_update (\<lambda>_. fs))) (\<lambda>_.
     abind (consume_one temp forecast clock f decision) (consume_feedback temp forecast clock fs))"

definition coordinate :: "forecast \<Rightarrow> cal_command \<Rightarrow> cal_context \<Rightarrow> cal_runtime \<Rightarrow> cal_decision \<times> coordinator" where
  "coordinate forecast c x s =
     (if cc_action c = ''start''
      then cal_start default_config (predictor_of forecast s) (cc_revision c) (cc_seed c) x (rt_coordinator s)
      else if cc_action c = ''pause'' then cal_pause default_config (rt_coordinator s)
      else if cc_action c = ''resume'' then cal_resume default_config (predictor_of forecast s) x (rt_coordinator s)
      else if cc_action c = ''stop'' then cal_stop (rt_coordinator s)
      else cal_reset (rt_coordinator s))"

fun run_operation :: "rat \<Rightarrow> rat \<Rightarrow> forecast \<Rightarrow> (nat \<Rightarrow> rat) \<Rightarrow> operation \<Rightarrow> cal_decision option rt_action" where
  "run_operation baseline temp forecast clock (Cancellation reason) = cancel_now reason"
| "run_operation baseline temp forecast clock (Command c) =
     abind (amodify (rt_ambient_update (\<lambda>_. fin_val (cc_ambient c)))) (\<lambda>_.
     abind (runtime_context baseline temp None True True clock) (\<lambda>x.
     abind (amodify (\<lambda>s. if cc_action c = ''start'' then s\<lparr>rt_generation := rt_generation s + 1\<rparr> else s)) (\<lambda>_.
     abind (aget id) (\<lambda>s.
       publish (stamp (cc_revision c) (cc_action c)
         (if cc_action c = ''start'' then rt_generation s else de_generation (rt_decision s))
         (coordinate forecast c x s))))))"

fun consume_operations ::
    "rat \<Rightarrow> rat \<Rightarrow> forecast \<Rightarrow> (nat \<Rightarrow> rat) \<Rightarrow> operation list \<Rightarrow> cal_decision option \<Rightarrow> cal_decision option rt_action" where
  "consume_operations baseline temp forecast clock [] decision = areturn decision"
| "consume_operations baseline temp forecast clock (operation # rest) decision =
     abind (amodify (rt_operations_update (\<lambda>_. rest))) (\<lambda>_.
     abind (run_operation baseline temp forecast clock operation) (consume_operations baseline temp forecast clock rest))"

text \<open>Both queues drained; the decision made on the way, if any.\<close>

definition drain_queues :: "rat \<Rightarrow> rat \<Rightarrow> forecast \<Rightarrow> (nat \<Rightarrow> rat) \<Rightarrow> cal_decision option rt_action" where
  "drain_queues baseline temp forecast clock =
     abind (aget rt_feedback) (\<lambda>feedback.
     abind (consume_feedback temp forecast clock feedback None) (\<lambda>decision.
     abind (aget rt_operations) (\<lambda>operations. consume_operations baseline temp forecast clock operations decision)))"

definition runtime_advance :: "rat \<Rightarrow> rat \<Rightarrow> forecast \<Rightarrow> (nat \<Rightarrow> rat) \<Rightarrow> cal_decision rt_action" where
  "runtime_advance baseline temp forecast clock =
     abind (drain_queues baseline temp forecast clock) (\<lambda>decision.
     abind (aget rt_decision) (\<lambda>current.
     let latest = (case decision of Some d \<Rightarrow> d | None \<Rightarrow> current\<lparr>de_events := []\<rparr>)
     in abind (amodify (rt_decision_update (\<lambda>_. latest))) (\<lambda>_. areturn latest)))"

section \<open>Results and outputs\<close>

definition register_result :: "int \<Rightarrow> cal_decision option \<Rightarrow> rat option \<Rightarrow> unit rt_action" where
  "register_result revision calibration baseline =
     (case (calibration, baseline) of
        (Some d, Some load) \<Rightarrow>
          if revision \<le> 0 then areturn ()
          else amodify (\<lambda>s. s\<lparr>rt_frame_results := AList.update revision (load, d) (rt_frame_results s)\<rparr>)
      | _ \<Rightarrow> areturn ())"

definition feedback_of :: "rat \<Rightarrow> cal_decision \<Rightarrow> applied_output \<Rightarrow> cal_runtime \<Rightarrow> frame_feedback" where
  "feedback_of baseline d applied s =
     \<lparr>ff_baseline = baseline, ff_realized = rt_realized s,
      ff_continuous = (case rt_feedback_at s of None \<Rightarrow> True | Some t \<Rightarrow> t < ao_timestamp applied),
      ff_known = controller_commanded applied,
      ff_disposition =
        (if ao_disposition applied = COMPLETE \<and> \<not> ao_sample_complete applied then DISCARDED else ao_disposition applied),
      ff_result_revision = ao_result_revision applied, ff_command_revision = de_revision d,
      ff_command_action = de_action d, ff_command_generation = de_generation d\<rparr>"

definition produced_by :: "cal_decision \<Rightarrow> applied_output \<Rightarrow> bool" where
  "produced_by d applied \<longleftrightarrow>
     de_active d \<and> de_revision d = ao_calibration_revision applied \<and> de_action d = ao_calibration_action applied
     \<and> de_generation d = ao_calibration_generation applied"

definition take_result :: "int \<Rightarrow> (rat \<times> cal_decision) option rt_action" where
  "take_result revision =
     (if revision \<le> 0 then areturn None
      else
        abind (aget (\<lambda>s. map_of (rt_frame_results s) revision)) (\<lambda>produced.
        abind (amodify (rt_frame_results_update (AList.delete revision))) (\<lambda>_.
        abind (amodify (rt_frame_results_update (\<lambda>frs. if produced = None then frs else filter (\<lambda>fr. \<not> fst fr < revision) frs)))
          (\<lambda>_. areturn produced))))"

definition register_output :: "applied_output \<Rightarrow> unit rt_action" where
  "register_output applied =
     abind (aget rt_u_max) (\<lambda>u_max.
     abind (alift (normalized_load_from_auger_duty (Fin (ao_ratio applied)) (Fin u_max))) (\<lambda>q.
     abind (amodify (rt_realized_update (\<lambda>_. q))) (\<lambda>_.
       if ao_disposition applied = PROGRESS then areturn ()
       else
         abind (take_result (ao_result_revision applied)) (\<lambda>produced.
           case produced of
             None \<Rightarrow> areturn ()
           | Some (baseline, d) \<Rightarrow>
               if \<not> produced_by d applied then areturn ()
               else amodify (\<lambda>s. s\<lparr>rt_feedback_at := Some (ao_timestamp applied),
                      rt_feedback := rt_feedback s @ [feedback_of baseline d applied s]\<rparr>)))))"

section \<open>Histories of calls\<close>

datatype rt_call =
    Call_target pyfloat
  | Call_ceiling pyfloat
  | Call_request cal_command
  | Call_cancel string
  | Call_cancel_now string
  | Call_advance rat rat forecast "nat \<Rightarrow> rat"
  | Call_result int "cal_decision option" "rat option"
  | Call_output applied_output

definition ignore_value :: "('s, 'a) action \<Rightarrow> ('s, unit) action" where
  "ignore_value m = abind m (\<lambda>_. areturn ())"

fun perform :: "rt_call \<Rightarrow> unit rt_action" where
  "perform (Call_target v) = set_target v"
| "perform (Call_ceiling v) = set_ceiling v"
| "perform (Call_request c) = request_calibration c"
| "perform (Call_cancel reason) = queue_cancel reason"
| "perform (Call_cancel_now reason) = ignore_value (cancel_immediately reason)"
| "perform (Call_advance baseline temp forecast clock) = ignore_value (runtime_advance baseline temp forecast clock)"
| "perform (Call_result revision calibration baseline) = register_result revision calibration baseline"
| "perform (Call_output applied) = register_output applied"

text \<open>The object after a history of calls; a call that raises leaves what it had done.\<close>

definition rt_run :: "rt_call list \<Rightarrow> cal_runtime \<Rightarrow> cal_runtime" where
  "rt_run calls s = fold (\<lambda>call t. fst (perform call t)) calls s"

lemma rt_run_simps [simp]:
  "rt_run [] s = s" "rt_run (call # calls) s = rt_run calls (fst (perform call s))"
  by (simp_all add: rt_run_def)

lemma rt_run_keeps:
  assumes "\<And>call. keeps P (perform call)" "P s"
  shows "P (rt_run calls s)"
  using assms(2) by (induction calls arbitrary: s) (use assms(1) in \<open>auto simp: keeps_def\<close>)

section \<open>The runtime publishes what the coordinator decided\<close>

definition same_decision :: "cal_decision \<Rightarrow> cal_decision \<Rightarrow> bool" where
  "same_decision a b \<longleftrightarrow>
     de_active a = de_active b \<and> de_probe a = de_probe b \<and> de_stage a = de_stage b \<and> de_progress a = de_progress b
     \<and> de_target a = de_target b \<and> de_completed a = de_completed b \<and> de_outcome a = de_outcome b
     \<and> de_outcome_reasons a = de_outcome_reasons b"

definition rt_ok :: "cal_runtime \<Rightarrow> bool" where
  "rt_ok s \<longleftrightarrow>
     cal_ok default_config (rt_coordinator s)
     \<and> (case co_last (rt_coordinator s) of Some d \<Rightarrow> same_decision (rt_decision s) d | None \<Rightarrow> same_decision (rt_decision s) idle_decision)"

lemma same_decision_refl [simp]: "same_decision d d"
  by (simp add: same_decision_def)

lemma same_decision_events [simp]: "same_decision (d\<lparr>de_events := es\<rparr>) e = same_decision d e"
  by (simp add: same_decision_def)

lemma same_decision_stamp [simp]:
  "same_decision (d\<lparr>de_revision := r, de_action := a, de_generation := g\<rparr>) e = same_decision d e"
  by (simp add: same_decision_def)

text \<open>Anything that touches neither the coordinator nor the decision keeps it.\<close>

lemma rt_ok_view: "rt_coordinator t = rt_coordinator s \<Longrightarrow> rt_decision t = rt_decision s \<Longrightarrow> rt_ok t = rt_ok s"
  by (simp add: rt_ok_def split: option.split)

lemma keeps_rt_modify:
  assumes "\<And>s. rt_coordinator (h s) = rt_coordinator s" "\<And>s. rt_decision (h s) = rt_decision s"
  shows "keeps rt_ok (amodify h)"
  by (rule keeps_modify) (simp add: rt_ok_view [OF assms])

lemma rt_ok_published:
  assumes "good default_config dc"
  shows "rt_ok (s\<lparr>rt_coordinator := snd dc, rt_decision := fst (stamp r a g dc)\<rparr>)"
    "rt_ok (s\<lparr>rt_coordinator := snd dc, rt_decision := fst dc\<rparr>)"
  using assms by (simp_all add: rt_ok_def good_def stamp_def)

lemma default_probe [simp]: "0 \<le> cf_max_probe default_config" "cf_max_probe default_config = 1 / 20"
  by (simp_all add: default_config_def)

lemma keeps_cancel_now: "keeps rt_ok (cancel_now reason)"
  unfolding keeps_def
proof (intro allI impI)
  fix s
  assume "rt_ok s"
  then have ok: "cal_ok default_config (rt_coordinator s)" by (simp add: rt_ok_def)
  show "rt_ok (fst (cancel_now reason s))"
  proof (cases "cal_cancel reason (rt_coordinator s)")
    case (Inr dc)
    have "good default_config dc" using ok _ Inr by (rule good_cancel) simp
    then show ?thesis by (simp add: cancel_now_def Inr publish_def rt_ok_published)
  qed (use \<open>rt_ok s\<close> in \<open>simp add: cancel_now_def\<close>)
qed

lemma keeps_context: "keeps rt_ok (runtime_context baseline temp realized unbroken known clock)"
  unfolding runtime_context_def by (intro keeps_bind keeps_basic keeps_rt_modify) simp_all

lemma keeps_published:
  assumes "\<And>s. cal_ok default_config (rt_coordinator s) \<Longrightarrow> good default_config (f s)"
  shows "keeps rt_ok (abind (aget id) (\<lambda>s. publish (stamp (r s) (a s) (g s) (f s))))"
  unfolding keeps_def
proof (intro allI impI)
  fix s
  assume "rt_ok s"
  then have "good default_config (f s)" by (simp add: assms rt_ok_def)
  then show "rt_ok (fst (abind (aget id) (\<lambda>s. publish (stamp (r s) (a s) (g s) (f s))) s))"
    by (simp add: publish_def rt_ok_published) (simp add: stamp_def rt_ok_def good_def)
qed

lemma keeps_consume_one: "keeps rt_ok (consume_one temp forecast clock f decision)"
  unfolding consume_one_def
  by (intro keeps_bind keeps_basic)
    (simp add: keeps_cancel_now keeps_bind keeps_context keeps_published good_advance)

lemma keeps_consume_feedback: "keeps rt_ok (consume_feedback temp forecast clock fs decision)"
  by (induction fs arbitrary: decision)
    (auto intro!: keeps_bind keeps_rt_modify keeps_consume_one)

lemma good_coordinate:
  "cal_ok default_config (rt_coordinator s) \<Longrightarrow> good default_config (coordinate forecast c x s)"
  by (simp add: coordinate_def good_operations)

lemma keeps_run_operation: "keeps rt_ok (run_operation baseline temp forecast clock op)"
  by (cases op)
    (auto intro!: keeps_bind keeps_cancel_now keeps_context keeps_published good_coordinate keeps_rt_modify)

lemma keeps_consume_operations: "keeps rt_ok (consume_operations baseline temp forecast clock ops decision)"
  by (induction ops arbitrary: decision) (auto intro!: keeps_bind keeps_rt_modify keeps_run_operation)

lemma keeps_drain: "keeps rt_ok (drain_queues baseline temp forecast clock)"
  unfolding drain_queues_def
  by (intro keeps_bind keeps_basic keeps_consume_feedback keeps_consume_operations)

text \<open>The decision a loop hands on is the one in force.\<close>

definition in_force :: "cal_decision option \<Rightarrow> cal_runtime \<Rightarrow> bool" where
  "in_force decision s \<longleftrightarrow> decision = None \<or> decision = Some (rt_decision s)"

lemma triple_publish: "triple P (publish dc) in_force"
  by (auto simp: triple_def publish_def in_force_def)

lemma triple_then_publish: "triple P (abind m (\<lambda>x. publish (f x))) in_force"
  by (auto simp: triple_def publish_def in_force_def elim!: abind_InrE)

lemma triple_after: "(\<And>x. triple (\<lambda>_. True) (f x) Q) \<Longrightarrow> triple P (abind m f) Q"
  by (force simp: triple_def elim: abind_InrE)

lemma triple_cancel_now: "triple P (cancel_now reason) in_force"
  unfolding cancel_now_def by (intro triple_after triple_publish)

lemma triple_if: "triple P m Q \<Longrightarrow> triple P n Q \<Longrightarrow> triple P (if b then m else n) Q"
  by simp

lemma triple_get: "triple P (aget g) (\<lambda>_. P)"
  by (simp add: triple_def)

lemma triple_consume_one: "triple (in_force decision) (consume_one temp forecast clock f decision) in_force"
  unfolding consume_one_def
  by (rule triple_bind [OF triple_get])
    (intro triple_if triple_return triple_cancel_now triple_after triple_publish)

lemma triple_consume_feedback:
  "triple (in_force decision) (consume_feedback temp forecast clock fs decision) in_force"
proof (induction fs arbitrary: decision)
  case (Cons f fs)
  have "triple (in_force decision) (amodify (rt_feedback_update (\<lambda>_. fs))) (\<lambda>_. in_force decision)"
    by (simp add: triple_def in_force_def)
  then show ?case
    unfolding consume_feedback.simps by (rule triple_bind) (rule triple_bind [OF triple_consume_one Cons.IH])
qed (simp add: triple_def)

lemma triple_run_operation: "triple P (run_operation baseline temp forecast clock op) in_force"
  by (cases op) (simp_all add: triple_cancel_now triple_after triple_publish)

lemma triple_consume_operations:
  "triple (in_force decision) (consume_operations baseline temp forecast clock ops decision) in_force"
proof (induction ops arbitrary: decision)
  case (Cons op ops)
  show ?case
    unfolding consume_operations.simps by (rule triple_after) (rule triple_bind [OF triple_run_operation Cons.IH])
qed (simp add: triple_def)

lemma triple_drain: "triple P (drain_queues baseline temp forecast clock) in_force"
proof -
  have "triple P (aget rt_feedback) (\<lambda>_. in_force None)" by (simp add: triple_def in_force_def)
  then show ?thesis
    unfolding drain_queues_def
    by (intro triple_bind [of P _ "\<lambda>_. in_force None"] triple_bind [OF triple_consume_feedback]
        triple_bind [OF triple_get] triple_consume_operations)
qed

lemma keeps_advance: "keeps rt_ok (runtime_advance baseline temp forecast clock)"
  unfolding runtime_advance_def
  by (rule keeps_bind_post [OF keeps_drain triple_drain])
    (auto simp: Let_def rt_ok_def in_force_def split: option.splits)

lemma keeps_perform: "keeps rt_ok (perform call)"
proof (cases call)
  case (Call_cancel_now reason)
  then show ?thesis
    by (auto simp: ignore_value_def cancel_immediately_def intro!: keeps_bind keeps_cancel_now keeps_rt_modify)
next
  case (Call_advance baseline temp forecast clock)
  then show ?thesis by (auto simp: ignore_value_def intro!: keeps_bind keeps_advance)
next
  case (Call_result revision calibration baseline)
  then show ?thesis
    by (auto simp: register_result_def intro!: keeps_rt_modify split: option.split)
next
  case (Call_output applied)
  have "keeps rt_ok (take_result revision)" for revision
    unfolding take_result_def by (intro keeps_if keeps_bind keeps_basic keeps_rt_modify) simp_all
  then show ?thesis
    unfolding Call_output perform.simps register_output_def
    by (intro keeps_if keeps_bind keeps_option keeps_prod keeps_basic keeps_rt_modify) simp_all
qed (simp_all add: set_target_def set_ceiling_def request_calibration_def queue_cancel_def keeps_bind keeps_if keeps_rt_modify)

lemma new_runtime_ok: "new_runtime horizon u_max = Inr s \<Longrightarrow> rt_ok s"
  by (auto simp: new_runtime_def rt_ok_def split: if_splits pyfloat.splits) (simp_all add: new_coordinator_def)

text \<open>C40: Whatever is called, raising calls included, the decision the runtime publishes is the one its coordinator
  remembers, but for the provenance and the events: it can only ask for a probe the coordinator decided, at most the
  configured one, and an inactive decision asks for none.\<close>

theorem runtime_publishes_coordinator:
  assumes "new_runtime horizon u_max = Inr s0" "s = rt_run calls s0"
  shows "same_decision (rt_decision s) (case co_last (rt_coordinator s) of Some d \<Rightarrow> d | None \<Rightarrow> idle_decision)
    \<and> \<bar>de_probe (rt_decision s)\<bar> \<le> 1 / 20 \<and> (\<not> de_active (rt_decision s) \<longrightarrow> de_probe (rt_decision s) = 0)"
proof -
  have "rt_ok s"
    unfolding assms(2) using keeps_perform new_runtime_ok [OF assms(1)] by (rule rt_run_keeps)
  then have ok: "cal_ok default_config (rt_coordinator s)"
    "same_decision (rt_decision s) (case co_last (rt_coordinator s) of Some d \<Rightarrow> d | None \<Rightarrow> idle_decision)"
    by (simp_all add: rt_ok_def split: option.splits)
  have "decision_ok default_config hist idle_decision" for hist
    by (simp add: idle_decision_def)
  with ok(1) have "decision_ok default_config (co_history (rt_coordinator s))
      (case co_last (rt_coordinator s) of Some d \<Rightarrow> d | None \<Rightarrow> idle_decision)"
    by (simp add: cal_ok_def split: option.split)
  with ok(2) show ?thesis by (auto simp: decision_ok_def same_decision_def)
qed

definition demo_runtime :: cal_runtime where
  "demo_runtime = projr (new_runtime 3 (Fin (1 / 2)))"

definition demo_command :: "string \<Rightarrow> int \<Rightarrow> cal_command" where
  "demo_command action revision =
     \<lparr>cc_action = action, cc_revision = revision, cc_ambient = Fin 20, cc_source = ''manual'', cc_empty_grill = True,
      cc_pellets = True, cc_seed = 0\<rparr>"

definition demo_forecast :: forecast where
  "demo_forecast q ambient = Inr (map (\<lambda>x. Fin (100 + 100 * x)) q)"

definition demo_calls :: "rt_call list" where
  "demo_calls = [Call_ceiling (Fin 250), Call_request (demo_command ''start'' 1), Call_request (demo_command ''stop'' 0),
     Call_advance (1 / 4) 107 demo_forecast (\<lambda>k. of_nat k)]"

lemma demo_runtime_new: "new_runtime 3 (Fin (1 / 2)) = Inr demo_runtime"
  by (simp add: demo_runtime_def new_runtime_def)

theorem runtime_publishes_coordinator_witness:
  "de_active (rt_decision (rt_run demo_calls demo_runtime)) \<and> de_probe (rt_decision (rt_run demo_calls demo_runtime)) \<noteq> 0
   \<and> \<bar>de_probe (rt_decision (rt_run demo_calls demo_runtime))\<bar> \<le> 1 / 20"
proof -
  have "de_active (rt_decision (rt_run demo_calls demo_runtime))
      \<and> de_probe (rt_decision (rt_run demo_calls demo_runtime)) \<noteq> 0" by code_simp
  with runtime_publishes_coordinator [OF demo_runtime_new refl, of demo_calls] show ?thesis by blast
qed

section \<open>Commands run at most once, in order\<close>

definition queued_revisions :: "cal_runtime \<Rightarrow> int list" where
  "queued_revisions s = concat (map (\<lambda>operation. case operation of Command c \<Rightarrow> [cc_revision c] | Cancellation _ \<Rightarrow> []) (rt_operations s))"

text \<open>The revisions a history has accepted, in order of the requests.\<close>

fun accepted_by :: "rt_call \<Rightarrow> cal_runtime \<Rightarrow> int list" where
  "accepted_by (Call_request c) s = (if rt_last_revision s < cc_revision c then [cc_revision c] else [])"
| "accepted_by _ s = []"

fun accepted :: "rt_call list \<Rightarrow> cal_runtime \<Rightarrow> int list" where
  "accepted [] s = []"
| "accepted (call # calls) s = accepted_by call s @ accepted calls (fst (perform call s))"

lemma preserves_queue [preserves_intros]:
  "preserves rt_operations (publish dc)" "preserves rt_last_revision (publish dc)"
  "preserves rt_operations (cancel_now reason)" "preserves rt_last_revision (cancel_now reason)"
  "preserves rt_operations (runtime_context b t q u k clock)" "preserves rt_last_revision (runtime_context b t q u k clock)"
  unfolding publish_def cancel_now_def runtime_context_def
  by (intro preserves_intros; simp)+

lemma preserves_run_operation [preserves_intros]:
  "preserves rt_operations (run_operation baseline temp forecast clock op)"
  "preserves rt_last_revision (run_operation baseline temp forecast clock op)"
  by (cases op; simp; (intro preserves_intros; simp)?)+

lemma preserves_consume_feedback [preserves_intros]:
  "preserves rt_operations (consume_feedback temp forecast clock fs decision)"
  "preserves rt_last_revision (consume_feedback temp forecast clock fs decision)"
proof -
  have one: "preserves rt_operations (consume_one temp forecast clock f d)"
    "preserves rt_last_revision (consume_one temp forecast clock f d)" for f d
    unfolding consume_one_def by (intro preserves_intros; simp)+
  show "preserves rt_operations (consume_feedback temp forecast clock fs decision)"
    by (induction fs arbitrary: decision) (auto intro!: preserves_intros one)
  show "preserves rt_last_revision (consume_feedback temp forecast clock fs decision)"
    by (induction fs arbitrary: decision) (auto intro!: preserves_intros one)
qed

lemma operations_left:
  "rt_operations s = ops \<Longrightarrow>
   (\<exists>n. rt_operations (fst (consume_operations baseline temp forecast clock ops decision s)) = drop n ops)
   \<and> rt_last_revision (fst (consume_operations baseline temp forecast clock ops decision s)) = rt_last_revision s"
proof (induction ops arbitrary: decision s)
  case (Cons op ops)
  define s1 where "s1 = rt_operations_update (\<lambda>_. ops) s"
  obtain t r where t: "run_operation baseline temp forecast clock op s1 = (t, r)" by force
  have keep: "rt_operations t = ops" "rt_last_revision t = rt_last_revision s"
    using preservesD [OF preserves_run_operation(1) t] preservesD [OF preserves_run_operation(2) t] by (simp_all add: s1_def)
  have step: "consume_operations baseline temp forecast clock (op # ops) decision s
      = (case r of Inl e \<Rightarrow> (t, Inl e) | Inr d \<Rightarrow> consume_operations baseline temp forecast clock ops d t)"
    by (simp add: s1_def [symmetric]) (simp add: abind_def t split: sum.split)
  show ?case
  proof (cases r)
    case (Inl e)
    show ?thesis unfolding step using keep by (auto simp: Inl intro: exI [of _ 1])
  next
    case (Inr d)
    with Cons.IH [OF keep(1), of d] obtain n
      where "rt_operations (fst (consume_operations baseline temp forecast clock ops d t)) = drop n ops"
        "rt_last_revision (fst (consume_operations baseline temp forecast clock ops d t)) = rt_last_revision t" by blast
    with keep show ?thesis unfolding step by (auto simp: Inr intro: exI [of _ "Suc n"])
  qed
qed (auto intro: exI [of _ 0])

lemma advance_consumes:
  "\<exists>n. rt_operations (fst (runtime_advance baseline temp forecast clock s)) = drop n (rt_operations s)"
  "rt_last_revision (fst (runtime_advance baseline temp forecast clock s)) = rt_last_revision s"
proof -
  obtain t r where t: "consume_feedback temp forecast clock (rt_feedback s) None s = (t, r)" by force
  have keep: "rt_operations t = rt_operations s" "rt_last_revision t = rt_last_revision s"
    using preservesD [OF preserves_consume_feedback(1) t] preservesD [OF preserves_consume_feedback(2) t] by simp_all
  have drain: "drain_queues baseline temp forecast clock s
      = (case r of Inl e \<Rightarrow> (t, Inl e) | Inr d \<Rightarrow> consume_operations baseline temp forecast clock (rt_operations t) d t)"
    by (simp add: drain_queues_def) (simp add: abind_def t split: sum.split)
  have same: "rt_operations (fst (runtime_advance baseline temp forecast clock s))
        = rt_operations (fst (drain_queues baseline temp forecast clock s))"
    "rt_last_revision (fst (runtime_advance baseline temp forecast clock s))
        = rt_last_revision (fst (drain_queues baseline temp forecast clock s))"
    by (simp_all add: runtime_advance_def abind_def Let_def split: prod.split sum.split)
  show "\<exists>n. rt_operations (fst (runtime_advance baseline temp forecast clock s)) = drop n (rt_operations s)"
    using same drain keep operations_left [OF refl, where s = t]
    by (cases r) (auto intro: exI [of _ 0])
  show "rt_last_revision (fst (runtime_advance baseline temp forecast clock s)) = rt_last_revision s"
    using same drain keep operations_left [OF refl, where s = t] by (cases r) simp_all
qed


lemma queued_drop: "rt_operations t = drop n (rt_operations s) \<Longrightarrow> \<exists>gone. queued_revisions s = gone @ queued_revisions t"
  unfolding queued_revisions_def by (metis append_take_drop_id concat_append map_append)

lemma take_result_keeps [preserves_intros]:
  "preserves rt_operations (take_result revision)" "preserves rt_last_revision (take_result revision)"
  unfolding take_result_def by (intro preserves_intros; simp)+

lemma register_result_keeps:
  "preserves rt_operations (register_result revision calibration baseline)"
  "preserves rt_last_revision (register_result revision calibration baseline)"
  by (auto simp: register_result_def preserves_def split: option.split)

lemma register_output_keeps:
  "preserves rt_operations (register_output applied)" "preserves rt_last_revision (register_output applied)"
  unfolding register_output_def by (intro preserves_intros; simp)+

lemma perform_queue:
  "(\<exists>gone. queued_revisions s @ accepted_by call s = gone @ queued_revisions (fst (perform call s)))
   \<and> rt_last_revision (fst (perform call s)) = fold max (accepted_by call s) (rt_last_revision s)"
proof (cases call)
  case (Call_target v)
  then show ?thesis
    by (cases v) (auto simp: set_target_def finite_celsius_def queued_revisions_def)
next
  case (Call_ceiling v)
  then show ?thesis
    by (cases v) (auto simp: set_ceiling_def finite_celsius_def queued_revisions_def)
next
  case (Call_request c)
  then show ?thesis
    by (auto simp: request_calibration_def queued_revisions_def)
next
  case (Call_cancel reason)
  then show ?thesis
    by (auto simp: queue_cancel_def queued_revisions_def)
next
  case (Call_cancel_now reason)
  have "rt_operations (fst (cancel_immediately reason s)) = (if reason = [] then rt_operations s else [])
      \<and> rt_last_revision (fst (cancel_immediately reason s)) = rt_last_revision s"
    using preserves_queue(3,4) [of reason] by (simp add: cancel_immediately_def preserves_def)
  with Call_cancel_now show ?thesis
    by (auto simp: ignore_value_def abind_def queued_revisions_def split: prod.split sum.split)
next
  case (Call_advance baseline temp forecast clock)
  have "fst (perform call s) = fst (runtime_advance baseline temp forecast clock s)"
    by (simp add: Call_advance ignore_value_def abind_def split: prod.split sum.split)
  with Call_advance advance_consumes [of baseline temp forecast clock s] show ?thesis
    by (auto dest: queued_drop)
next
  case (Call_result revision calibration baseline)
  with register_result_keeps [of revision calibration baseline] show ?thesis
    by (auto simp: preserves_def queued_revisions_def)
next
  case (Call_output applied)
  with register_output_keeps [of applied] show ?thesis
    by (auto simp: preserves_def queued_revisions_def)
qed


lemma accepted_suffix: "\<exists>gone. queued_revisions s @ accepted calls s = gone @ queued_revisions (rt_run calls s)"
proof (induction calls arbitrary: s)
  case (Cons call calls)
  obtain g1 where "queued_revisions s @ accepted_by call s = g1 @ queued_revisions (fst (perform call s))"
    using perform_queue by blast
  moreover obtain g2 where "queued_revisions (fst (perform call s)) @ accepted calls (fst (perform call s))
      = g2 @ queued_revisions (rt_run calls (fst (perform call s)))"
    using Cons.IH by blast
  ultimately show ?case by (intro exI [of _ "g1 @ g2"]) (simp flip: append_assoc, simp)
qed simp

lemma accepted_sorted:
  "sorted_wrt (<) (accepted calls s) \<and> (\<forall>r\<in>set (accepted calls s). rt_last_revision s < r)"
proof (induction calls arbitrary: s)
  case (Cons call calls)
  have seen: "rt_last_revision (fst (perform call s)) = fold max (accepted_by call s) (rt_last_revision s)"
    using perform_queue by blast
  have "accepted_by call s = [] \<or> (\<exists>r. accepted_by call s = [r] \<and> rt_last_revision s < r)"
    by (cases call) auto
  with seen Cons.IH [of "fst (perform call s)"] show ?case by fastforce
qed simp

lemma consume_operations_drains:
  "rt_operations s = ops \<Longrightarrow> consume_operations baseline temp forecast clock ops decision s = (t, Inr d) \<Longrightarrow> rt_operations t = []"
proof (induction ops arbitrary: decision s)
  case (Cons op ops)
  then show ?case
    by (auto elim!: abind_InrE dest!: preservesD [OF preserves_run_operation(1)])
qed simp

lemma advance_drains:
  assumes "runtime_advance baseline temp forecast clock s = (t, Inr d)"
  shows "rt_operations t = []"
proof -
  from assms obtain u x where u: "drain_queues baseline temp forecast clock s = (u, Inr x)" "rt_operations t = rt_operations u"
    by (auto simp: runtime_advance_def Let_def elim!: abind_InrE)
  then show ?thesis
    by (auto simp: drain_queues_def elim!: abind_InrE dest: consume_operations_drains [OF refl])
qed

text \<open>Operator commands are taken in the order of strictly increasing revisions and each at most once: what is
  still queued after any history is the end of what was accepted, and a control step that returns leaves none queued.\<close>

theorem commands_run_in_order:
  assumes "new_runtime horizon u_max = Inr s0" "s = rt_run calls s0"
  shows "(\<exists>taken. accepted calls s0 = taken @ queued_revisions s) \<and> sorted_wrt (<) (accepted calls s0)
    \<and> (\<forall>d t. runtime_advance baseline temp forecast clock s = (t, Inr d) \<longrightarrow> queued_revisions t = [])"
proof -
  from assms(1) have "queued_revisions s0 = []"
    by (auto simp: new_runtime_def queued_revisions_def split: if_splits pyfloat.splits)
  with accepted_suffix [of s0 calls] accepted_sorted [of calls s0]
  have "\<exists>taken. accepted calls s0 = taken @ queued_revisions s" "sorted_wrt (<) (accepted calls s0)"
    by (simp_all add: assms(2))
  moreover have "queued_revisions t = []" if "runtime_advance baseline temp forecast clock s = (t, Inr d)" for t d
    using advance_drains [OF that] by (simp add: queued_revisions_def)
  ultimately show ?thesis by blast
qed

theorem commands_run_in_order_witness:
  "accepted demo_calls demo_runtime = [1] \<and> (\<exists>taken. [1] = taken @ queued_revisions (rt_run demo_calls demo_runtime))"
proof -
  have "accepted demo_calls demo_runtime = [1]" by code_simp
  with commands_run_in_order [OF demo_runtime_new refl, of demo_calls] show ?thesis by simp
qed

section \<open>A result answers for at most one frame\<close>

text \<open>The result revisions of the feedback a history appends, and of the results it registers.\<close>

definition appended_by :: "rt_call \<Rightarrow> cal_runtime \<Rightarrow> int list" where
  "appended_by call s =
     (case call of
        Call_output applied \<Rightarrow> map ff_result_revision (drop (length (rt_feedback s)) (rt_feedback (fst (register_output applied s))))
      | _ \<Rightarrow> [])"

fun appended :: "rt_call list \<Rightarrow> cal_runtime \<Rightarrow> int list" where
  "appended [] s = []"
| "appended (call # calls) s = appended_by call s @ appended calls (fst (perform call s))"

fun registered_by :: "rt_call \<Rightarrow> int list" where
  "registered_by (Call_result revision (Some d) (Some load)) = (if revision \<le> 0 then [] else [revision])"
| "registered_by _ = []"

abbreviation open_results :: "cal_runtime \<Rightarrow> int set" where
  "open_results s \<equiv> fst ` set (rt_frame_results s)"

definition without_result :: "int \<Rightarrow> (int \<times> rat \<times> cal_decision) list \<Rightarrow> (int \<times> rat \<times> cal_decision) list" where
  "without_result revision frs =
     (if map_of frs revision = None then AList.delete revision frs
      else filter (\<lambda>fr. \<not> fst fr < revision) (AList.delete revision frs))"

lemma abind_take_result:
  "0 < revision \<Longrightarrow> abind (take_result revision) f s
     = f (map_of (rt_frame_results s) revision) (s\<lparr>rt_frame_results := without_result revision (rt_frame_results s)\<rparr>)"
  "revision \<le> 0 \<Longrightarrow> abind (take_result revision) f s = f None s"
  by (cases s; cases "map_of (rt_frame_results s) revision"; simp add: take_result_def abind_def without_result_def)+

lemma without_result_set: "fst ` set (without_result revision frs) \<subseteq> fst ` set frs - {revision}"
  by (auto simp: without_result_def AList.delete_eq)

text \<open>An output appends feedback for a result it takes off the table.\<close>

lemma register_output_appends:
  "(appended_by (Call_output applied) s = []
     \<or> appended_by (Call_output applied) s = [ao_result_revision applied] \<and> ao_result_revision applied \<in> open_results s
       \<and> ao_result_revision applied \<notin> open_results (fst (register_output applied s)))
   \<and> open_results (fst (register_output applied s)) \<subseteq> open_results s"
proof -
  let ?r = "ao_result_revision applied"
  have "normalized_load_from_auger_duty (Fin (ao_ratio applied)) (Fin (rt_u_max s)) = Inl e \<Longrightarrow> ?thesis" for e
    by (simp add: register_output_def appended_by_def)
  moreover have ?thesis if "normalized_load_from_auger_duty (Fin (ao_ratio applied)) (Fin (rt_u_max s)) = Inr q" for q
  proof -
    define s1 where "s1 = s\<lparr>rt_realized := q\<rparr>"
    consider "ao_disposition applied = PROGRESS \<or> ?r \<le> 0" | "ao_disposition applied \<noteq> PROGRESS" "0 < ?r" by linarith
    then show ?thesis
    proof cases
      case 1
      with that have "register_output applied s = (s1, Inr ())"
        by (auto simp: register_output_def abind_take_result s1_def)
      then show ?thesis by (simp add: appended_by_def s1_def)
    next
      case 2
      define s2 where "s2 = s1\<lparr>rt_frame_results := without_result ?r (rt_frame_results s)\<rparr>"
      have "register_output applied s = (case map_of (rt_frame_results s) ?r of None \<Rightarrow> (s2, Inr ())
          | Some (baseline, d) \<Rightarrow> if \<not> produced_by d applied then (s2, Inr ())
              else (s2\<lparr>rt_feedback_at := Some (ao_timestamp applied),
                      rt_feedback := rt_feedback s2 @ [feedback_of baseline d applied s2]\<rparr>, Inr ()))"
        using 2 that by (simp add: register_output_def abind_take_result s1_def s2_def split: option.split prod.split)
      moreover have "rt_feedback s2 = rt_feedback s" "open_results s2 \<subseteq> open_results s - {?r}"
        using without_result_set [of ?r "rt_frame_results s"] by (simp_all add: s1_def s2_def)
      moreover have "?r \<in> open_results s" if "map_of (rt_frame_results s) ?r = Some bd" for bd
        using that by (force dest: map_of_SomeD)
      ultimately show ?thesis
        by (auto simp: appended_by_def feedback_of_def split: option.split)
    qed
  qed
  ultimately show ?thesis by (cases "normalized_load_from_auger_duty (Fin (ao_ratio applied)) (Fin (rt_u_max s))") auto
qed


lemma preserves_results [preserves_intros]:
  "preserves rt_frame_results (publish dc)" "preserves rt_frame_results (cancel_now reason)"
  "preserves rt_frame_results (runtime_context b t q u k clock)"
  "preserves rt_frame_results (set_target v)" "preserves rt_frame_results (set_ceiling v)"
  "preserves rt_frame_results (request_calibration c)" "preserves rt_frame_results (queue_cancel reason)"
  unfolding publish_def cancel_now_def runtime_context_def set_target_def set_ceiling_def request_calibration_def queue_cancel_def
  by (intro preserves_intros; simp)+

lemma preserves_results_run [preserves_intros]:
  "preserves rt_frame_results (run_operation baseline temp forecast clock op)"
  by (cases op; simp; (intro preserves_intros; simp)?)

lemma preserves_results_one [preserves_intros]:
  "preserves rt_frame_results (consume_one temp forecast clock f d)"
  unfolding consume_one_def by (intro preserves_intros; simp)

lemma preserves_results_loops [preserves_intros]:
  "preserves rt_frame_results (consume_feedback temp forecast clock fs decision)"
  "preserves rt_frame_results (consume_operations baseline temp forecast clock ops decision)"
proof -
  show "preserves rt_frame_results (consume_feedback temp forecast clock fs decision)"
    by (induction fs arbitrary: decision) (auto intro!: preserves_intros)
  show "preserves rt_frame_results (consume_operations baseline temp forecast clock ops decision)"
    by (induction ops arbitrary: decision) (auto intro!: preserves_intros)
qed

lemma preserves_results_advance [preserves_intros]:
  "preserves rt_frame_results (runtime_advance baseline temp forecast clock)"
  unfolding runtime_advance_def drain_queues_def Let_def by (intro preserves_intros; simp)

lemma preserves_ignore [preserves_intros]: "preserves g m \<Longrightarrow> preserves g (ignore_value m)"
  unfolding ignore_value_def by (intro preserves_intros)

lemma results_registered:
  "open_results (fst (perform call s)) \<subseteq> open_results s \<union> set (registered_by call)"
proof (cases call)
  case (Call_result revision calibration baseline)
  then show ?thesis
    by (cases calibration; cases baseline) (simp_all add: register_result_def dom_update)
next
  case (Call_output applied)
  with register_output_appends [of applied s] show ?thesis by auto
next
  case (Call_cancel_now reason)
  have "rt_frame_results (fst (cancel_immediately reason s)) \<in> {[], rt_frame_results s}"
    using preserves_results(2) [of reason] by (simp add: cancel_immediately_def preserves_def)
  with Call_cancel_now show ?thesis
    by (auto simp: ignore_value_def abind_def split: prod.split sum.split)
next
  case (Call_advance baseline temp forecast clock)
  have "preserves rt_frame_results (perform call)" unfolding Call_advance by (simp add: preserves_intros)
  then show ?thesis by (simp add: preserves_def)
qed (use preserves_results in \<open>simp_all add: preserves_def\<close>)

lemma appended_once:
  assumes "distinct (past @ concat (map registered_by calls))" "set done \<union> open_results s \<subseteq> set past"
    "set done \<inter> open_results s = {}" "distinct done"
  shows "distinct (done @ appended calls s) \<and> set (appended calls s) \<subseteq> set (past @ concat (map registered_by calls))"
  using assms
proof (induction calls arbitrary: past "done" s)
  case (Cons call calls)
  define t where "t = fst (perform call s)"
  let ?past = "past @ registered_by call" and ?done = "done @ appended_by call s"
  have new: "appended_by call s = [] \<or> (\<exists>r. appended_by call s = [r] \<and> r \<in> open_results s \<and> r \<notin> open_results t)"
  proof (cases call)
    case (Call_output applied)
    with register_output_appends [of applied s] show ?thesis by (auto simp: t_def)
  qed (simp_all add: appended_by_def)
  have opened: "open_results t \<subseteq> open_results s \<union> set (registered_by call)"
    unfolding t_def by (rule results_registered)
  have "distinct (?done @ appended calls t) \<and> set (appended calls t) \<subseteq> set (?past @ concat (map registered_by calls))"
  proof (rule Cons.IH)
    show "distinct (?past @ concat (map registered_by calls))" using Cons.prems(1) by simp
    show "set ?done \<union> open_results t \<subseteq> set ?past" using new opened Cons.prems(2) by auto
    show "set ?done \<inter> open_results t = {}"
    proof -
      have "set past \<inter> set (registered_by call) = {}" using Cons.prems(1) by auto
      with opened Cons.prems(2,3) have "set done \<inter> open_results t = {}" by blast
      with new show ?thesis by (elim disjE exE conjE) (simp, simp)
    qed
    have "set (appended_by call s) \<subseteq> open_results s" "distinct (appended_by call s)" using new by (elim disjE exE conjE; simp)+
    with Cons.prems(3,4) show "distinct ?done" by (simp add: disjoint_iff subset_iff) blast
  qed
  with new Cons.prems(2) show ?case by (auto simp: t_def)
qed simp

text \<open>If the runner registers each result under its own revision, then over any history of calls no result is
  taken as feedback twice: a frame's outcome reaches the calibration at most once.\<close>

theorem result_fed_back_once:
  assumes "new_runtime horizon u_max = Inr s0" "distinct (concat (map registered_by calls))"
  shows "distinct (appended calls s0) \<and> set (appended calls s0) \<subseteq> set (concat (map registered_by calls))"
proof -
  from assms(1) have "rt_frame_results s0 = []"
    by (auto simp: new_runtime_def split: if_splits pyfloat.splits)
  with appended_once [of "[]" calls "[]" s0] assms(2) show ?thesis by simp
qed

definition demo_output :: applied_output where
  "demo_output = \<lparr>ao_ratio = 3 / 20, ao_source = SRC_CONTROLLER, ao_timestamp = 20, ao_requested = None, ao_result_revision = 7,
     ao_calibration_revision = 1, ao_calibration_action = ''start'', ao_calibration_generation = 1,
     ao_disposition = COMPLETE, ao_sample_complete = True\<rparr>"

definition demo_history :: "rt_call list" where
  "demo_history = demo_calls @ [Call_result 7 (Some (rt_decision (rt_run demo_calls demo_runtime))) (Some (1 / 4)),
     Call_output demo_output, Call_output demo_output]"

theorem result_fed_back_once_witness:
  "appended demo_history demo_runtime = [7] \<and> distinct (appended demo_history demo_runtime)"
proof -
  have "appended demo_history demo_runtime = [7]" by code_simp
  moreover have "distinct (concat (map registered_by demo_history))" by code_simp
  ultimately show ?thesis
    using result_fed_back_once [OF demo_runtime_new, of demo_history] by blast
qed

end
