(* ===== verification/Model_Promotion.thy ===== *)
theory Model_Promotion
  imports Clock_Domain
begin

text \<open>
  \<open>controller/model_promotion.py\<close> with the steady-state helpers of \<open>controller/mpc_model.py\<close>: whether a freshly
  fitted thermal model may replace the one that drives the grill, and whether a target is reachable at all.

  A parameter mapping is an association list from the parameter's name to a float. The reason of a verdict is a value
  of \<open>verdict_reason\<close> in place of the formatted text. Numbers are exact rationals, so the comparisons at the
  margins are exact.
\<close>

type_synonym thermal = "(string \<times> pyfloat) list"

section \<open>Steady state\<close>

definition KELVIN :: rat where "KELVIN = 27315 / 100"

definition rad_loss :: "rat \<Rightarrow> rat \<Rightarrow> rat \<Rightarrow> rat" where
  "rad_loss T t_amb sigma = sigma * ((T + KELVIN) ^ 4 - (t_amb + KELVIN) ^ 4)"

record coefficients =
  th_h :: rat
  th_amb :: rat
  th_k :: rat
  th_sigma :: rat

definition thermal_parameters :: "thermal \<Rightarrow> coefficients result" where
  "thermal_parameters p =
     (case (map_of p ''h_amb'', map_of p ''T_amb'', map_of p ''K_Q'') of
        (Some h, Some t, Some k) \<Rightarrow>
          (case (h, t, k, (case map_of p ''sigma'' of Some s \<Rightarrow> s | None \<Rightarrow> Fin 0)) of
             (Fin h_amb, Fin t_amb, Fin k_q, Fin sigma) \<Rightarrow>
               if h_amb < 0 \<or> k_q \<le> 0 \<or> sigma < 0 \<or> (h_amb = 0 \<and> sigma = 0)
               then Inl (ValueError ''thermal model steady-state parameters must be physical'')
               else Inr \<lparr>th_h = h_amb, th_amb = t_amb, th_k = k_q, th_sigma = sigma\<rparr>
           | _ \<Rightarrow> Inl (ValueError ''thermal model steady-state parameters must be finite''))
      | _ \<Rightarrow> Inl (ValueError ''thermal model is missing required steady-state parameters''))"

definition load_at :: "coefficients \<Rightarrow> rat \<Rightarrow> rat \<Rightarrow> rat" where
  "load_at c d t = (th_h c * (t - th_amb c) + rad_loss t (th_amb c) (th_sigma c) - d) / th_k c"

definition steady_combustion_load :: "thermal \<Rightarrow> pyfloat \<Rightarrow> pyfloat \<Rightarrow> rat result" where
  "steady_combustion_load p setpoint disturbance =
     ebind (thermal_parameters p) (\<lambda>c.
       case (setpoint, disturbance) of
         (Fin t, Fin d) \<Rightarrow> Inr (load_at c d t)
       | _ \<Rightarrow> Inl (ValueError ''steady-state target and disturbance must be finite''))"

text \<open>The doubling loop that raises the upper end; \<open>n\<close> bounds its steps.\<close>

fun widen :: "nat \<Rightarrow> (rat \<Rightarrow> rat) \<Rightarrow> rat \<Rightarrow> rat \<Rightarrow> rat result" where
  "widen 0 residual lower upper = Inl (RuntimeError ''fuel'')"
| "widen (Suc n) residual lower upper =
     (if residual upper < 0 then
        (let upper' = lower + 2 * (upper - lower)
         in if 10 ^ 9 < upper' then Inl (ValueError ''steady-state load has no finite temperature inverse'')
            else widen n residual lower upper')
      else Inr upper)"

fun bisect :: "nat \<Rightarrow> (rat \<Rightarrow> rat) \<Rightarrow> rat \<Rightarrow> rat \<Rightarrow> rat \<times> rat" where
  "bisect 0 residual lower upper = (lower, upper)"
| "bisect (Suc n) residual lower upper =
     (let midpoint = (lower + upper) / 2
      in if residual midpoint < 0 then bisect n residual midpoint upper else bisect n residual lower midpoint)"

definition LOWEST :: rat where "LOWEST = - KELVIN + 1 / 10 ^ 9"

definition residual_of :: "coefficients \<Rightarrow> rat \<Rightarrow> rat \<Rightarrow> rat" where
  "residual_of c heat t = th_h c * (t - th_amb c) + rad_loss t (th_amb c) (th_sigma c) - heat"

definition steady_temperature :: "thermal \<Rightarrow> pyfloat \<Rightarrow> pyfloat \<Rightarrow> rat result" where
  "steady_temperature p combustion_load disturbance =
     ebind (thermal_parameters p) (\<lambda>c.
       case (combustion_load, disturbance) of
         (Fin load, Fin d) \<Rightarrow>
           (let heat = th_k c * load + d in
            if th_sigma c = 0 then Inr (th_amb c + heat / th_h c)
            else if 0 < residual_of c heat LOWEST then Inl (ValueError ''steady-state load has no physical temperature inverse'')
            else
              ebind (widen 40 (residual_of c heat) LOWEST (max (th_amb c) (LOWEST + 1))) (\<lambda>upper.
                case bisect 80 (residual_of c heat) LOWEST upper of (lo, hi) \<Rightarrow> Inr ((lo + hi) / 2)))
       | _ \<Rightarrow> Inl (ValueError ''steady-state load and disturbance must be finite''))"

section \<open>Reachability\<close>

datatype reachability = REACHABLE | UNREACHABLE_HIGH | UNKNOWN_MODEL

record feasibility =
  fe_state :: reachability
  fe_target :: rat
  fe_required :: "rat option"
  fe_authority :: rat
  fe_temperature :: "rat option"
  fe_load :: "rat option"
  fe_revision :: "int option"
  fe_provenance :: "string option"
  fe_binding :: "string option"

definition FULL_LOAD :: rat where "FULL_LOAD = 1"

definition REACHABILITY_TOLERANCE :: rat where "REACHABILITY_TOLERANCE = 1 / 10 ^ 6"

definition model_identified :: "thermal option \<Rightarrow> int option \<Rightarrow> string option \<Rightarrow> bool" where
  "model_identified p revision provenance \<longleftrightarrow>
     p \<noteq> None \<and> (case revision of Some r \<Rightarrow> 0 \<le> r | None \<Rightarrow> False)
     \<and> (case provenance of Some s \<Rightarrow> strip_chars is_space s \<noteq> [] | None \<Rightarrow> False)"

definition feasibility_report ::
    "thermal option \<Rightarrow> pyfloat \<Rightarrow> pyfloat \<Rightarrow> int option \<Rightarrow> string option \<Rightarrow> feasibility result" where
  "feasibility_report p target_temperature disturbance revision provenance =
     (case target_temperature of
        Fin target \<Rightarrow>
          (case p of
             Some params \<Rightarrow>
               if \<not> model_identified p revision provenance then Inr \<lparr>fe_state = UNKNOWN_MODEL, fe_target = target,
                 fe_required = None, fe_authority = FULL_LOAD, fe_temperature = None, fe_load = None, fe_revision = None,
                 fe_provenance = None, fe_binding = Some ''unidentified_model''\<rparr>
               else
                 ebind (steady_combustion_load params (Fin target) disturbance) (\<lambda>required.
                 ebind (steady_temperature params (Fin FULL_LOAD) disturbance) (\<lambda>hottest.
                 let state = (if FULL_LOAD + REACHABILITY_TOLERANCE < required then UNREACHABLE_HIGH else REACHABLE)
                 in Inr \<lparr>fe_state = state, fe_target = target, fe_required = Some required, fe_authority = FULL_LOAD,
                      fe_temperature = Some hottest, fe_load = Some FULL_LOAD, fe_revision = revision,
                      fe_provenance = provenance,
                      fe_binding = (if state = UNREACHABLE_HIGH then Some ''maximum_authority'' else None)\<rparr>))
           | None \<Rightarrow> Inr \<lparr>fe_state = UNKNOWN_MODEL, fe_target = target, fe_required = None, fe_authority = FULL_LOAD,
               fe_temperature = None, fe_load = None, fe_revision = None, fe_provenance = None,
               fe_binding = Some ''unidentified_model''\<rparr>)
      | _ \<Rightarrow> Inl (ValueError ''reachability target must be finite''))"

section \<open>Promotion\<close>

definition PROMOTION_BOUNDS :: "(string \<times> rat \<times> rat) list" where
  "PROMOTION_BOUNDS =
     [(''C_c'', 1, 10 ^ 6), (''h_amb'', 1 / 10 ^ 4, 10 ^ 3), (''T_amb'', -40, 60), (''theta'', 25, 1200),
      (''n_delay'', 0, 50), (''K_Q'', 1 / 10 ^ 3, 10 ^ 4), (''sigma'', 0, 1 / 10 ^ 8)]"

definition RMSE_MARGIN :: rat where "RMSE_MARGIN = 2 / 100"

definition RMSE_MARGIN_FASTER :: rat where "RMSE_MARGIN_FASTER = 1 / 2"

definition TAU_DEADBAND :: rat where "TAU_DEADBAND = 1 / 10"

definition IDENTIFIABILITY_FLOOR :: rat where "IDENTIFIABILITY_FLOOR = 1 / 2"

definition INCUMBENT_KEYS :: "string list" where
  "INCUMBENT_KEYS = [''C_c'', ''h_amb'', ''theta'', ''n_delay'', ''sigma'']"

definition T_HAZARD_C :: rat where "T_HAZARD_C = (550 - 32) * 5 / 9"

definition T_FLOOR_C :: rat where "T_FLOOR_C = (75 - 32) * 5 / 9"

datatype range_label = SHORTER | LONGER | UNCHANGED

datatype verdict_reason =
    Not_finite string
  | Out_of_bounds string rat rat rat
  | Fractional_delay rat
  | Delay_without_theta
  | Bad_candidate_rmse
  | Undetermined "rat option"
  | No_incumbent
  | Incumbent_rmse_missing
  | Bad_incumbent_rmse
  | Incumbent_incomplete
  | Not_better rat rat rat range_label range_label
  | Better_fit

record verdict =
  vd_accepted :: bool
  vd_reason :: verdict_reason

definition finite_of :: "pyfloat option \<Rightarrow> rat option" where
  "finite_of v = (case v of Some (Fin x) \<Rightarrow> Some x | _ \<Rightarrow> None)"

definition n_delay_is_whole :: "rat \<Rightarrow> bool" where
  "n_delay_is_whole x \<longleftrightarrow> of_int \<lfloor>x\<rfloor> = x"

text \<open>A parameter the checks before have found to be a finite number.\<close>

definition par :: "thermal \<Rightarrow> string \<Rightarrow> rat" where
  "par p k = (case finite_of (map_of p k) of Some x \<Rightarrow> x | None \<Rightarrow> 0)"

definition effective_tau :: "thermal \<Rightarrow> rat \<Rightarrow> pyfloat" where
  "effective_tau p t =
     (let h_eff = par p ''h_amb'' + 4 * par p ''sigma'' * (t + KELVIN) ^ 3
      in if 0 < h_eff then Fin (par p ''C_c'' / h_eff) else PosInf)"

definition effective_theta :: "thermal \<Rightarrow> rat" where
  "effective_theta p = (if 0 < par p ''n_delay'' then par p ''theta'' else 0)"

definition usable :: "pyfloat \<Rightarrow> bool" where
  "usable v = (case v of Fin x \<Rightarrow> 0 < x | _ \<Rightarrow> False)"

definition shrink_margin :: "pyfloat \<Rightarrow> pyfloat \<Rightarrow> rat" where
  "shrink_margin candidate incumbent =
     (if \<not> usable incumbent then RMSE_MARGIN_FASTER
      else if float_less candidate incumbent then RMSE_MARGIN_FASTER else RMSE_MARGIN)"

definition scaled_float :: "pyfloat \<Rightarrow> rat \<Rightarrow> pyfloat" where
  "scaled_float v k = (case v of Fin x \<Rightarrow> Fin (x * k) | _ \<Rightarrow> v)"

definition direction_label :: "pyfloat \<Rightarrow> pyfloat \<Rightarrow> range_label" where
  "direction_label candidate incumbent =
     (if \<not> usable incumbent then SHORTER
      else if float_less candidate incumbent then SHORTER
      else if float_less (scaled_float incumbent (1 + TAU_DEADBAND)) candidate then LONGER
      else UNCHANGED)"

definition range_label_of :: "range_label list \<Rightarrow> range_label" where
  "range_label_of labels =
     (if SHORTER \<in> set labels then SHORTER else if list_all (\<lambda>l. l = LONGER) labels then LONGER else UNCHANGED)"

definition refuse :: "verdict_reason \<Rightarrow> verdict" where
  "refuse r = \<lparr>vd_accepted = False, vd_reason = r\<rparr>"

definition accept :: "verdict_reason \<Rightarrow> verdict" where
  "accept r = \<lparr>vd_accepted = True, vd_reason = r\<rparr>"

text \<open>The first bound a candidate breaks.\<close>

fun broken_bound :: "(string \<times> rat \<times> rat) list \<Rightarrow> thermal \<Rightarrow> verdict_reason option" where
  "broken_bound [] p = None"
| "broken_bound ((k, lo, hi) # bounds) p =
     (case finite_of (map_of p k) of
        None \<Rightarrow> Some (Not_finite k)
      | Some x \<Rightarrow> if lo \<le> x \<and> x \<le> hi then broken_bound bounds p else Some (Out_of_bounds k x lo hi))"

definition candidate_fault :: "thermal \<Rightarrow> pyfloat option \<Rightarrow> pyfloat option \<Rightarrow> verdict_reason option" where
  "candidate_fault candidate rmse identifiability =
     (case broken_bound PROMOTION_BOUNDS candidate of
        Some r \<Rightarrow> Some r
      | None \<Rightarrow>
          if \<not> n_delay_is_whole (par candidate ''n_delay'') then Some (Fractional_delay (par candidate ''n_delay''))
          else if 0 < par candidate ''n_delay'' \<and> par candidate ''theta'' \<le> 0 then Some Delay_without_theta
          else
            (case finite_of rmse of
               None \<Rightarrow> Some Bad_candidate_rmse
             | Some e \<Rightarrow>
                 if e \<le> 0 then Some Bad_candidate_rmse
                 else
                   (case finite_of identifiability of
                      None \<Rightarrow> Some (Undetermined None)
                    | Some i \<Rightarrow> if i < IDENTIFIABILITY_FLOOR then Some (Undetermined (Some i)) else None)))"

definition required_margin :: "thermal \<Rightarrow> thermal \<Rightarrow> rat" where
  "required_margin candidate incumbent =
     max (max (shrink_margin (Fin (effective_theta candidate)) (Fin (effective_theta incumbent)))
            (shrink_margin (effective_tau candidate T_FLOOR_C) (effective_tau incumbent T_FLOOR_C)))
         (shrink_margin (effective_tau candidate T_HAZARD_C) (effective_tau incumbent T_HAZARD_C))"

definition compare_fits :: "thermal \<Rightarrow> thermal \<Rightarrow> rat \<Rightarrow> rat \<Rightarrow> verdict" where
  "compare_fits candidate incumbent candidate_rmse incumbent_rmse =
     (let margin = required_margin candidate incumbent in
      if incumbent_rmse * (1 - margin) < candidate_rmse
      then refuse (Not_better candidate_rmse incumbent_rmse margin
             (range_label_of (map (\<lambda>t. direction_label (effective_tau candidate t) (effective_tau incumbent t)) [T_FLOOR_C, T_HAZARD_C]))
             (direction_label (Fin (effective_theta candidate)) (Fin (effective_theta incumbent))))
      else accept Better_fit)"

definition evaluate_promotion ::
    "thermal \<Rightarrow> thermal option \<Rightarrow> pyfloat option \<Rightarrow> pyfloat option \<Rightarrow> pyfloat option \<Rightarrow> verdict" where
  "evaluate_promotion candidate incumbent candidate_rmse incumbent_rmse identifiability =
     (case candidate_fault candidate candidate_rmse identifiability of
        Some r \<Rightarrow> refuse r
      | None \<Rightarrow>
          (case incumbent of
             None \<Rightarrow> accept No_incumbent
           | Some current \<Rightarrow>
               (case incumbent_rmse of
                  None \<Rightarrow> refuse Incumbent_rmse_missing
                | Some recorded \<Rightarrow>
                    (case (finite_of (Some recorded), finite_of candidate_rmse) of
                       (Some e, Some ce) \<Rightarrow>
                         if e \<le> 0 then refuse Bad_incumbent_rmse
                         else if list_ex (\<lambda>k. finite_of (map_of current k) = None) INCUMBENT_KEYS
                           then refuse Incumbent_incomplete
                         else compare_fits candidate current ce e
                     | _ \<Rightarrow> refuse Bad_incumbent_rmse))))"


section \<open>The steady state is found\<close>

text \<open>More heat goes out at a higher temperature.\<close>

lemma residual_mono:
  assumes "0 \<le> th_h c" "0 \<le> th_sigma c" "- KELVIN \<le> s" "s \<le> t"
  shows "residual_of c heat s \<le> residual_of c heat t"
proof -
  have "th_h c * (s - th_amb c) \<le> th_h c * (t - th_amb c)" using assms by (intro mult_left_mono) auto
  moreover have "th_sigma c * (s + KELVIN) ^ 4 \<le> th_sigma c * (t + KELVIN) ^ 4"
    using assms by (intro mult_left_mono power_mono) auto
  ultimately show ?thesis by (simp add: residual_of_def rad_loss_def algebra_simps)
qed

lemma bisect_brackets:
  assumes "bisect n residual lower upper = (lo, hi)" "residual lower \<le> 0" "0 \<le> residual upper" "lower \<le> upper"
  shows "residual lo \<le> 0 \<and> 0 \<le> residual hi \<and> hi - lo = (upper - lower) / 2 ^ n \<and> lower \<le> lo \<and> lo \<le> hi"
  using assms
proof (induction n arbitrary: lower upper)
  case (Suc n)
  let ?mid = "(lower + upper) / 2"
  show ?case
  proof (cases "residual ?mid < 0")
    case True
    with Suc.prems have "bisect n residual ?mid upper = (lo, hi)" by (simp add: Let_def)
    from Suc.IH [OF this] True Suc.prems show ?thesis by (auto simp: field_simps)
  next
    case False
    with Suc.prems have "bisect n residual lower ?mid = (lo, hi)" by (simp add: Let_def)
    from Suc.IH [OF this] False Suc.prems show ?thesis by (auto simp: field_simps)
  qed
qed auto

lemma widen_upper:
  assumes "widen n residual lower upper = Inr u" "lower \<le> upper"
  shows "0 \<le> residual u \<and> lower \<le> u \<and> u \<le> max upper (10 ^ 9)"
  using assms
proof (induction n arbitrary: upper)
  case (Suc n)
  show ?case
  proof (cases "residual upper < 0")
    case True
    let ?u = "lower + 2 * (upper - lower)"
    from True Suc.prems have u: "widen n residual lower ?u = Inr u" "?u \<le> 10 ^ 9"
      by (auto simp: Let_def split: if_splits)
    from Suc.IH [OF u(1)] u(2) Suc.prems(2) show ?thesis by auto
  next
    case False
    with Suc.prems show ?thesis by auto
  qed
qed simp

lemma widen_total:
  assumes "widen n residual lower upper = Inl e" "10 ^ 9 < lower + 2 ^ n * (upper - lower)"
    "0 < n" "0 \<le> upper - lower"
  shows "is_value_error e"
  using assms
proof (induction n arbitrary: upper)
  case (Suc n)
  let ?u = "lower + 2 * (upper - lower)"
  from Suc.prems(1) have "residual upper < 0" by (auto split: if_splits)
  with Suc.prems(1) consider "is_value_error e" | "\<not> 10 ^ 9 < ?u" "widen n residual lower ?u = Inl e"
    by (auto simp: Let_def split: if_splits)
  then show ?case
  proof cases
    case 2
    then have "0 < n" using Suc.prems(2) by (cases n) (auto simp: algebra_simps)
    with 2 Suc.prems(2,4) show ?thesis by (intro Suc.IH [of ?u]) (auto simp: algebra_simps)
  qed
qed simp


lemma thermal_parametersD:
  assumes "thermal_parameters p = Inr c"
  shows "0 \<le> th_h c" "0 < th_k c" "0 \<le> th_sigma c" "th_sigma c = 0 \<Longrightarrow> th_h c \<noteq> 0"
  using assms by (auto simp: thermal_parameters_def split: option.splits pyfloat.splits if_splits)

lemma thermal_parameters_error: "thermal_parameters p = Inl e \<Longrightarrow> is_value_error e"
  by (auto simp: thermal_parameters_def split: option.splits pyfloat.splits if_splits)

lemma load_at_residual:
  assumes "0 < th_k c"
  shows "load_at c d t \<le> load \<longleftrightarrow> residual_of c (th_k c * load + d) t \<le> 0"
    "load \<le> load_at c d t \<longleftrightarrow> 0 \<le> residual_of c (th_k c * load + d) t"
  using assms by (simp_all add: load_at_def residual_of_def pos_divide_le_eq pos_le_divide_eq mult.commute; linarith)+

text \<open>The search brackets the temperature that takes the load, and never runs away.\<close>

definition bracketed :: "thermal \<Rightarrow> rat \<Rightarrow> rat \<Rightarrow> rat \<Rightarrow> bool" where
  "bracketed p load d t \<longleftrightarrow>
     (\<exists>c lo hi. thermal_parameters p = Inr c \<and> lo \<le> t \<and> t \<le> hi \<and> load_at c d lo \<le> load \<and> load \<le> load_at c d hi
        \<and> hi - lo \<le> (max (10 ^ 9) (th_amb c) + 300) / 2 ^ 80)"

lemma bracketed_exact:
  assumes "thermal_parameters p = Inr c" "load_at c d t = load"
  shows "bracketed p load d t"
  unfolding bracketed_def using assms by (intro exI [of _ c] exI [of _ t]) auto

lemma steady_radiating:
  assumes c: "thermal_parameters p = Inr c" and "th_sigma c \<noteq> 0"
  shows "case steady_temperature p (Fin load) (Fin d) of Inl e \<Rightarrow> is_value_error e | Inr t \<Rightarrow> bracketed p load d t"
proof (cases "0 < residual_of c (th_k c * load + d) LOWEST")
  case True
  with assms show ?thesis by (simp add: steady_temperature_def Let_def)
next
  case low: False
  note phys = thermal_parametersD [OF c]
  let ?res = "residual_of c (th_k c * load + d)" and ?upper = "max (th_amb c) (LOWEST + 1)"
  have "LOWEST + 1 \<le> ?upper" by simp
  then have start: "0 \<le> ?upper - LOWEST" "10 ^ 9 < LOWEST + 2 ^ 40 * (?upper - LOWEST)"
    by (auto simp: LOWEST_def KELVIN_def)
  show ?thesis
  proof (cases "widen 40 ?res LOWEST ?upper")
    case (Inl e)
    then have "is_value_error e" using start by (intro widen_total [OF Inl]) simp_all
    with Inl low assms show ?thesis by (simp add: steady_temperature_def Let_def)
  next
    case u: (Inr u)
    obtain lo hi where b: "bisect 80 ?res LOWEST u = (lo, hi)" by force
    have up: "0 \<le> ?res u" "LOWEST \<le> u" "u \<le> max ?upper (10 ^ 9)"
      using widen_upper [OF u] start(1) by auto
    then have br: "?res lo \<le> 0" "0 \<le> ?res hi" "hi - lo = (u - LOWEST) / 2 ^ 80" "lo \<le> hi"
      using bisect_brackets [OF b] low by auto
    have "u - LOWEST \<le> max (10 ^ 9) (th_amb c) + 300"
      using up(3) by (auto simp: LOWEST_def KELVIN_def)
    then have "hi - lo \<le> (max (10 ^ 9) (th_amb c) + 300) / 2 ^ 80"
      unfolding br(3) by (rule divide_right_mono) simp
    moreover have "load_at c d lo \<le> load" "load \<le> load_at c d hi"
      using load_at_residual [OF phys(2)] br(1,2) by simp_all
    ultimately have "bracketed p load d ((lo + hi) / 2)"
      unfolding bracketed_def using br(4) c by (intro exI [of _ c] exI [of _ lo] exI [of _ hi]) auto
    with low assms b u show ?thesis by (simp add: steady_temperature_def Let_def)
  qed
qed

lemma steady_search:
  "case steady_temperature p (Fin load) (Fin d) of Inl e \<Rightarrow> is_value_error e | Inr t \<Rightarrow> bracketed p load d t"
proof (cases "thermal_parameters p")
  case (Inl e)
  then show ?thesis by (simp add: steady_temperature_def thermal_parameters_error)
next
  case (Inr c)
  show ?thesis
  proof (cases "th_sigma c = 0")
    case True
    let ?t = "th_amb c + (th_k c * load + d) / th_h c"
    have "residual_of c (th_k c * load + d) ?t = 0"
      using True thermal_parametersD(4) [OF Inr] by (simp add: residual_of_def rad_loss_def)
    then have "load_at c d ?t = load"
      using load_at_residual [OF thermal_parametersD(2) [OF Inr]] by (metis order.refl order_antisym)
    then have "bracketed p load d ?t" by (rule bracketed_exact [OF Inr])
    with True Inr show ?thesis by (simp add: steady_temperature_def Let_def)
  qed (rule steady_radiating [OF Inr])
qed

text \<open>C29: The steady-state search ends: it either refuses with a \<open>ValueError\<close> or returns a temperature that inverts
  the load, up to the width eighty halvings leave; the loop that doubles the upper end never runs away.\<close>

theorem steady_temperature_inverts:
  "(\<exists>e. steady_temperature p (Fin load) (Fin d) = Inl e \<and> is_value_error e)
   \<or> (\<exists>t c lo hi. steady_temperature p (Fin load) (Fin d) = Inr t \<and> thermal_parameters p = Inr c \<and> lo \<le> t \<and> t \<le> hi
        \<and> load_at c d lo \<le> load \<and> load \<le> load_at c d hi \<and> hi - lo \<le> (max (10 ^ 9) (th_amb c) + 300) / 2 ^ 80)"
  using steady_search [of p load d] unfolding bracketed_def
  by (cases "steady_temperature p (Fin load) (Fin d)") auto

text \<open>Between two temperatures above absolute zero the load rises.\<close>

lemma load_at_mono:
  assumes "thermal_parameters p = Inr c" "- KELVIN \<le> s" "s \<le> t"
  shows "load_at c d s \<le> load_at c d t"
  using residual_mono [of c s t 0] thermal_parametersD [OF assms(1)] assms(2,3)
  by (simp add: load_at_def residual_of_def divide_right_mono)

text \<open>A target reported out of reach is not below the temperature predicted for full fire: the two numbers of
  one report, found by different calculations, agree up to the width of the search.\<close>

theorem unreachable_target_is_hotter:
  assumes "feasibility_report p (Fin target) (Fin d) revision provenance = Inr r" "fe_state r = UNREACHABLE_HIGH"
    and "- KELVIN \<le> target"
  shows "\<exists>hottest c params. p = Some params \<and> thermal_parameters params = Inr c \<and> fe_temperature r = Some hottest
    \<and> hottest < target + (max (10 ^ 9) (th_amb c) + 300) / 2 ^ 80"
proof -
  from assms(1,2) obtain params required hottest where p: "p = Some params"
    and required: "steady_combustion_load params (Fin target) (Fin d) = Inr required"
    and hottest: "steady_temperature params (Fin FULL_LOAD) (Fin d) = Inr hottest"
    and r: "fe_temperature r = Some hottest" "FULL_LOAD + REACHABILITY_TOLERANCE < required"
    by (auto simp: feasibility_report_def Let_def ebind_Inr_iff split: option.splits if_splits)
  from steady_search [where p = params and load = FULL_LOAD and d = d] hottest
  have "bracketed params FULL_LOAD d hottest" by simp
  then obtain c lo hi
    where c: "thermal_parameters params = Inr c" and lo: "lo \<le> hottest" "hottest \<le> hi" "load_at c d lo \<le> FULL_LOAD"
      "hi - lo \<le> (max (10 ^ 9) (th_amb c) + 300) / 2 ^ 80"
    unfolding bracketed_def by blast
  from required c have "load_at c d target = required" by (simp add: steady_combustion_load_def)
  with r(2) lo(3) have "load_at c d lo < load_at c d target" by (simp add: REACHABILITY_TOLERANCE_def)
  then have "lo < target" using load_at_mono [OF c assms(3), of lo] by (meson linorder_not_le)
  with lo(1,2,4) have "hottest < target + (max (10 ^ 9) (th_amb c) + 300) / 2 ^ 80" by linarith
  with p c r(1) show ?thesis by blast
qed

section \<open>What an accepted model is\<close>

lemma finite_ofD: "finite_of v = Some x \<Longrightarrow> v = Some (Fin x)"
  by (auto simp: finite_of_def split: option.splits pyfloat.splits)

lemma broken_boundD:
  "broken_bound bounds p = None \<Longrightarrow> (k, lo, hi) \<in> set bounds \<Longrightarrow> lo \<le> par p k \<and> par p k \<le> hi \<and> map_of p k \<noteq> None"
  by (induction bounds p rule: broken_bound.induct)
    (auto simp: par_def finite_of_def split: option.splits pyfloat.splits if_splits)

lemma candidate_faultD:
  assumes "candidate_fault candidate rmse ident = None"
  shows "broken_bound PROMOTION_BOUNDS candidate = None" "n_delay_is_whole (par candidate ''n_delay'')"
    "\<exists>e. rmse = Some (Fin e) \<and> 0 < e" "\<exists>i. ident = Some (Fin i) \<and> IDENTIFIABILITY_FLOOR \<le> i"
  using assms
  by (auto simp: candidate_fault_def not_le not_less dest: finite_ofD split: option.splits if_splits)

lemma accepted_cases:
  assumes "vd_accepted (evaluate_promotion candidate incumbent rmse incumbent_rmse ident)"
  obtains "candidate_fault candidate rmse ident = None" "incumbent = None"
    | current e ce where "candidate_fault candidate rmse ident = None" "incumbent = Some current"
        "incumbent_rmse = Some (Fin e)" "0 < e" "rmse = Some (Fin ce)"
        "ce \<le> e * (1 - required_margin candidate current)"
        "\<And>k. k \<in> set INCUMBENT_KEYS \<Longrightarrow> finite_of (map_of current k) \<noteq> None"
  using assms
  by (auto simp: evaluate_promotion_def refuse_def accept_def compare_fits_def Let_def list_ex_iff not_le not_less
      dest!: finite_ofD split: option.splits if_splits)


definition tau_den :: "thermal \<Rightarrow> rat \<Rightarrow> rat" where
  "tau_den p t = par p ''h_amb'' + 4 * par p ''sigma'' * (t + KELVIN) ^ 3"

lemma effective_tau_den: "effective_tau p t = (if 0 < tau_den p t then Fin (par p ''C_c'' / tau_den p t) else PosInf)"
  by (simp add: effective_tau_def tau_den_def Let_def)

text \<open>What the narrow margin proves at one end: the incumbent's value is positive and no longer.\<close>

lemma narrow_shrink:
  assumes "shrink_margin candidate current < RMSE_MARGIN_FASTER"
  shows "usable current \<and> \<not> float_less candidate current"
  using assms by (auto simp: shrink_margin_def split: if_splits)

lemma narrow_tau:
  assumes "shrink_margin (effective_tau candidate t) (effective_tau current t) < RMSE_MARGIN_FASTER" "0 < tau_den candidate t"
  shows "0 < tau_den current t" "0 < par current ''C_c''"
    "par current ''C_c'' * tau_den candidate t \<le> par candidate ''C_c'' * tau_den current t"
proof -
  have "usable (effective_tau current t)" and le: "\<not> float_less (effective_tau candidate t) (effective_tau current t)"
    using narrow_shrink [OF assms(1)] by simp_all
  then show pos: "0 < tau_den current t" "0 < par current ''C_c''"
    by (auto simp: usable_def effective_tau_den zero_less_divide_iff split: if_splits)
  with le assms(2) have "par current ''C_c'' / tau_den current t \<le> par candidate ''C_c'' / tau_den candidate t"
    by (simp add: effective_tau_den not_less)
  with pos assms(2) show "par current ''C_c'' * tau_den candidate t \<le> par candidate ''C_c'' * tau_den current t"
    by (simp add: divide_le_eq le_divide_eq mult.commute)
qed

text \<open>A linear function of the cube that is non-negative at both ends is so between them.\<close>

lemma linear_between:
  fixes u v :: rat
  assumes "a \<le> x" "x \<le> b" "0 \<le> u + v * a" "0 \<le> u + v * b"
  shows "0 \<le> u + v * x"
proof (cases "0 \<le> v")
  case True
  then have "v * a \<le> v * x" using assms(1) by (intro mult_left_mono)
  with assms(3) show ?thesis by linarith
next
  case False
  then have "v * b \<le> v * x" using assms(2) by (intro mult_left_mono_neg) simp_all
  with assms(4) show ?thesis by linarith
qed


definition cube :: "rat \<Rightarrow> rat" where
  "cube t = (t + KELVIN) ^ 3"

lemma cube_mono: "T_FLOOR_C \<le> s \<Longrightarrow> s \<le> t \<Longrightarrow> 0 < cube s \<and> cube s \<le> cube t"
  by (auto simp: cube_def T_FLOOR_C_def KELVIN_def intro: power_mono)

lemma tau_den_cube: "tau_den p t = par p ''h_amb'' + 4 * par p ''sigma'' * cube t"
  by (simp add: tau_den_def cube_def)

text \<open>Every time constant of the operating range and the dead time are at least the other model's.\<close>

definition no_shorter :: "thermal \<Rightarrow> thermal \<Rightarrow> bool" where
  "no_shorter current candidate \<longleftrightarrow>
     effective_theta current \<le> effective_theta candidate
     \<and> (\<forall>t. T_FLOOR_C \<le> t \<longrightarrow> t \<le> T_HAZARD_C \<longrightarrow>
          (\<exists>a b. effective_tau current t = Fin a \<and> effective_tau candidate t = Fin b \<and> 0 < a \<and> a \<le> b))"

lemma no_shorter_trans:
  assumes "no_shorter a b" "no_shorter b c"
  shows "no_shorter a c"
  unfolding no_shorter_def
proof (intro conjI allI impI)
  show "effective_theta a \<le> effective_theta c" using assms by (simp add: no_shorter_def)
  fix t
  assume "T_FLOOR_C \<le> t" "t \<le> T_HAZARD_C"
  with assms obtain x y y' z where "effective_tau a t = Fin x" "effective_tau b t = Fin y" "0 < x" "x \<le> y"
      "effective_tau b t = Fin y'" "effective_tau c t = Fin z" "y' \<le> z"
    unfolding no_shorter_def by metis
  then show "\<exists>x z. effective_tau a t = Fin x \<and> effective_tau c t = Fin z \<and> 0 < x \<and> x \<le> z" by auto
qed

lemma candidate_den_pos:
  assumes "broken_bound PROMOTION_BOUNDS candidate = None" "T_FLOOR_C \<le> t"
  shows "0 < tau_den candidate t" "0 < par candidate ''C_c''"
proof -
  have "1 / 10 ^ 4 \<le> par candidate ''h_amb''" "0 \<le> par candidate ''sigma''" "1 \<le> par candidate ''C_c''"
    using broken_boundD [OF assms(1), of "''h_amb''" "1 / 10 ^ 4" "10 ^ 3"]
      broken_boundD [OF assms(1), of "''sigma''" 0 "1 / 10 ^ 8"] broken_boundD [OF assms(1), of "''C_c''" 1 "10 ^ 6"]
    by (simp_all add: PROMOTION_BOUNDS_def)
  moreover have "0 < cube t" using cube_mono [OF assms(2) order.refl] by simp
  ultimately show "0 < tau_den candidate t" "0 < par candidate ''C_c''"
    by (auto simp: tau_den_cube intro: add_pos_nonneg)
qed

lemma narrow_margin_no_shorter:
  assumes "broken_bound PROMOTION_BOUNDS candidate = None" "required_margin candidate current < RMSE_MARGIN_FASTER"
  shows "no_shorter current candidate"
proof -
  let ?C = "par candidate ''C_c''" and ?D = "par current ''C_c''"
  let ?u = "?C * par current ''h_amb'' - ?D * par candidate ''h_amb''"
  let ?v = "4 * (?C * par current ''sigma'' - ?D * par candidate ''sigma'')"
  have range: "T_FLOOR_C \<le> T_HAZARD_C" by (simp add: T_FLOOR_C_def T_HAZARD_C_def)
  note margins = assms(2) [unfolded required_margin_def max_less_iff_conj]
  note lo = narrow_tau [of candidate T_FLOOR_C current, OF _ candidate_den_pos(1) [OF assms(1) order.refl]]
  note hi = narrow_tau [of candidate T_HAZARD_C current, OF _ candidate_den_pos(1) [OF assms(1) range]]
  have diff: "?C * tau_den current t - ?D * tau_den candidate t = ?u + ?v * cube t" for t
    by (simp add: tau_den_cube algebra_simps)
  have ends: "0 \<le> ?u + ?v * cube T_FLOOR_C" "0 \<le> ?u + ?v * cube T_HAZARD_C"
    using lo(3) hi(3) margins unfolding diff [symmetric] by simp_all
  have D: "0 < ?D" using lo(2) margins by simp
  show ?thesis
    unfolding no_shorter_def
  proof (intro conjI allI impI)
    have "usable (Fin (effective_theta current)) \<and> \<not> float_less (Fin (effective_theta candidate)) (Fin (effective_theta current))"
      using margins by (intro narrow_shrink) simp
    then show "effective_theta current \<le> effective_theta candidate" by simp
    fix t
    assume t: "T_FLOOR_C \<le> t" "t \<le> T_HAZARD_C"
    have "cube T_FLOOR_C \<le> cube t" "cube t \<le> cube T_HAZARD_C"
      using cube_mono [OF order.refl t(1)] cube_mono [OF t] by simp_all
    from linear_between [OF this ends] have le: "?D * tau_den candidate t \<le> ?C * tau_den current t"
      unfolding diff [symmetric] by simp
    note den = candidate_den_pos [OF assms(1) t(1)]
    from D den(1) have "0 < ?D * tau_den candidate t" by simp
    with le have "0 < ?C * tau_den current t" by linarith
    with den(2) have pos: "0 < tau_den current t" by (simp add: zero_less_mult_iff)
    with le den(1) have "?D / tau_den current t \<le> ?C / tau_den candidate t"
      by (simp add: divide_le_eq le_divide_eq mult.commute)
    with pos den D show "\<exists>a b. effective_tau current t = Fin a \<and> effective_tau candidate t = Fin b \<and> 0 < a \<and> a \<le> b"
      by (simp add: effective_tau_den)
  qed
qed

text \<open>A history of adoptions, each over the model before, none on half the incumbent's error.\<close>

fun adopted_in_turn :: "thermal \<Rightarrow> (thermal \<times> rat \<times> rat \<times> pyfloat option) list \<Rightarrow> bool" where
  "adopted_in_turn current [] = True"
| "adopted_in_turn current ((candidate, rmse, incumbent_rmse, ident) # steps) =
     (vd_accepted (evaluate_promotion candidate (Some current) (Some (Fin rmse)) (Some (Fin incumbent_rmse)) ident)
      \<and> incumbent_rmse / 2 < rmse \<and> adopted_in_turn candidate steps)"

lemma adopted_no_shorter:
  assumes "vd_accepted (evaluate_promotion candidate (Some current) (Some (Fin rmse)) (Some (Fin e)) ident)" "e / 2 < rmse"
  shows "no_shorter current candidate"
proof -
  from assms(1) have fault: "candidate_fault candidate (Some (Fin rmse)) ident = None"
    and "0 < e" "rmse \<le> e * (1 - required_margin candidate current)"
    by (auto elim: accepted_cases)
  have "required_margin candidate current < RMSE_MARGIN_FASTER"
  proof (rule ccontr)
    assume "\<not> ?thesis"
    then have "e * (1 - required_margin candidate current) \<le> e * (1 / 2)"
      using \<open>0 < e\<close> by (intro mult_left_mono) (simp_all add: RMSE_MARGIN_FASTER_def)
    with \<open>rmse \<le> e * (1 - required_margin candidate current)\<close> assms(2) show False by linarith
  qed
  with candidate_faultD(1) [OF fault] show ?thesis by (rule narrow_margin_no_shorter)
qed

text \<open>C28: No chain of adoptions on the narrow margin makes the grill brake later than the first model did: unless one
  of them halved the error, the last model believes in no shorter dead time and, everywhere in the operating range and
  not only at its two ends, in no shorter chamber time constant.\<close>

theorem promotions_never_shorten:
  assumes "adopted_in_turn current steps" "steps \<noteq> []"
  shows "no_shorter current (fst (last steps))"
  using assms
proof (induction current steps rule: adopted_in_turn.induct)
  case (2 current candidate rmse incumbent_rmse ident steps)
  from 2(2) have step: "no_shorter current candidate" by (auto intro: adopted_no_shorter)
  show ?case
  proof (cases "steps = []")
    case False
    with 2 have "no_shorter candidate (fst (last steps))" by simp
    with step False show ?thesis by (auto intro: no_shorter_trans)
  qed (use step in simp)
qed simp

text \<open>An accepted model has every parameter within its physical bounds and a whole number of lag states, comes
  from a cook that determined it, and, over an incumbent, improves the error by the narrow margin at least.\<close>

theorem accepted_model_is_sound:
  assumes "vd_accepted (evaluate_promotion candidate incumbent rmse incumbent_rmse ident)"
  shows "(\<forall>(k, lo, hi)\<in>set PROMOTION_BOUNDS. lo \<le> par candidate k \<and> par candidate k \<le> hi \<and> map_of candidate k \<noteq> None)
    \<and> n_delay_is_whole (par candidate ''n_delay'') \<and> (\<exists>i. ident = Some (Fin i) \<and> IDENTIFIABILITY_FLOOR \<le> i)
    \<and> (incumbent = None \<or> (\<exists>ce e. rmse = Some (Fin ce) \<and> incumbent_rmse = Some (Fin e) \<and> 0 < ce \<and> ce \<le> e * (98 / 100)))"
proof -
  from assms have fault: "candidate_fault candidate rmse ident = None" by (auto elim: accepted_cases)
  note d = candidate_faultD [OF fault]
  have margin: "2 / 100 \<le> required_margin candidate current" for current
    by (auto simp: required_margin_def shrink_margin_def RMSE_MARGIN_def RMSE_MARGIN_FASTER_def)
  from assms have "incumbent = None \<or> (\<exists>ce e. rmse = Some (Fin ce) \<and> incumbent_rmse = Some (Fin e) \<and> 0 < ce \<and> ce \<le> e * (98 / 100))"
  proof (cases rule: accepted_cases)
    case (2 current e ce)
    have "e * (1 - required_margin candidate current) \<le> e * (98 / 100)"
      using margin [of current] 2(4) by (intro mult_left_mono) simp_all
    with 2(6) have "ce \<le> e * (98 / 100)" by linarith
    with 2 d(3) show ?thesis by auto
  qed simp
  with d broken_boundD [OF d(1)] show ?thesis by auto
qed


section \<open>Models to try it on\<close>

definition demo_model :: "rat \<Rightarrow> thermal" where
  "demo_model capacity =
     [(''C_c'', Fin capacity), (''h_amb'', Fin (1 / 2)), (''T_amb'', Fin 20), (''theta'', Fin 60), (''n_delay'', Fin 8),
      (''K_Q'', Fin 200), (''sigma'', Fin (14 / 10 ^ 10))]"

theorem promotions_never_shorten_witness:
  "no_shorter (demo_model 100) (demo_model 130)"
proof -
  have "adopted_in_turn (demo_model 100) [(demo_model 110, 9, 10, Some (Fin 1)), (demo_model 130, 8, 9, Some (Fin 2))]"
    by code_simp
  from promotions_never_shorten [OF this] show ?thesis by simp
qed

theorem accepted_model_is_sound_witness:
  "(9 :: rat) \<le> 10 * (98 / 100) \<and> n_delay_is_whole (par (demo_model 110) ''n_delay'')"
proof -
  have "vd_accepted (evaluate_promotion (demo_model 110) (Some (demo_model 100)) (Some (Fin 9)) (Some (Fin 10)) (Some (Fin 1)))"
    by code_simp
  from accepted_model_is_sound [OF this] show ?thesis by simp
qed

definition demo_flat :: thermal where
  "demo_flat = map (\<lambda>(k, v). (k, if k = ''sigma'' then Fin 0 else v)) (demo_model 100)"

theorem unreachable_target_is_hotter_witness:
  "\<exists>r hottest. feasibility_report (Some demo_flat) (Fin 500) (Fin 0) (Some 1) (Some ''fit'') = Inr r
     \<and> fe_temperature r = Some hottest \<and> hottest < 500 + (10 ^ 9 + 300) / 2 ^ 80"
proof -
  have "(case feasibility_report (Some demo_flat) (Fin 500) (Fin 0) (Some 1) (Some ''fit'') of
      Inr r \<Rightarrow> fe_state r = UNREACHABLE_HIGH | Inl e \<Rightarrow> False)" by code_simp
  then obtain r where r: "feasibility_report (Some demo_flat) (Fin 500) (Fin 0) (Some 1) (Some ''fit'') = Inr r"
    "fe_state r = UNREACHABLE_HIGH" by (auto split: sum.splits)
  have "(case thermal_parameters demo_flat of Inr c \<Rightarrow> th_amb c = 20 | Inl e \<Rightarrow> False)" by code_simp
  with unreachable_target_is_hotter [OF r] show ?thesis by (auto simp: r(1) KELVIN_def)
qed

end
