(* ===== verification/Orchestrator.thy ===== *)
theory Orchestrator
  imports Mode_Transitions
begin

text \<open>
  \<open>controller/runtime/controller.py\<close>: the outer loop's dispatch. \<open>dispatch\<close> is the part of \<open>Controller.tick()\<close> that
  acts on a requested mode (from \<open>if self.control["updated"]\<close> to the end of that block), \<open>admit_idle_clock\<close> its
  first guard, \<open>recipe_mode\<close> the walk through a recipe file (with the unit conversion of \<open>file_mgmt/recipes.py\<close>).

  The record \<open>orch\<close> holds the Controller's attributes; \<open>o_store\<close> is what other processes share (the world of the
  transitions, the metrics rows, the status and the error list) and \<open>o_log\<close> records the hardware commands and work
  cycles in order. A per-mode work cycle (\<open>env_work\<close>) and the archiving of a session (\<open>env_cookfile\<close>) are arguments
  that may do anything to the store and may raise; so is the recipe file's content. Log messages, the probe
  devices' own updates, the sensor samples of the last cycle (\<open>flush_current\<close>), the pause before the error screen is
  cleared and the learning hints are not modelled; the text of the archive's error entry is shortened.
\<close>

section \<open>State and environment\<close>

record stored =
  st_world :: world
  st_metrics :: "pydict list"
  st_status :: pydict
  st_errors :: "string list"
  st_clears :: nat

datatype effect = Hardware string | Cycle pyval | Power_off_host

record orch =
  o_store :: stored
  o_control :: pydict
  o_status :: pydict
  o_settings :: pyval
  o_log :: "effect list"

type_synonym 'a orch_action = "(orch, 'a) action"

datatype recipe_file = No_file | Unreadable | Recipe_file pyval pyval

record env =
  env_ids :: "int \<Rightarrow> nat \<Rightarrow> string"
  env_work :: "pyval \<Rightarrow> (stored, unit) action"
  env_cookfile :: "pyval \<Rightarrow> (stored, unit) action"
  env_recipe :: "pyval \<Rightarrow> recipe_file"
  env_metric :: pydict
  env_elapsed :: pyval

definition in_store :: "(stored, 'a) action \<Rightarrow> 'a orch_action" where
  "in_store m s = (case m (o_store s) of (t, r) \<Rightarrow> (s\<lparr>o_store := t\<rparr>, r))"

definition in_world :: "(world, 'a) action \<Rightarrow> 'a orch_action" where
  "in_world m = in_store (\<lambda>s. case m (st_world s) of (w, r) \<Rightarrow> (s\<lparr>st_world := w\<rparr>, r))"

definition hardware :: "string \<Rightarrow> unit orch_action" where
  "hardware name = amodify (\<lambda>s. s\<lparr>o_log := o_log s @ [Hardware name]\<rparr>)"

text \<open>The keys of \<open>_MODE_HANDLERS\<close>; the cycle itself is the environment's.\<close>

definition MODE_HANDLERS :: "string list" where
  "MODE_HANDLERS = [M_MONITOR, M_MANUAL, M_SHUTDOWN, M_PRIME, M_STARTUP, M_REIGNITE, M_SMOKE, M_HOLD]"

definition work_cycle :: "env \<Rightarrow> pyval \<Rightarrow> unit orch_action" where
  "work_cycle env m =
     (if \<not> hashable m then araise (TypeError ''unhashable'')
      else case m of
        VStr name \<Rightarrow>
          if name \<in> set MODE_HANDLERS then
            abind (amodify (\<lambda>s. s\<lparr>o_log := o_log s @ [Cycle m]\<rparr>)) (\<lambda>_. in_store (env_work env m))
          else araise (KeyError name)
      | _ \<Rightarrow> araise (KeyError []))"

definition cget :: "string \<Rightarrow> pyval orch_action" where
  "cget k = abind (aget o_control) (\<lambda>c. alift (dindex c k))"

definition cput :: "string \<Rightarrow> pyval \<Rightarrow> unit orch_action" where
  "cput k v = amodify (\<lambda>s. s\<lparr>o_control := dput k v (o_control s)\<rparr>)"

definition write_snapshot :: "pydict \<Rightarrow> unit orch_action" where
  "write_snapshot c = in_world (amodify (write_world c))"

definition write_control :: "unit orch_action" where
  "write_control = abind (aget o_control) write_snapshot"

definition sput :: "(string \<times> pyval) list \<Rightarrow> unit orch_action" where
  "sput kvs = amodify (\<lambda>s. s\<lparr>o_status := dupdate (o_status s) kvs\<rparr>)"

definition write_status :: "unit orch_action" where
  "write_status = amodify (\<lambda>s. s\<lparr>o_store := (o_store s)\<lparr>st_status := o_status s\<rparr>\<rparr>)"

definition world_of :: "orch \<Rightarrow> world" where
  "world_of s = st_world (o_store s)"

definition admitted_stamp :: "clock_stamp orch_action" where
  "admitted_stamp =
     abind (aget (\<lambda>s. last_clock_stamp (world_of s))) (\<lambda>stamp.
       case stamp of None \<Rightarrow> araise (RuntimeError ''Timer operations require an admitted control tick'') | Some t \<Rightarrow> areturn t)"

definition read_settings :: "pyval orch_action" where
  "read_settings = aget (\<lambda>s. settings (db (world_of s)))"

definition reload_settings :: "unit orch_action" where
  "reload_settings = abind read_settings (\<lambda>v. amodify (o_settings_update (\<lambda>_. v)))"

definition load_control :: "pydict orch_action" where
  "load_control = abind (aget (\<lambda>s. read_control (db (world_of s)))) alift"

text \<open>\<open>flush_history\<close>: history and metrics are cleared, and the stored control forgets the cook.\<close>

definition flush_history :: "unit orch_action" where
  "flush_history =
     abind load_control (\<lambda>c.
     abind (amodify (\<lambda>s. s\<lparr>o_store := (o_store s)\<lparr>st_metrics := [], st_clears := Suc (st_clears (o_store s))\<rparr>\<rparr>)) (\<lambda>_.
       write_snapshot (dput ''cook_id'' VNone c)))"

section \<open>Notification items\<close>

text \<open>\<open>for item in notify_data: if item["type"] == "timer": item["req"] = False\<close>.\<close>

definition is_timer_item :: "pyval \<Rightarrow> bool result" where
  "is_timer_item item =
     (case item of VDict d \<Rightarrow> ebind (dindex d ''type'') (\<lambda>t. Inr (py_eq t (VStr ''timer''))) | _ \<Rightarrow> Inl (TypeError ''notify item''))"

definition unrequest :: "pyval \<Rightarrow> pyval" where
  "unrequest item = (case item of VDict d \<Rightarrow> VDict (dput ''req'' (VBool False) d) | v \<Rightarrow> v)"

definition disarm_items :: "pyval list \<Rightarrow> pyval list result" where
  "disarm_items items =
     emap_list (\<lambda>item. ebind (is_timer_item item) (\<lambda>b. Inr (if b then unrequest item else item))) items"

fun efilter :: "('a \<Rightarrow> 'e + bool) \<Rightarrow> 'a list \<Rightarrow> 'e + 'a list" where
  "efilter p [] = Inr []"
| "efilter p (x # xs) = ebind (p x) (\<lambda>b. ebind (efilter p xs) (\<lambda>ys. Inr (if b then x # ys else ys)))"

definition timer_options :: "pyval list \<Rightarrow> pyval list result" where
  "timer_options items = ebind (efilter is_timer_item items) (\<lambda>ts. Inr (map unrequest ts))"

definition as_list :: "pyval \<Rightarrow> pyval list result" where
  "as_list v = (case v of VList xs \<Rightarrow> Inr xs | _ \<Rightarrow> Inl (TypeError ''list''))"

definition as_dict :: "pyval \<Rightarrow> pydict result" where
  "as_dict v = (case v of VDict d \<Rightarrow> Inr d | _ \<Rightarrow> Inl (TypeError ''dict''))"

section \<open>The clock guard\<close>

text \<open>
  \<open>_admit_idle_clock\<close>: \<open>stamp\<close> is what \<open>domain.capture()\<close> returns at the start of the tick, \<open>again\<close> what it returns
  after the runtime was rotated.
\<close>

definition stop_actuators :: "unit orch_action" where
  "stop_actuators = abind (hardware ''auger_off'') (\<lambda>_. abind (hardware ''igniter_off'') (\<lambda>_. hardware ''fan_off''))"

definition run_writes :: "env \<Rightarrow> clock_stamp \<Rightarrow> unit orch_action" where
  "run_writes env now =
     in_world (\<lambda>w. case execute_control_writes (env_ids env) now (db w) of
       (d, None) \<Rightarrow> (w\<lparr>db := d\<rparr>, Inr ()) | (d, Some e) \<Rightarrow> (w\<lparr>db := d\<rparr>, Inl e))"

definition disarm_notify :: "unit orch_action" where
  "disarm_notify =
     abind (cget ''notify_data'') (\<lambda>v. abind (alift (ebind (as_list v) disarm_items)) (\<lambda>items. cput ''notify_data'' (VList items)))"

definition manual_off :: "unit orch_action" where
  "manual_off =
     abind (cget ''manual'') (\<lambda>v. abind (alift (as_dict v)) (\<lambda>d.
       cput ''manual'' (VDict (dput ''output'' (VBool False) (dput ''change'' (VBool False) d)))))"

definition stop_after_jump :: "env \<Rightarrow> clock_stamp \<Rightarrow> bool orch_action" where
  "stop_after_jump env again =
     abind (run_writes env again) (\<lambda>_.
     abind load_control (\<lambda>c.
     abind (amodify (o_control_update (\<lambda>_. c))) (\<lambda>_.
     abind (cget ''timer'') (\<lambda>t.
     abind (cput ''timer'' (timer_value (fst (restore_timer t)))) (\<lambda>_.
     abind disarm_notify (\<lambda>_.
     abind manual_off (\<lambda>_.
     abind (aget o_control) (\<lambda>c'.
     abind (in_world (request_transition (env_ids env) c' (VStr M_ERROR) SAFETY None None None (Some (display_text ''ERROR'')))) (\<lambda>d.
     abind (amodify (o_control_update (\<lambda>_. d))) (\<lambda>_.
     abind (in_world (amodify (last_clock_stamp_update (\<lambda>_. None)))) (\<lambda>_.
       areturn False)))))))))))"

definition admit_idle_clock :: "env \<Rightarrow> clock_stamp \<Rightarrow> clock_stamp \<Rightarrow> bool orch_action" where
  "admit_idle_clock env stamp again =
     abind (aget (\<lambda>s. last_clock_stamp (world_of s))) (\<lambda>previous.
     abind (alift (continuity_lost (case previous of None \<Rightarrow> stamp | Some p \<Rightarrow> p) stamp CONTROL_DISCONTINUITY_SECONDS)) (\<lambda>lost.
     if \<not> lost then abind (in_world (amodify (last_clock_stamp_update (\<lambda>_. Some stamp)))) (\<lambda>_. areturn True)
     else
       abind stop_actuators (\<lambda>_. abind (hardware ''power_off'') (\<lambda>_. stop_after_jump env again))))"

section \<open>The terminal modes\<close>

definition entry_mode :: "pydict \<Rightarrow> pyval" where
  "entry_mode entry = dget_none entry ''mode''"

definition member :: "pyval \<Rightarrow> string list \<Rightarrow> bool" where
  "member v names = list_ex (\<lambda>n. py_eq v (VStr n)) names"

text \<open>Register the stop in the metrics and archive or clear the session: was it finalized?\<close>

definition finish_session :: "env \<Rightarrow> pyval \<Rightarrow> bool orch_action" where
  "finish_session env cook_id =
     abind (aget (\<lambda>s. st_metrics (o_store s))) (\<lambda>entries.
     if entries = [] then areturn False
     else
       abind (in_store (amodify (\<lambda>s. s\<lparr>st_metrics := st_metrics s @ [dput ''mode'' (VStr M_STOP) (env_metric env)]\<rparr>))) (\<lambda>_.
       if list_ex (\<lambda>e. member (entry_mode e) COOK_MODES) entries then
         (\<lambda>s. case in_store (env_cookfile env cook_id) s of
            (t, Inr _) \<Rightarrow> (t, Inr True)
          | (t, Inl _) \<Rightarrow>
              (t\<lparr>o_store := (o_store t)\<lparr>st_errors := st_errors (o_store t) @ [''Cook file could not be created'']\<rparr>\<rparr>, Inr False))
       else if \<not> py_eq (entry_mode (last entries)) (VStr M_PRIME) then abind flush_history (\<lambda>_. areturn True)
       else areturn False))"

definition terminal_status :: "env \<Rightarrow> clock_stamp option \<Rightarrow> pydict" where
  "terminal_status env stamp =
     [(''p_mode'', VInt 0), (''mode'', VStr M_STOP), (''recipe'', VBool False), (''recipe_paused'', VBool False),
      (''start_time'', VInt 0), (''lid_open_detected'', VBool False), (''lid_open_endtime'', VInt 0),
      (''startup_timestamp'', VInt 0), (''elapsed_seconds'', VFloat (Fin 0)), (''remaining_seconds'', VNone),
      (''lid_open_remaining_seconds'', VFloat (Fin 0)), (''cook_elapsed_seconds'', env_elapsed env), (''running'', VBool False),
      (''clock_stamp'', (case stamp of None \<Rightarrow> VNone | Some t \<Rightarrow> VDict (stamp_as_dict t)))]"

text \<open>What both branches put on the fresh default control.\<close>

definition retain :: "pyval \<Rightarrow> pyval list \<Rightarrow> pyval \<Rightarrow> pyval \<Rightarrow> unit orch_action" where
  "retain timer options diagnostic critical_error =
     abind (cput ''timer'' timer) (\<lambda>_.
     abind (cget ''notify_data'') (\<lambda>v.
     abind (alift (ebind (as_list v) (efilter (\<lambda>item. ebind (is_timer_item item) (\<lambda>b. Inr (\<not> b)))))) (\<lambda>others.
     abind (cput ''notify_data'' (VList (others @ options))) (\<lambda>_.
     abind (if diagnostic = VNone then areturn () else cput ''timer_migration_diagnostic'' diagnostic) (\<lambda>_.
       cput ''critical_error'' critical_error)))))"

definition reset_retries :: "unit orch_action" where
  "reset_retries =
     abind (aget o_settings) (\<lambda>cfg.
     abind (alift (vpath cfg [''safety'', ''reigniteretries''])) (\<lambda>retries.
     abind (cget ''safety'') (\<lambda>v. abind (alift (as_dict v)) (\<lambda>d.
       cput ''safety'' (VDict (dput ''reigniteretries'' retries d))))))"

definition push_display :: "unit orch_action" where
  "push_display = in_world (amodify (\<lambda>w. w\<lparr>display_pushes := display_pushes w @ [VList [VStr ''clear'', VNone]]\<rparr>))"

definition fresh_control :: "pyval \<Rightarrow> unit orch_action" where
  "fresh_control cook_id =
     abind (in_world (\<lambda>w. case flush_control cook_id False (db w) of
        Inl e \<Rightarrow> (w, Inl e) | Inr (c, d) \<Rightarrow> (w\<lparr>db := d\<rparr>, Inr c))) (\<lambda>c. amodify (o_control_update (\<lambda>_. c)))"

definition settle_stop :: "pyval \<Rightarrow> pyval \<Rightarrow> pyval list \<Rightarrow> pyval \<Rightarrow> pyval \<Rightarrow> unit orch_action" where
  "settle_stop cook_id timer options diagnostic critical_error =
     abind push_display (\<lambda>_.
     abind (fresh_control cook_id) (\<lambda>_.
     abind (retain timer options diagnostic critical_error) (\<lambda>_.
     abind (cput ''status'' (VStr ''inactive'')) (\<lambda>_.
     abind (cput ''updated'' (VBool False)) (\<lambda>_.
     abind (cput ''tuning_mode'' (VBool False)) (\<lambda>_.
     abind (cput ''next_mode'' (VStr M_STOP)) (\<lambda>_.
     abind reset_retries (\<lambda>_.
     abind (cput ''startup_timestamp'' (VInt 0)) (\<lambda>_. write_control)))))))))"

definition settle_error :: "pyval \<Rightarrow> pyval \<Rightarrow> pyval list \<Rightarrow> pyval \<Rightarrow> pyval \<Rightarrow> unit orch_action" where
  "settle_error cook_id timer options diagnostic critical_error =
     abind (fresh_control cook_id) (\<lambda>_.
     abind (retain timer options diagnostic critical_error) (\<lambda>_.
     abind (cput ''mode'' (VStr M_ERROR)) (\<lambda>_.
     abind (cput ''status'' (VStr ''inactive'')) (\<lambda>_.
     abind (cput ''tuning_mode'' (VBool False)) (\<lambda>_.
     abind (cput ''updated'' (VBool False)) (\<lambda>_.
     abind (cput ''next_mode'' (VStr M_STOP)) (\<lambda>_.
     abind reset_retries (\<lambda>_.
     abind write_control (\<lambda>_. push_display)))))))))"

definition close_session :: "env \<Rightarrow> unit orch_action" where
  "close_session env =
     abind (cget ''timer'') (\<lambda>tv.
     abind (alift (parse_timer tv)) (\<lambda>t.
     abind admitted_stamp (\<lambda>now.
     abind (cget ''mode'') (\<lambda>mode.
     let retained = timer_value (pause_timer t now (py_eq mode (VStr M_ERROR))) in
     abind (cget ''notify_data'') (\<lambda>nv.
     abind (alift (ebind (as_list nv) timer_options)) (\<lambda>options.
     abind (aget (\<lambda>s. dget_none (o_control s) ''timer_migration_diagnostic'')) (\<lambda>diagnostic.
     abind (cput ''timer'' retained) (\<lambda>_.
     abind disarm_notify (\<lambda>_.
     abind write_control (\<lambda>_.
     abind (sput [(''cycle_ratio'', VInt 0), (''fan_duty'', VInt 0)]) (\<lambda>_.
     abind write_status (\<lambda>_.
     abind (aget (\<lambda>s. dget_none (o_control s) ''cook_id'')) (\<lambda>cook_id.
     abind (finish_session env cook_id) (\<lambda>finalized.
     abind (aget (\<lambda>s. last_clock_stamp (world_of s))) (\<lambda>stamp.
     abind (sput (terminal_status env stamp)) (\<lambda>_.
     abind write_status (\<lambda>_.
     abind (cget ''status'') (\<lambda>status.
     abind (hardware (if should_keep_power_on mode status then ''power_on'' else ''power_off'')) (\<lambda>_.
     abind (cget ''critical_error'') (\<lambda>critical_error.
     let retained_cook = (if finalized then VNone else cook_id) in
       if py_eq mode (VStr M_STOP) then settle_stop retained_cook retained options diagnostic critical_error
       else settle_error retained_cook retained options diagnostic critical_error))))))))))))))))))))"

text \<open>The whole branch: the actuators first.\<close>

definition enter_terminal :: "env \<Rightarrow> unit orch_action" where
  "enter_terminal env = abind stop_actuators (\<lambda>_. close_session env)"

section \<open>Recipes\<close>

definition convert_temp :: "pyval \<Rightarrow> pyval \<Rightarrow> pyval result" where
  "convert_temp units temp =
     (case fin_num temp of
        None \<Rightarrow> Inl (TypeError ''temperature'')
      | Some t \<Rightarrow> Inr (VInt (if py_eq units (VStr ''F'') then py_trunc (t * (9 / 5) + 32) else py_trunc ((t - 32) * (5 / 9)))))"

definition convert_setpoint :: "pyval \<Rightarrow> pyval \<Rightarrow> pyval result" where
  "convert_setpoint units temp = (if \<not> truthy temp then Inr (VInt 0) else convert_temp units temp)"

definition convert_step :: "pyval \<Rightarrow> pyval \<Rightarrow> pyval result" where
  "convert_step units step =
     ebind (as_dict step) (\<lambda>d.
     ebind (dindex d ''hold_temp'') (\<lambda>h. ebind (convert_setpoint units h) (\<lambda>h'.
     ebind (dindex d ''trigger_temps'') (\<lambda>tv. ebind (as_dict tv) (\<lambda>td.
     ebind (dindex td ''primary'') (\<lambda>q. ebind (convert_setpoint units q) (\<lambda>q'.
     ebind (dindex td ''food'') (\<lambda>fv. ebind (as_list fv) (\<lambda>fs. ebind (emap_list (convert_setpoint units) fs) (\<lambda>fs'.
       Inr (VDict (dput ''trigger_temps'' (VDict (dput ''food'' (VList fs') (dput ''primary'' q' td)))
              (dput ''hold_temp'' h' d)))))))))))))"

definition convert_recipe_units :: "pyval \<Rightarrow> pyval \<Rightarrow> pyval result" where
  "convert_recipe_units recipe units =
     ebind (as_dict recipe) (\<lambda>d. ebind (dindex d ''steps'') (\<lambda>v. ebind (as_list v) (\<lambda>steps.
     ebind (emap_list (convert_step units) steps) (\<lambda>steps'. Inr (VDict (dput ''steps'' (VList steps') d))))))"

definition as_key :: "pyval \<Rightarrow> string result" where
  "as_key v = (case v of VStr k \<Rightarrow> Inr k | _ \<Rightarrow> Inl (TypeError ''probe label''))"

definition list_index :: "pyval list \<Rightarrow> nat \<Rightarrow> pyval result" where
  "list_index xs i = (if i < length xs then Inr (xs ! i) else Inl IndexError)"

fun food_triggers :: "pyval list \<Rightarrow> nat \<Rightarrow> pyval list \<Rightarrow> pydict \<Rightarrow> pydict result" where
  "food_triggers labels i [] d = Inr d"
| "food_triggers labels i (temp # temps) d =
     ebind (list_index labels i) (\<lambda>l. ebind (as_key l) (\<lambda>k. food_triggers labels (Suc i) temps (dput k temp d)))"

definition step_triggers :: "pyval \<Rightarrow> pydict \<Rightarrow> pydict result" where
  "step_triggers cfg triggers =
     ebind (vpath cfg [''recipe'', ''probe_map'', ''primary'']) (\<lambda>pl. ebind (as_key pl) (\<lambda>primary.
     ebind (dindex triggers ''primary'') (\<lambda>q.
     ebind (dindex triggers ''food'') (\<lambda>fv. ebind (as_list fv) (\<lambda>temps.
       if temps = [] then Inr (dput primary q [])
       else
         ebind (vpath cfg [''recipe'', ''probe_map'', ''food'']) (\<lambda>lv. ebind (as_list lv) (\<lambda>labels.
           food_triggers labels 0 temps (dput primary q []))))))))"

text \<open>Put a step into the control: its data with the probe labels resolved, not yet triggered.\<close>

definition enter_step :: "pyval \<Rightarrow> pyval \<Rightarrow> int \<Rightarrow> pydict \<Rightarrow> pydict result" where
  "enter_step cfg step step_num control =
     ebind (as_dict step) (\<lambda>sd.
     ebind (dindex control ''recipe'') (\<lambda>rv. ebind (as_dict rv) (\<lambda>r.
     ebind (dindex sd ''trigger_temps'') (\<lambda>tv. ebind (as_dict tv) (\<lambda>td.
     ebind (step_triggers cfg td) (\<lambda>triggers.
     ebind (dindex sd ''hold_temp'') (\<lambda>hold.
       let data = dput ''triggered'' (VBool False) (dput ''trigger_temps'' (VDict triggers) sd);
           r' = dput ''step_data'' (VDict data) (dput ''step'' (VInt step_num) r)
       in Inr (dput ''primary_setpoint'' hold (dput ''recipe'' (VDict r') control)))))))))"

definition step_mode :: "pyval \<Rightarrow> pyval result" where
  "step_mode step = ebind (as_dict step) (\<lambda>d. dindex d ''mode'')"

text \<open>\<open>steps[i]\<close> with an index counted from the end when it is negative, and the mode announced as the next one.\<close>

definition step_at :: "pyval list \<Rightarrow> int \<Rightarrow> pyval result" where
  "step_at steps i =
     (let n = int (length steps); j = (if i < 0 then n + i else i)
      in if 0 \<le> j \<and> j < n then Inr (steps ! nat j) else Inl IndexError)"

definition next_effective_mode :: "pyval list \<Rightarrow> int \<Rightarrow> pyval result" where
  "next_effective_mode steps i =
     (if i + 1 < int (length steps) then ebind (step_at steps (i + 1)) step_mode else Inr (VStr M_STOP))"

definition drain_if_admitted :: "env \<Rightarrow> unit orch_action" where
  "drain_if_admitted env =
     abind (aget (\<lambda>s. last_clock_stamp (world_of s))) (\<lambda>stamp.
       case stamp of None \<Rightarrow> areturn () | Some now \<Rightarrow> run_writes env now)"

definition requested :: "pydict \<Rightarrow> bool result" where
  "requested c = ebind (dindex c ''updated'') (\<lambda>u. Inr (truthy u))"

text \<open>
  The loop over the steps; it answers with the step it stopped at and the control then in hand. The fuel bounds its
  iterations: an iteration goes on to the next step or, after a reignition, runs the step again.
\<close>

fun walk_steps :: "nat \<Rightarrow> env \<Rightarrow> pyval \<Rightarrow> pyval list \<Rightarrow> int \<Rightarrow> bool \<Rightarrow> pydict \<Rightarrow> (int \<times> pydict) orch_action" where
  "walk_steps 0 env cfg steps step_num retrying control = araise (RuntimeError ''fuel'')"
| "walk_steps (Suc n) env cfg steps step_num retrying control =
     (if int (length steps) \<le> step_num then areturn (step_num, control)
      else
        abind (alift (if retrying then Inr control
                      else ebind (step_at steps step_num) (\<lambda>step. enter_step cfg step step_num control))) (\<lambda>c1.
        abind (write_snapshot (dput ''updated'' (VBool False) c1)) (\<lambda>_.
        abind (alift (next_effective_mode steps step_num)) (\<lambda>_.
        abind (alift (ebind (step_at steps step_num) step_mode)) (\<lambda>mode.
        abind (work_cycle env mode) (\<lambda>_.
        abind (drain_if_admitted env) (\<lambda>_.
        abind load_control (\<lambda>c.
        abind (alift (dindex c ''mode'')) (\<lambda>m.
        abind (alift (requested c)) (\<lambda>u.
        if py_eq m (VStr M_REIGNITE) \<and> u then
          abind (write_snapshot (dput ''mode'' (VStr M_RECIPE) (dput ''updated'' (VBool False) c))) (\<lambda>_.
          abind (work_cycle env (VStr M_REIGNITE)) (\<lambda>_.
          abind load_control (\<lambda>c2.
          abind (alift (requested c2)) (\<lambda>u2.
          abind (alift (dindex c2 ''mode'')) (\<lambda>m2.
          if u2 \<and> \<not> py_eq m2 (VStr M_RECIPE) then areturn (step_num, c2)
          else walk_steps n env cfg steps step_num True c2)))))
        else if \<not> py_eq m (VStr M_RECIPE) \<and> u then areturn (step_num, c)
        else walk_steps n env cfg steps (step_num + 1) False c))))))))))"

definition forget_recipe :: "pydict \<Rightarrow> pydict result" where
  "forget_recipe c =
     ebind (dindex c ''recipe'') (\<lambda>rv. ebind (as_dict rv) (\<lambda>r.
       Inr (dput ''recipe'' (VDict (ddel ''timer_step'' (ddel ''timer_id'' (dput ''filename'' (VStr [])
          (dput ''step_data'' (VDict []) (dput ''step'' (VInt 0) r)))))) c)))"

definition stop_now :: "env \<Rightarrow> pydict \<Rightarrow> unit orch_action" where
  "stop_now env c =
     abind (in_world (request_transition (env_ids env) c (VStr M_STOP) TERMINAL None None None None)) (\<lambda>_. areturn ())"

definition recipe_mode :: "nat \<Rightarrow> env \<Rightarrow> int \<Rightarrow> unit orch_action" where
  "recipe_mode fuel env start_step =
     abind read_settings (\<lambda>cfg.
     abind load_control (\<lambda>control.
     abind (alift (ebind (dindex control ''recipe'') (\<lambda>rv. ebind (as_dict rv) (\<lambda>r. dindex r ''filename'')))) (\<lambda>filename.
     case env_recipe env filename of
       No_file \<Rightarrow> stop_now env control
     | Unreadable \<Rightarrow> stop_now env control
     | Recipe_file units recipe \<Rightarrow>
         abind (alift (vpath cfg [''globals'', ''units''])) (\<lambda>own.
         abind (alift (if \<not> py_eq own units then convert_recipe_units recipe own else Inr recipe)) (\<lambda>recipe'.
         abind (alift (ebind (as_dict recipe') (\<lambda>d. ebind (dindex d ''steps'') as_list))) (\<lambda>steps.
         abind (walk_steps fuel env cfg steps start_step False control) (\<lambda>(step_num, c).
         abind (alift (forget_recipe c)) (\<lambda>c'.
         abind (alift (requested c')) (\<lambda>u.
           if \<not> u \<or> step_num = int (length steps) then stop_now env c' else write_snapshot c')))))))))"

section \<open>Dispatch\<close>

definition natural_next :: "env \<Rightarrow> pyval \<Rightarrow> pyval \<Rightarrow> unit orch_action" where
  "natural_next env to_mode setpoint = abind (in_world (next_mode (env_ids env) to_mode setpoint)) (\<lambda>_. areturn ())"

text \<open>\<open>settings["startup"].get("start_to_mode", {}).get(key, default)\<close>.\<close>

definition start_to :: "pyval \<Rightarrow> string \<Rightarrow> pyval \<Rightarrow> pyval result" where
  "start_to cfg key default_value =
     ebind (vpath cfg [''startup'']) (\<lambda>sv. ebind (as_dict sv) (\<lambda>sd.
       case dget sd ''start_to_mode'' of
         None \<Rightarrow> Inr default_value
       | Some m \<Rightarrow> ebind (as_dict m) (\<lambda>d. Inr (case dget d key of None \<Rightarrow> default_value | Some v \<Rightarrow> v))))"

definition next_after_start :: "env \<Rightarrow> unit orch_action" where
  "next_after_start env =
     abind reload_settings (\<lambda>_.
     abind (cget ''next_mode'') (\<lambda>m.
     abind (aget o_settings) (\<lambda>cfg.
     abind (alift (start_to cfg ''primary_setpoint'' (VInt 165))) (\<lambda>setpoint. natural_next env m setpoint))))"

definition dispatch_prime :: "env \<Rightarrow> unit orch_action" where
  "dispatch_prime env = abind (work_cycle env (VStr M_PRIME)) (\<lambda>_. next_after_start env)"

definition prime_first :: "env \<Rightarrow> pyval \<Rightarrow> unit orch_action" where
  "prime_first env amount =
     abind (cput ''prime_amount'' amount) (\<lambda>_.
     abind (cput ''mode'' (VStr M_PRIME)) (\<lambda>_.
     abind write_control (\<lambda>_.
     abind (work_cycle env (VStr M_PRIME)) (\<lambda>_.
     abind load_control (\<lambda>c.
     abind (amodify (o_control_update (\<lambda>_. c))) (\<lambda>_.
     abind (cget ''mode'') (\<lambda>m.
       if member m [M_PRIME, M_STARTUP] then
         abind (cput ''updated'' (VBool False)) (\<lambda>_. cput ''mode'' (VStr M_STARTUP))
       else areturn ())))))))"

definition dispatch_startup :: "env \<Rightarrow> unit orch_action" where
  "dispatch_startup env =
     abind reload_settings (\<lambda>_.
     abind flush_history (\<lambda>_.
     abind (aget o_settings) (\<lambda>cfg.
     abind (alift (vpath cfg [''startup'', ''prime_on_startup''])) (\<lambda>amount.
     abind (alift (case fin_num amount of None \<Rightarrow> Inl (TypeError ''>'') | Some q \<Rightarrow> Inr (0 < q))) (\<lambda>prime.
     abind (if prime then prime_first env amount else areturn ()) (\<lambda>_.
     abind (cget ''mode'') (\<lambda>m.
       if \<not> py_eq m (VStr M_STARTUP) then areturn ()
       else
         abind (alift (start_to cfg ''after_startup_mode'' (VStr ''Smoke''))) (\<lambda>after.
         abind (cput ''next_mode'' after) (\<lambda>_.
         abind write_control (\<lambda>_.
         abind (work_cycle env (VStr M_STARTUP)) (\<lambda>_. next_after_start env)))))))))))"

definition dispatch_smoke :: "env \<Rightarrow> unit orch_action" where
  "dispatch_smoke env =
     abind (work_cycle env (VStr M_SMOKE)) (\<lambda>_. abind (cget ''next_mode'') (\<lambda>m. natural_next env m (VInt 0)))"

definition dispatch_hold :: "env \<Rightarrow> unit orch_action" where
  "dispatch_hold env =
     abind (work_cycle env (VStr M_HOLD)) (\<lambda>_.
     abind (cget ''next_mode'') (\<lambda>m. abind (cget ''primary_setpoint'') (\<lambda>setpoint. natural_next env m setpoint)))"

definition dispatch_shutdown :: "env \<Rightarrow> unit orch_action" where
  "dispatch_shutdown env =
     abind (aget o_settings) (\<lambda>cfg.
     abind (cput ''next_mode'' (VStr M_STOP)) (\<lambda>_.
     abind write_control (\<lambda>_.
     abind (work_cycle env (VStr M_SHUTDOWN)) (\<lambda>_.
     abind (cget ''next_mode'') (\<lambda>m.
     abind (natural_next env m (VInt 0)) (\<lambda>_.
     abind load_control (\<lambda>c.
     abind (amodify (o_control_update (\<lambda>_. c))) (\<lambda>_.
     abind (alift (vpath cfg [''shutdown'', ''auto_power_off''])) (\<lambda>auto.
     if \<not> truthy auto then areturn ()
     else
       abind (cget ''mode'') (\<lambda>mode.
         if py_eq mode (VStr M_STOP) then amodify (\<lambda>s. s\<lparr>o_log := o_log s @ [Power_off_host]\<rparr>) else areturn ()))))))))))"

definition dispatch_monitor :: "env \<Rightarrow> unit orch_action" where
  "dispatch_monitor env =
     abind (cput ''status'' (VStr STATUS_MONITOR)) (\<lambda>_. abind write_control (\<lambda>_. work_cycle env (VStr M_MONITOR)))"

definition dispatch_manual :: "env \<Rightarrow> unit orch_action" where
  "dispatch_manual env = work_cycle env (VStr M_MANUAL)"

definition dispatch_recipe :: "nat \<Rightarrow> env \<Rightarrow> unit orch_action" where
  "dispatch_recipe fuel env =
     abind (cget ''recipe'') (\<lambda>rv.
     abind (alift (ebind (as_dict rv) (\<lambda>r. dindex r ''start_step''))) (\<lambda>v.
       case v of VInt n \<Rightarrow> recipe_mode fuel env n | _ \<Rightarrow> araise (TypeError ''start_step'')))"

definition dispatch_reignite :: "env \<Rightarrow> unit orch_action" where
  "dispatch_reignite env =
     abind (cget ''safety'') (\<lambda>sv.
     abind (alift (ebind (as_dict sv) (\<lambda>d. dindex d ''reignitelaststate''))) (\<lambda>last_state.
     abind (cput ''next_mode'' last_state) (\<lambda>_.
     abind (cget ''primary_setpoint'') (\<lambda>setpoint.
     abind write_control (\<lambda>_.
     abind (work_cycle env (VStr M_REIGNITE)) (\<lambda>_.
     abind (cget ''next_mode'') (\<lambda>m. natural_next env m setpoint)))))))"

definition MODE_DISPATCH :: "nat \<Rightarrow> env \<Rightarrow> (string \<times> unit orch_action) list" where
  "MODE_DISPATCH fuel env =
     [(M_PRIME, dispatch_prime env), (M_STARTUP, dispatch_startup env), (M_SMOKE, dispatch_smoke env),
      (M_HOLD, dispatch_hold env), (M_SHUTDOWN, dispatch_shutdown env), (M_MONITOR, dispatch_monitor env),
      (M_MANUAL, dispatch_manual env), (M_RECIPE, dispatch_recipe fuel env), (M_REIGNITE, dispatch_reignite env)]"

definition dispatch_mode :: "nat \<Rightarrow> env \<Rightarrow> pyval \<Rightarrow> unit orch_action" where
  "dispatch_mode fuel env mode =
     (if \<not> hashable mode then araise (TypeError ''unhashable'')
      else case mode of
        VStr m \<Rightarrow> (case map_of (MODE_DISPATCH fuel env) m of Some handler \<Rightarrow> handler | None \<Rightarrow> areturn ())
      | _ \<Rightarrow> areturn ())"

definition change_units :: "unit orch_action" where
  "change_units =
     abind (cget ''units_change'') (\<lambda>v.
     if \<not> truthy v then areturn ()
     else
       abind reload_settings (\<lambda>_.
       abind (cput ''mode'' (VStr M_STOP)) (\<lambda>_.
       abind (cput ''units_change'' (VBool False)) (\<lambda>_.
       abind flush_history (\<lambda>_. cput ''cook_id'' VNone)))))"

definition activate_status :: "unit orch_action" where
  "activate_status =
     abind (cget ''status'') (\<lambda>status.
     abind (cget ''mode'') (\<lambda>mode.
       if \<not> py_eq status (VStr STATUS_MONITOR) \<and> \<not> py_eq mode (VStr M_ERROR)
       then abind (cput ''status'' (VStr ''active'')) (\<lambda>_. write_control) else areturn ()))"

text \<open>May the requested mode be acted on? A platform that could not be built only lets the safe modes through.\<close>

definition admitted :: "bool orch_action" where
  "admitted =
     abind (cget ''updated'') (\<lambda>u.
     if \<not> truthy u then areturn False
     else
       abind (cget ''critical_error'') (\<lambda>ce.
       if \<not> truthy ce then areturn True
       else
         abind (cget ''mode'') (\<lambda>m.
           if \<not> hashable m then araise (TypeError ''unhashable'') else areturn (member m SAFE_MODES))))"

text \<open>The mode in hand is run: the terminal modes inline, the others by their handler.\<close>

definition run_mode :: "nat \<Rightarrow> env \<Rightarrow> unit orch_action" where
  "run_mode fuel env =
     abind (cget ''mode'') (\<lambda>mode.
       if member mode [M_STOP, M_ERROR] then enter_terminal env else dispatch_mode fuel env mode)"

definition dispatch :: "nat \<Rightarrow> env \<Rightarrow> unit orch_action" where
  "dispatch fuel env =
     abind admitted (\<lambda>go.
     if \<not> go then areturn ()
     else
       abind (cput ''updated'' (VBool False)) (\<lambda>_.
       abind write_control (\<lambda>_.
       abind change_units (\<lambda>_.
       abind activate_status (\<lambda>_. run_mode fuel env)))))"


section \<open>A concrete grill\<close>

definition demo_prefs :: pyval where
  "demo_prefs = VDict ((case demo_settings of VDict d \<Rightarrow> d | _ \<Rightarrow> []) @
     [(''globals'', VDict [(''units'', VStr ''F'')]),
      (''shutdown'', VDict [(''auto_power_off'', VBool True)]),
      (''recipe'', VDict [(''probe_map'', VDict [(''primary'', VStr ''Grill''), (''food'', VList [VStr ''Probe1''])])])])"

text \<open>Its cycles do nothing, its archive fails, its recipe has two steps.\<close>

definition demo_step :: "string \<Rightarrow> int \<Rightarrow> pyval" where
  "demo_step mode hold = VDict [(''mode'', VStr mode), (''hold_temp'', VInt hold),
     (''trigger_temps'', VDict [(''primary'', VInt 0), (''food'', VList [VInt 145])])]"

definition demo_recipe :: pyval where
  "demo_recipe = VDict [(''steps'', VList [demo_step M_STARTUP 0, demo_step M_HOLD 225])]"

definition demo_env :: env where
  "demo_env = \<lparr>env_ids = demo_ids, env_work = (\<lambda>_ st. (st, Inr ())),
     env_cookfile = (\<lambda>_ st. (st, Inl (RuntimeError ''disk full''))),
     env_recipe = (\<lambda>_. Recipe_file (VStr ''F'') demo_recipe), env_metric = [], env_elapsed = VNone\<rparr>"

definition demo_grill_control :: "string \<Rightarrow> bool \<Rightarrow> bool \<Rightarrow> pydict" where
  "demo_grill_control mode updated critical =
     [(''mode'', VStr mode), (''updated'', VBool updated), (''critical_error'', VBool critical),
      (''units_change'', VBool False), (''status'', VStr ''active''), (''timer'', timer_value default_timer),
      (''notify_data'', VList [VDict [(''type'', VStr ''timer''), (''req'', VBool True)]]), (''cook_id'', VStr ''cook-1''),
      (''next_mode'', VStr M_STOP), (''primary_setpoint'', VInt 225), (''manual'', VDict []),
      (''recipe'', VDict [(''filename'', VStr ''brisket''), (''start_step'', VInt 0)])]"

definition demo_grill :: "string \<Rightarrow> bool \<Rightarrow> bool \<Rightarrow> orch" where
  "demo_grill mode updated critical =
     \<lparr>o_store = \<lparr>st_world = demo_world\<lparr>db := (demo_db [])\<lparr>settings := demo_prefs,
           general := Some (demo_grill_control mode updated critical)\<rparr>\<rparr>,
        st_metrics = [[(''mode'', VStr M_SMOKE)]], st_status = [], st_errors = [], st_clears = 0\<rparr>,
      o_control = demo_grill_control mode updated critical, o_status = [], o_settings = demo_prefs, o_log = []\<rparr>"

section \<open>What a call leaves alone\<close>

lemma preserves_in_store [preserves_intros]:
  "(\<And>s t. g (s\<lparr>o_store := t\<rparr>) = g s) \<Longrightarrow> preserves g (in_store m)"
  by (simp add: preserves_def in_store_def split: prod.split)

lemma preserves_in_world [preserves_intros]:
  "(\<And>s t. g (s\<lparr>o_store := t\<rparr>) = g s) \<Longrightarrow> preserves g (in_world m)"
  unfolding in_world_def by (rule preserves_in_store)

text \<open>No call but \<open>hardware\<close>, \<open>work_cycle\<close> and the host's power-off adds to the log.\<close>

lemma preserves_log [preserves_intros]:
  "preserves o_log (cget k)" "preserves o_log (cput k v)" "preserves o_log (write_snapshot c)"
  "preserves o_log (sput kvs)" "preserves o_log write_status" "preserves o_log admitted_stamp" "preserves o_log reload_settings"
  "preserves o_log read_settings" "preserves o_log load_control" "preserves o_log (run_writes env now)" "preserves o_log push_display"
  unfolding cget_def cput_def write_snapshot_def sput_def write_status_def admitted_stamp_def reload_settings_def
    read_settings_def load_control_def run_writes_def push_display_def
  by (intro preserves_intros; simp)+

lemma preserves_log_calls [preserves_intros]:
  "preserves o_log write_control" "preserves o_log flush_history" "preserves o_log disarm_notify" "preserves o_log manual_off"
  "preserves o_log reset_retries" "preserves o_log (retain t opts d ce)" "preserves o_log (fresh_control cid)"
  "preserves o_log (natural_next env m sp)" "preserves o_log (stop_now env ctl)" "preserves o_log (drain_if_admitted env)"
  unfolding write_control_def flush_history_def disarm_notify_def manual_off_def reset_retries_def retain_def
    fresh_control_def natural_next_def stop_now_def drain_if_admitted_def
  by (intro preserves_intros; simp)+

lemma preserves_log_settle [preserves_intros]:
  "preserves o_log (settle_stop cid t opts d ce)" "preserves o_log (settle_error cid t opts d ce)"
  "preserves o_log (next_after_start env)" "preserves o_log change_units" "preserves o_log activate_status" "preserves o_log admitted"
  unfolding settle_stop_def settle_error_def next_after_start_def change_units_def activate_status_def admitted_def
  by (intro preserves_intros; simp)+

lemma preserves_log_finish [preserves_intros]: "preserves o_log (finish_session env cid)"
proof -
  have "preserves o_log (\<lambda>s. case in_store (env_cookfile env cid) s of (t, Inr _) \<Rightarrow> (t, Inr True)
      | (t, Inl _) \<Rightarrow> (t\<lparr>o_store := (o_store t)\<lparr>st_errors := st_errors (o_store t) @ [''Cook file could not be created'']\<rparr>\<rparr>, Inr False))"
    by (simp add: preserves_def in_store_def split: prod.split sum.split)
  then show ?thesis unfolding finish_session_def by (intro preserves_intros; simp)
qed

text \<open>The log has grown from \<open>l\<close> by effects of \<open>A\<close> only.\<close>

definition logged :: "effect list \<Rightarrow> effect set \<Rightarrow> orch \<Rightarrow> bool" where
  "logged l A s \<longleftrightarrow> (\<exists>new. o_log s = l @ new \<and> set new \<subseteq> A)"

named_theorems logged_intros \<open>rules for calls that log effects of a set only\<close>

lemma logged_preserves [logged_intros]: "preserves o_log m \<Longrightarrow> keeps (logged l A) m"
  by (erule keeps_preserves) (simp add: logged_def)

lemma logged_hardware: "Hardware name \<in> A \<Longrightarrow> keeps (logged l A) (hardware name)"
  unfolding hardware_def by (rule keeps_modify) (auto simp: logged_def)

lemma logged_work: "Cycle m \<in> A \<Longrightarrow> keeps (logged l A) (work_cycle env m)"
proof -
  assume m: "Cycle m \<in> A"
  have "keeps (logged l A) (amodify (\<lambda>s. s\<lparr>o_log := o_log s @ [Cycle m]\<rparr>))"
    using m by (intro keeps_modify) (auto simp: logged_def)
  moreover have "keeps (logged l A) (in_store n)" for n :: "(stored, unit) action"
    by (intro logged_preserves preserves_in_store) simp
  ultimately show ?thesis
    unfolding work_cycle_def by (intro keeps_if keeps_basic) (cases m, auto intro!: keeps_if keeps_bind)
qed

section \<open>The control in hand\<close>

lemma preserves_control [preserves_intros]:
  "preserves o_control (cget k)" "preserves o_control (write_snapshot c)" "preserves o_control (sput kvs)"
  "preserves o_control write_status" "preserves o_control admitted_stamp" "preserves o_control reload_settings"
  "preserves o_control read_settings" "preserves o_control load_control" "preserves o_control (run_writes env now)"
  "preserves o_control push_display" "preserves o_control (hardware name)"
  unfolding cget_def write_snapshot_def sput_def write_status_def admitted_stamp_def reload_settings_def
    read_settings_def load_control_def run_writes_def push_display_def hardware_def
  by (intro preserves_intros; simp)+

lemma preserves_control_calls [preserves_intros]:
  "preserves o_control write_control" "preserves o_control flush_history" "preserves o_control stop_actuators"
  "preserves o_control (natural_next env m sp)"
  unfolding write_control_def flush_history_def stop_actuators_def natural_next_def
  by (intro preserves_intros; simp)+

lemma preserves_control_finish [preserves_intros]: "preserves o_control (finish_session env cid)"
proof -
  have "preserves o_control (\<lambda>s. case in_store (env_cookfile env cid) s of (t, Inr _) \<Rightarrow> (t, Inr True)
      | (t, Inl _) \<Rightarrow> (t\<lparr>o_store := (o_store t)\<lparr>st_errors := st_errors (o_store t) @ [''Cook file could not be created'']\<rparr>\<rparr>, Inr False))"
    by (simp add: preserves_def in_store_def split: prod.split sum.split)
  then show ?thesis unfolding finish_session_def by (intro preserves_intros; simp)
qed

lemma preserves_member: "preserves o_control m \<Longrightarrow> preserves (\<lambda>s. dget (o_control s) k) m"
  by (simp add: preserves_def)

lemma preserves_other_member: "k \<noteq> k' \<Longrightarrow> preserves (\<lambda>s. dget (o_control s) k) (cput k' v)"
  by (simp add: preserves_def cput_def)

lemma preserves_disarm_member: "k \<noteq> ''notify_data'' \<Longrightarrow> preserves (\<lambda>s. dget (o_control s) k) disarm_notify"
  unfolding disarm_notify_def
  by (intro preserves_bind preserves_basic preserves_other_member preserves_member preserves_control)

lemma cput_eq [simp]: "cput k v s = (s\<lparr>o_control := dput k v (o_control s)\<rparr>, Inr ())"
  by (simp add: cput_def)

lemma cget_InrD: "cget k s = (t, Inr v) \<Longrightarrow> t = s \<and> dget (o_control s) k = Some v"
  by (auto simp: cget_def dindex_def split: option.splits)

lemma cget_Some: "dget (o_control s) k = Some v \<Longrightarrow> cget k s = (s, Inr v)"
  by (simp add: cget_def dindex_def)

lemma write_control_eq:
  "write_control s = (s\<lparr>o_store := (o_store s)\<lparr>st_world := write_world (o_control s) (st_world (o_store s))\<rparr>\<rparr>, Inr ())"
  by (simp add: write_control_def write_snapshot_def in_world_def in_store_def)

lemma write_control_store: "write_control s = (t, r) \<Longrightarrow>
    general (db (world_of t)) = Some (o_control t) \<and> o_control t = o_control s \<and> q_control (db (world_of t)) = q_control (db (world_of s))"
  by (auto simp: write_control_eq world_of_def)

lemma alift_InrD: "alift r s = (t, Inr x) \<Longrightarrow> t = s \<and> r = Inr x"
  by simp

text \<open>The default control: in \<open>Stop\<close>, whatever was queued is gone.\<close>

lemma fresh_control_InrD:
  assumes "fresh_control cid s = (t, Inr ())"
  shows "dget (o_control t) ''mode'' = Some (VStr M_STOP) \<and> rows (q_control (db (world_of t))) = []"
proof -
  obtain c d where f: "flush_control cid False (db (world_of s)) = Inr (c, d)" "o_control t = c" "db (world_of t) = d"
    using assms by (auto simp: fresh_control_def in_world_def in_store_def world_of_def abind_def
        split: sum.splits prod.splits)
  from f(1) have "dget c ''mode'' = Some (VStr M_STOP) \<and> rows (q_control d) = []"
    by (auto simp: flush_control_def default_control_def write_control_snapshot_def queue_flush_def M_STOP_def Let_def
        elim!: ebind_InrE)
  with f show ?thesis by simp
qed

lemma retain_InrD:
  assumes "retain tv opts d ce s = (t, Inr ())"
  shows "dget (o_control t) ''timer'' = Some tv \<and> dget (o_control t) ''critical_error'' = Some ce
    \<and> dget (o_control t) ''mode'' = dget (o_control s) ''mode'' \<and> o_store t = o_store s"
  using assms by (auto simp: retain_def elim!: abind_InrE dest!: cget_InrD split: if_splits)

lemma reset_retries_InrD:
  assumes "reset_retries s = (t, Inr ())"
  shows "(\<forall>k. k \<noteq> ''safety'' \<longrightarrow> dget (o_control t) k = dget (o_control s) k) \<and> o_store t = o_store s"
  using assms by (auto simp: reset_retries_def elim!: abind_InrE dest!: cget_InrD)

lemma push_display_InrD: "push_display s = (t, r) \<Longrightarrow> o_control t = o_control s \<and> db (world_of t) = db (world_of s)"
  by (auto simp: push_display_def in_world_def in_store_def world_of_def)

text \<open>What the dispatch of a terminal mode leaves behind.\<close>

definition settled :: "string \<Rightarrow> pyval \<Rightarrow> pyval \<Rightarrow> orch \<Rightarrow> bool" where
  "settled mode tv ce s \<longleftrightarrow>
     dget (o_control s) ''mode'' = Some (VStr mode) \<and> dget (o_control s) ''updated'' = Some (VBool False)
     \<and> dget (o_control s) ''critical_error'' = Some ce \<and> dget (o_control s) ''timer'' = Some tv
     \<and> general (db (world_of s)) = Some (o_control s) \<and> rows (q_control (db (world_of s))) = []"

lemma settle_stop_settled: "settle_stop cid tv opts d ce s = (t, Inr ()) \<Longrightarrow> settled M_STOP tv ce t"
  unfolding settle_stop_def settled_def
  by (elim abind_InrE) (auto dest!: write_control_store reset_retries_InrD retain_InrD fresh_control_InrD simp: world_of_def)

lemma settle_error_settled: "settle_error cid tv opts d ce s = (t, Inr ()) \<Longrightarrow> settled M_ERROR tv ce t"
  unfolding settle_error_def settled_def
  by (elim abind_InrE) (auto dest!: push_display_InrD write_control_store reset_retries_InrD retain_InrD fresh_control_InrD simp: world_of_def)

section \<open>Terminal modes\<close>

lemma pause_timer_stops: "tstate (pause_timer t now b) \<noteq> Running"
  by (auto simp: pause_timer_def Let_def)

definition off_commands :: "effect list" where
  "off_commands = [Hardware ''auger_off'', Hardware ''igniter_off'', Hardware ''fan_off'']"

definition power_commands :: "effect set" where
  "power_commands = {Hardware ''power_on'', Hardware ''power_off''}"

lemma stop_actuators_eq: "stop_actuators s = (s\<lparr>o_log := o_log s @ off_commands\<rparr>, Inr ())"
  by (simp add: stop_actuators_def hardware_def off_commands_def)

lemma logged_close_session: "keeps (logged l power_commands) (close_session env)"
  unfolding close_session_def Let_def
  by (intro keeps_bind keeps_if logged_intros logged_hardware preserves_intros) (simp add: power_commands_def)

lemma terminal_log:
  "\<exists>new. o_log (fst (enter_terminal env s)) = o_log s @ off_commands @ new \<and> set new \<subseteq> power_commands"
proof -
  let ?s = "s\<lparr>o_log := o_log s @ off_commands\<rparr>"
  have "logged (o_log s @ off_commands) power_commands ?s" by (simp add: logged_def)
  with logged_close_session have "logged (o_log s @ off_commands) power_commands (fst (close_session env ?s))"
    by (simp add: keeps_def)
  then show ?thesis by (simp add: enter_terminal_def abind_def stop_actuators_eq logged_def)
qed

text \<open>Until the control is rebuilt, its mode and its error flag stay.\<close>

definition in_terminal :: "string \<Rightarrow> pyval \<Rightarrow> orch \<Rightarrow> bool" where
  "in_terminal m ce s \<longleftrightarrow> dget (o_control s) ''mode'' = Some (VStr m) \<and> dget (o_control s) ''critical_error'' = Some ce"

lemma in_terminal_control: "preserves o_control n \<Longrightarrow> keeps (in_terminal m ce) n"
  by (erule keeps_preserves) (simp add: in_terminal_def)

lemma in_terminal_cput: "k \<notin> {''mode'', ''critical_error''} \<Longrightarrow> keeps (in_terminal m ce) (cput k v)"
  by (auto simp: keeps_def in_terminal_def)

lemma in_terminal_disarm: "keeps (in_terminal m ce) disarm_notify"
  unfolding disarm_notify_def by (intro keeps_bind keeps_basic in_terminal_cput in_terminal_control preserves_intros) simp

lemma in_terminal_mode: "triple (in_terminal m ce) (cget ''mode'') (\<lambda>x s. in_terminal m ce s \<and> x = VStr m)"
  by (rule tripleI) (auto dest!: cget_InrD simp: in_terminal_def)

lemma in_terminal_error: "triple (in_terminal m ce) (cget ''critical_error'') (\<lambda>x s. in_terminal m ce s \<and> x = ce)"
  by (rule tripleI) (auto dest!: cget_InrD simp: in_terminal_def)

lemma settle_triples:
  assumes "tstate timer \<noteq> Running"
  shows "triple P (settle_stop cid (timer_value timer) opts d ce) (\<lambda>_ t. \<exists>timer. settled M_STOP (timer_value timer) ce t \<and> tstate timer \<noteq> Running)"
    "triple P (settle_error cid (timer_value timer) opts d ce) (\<lambda>_ t. \<exists>timer. settled M_ERROR (timer_value timer) ce t \<and> tstate timer \<noteq> Running)"
  using assms by (auto intro!: tripleI dest!: settle_stop_settled settle_error_settled)

lemma close_session_settles:
  assumes "m \<in> {M_STOP, M_ERROR}"
  shows "triple (in_terminal m ce) (close_session env)
    (\<lambda>_ t. \<exists>timer. settled m (timer_value timer) ce t \<and> tstate timer \<noteq> Running)"
proof -
  have names: "M_STOP \<noteq> M_ERROR" by (simp add: mode_names)
  show ?thesis
    unfolding close_session_def Let_def
  proof (intro triple_bind [OF in_terminal_mode] triple_bind [OF in_terminal_error] triple_pure triple_skip
      keeps_basic in_terminal_cput in_terminal_disarm in_terminal_control preserves_intros, goal_cases)
  qed (use assms names pause_timer_stops settle_triples in auto)
qed

lemma write_snapshot_eq:
  "write_snapshot c s = (s\<lparr>o_store := (o_store s)\<lparr>st_world := write_world c (st_world (o_store s))\<rparr>\<rparr>, Inr ())"
  by (simp add: write_snapshot_def in_world_def in_store_def)

lemma load_control_eq: "general (db (world_of s)) = Some c \<Longrightarrow> load_control s = (s, Inr c)"
  by (simp add: load_control_def read_control_def world_of_def)

lemma change_units_returns:
  assumes "dget (o_control s) ''units_change'' = Some uc" "general (db (world_of s)) = Some g"
  shows "\<exists>t. change_units s = (t, Inr ()) \<and> o_log t = o_log s
      \<and> dget (o_control t) ''mode'' = (if truthy uc then Some (VStr M_STOP) else dget (o_control s) ''mode'')
      \<and> (\<forall>k. k \<notin> {''mode'', ''units_change'', ''cook_id''} \<longrightarrow> dget (o_control t) k = dget (o_control s) k)"
  using assms
  by (auto simp: change_units_def cget_Some abind_def reload_settings_def read_settings_def flush_history_def
        load_control_eq write_snapshot_eq world_of_def split: prod.split)

lemma dispatch_reaches_terminal:
  assumes "dget (o_control s) ''updated'' = Some u" "truthy u" "dget (o_control s) ''critical_error'' = Some ce"
    "dget (o_control s) ''mode'' = Some (VStr m)" "m \<in> {M_STOP, M_ERROR}"
    "dget (o_control s) ''units_change'' = Some uc" "dget (o_control s) ''status'' = Some st"
  obtains t where "dispatch fuel env s = enter_terminal env t" "o_log t = o_log s"
    "in_terminal (if truthy uc then M_STOP else m) ce t"
proof -
  have "admitted s = (s, Inr True)"
    using assms(1-5) by (auto simp: admitted_def abind_def cget_Some member_def SAFE_MODES_def)
  moreover define s1 where "s1 = fst (write_control (fst (cput ''updated'' (VBool False) s)))"
  have s1: "write_control (s\<lparr>o_control := dput ''updated'' (VBool False) (o_control s)\<rparr>) = (s1, Inr ())" "o_log s1 = o_log s"
      "o_control s1 = dput ''updated'' (VBool False) (o_control s)" "general (db (world_of s1)) = Some (o_control s1)"
    by (simp_all add: s1_def write_control_eq world_of_def)
  from s1(3) assms(6) have "dget (o_control s1) ''units_change'' = Some uc" by simp
  from change_units_returns [OF this s1(4)] obtain s2 where c2: "change_units s1 = (s2, Inr ())" "o_log s2 = o_log s1"
      "dget (o_control s2) ''mode'' = (if truthy uc then Some (VStr M_STOP) else dget (o_control s1) ''mode'')"
      "\<forall>k. k \<notin> {''mode'', ''units_change'', ''cook_id''} \<longrightarrow> dget (o_control s2) k = dget (o_control s1) k"
    by (elim exE conjE)
  have s2: "change_units s1 = (s2, Inr ())" "o_log s2 = o_log s" "dget (o_control s2) ''mode'' = (if truthy uc then Some (VStr M_STOP) else dget (o_control s1) ''mode'')"
      "dget (o_control s2) ''critical_error'' = Some ce" "dget (o_control s2) ''status'' = Some st"
    using c2 s1(2,3) assms(3,7) by simp_all
  define m' where "m' = (if truthy uc then M_STOP else m)"
  have m': "dget (o_control s2) ''mode'' = Some (VStr m')" "m' \<in> {M_STOP, M_ERROR}"
    using s2(3) s1(3) assms(4,5) by (auto simp: m'_def)
  have "\<exists>s3. activate_status s2 = (s3, Inr ()) \<and> o_log s3 = o_log s \<and> in_terminal m' ce s3"
    using s2(2,4) m'(1) cget_Some [OF s2(5)] cget_Some [OF m'(1)]
    by (simp add: activate_status_def abind_def write_control_eq in_terminal_def)
  then obtain s3 where s3: "activate_status s2 = (s3, Inr ())" "o_log s3 = o_log s" "in_terminal m' ce s3" by blast
  have "dispatch fuel env s = enter_terminal env s3"
    using calculation s1 s2 s3 m'(2)
    by (auto simp: dispatch_def run_mode_def abind_def cget_Some in_terminal_def member_def)
  with s3 show thesis by (intro that) (auto simp: m'_def)
qed

text \<open>C3: A requested \<open>Stop\<close> or \<open>Error\<close> is always carried out, whatever the error flag of the platform says and whatever
  the archive of the session does: the first commands of the dispatch turn the auger, the igniter and the fan off,
  even when a later step raises, no work cycle runs and nothing is switched but the main power; and a dispatch that
  returns leaves, in hand and stored alike, the terminal mode with no request pending, no queued delta, a timer that
  is not running and the error flag as it was.\<close>

theorem terminal_dispatch_is_safe:
  assumes "dget (o_control s) ''updated'' = Some u" "truthy u" "dget (o_control s) ''critical_error'' = Some ce"
    "dget (o_control s) ''mode'' = Some (VStr m)" "m \<in> {M_STOP, M_ERROR}"
    "dget (o_control s) ''units_change'' = Some uc" "dget (o_control s) ''status'' = Some st"
  shows "(\<exists>new. o_log (fst (dispatch fuel env s)) = o_log s @ off_commands @ new \<and> set new \<subseteq> power_commands)
    \<and> (snd (dispatch fuel env s) = Inr () \<longrightarrow>
        (\<exists>timer. settled (if truthy uc then M_STOP else m) (timer_value timer) ce (fst (dispatch fuel env s))
           \<and> tstate timer \<noteq> Running))"
proof -
  from dispatch_reaches_terminal [OF assms] obtain t where t: "dispatch fuel env s = enter_terminal env t" "o_log t = o_log s"
      "in_terminal (if truthy uc then M_STOP else m) ce t" by blast
  have names: "(if truthy uc then M_STOP else m) \<in> {M_STOP, M_ERROR}" using assms(5) by simp
  obtain t' r where run: "enter_terminal env t = (t', r)" by force
  then have rest: "close_session env (t\<lparr>o_log := o_log t @ off_commands\<rparr>) = (t', r)"
    by (simp add: enter_terminal_def abind_def stop_actuators_eq)
  have "in_terminal (if truthy uc then M_STOP else m) ce (t\<lparr>o_log := o_log t @ off_commands\<rparr>)"
    using t(3) by (simp add: in_terminal_def)
  with tripleD [OF close_session_settles [OF names]] rest terminal_log [of env t] t run show ?thesis by force
qed

lemma demo_stop_returns: "case snd (dispatch 1 demo_env (demo_grill M_STOP True True)) of Inr _ \<Rightarrow> True | Inl _ \<Rightarrow> False"
  by code_simp

lemma terminal_dispatch_is_safe_witness:
  "(\<exists>new. o_log (fst (dispatch 1 demo_env (demo_grill M_STOP True True))) = off_commands @ new \<and> set new \<subseteq> power_commands)
     \<and> (\<exists>timer. settled M_STOP (timer_value timer) (VBool True) (fst (dispatch 1 demo_env (demo_grill M_STOP True True)))
           \<and> tstate timer \<noteq> Running)"
  using terminal_dispatch_is_safe [of "demo_grill M_STOP True True" "VBool True" "VBool True" M_STOP "VBool False" "VStr ''active''" 1 demo_env]
    demo_stop_returns
  by (simp add: demo_grill_def demo_grill_control_def split: sum.splits)

section \<open>A platform that could not be built\<close>

text \<open>From \<open>P\<close>, \<open>m\<close> ends in \<open>R\<close> whether it returns or raises.\<close>

definition ends_in :: "('s \<Rightarrow> bool) \<Rightarrow> ('s, 'a) action \<Rightarrow> ('s \<Rightarrow> bool) \<Rightarrow> bool" where
  "ends_in P m R \<longleftrightarrow> (\<forall>s. P s \<longrightarrow> R (fst (m s)))"

lemma ends_in_keeps: "keeps R m \<Longrightarrow> (\<And>s. P s \<Longrightarrow> R s) \<Longrightarrow> ends_in P m R"
  by (simp add: ends_in_def keeps_def)

lemma ends_in_bind:
  assumes "keeps P m" "\<And>s. P s \<Longrightarrow> R s" "triple P m Q" "\<And>x. ends_in (\<lambda>s. P s \<and> Q x s) (f x) R"
  shows "ends_in P (abind m f) R"
  unfolding ends_in_def
proof (intro allI impI)
  fix s
  assume s: "P s"
  obtain t r where m: "m s = (t, r)" by force
  with keepsD [OF assms(1) s] have t: "P t" by blast
  show "R (fst (abind m f s))"
  proof (cases r)
    case (Inl e)
    with m t assms(2) show ?thesis by (simp add: abind_def)
  next
    case (Inr x)
    with m t tripleD [OF assms(3) s] assms(4) [of x] show ?thesis by (simp add: abind_def ends_in_def)
  qed
qed

lemma ends_in_skip: "keeps P m \<Longrightarrow> (\<And>s. P s \<Longrightarrow> R s) \<Longrightarrow> (\<And>x. ends_in P (f x) R) \<Longrightarrow> ends_in P (abind m f) R"
  by (rule ends_in_bind [where Q = "\<lambda>_ _. True"]) (simp_all add: triple_def)

definition shutdown_only :: "effect set" where
  "shutdown_only = {e. \<forall>m. e = Cycle m \<longrightarrow> m = VStr M_SHUTDOWN}"

definition safely :: "effect list \<Rightarrow> orch \<Rightarrow> bool" where
  "safely l s \<longleftrightarrow> logged l shutdown_only s \<and> (\<exists>m \<in> set SAFE_MODES. dget (o_control s) ''mode'' = Some (VStr m))"

lemma keeps_safely_cput: "k \<noteq> ''mode'' \<Longrightarrow> keeps (safely l) (cput k v)"
  by (simp add: keeps_def safely_def logged_def)

lemma keeps_safely_control: "preserves o_log m \<Longrightarrow> preserves o_control m \<Longrightarrow> keeps (safely l) m"
  by (auto simp: keeps_def preserves_def safely_def logged_def)

lemma keeps_safely_units: "keeps (safely l) change_units"
proof -
  have stop: "keeps (safely l) (cput ''mode'' (VStr M_STOP))"
    by (simp add: keeps_def safely_def logged_def SAFE_MODES_def)
  show ?thesis
    unfolding change_units_def
    by (intro stop keeps_bind keeps_if keeps_basic keeps_safely_cput keeps_safely_control preserves_intros) simp_all
qed

lemma keeps_safely_status: "keeps (safely l) activate_status"
  unfolding activate_status_def
  by (intro keeps_bind keeps_if keeps_basic keeps_safely_cput keeps_safely_control preserves_intros) simp_all

lemma logged_stop_actuators: "shutdown_only \<subseteq> A \<Longrightarrow> keeps (logged l A) stop_actuators"
  unfolding stop_actuators_def by (intro keeps_bind logged_hardware) (auto simp: shutdown_only_def)

lemma logged_enter_terminal: "keeps (logged l shutdown_only) (enter_terminal env)"
  unfolding enter_terminal_def close_session_def Let_def
  by (intro keeps_bind keeps_if logged_stop_actuators logged_intros logged_hardware preserves_intros)
    (simp_all add: shutdown_only_def)

lemma logged_dispatch_shutdown: "keeps (logged l shutdown_only) (dispatch_shutdown env)"
  unfolding dispatch_shutdown_def
  by (intro keeps_bind keeps_if keeps_basic keeps_modify logged_work logged_intros preserves_intros)
    (auto simp: shutdown_only_def logged_def)

lemma safe_mode_dispatch:
  assumes "m \<in> set SAFE_MODES"
  shows "keeps (logged l shutdown_only)
    (if member (VStr m) [M_STOP, M_ERROR] then enter_terminal env else dispatch_mode fuel env (VStr m))"
proof -
  have "dispatch_mode fuel env (VStr M_SHUTDOWN) = dispatch_shutdown env" "\<not> member (VStr M_SHUTDOWN) [M_STOP, M_ERROR]"
    by (simp_all add: dispatch_mode_def MODE_DISPATCH_def member_def mode_names)
  moreover have "member (VStr M_STOP) [M_STOP, M_ERROR]" "member (VStr M_ERROR) [M_STOP, M_ERROR]"
    by (simp_all add: member_def)
  ultimately show ?thesis
    using assms logged_enter_terminal logged_dispatch_shutdown unfolding SAFE_MODES_def by force
qed

lemma admitted_eq: "admitted s = (t, r) \<Longrightarrow> t = s"
  by (auto simp: admitted_def abind_def cget_def split: sum.splits if_splits)

lemma admitted_safe:
  assumes "admitted s = (t, Inr True)" "dget (o_control s) ''critical_error'' = Some ce" "truthy ce"
  shows "\<exists>m \<in> set SAFE_MODES. dget (o_control s) ''mode'' = Some (VStr m)"
proof -
  from assms obtain v where "dget (o_control s) ''mode'' = Some v" "member v SAFE_MODES"
    by (auto simp: admitted_def elim!: abind_InrE dest!: cget_InrD split: if_splits)
  moreover from this(2) obtain m where "m \<in> set SAFE_MODES" "py_eq v (VStr m)" by (auto simp: member_def list_ex_iff)
  moreover from this(2) have "v = VStr m" by (cases v) (auto simp: num_eq_def)
  ultimately show ?thesis by blast
qed

text \<open>C6: While the platform could not be built, no fire is lit: whatever the settings, the recipe, the store and the
  archive contain, and whether or not a step raises, the only work cycle a dispatch can run is that of \<open>Shutdown\<close>.\<close>

theorem critical_error_never_lights:
  assumes "dget (o_control s) ''critical_error'' = Some ce" "truthy ce"
  shows "\<exists>new. o_log (fst (dispatch fuel env s)) = o_log s @ new \<and> (\<forall>m. Cycle m \<in> set new \<longrightarrow> m = VStr M_SHUTDOWN)"
proof -
  obtain r where adm: "admitted s = (s, r)" using admitted_eq by (metis surj_pair)
  have "logged (o_log s) shutdown_only (fst (dispatch fuel env s))"
  proof (cases "r = Inr True")
    case True
    with admitted_safe [OF _ assms] adm have start: "safely (o_log s) s" by (simp add: safely_def logged_def)
    have mode: "triple (safely l) (cget ''mode'') (\<lambda>x s. \<exists>m \<in> set SAFE_MODES. x = VStr m)" for l
      by (rule tripleI) (auto simp: safely_def dest!: cget_InrD)
    have run: "ends_in (safely l) (run_mode fuel env) (logged l shutdown_only)" for l
      unfolding run_mode_def
      by (rule ends_in_bind [OF keeps_safely_control [OF preserves_log(1) preserves_control(1)] _ mode])
        (auto simp: safely_def ends_in_def dest: safe_mode_dispatch [unfolded keeps_def, rule_format])
    have "ends_in (safely l) (abind (cput ''updated'' (VBool False)) (\<lambda>_. abind write_control (\<lambda>_.
        abind change_units (\<lambda>_. abind activate_status (\<lambda>_. run_mode fuel env))))) (logged l shutdown_only)" for l
      by (intro ends_in_skip run keeps_safely_cput keeps_safely_units keeps_safely_status
          keeps_safely_control [OF preserves_log_calls(1) preserves_control_calls(1)])
        (simp_all add: safely_def)
    with start adm True show ?thesis by (simp add: ends_in_def dispatch_def abind_InrI)
  next
    case False
    with adm show ?thesis by (cases r) (auto simp: dispatch_def abind_def logged_def)
  qed
  then show ?thesis by (auto simp: logged_def shutdown_only_def)
qed

lemma critical_error_never_lights_witness:
  "\<exists>new. o_log (fst (dispatch 1 demo_env (demo_grill M_SHUTDOWN True True))) = new \<and> (\<forall>m. Cycle m \<in> set new \<longrightarrow> m = VStr M_SHUTDOWN)
     \<and> Cycle (VStr M_SHUTDOWN) \<in> set new"
proof -
  have "Cycle (VStr M_SHUTDOWN) \<in> set (o_log (fst (dispatch 1 demo_env (demo_grill M_SHUTDOWN True True))))"
    by code_simp
  then show ?thesis
    using critical_error_never_lights [of "demo_grill M_SHUTDOWN True True" "VBool True" 1 demo_env]
    by (auto simp: demo_grill_def demo_grill_control_def)
qed

section \<open>A discontinuous clock\<close>

lemma preserves_log_jump [preserves_intros]: "preserves o_log (stop_after_jump env again)"
  unfolding stop_after_jump_def by (intro preserves_intros; simp)

lemma dget_manual_off: "manual_off s = (t, Inr x) \<Longrightarrow> k \<noteq> ''manual'' \<Longrightarrow> dget (o_control t) k = dget (o_control s) k"
  by (auto simp: manual_off_def elim!: abind_InrE dest!: cget_InrD)

lemma dget_disarm: "disarm_notify s = (t, Inr x) \<Longrightarrow> k \<noteq> ''notify_data'' \<Longrightarrow> dget (o_control t) k = dget (o_control s) k"
  using preservesD [OF preserves_disarm_member] by metis

text \<open>What the process holds after the guard tripped.\<close>

definition interrupted :: "orch \<Rightarrow> bool" where
  "interrupted t \<longleftrightarrow>
     last_clock_stamp (world_of t) = None \<and> general (db (world_of t)) = Some (o_control t)
     \<and> dget (o_control t) ''mode'' = Some (VStr M_ERROR) \<and> dget (o_control t) ''updated'' = Some (VBool True)
     \<and> (\<exists>timer. dget (o_control t) ''timer'' = Some (timer_value timer) \<and> tstate timer \<noteq> Running \<and> \<not> action_armed timer)"

lemma request_error_InrD:
  assumes "in_world (request_transition ids c (VStr M_ERROR) SAFETY None None None (Some shown)) s = (t, Inr d)"
  shows "general (db (world_of t)) = Some d \<and> dget d ''mode'' = Some (VStr M_ERROR) \<and> dget d ''updated'' = Some (VBool True)
    \<and> dget d ''timer'' = dget c ''timer''"
proof -
  from assms obtain w where "world_of t = w"
      "forced_transition c (VStr M_ERROR) None None (Some shown) (st_world (o_store s)) = (w, Inr d)"
    by (auto simp: in_world_def in_store_def world_of_def request_transition_def split: prod.splits)
  with forced_transition_InrD(2-4) [OF this(2)] forced_transition_InrD(7) [OF this(2), of "''timer''"] show ?thesis by simp
qed

lemma stop_after_jump_InrD:
  assumes "stop_after_jump env again s = (t, Inr b)"
  shows "\<not> b \<and> interrupted t"
proof -
  have "\<exists>v. \<not> b \<and> last_clock_stamp (world_of t) = None \<and> general (db (world_of t)) = Some (o_control t)
     \<and> dget (o_control t) ''mode'' = Some (VStr M_ERROR) \<and> dget (o_control t) ''updated'' = Some (VBool True)
     \<and> dget (o_control t) ''timer'' = Some (timer_value (fst (restore_timer v)))"
    using assms unfolding stop_after_jump_def
    by (elim abind_InrE) (auto dest!: request_error_InrD dest: dget_manual_off [of _ _ _ "''timer''"] dget_disarm [of _ _ _ "''timer''"]
        simp: cget_def in_world_def [of "amodify _"] in_store_def world_of_def dget_manual_off dget_disarm)
  with restore_timer_unarmed show ?thesis unfolding interrupted_def by metis
qed

text \<open>C11: A clock that jumped (a suspend, a restart of the clock domain, a stall beyond the threshold) stops the grill:
  the auger, the igniter, the fan and then the main power are switched off before anything else, and only that, even
  if a later step raises; and when the guard returns it refuses the tick, with a timer neither running nor armed,
  an \<open>Error\<close> requested in hand and stored, and no stamp admitted, so that the next tick starts afresh.\<close>

theorem clock_jump_stops_everything:
  assumes "continuity_lost (case last_clock_stamp (world_of s) of None \<Rightarrow> stamp | Some p \<Rightarrow> p) stamp
    CONTROL_DISCONTINUITY_SECONDS = Inr True"
  shows "o_log (fst (admit_idle_clock env stamp again s)) = o_log s @ off_commands @ [Hardware ''power_off'']
    \<and> (\<forall>t b. admit_idle_clock env stamp again s = (t, Inr b) \<longrightarrow> \<not> b \<and> interrupted t)"
proof -
  let ?s = "s\<lparr>o_log := o_log s @ off_commands @ [Hardware ''power_off'']\<rparr>"
  have run: "admit_idle_clock env stamp again s = stop_after_jump env again ?s"
    using assms by (simp add: admit_idle_clock_def abind_def stop_actuators_eq hardware_def)
  then show ?thesis
    using preserves_log_jump [of env again, unfolded preserves_def, rule_format, of ?s] stop_after_jump_InrD [of env again ?s] by auto
qed

section \<open>A recipe left to itself\<close>

text \<open>A stored control in the middle of a recipe: nothing requested, nothing queued.\<close>

definition ready_control :: "pydict \<Rightarrow> bool" where
  "ready_control c \<longleftrightarrow> (\<exists>r. dget c ''recipe'' = Some (VDict r)) \<and> dget c ''updated'' = Some (VBool False)
     \<and> dget c ''mode'' = Some (VStr M_RECIPE)"

definition quiet_store :: "stored \<Rightarrow> bool" where
  "quiet_store st \<longleftrightarrow> (\<exists>c. general (db (st_world st)) = Some c \<and> ready_control c) \<and> rows (q_control (db (st_world st))) = []"

text \<open>The cycle of a mode returns and, from such a store, leaves such a store.\<close>

definition undisturbed :: "env \<Rightarrow> pyval \<Rightarrow> bool" where
  "undisturbed env m \<longleftrightarrow> (\<forall>st. quiet_store st \<longrightarrow> quiet_store (fst (env_work env m st)) \<and> snd (env_work env m st) = Inr ())"

text \<open>A step the walk can enter: its members are there, its probes are in the settings, its mode has a handler.\<close>

definition good_step :: "pyval \<Rightarrow> pyval \<Rightarrow> string \<Rightarrow> bool" where
  "good_step cfg step name \<longleftrightarrow>
     (\<exists>d td hold trig. step = VDict d \<and> dget d ''mode'' = Some (VStr name) \<and> name \<in> set MODE_HANDLERS
        \<and> dget d ''trigger_temps'' = Some (VDict td) \<and> dget d ''hold_temp'' = Some hold \<and> step_triggers cfg td = Inr trig)"

lemma enter_good_step:
  assumes "good_step cfg step name" "ready_control c"
  shows "\<exists>c'. enter_step cfg step i c = Inr c' \<and> ready_control c'"
  using assms by (auto simp: good_step_def ready_control_def enter_step_def as_dict_def dindex_def Let_def)

lemma step_mode_good: "good_step cfg step name \<Longrightarrow> step_mode step = Inr (VStr name) \<and> name \<in> set MODE_HANDLERS"
  by (auto simp: good_step_def step_mode_def as_dict_def dindex_def)

lemma step_at_nat: "k < length steps \<Longrightarrow> step_at steps (int k) = Inr (steps ! k)"
  by (simp add: step_at_def Let_def)

lemma next_mode_good:
  assumes "\<And>i. i < length steps \<Longrightarrow> good_step cfg (steps ! i) (names i)"
  shows "\<exists>m. next_effective_mode steps (int k) = Inr m"
proof (cases "Suc k < length steps")
  case True
  with step_mode_good [OF assms] step_at_nat [of "Suc k" steps] show ?thesis
    by (auto simp: next_effective_mode_def algebra_simps)
qed (simp add: next_effective_mode_def)

lemma work_undisturbed:
  assumes "quiet_store (o_store s)" "undisturbed env (VStr name)" "name \<in> set MODE_HANDLERS"
  shows "\<exists>t. work_cycle env (VStr name) s = (t, Inr ()) \<and> quiet_store (o_store t) \<and> o_log t = o_log s @ [Cycle (VStr name)]"
  using assms by (cases "env_work env (VStr name) (o_store s)")
    (auto simp: work_cycle_def abind_def in_store_def undisturbed_def)

lemma drain_quiet:
  assumes "quiet_store (o_store s)"
  shows "\<exists>t. drain_if_admitted env s = (t, Inr ()) \<and> quiet_store (o_store t) \<and> o_log t = o_log s"
proof (cases "last_clock_stamp (world_of s)")
  case (Some now)
  have "rows (q_control (db (st_world (o_store s)))) = []" using assms by (simp add: quiet_store_def)
  then have "execute_control_writes (env_ids env) now (db (st_world (o_store s))) = (db (st_world (o_store s)), None)"
    by (simp add: execute_control_writes_def)
  with Some assms show ?thesis
    by (simp add: drain_if_admitted_def run_writes_def in_world_def in_store_def quiet_store_def)
qed (use assms in \<open>simp add: drain_if_admitted_def\<close>)

lemma write_ready: "ready_control c \<Longrightarrow> quiet_store (o_store s) \<Longrightarrow>
    quiet_store (o_store (fst (write_snapshot c s))) \<and> snd (write_snapshot c s) = Inr () \<and> o_log (fst (write_snapshot c s)) = o_log s"
  by (simp add: write_snapshot_eq quiet_store_def)

lemma load_quiet:
  assumes "quiet_store (o_store s)"
  obtains c where "load_control s = (s, Inr c)" "ready_control c"
  using assms load_control_eq that unfolding quiet_store_def world_of_def by blast

text \<open>One step of an undisturbed recipe.\<close>

lemma walk_one:
  assumes good: "\<And>i. i < length steps \<Longrightarrow> good_step cfg (steps ! i) (names i)"
    and calm: "\<And>i. i < length steps \<Longrightarrow> undisturbed env (VStr (names i))"
    and k: "k < length steps" and s: "quiet_store (o_store s)" and c: "ready_control c"
  obtains t c' where "walk_steps (Suc n) env cfg steps (int k) False c s = walk_steps n env cfg steps (int (Suc k)) False c' t"
    "quiet_store (o_store t)" "ready_control c'" "o_log t = o_log s @ [Cycle (VStr (names k))]"
proof -
  from enter_good_step [OF good [OF k] c] obtain c1 where c1: "enter_step cfg (steps ! k) (int k) c = Inr c1" "ready_control c1"
    by blast
  then have "ready_control (dput ''updated'' (VBool False) c1)" by (simp add: ready_control_def)
  from write_ready [OF this s] obtain s1 where s1: "write_snapshot (dput ''updated'' (VBool False) c1) s = (s1, Inr ())"
      "quiet_store (o_store s1)" "o_log s1 = o_log s" by (metis prod.collapse)
  from next_mode_good [OF good] obtain m where m: "next_effective_mode steps (int k) = Inr m" by blast
  from step_mode_good [OF good [OF k]] have name: "step_mode (steps ! k) = Inr (VStr (names k))" "names k \<in> set MODE_HANDLERS" by auto
  from work_undisturbed [OF s1(2) calm [OF k] name(2)] obtain s2 where s2: "work_cycle env (VStr (names k)) s1 = (s2, Inr ())"
      "quiet_store (o_store s2)" "o_log s2 = o_log s1 @ [Cycle (VStr (names k))]" by blast
  from drain_quiet [OF s2(2)] obtain s3 where s3: "drain_if_admitted env s2 = (s3, Inr ())" "quiet_store (o_store s3)"
      "o_log s3 = o_log s2" by blast
  from load_quiet [OF s3(2)] obtain c' where c': "load_control s3 = (s3, Inr c')" "ready_control c'" by blast
  have "walk_steps (Suc n) env cfg steps (int k) False c s = walk_steps n env cfg steps (int (Suc k)) False c' s3"
    using c1(1) s1(1) m name(1) s2(1) s3(1) c' k
    by (simp add: abind_def step_at_nat dindex_def requested_def ready_control_def add.commute)
  with s3 s2 s1 c' show thesis by (intro that) auto
qed

lemma walk_undisturbed:
  assumes good: "\<And>i. i < length steps \<Longrightarrow> good_step cfg (steps ! i) (names i)"
    and calm: "\<And>i. i < length steps \<Longrightarrow> undisturbed env (VStr (names i))"
    and "k \<le> length steps" "length steps - k < fuel" "quiet_store (o_store s)" "ready_control c"
  shows "\<exists>t c'. walk_steps fuel env cfg steps (int k) False c s = (t, Inr (int (length steps), c'))
    \<and> quiet_store (o_store t) \<and> ready_control c' \<and> o_log t = o_log s @ map (\<lambda>i. Cycle (VStr (names i))) [k..<length steps]"
  using assms(3-6)
proof (induction fuel arbitrary: k s c)
  case (Suc n)
  show ?case
  proof (cases "k = length steps")
    case True
    with Suc.prems show ?thesis by auto
  next
    case False
    with Suc.prems have k: "k < length steps" by simp
    from walk_one [OF good calm k Suc.prems(3,4)] obtain t c' where one:
        "walk_steps (Suc n) env cfg steps (int k) False c s = walk_steps n env cfg steps (int (Suc k)) False c' t"
        "quiet_store (o_store t)" "ready_control c'" "o_log t = o_log s @ [Cycle (VStr (names k))]" by blast
    have "length steps - Suc k < n" using Suc.prems(2) k by linarith
    from Suc.IH [OF _ this one(2,3)] k show ?thesis
      by (auto simp: one(1,4) upt_conv_Cons simp del: walk_steps.simps)
  qed
qed simp

lemma stop_now_eq:
  assumes "dget c ''mode'' = Some (VStr m)"
  shows "\<exists>t. stop_now env c s = (t, Inr ()) \<and> o_log t = o_log s
    \<and> general (db (world_of t)) = Some (dput ''updated'' (VBool True) (dput ''mode'' (VStr M_STOP) c))"
  using assms stop_is_always_legal [of "VStr m"]
  by (simp add: stop_now_def abind_def in_world_def in_store_def request_transition_def forced_transition_def world_of_def
      dget_none_def Let_def)

text \<open>A recipe has come to its end: \<open>Stop\<close> requested, and nothing of the recipe left in the control.\<close>

definition recipe_over :: "pydict \<Rightarrow> bool" where
  "recipe_over c \<longleftrightarrow> dget c ''mode'' = Some (VStr M_STOP) \<and> dget c ''updated'' = Some (VBool True)
     \<and> (\<exists>r. dget c ''recipe'' = Some (VDict r) \<and> dget r ''step'' = Some (VInt 0) \<and> dget r ''step_data'' = Some (VDict [])
          \<and> dget r ''filename'' = Some (VStr []) \<and> dget r ''timer_id'' = None \<and> dget r ''timer_step'' = None)"

lemma forget_recipe_ready:
  assumes "ready_control c"
  shows "\<exists>c'. forget_recipe c = Inr c' \<and> dget c' ''mode'' = Some (VStr M_RECIPE) \<and> requested c' = Inr False
    \<and> recipe_over (dput ''updated'' (VBool True) (dput ''mode'' (VStr M_STOP) c'))"
  using assms by (auto simp: ready_control_def forget_recipe_def as_dict_def dindex_def requested_def recipe_over_def)

text \<open>The steps a recipe file gives the walk: converted to the grill's units where they differ.\<close>

definition recipe_steps :: "pyval \<Rightarrow> pyval \<Rightarrow> pyval \<Rightarrow> pyval list result" where
  "recipe_steps cfg units recipe =
     ebind (vpath cfg [''globals'', ''units'']) (\<lambda>own.
     ebind (if \<not> py_eq own units then convert_recipe_units recipe own else Inr recipe) (\<lambda>recipe'.
     ebind (as_dict recipe') (\<lambda>d. ebind (dindex d ''steps'') as_list)))"


lemma clock_jump_stops_everything_witness:
  "\<exists>t. admit_idle_clock demo_env (demo_stamp 900) (demo_stamp 900) (demo_grill M_HOLD False False) = (t, Inr False)
     \<and> o_log t = off_commands @ [Hardware ''power_off''] \<and> interrupted t"
proof -
  let ?call = "admit_idle_clock demo_env (demo_stamp 900) (demo_stamp 900) (demo_grill M_HOLD False False)"
  have lost: "continuity_lost (case last_clock_stamp (world_of (demo_grill M_HOLD False False)) of None \<Rightarrow> demo_stamp 900 | Some p \<Rightarrow> p)
      (demo_stamp 900) CONTROL_DISCONTINUITY_SECONDS = Inr True"
    by (simp add: demo_grill_def world_of_def continuity_lost_def age_at_demo CONTROL_DISCONTINUITY_SECONDS_def in_dbl_small)
  have legal: "check_legal (VStr M_HOLD) (VStr M_ERROR) = Inr ()" using stop_is_always_legal [of "VStr M_HOLD"] by simp
  have "\<exists>t b. ?call = (t, Inr b)"
    using lost
    by (simp add: admit_idle_clock_def abind_def stop_actuators_eq hardware_def)
      (simp add: stop_after_jump_def demo_grill_def run_writes_def in_world_def in_store_def execute_control_writes_def abind_def
       demo_db_def demo_queue_def load_control_def read_control_def world_of_def cget_def dindex_def demo_grill_control_def
       disarm_notify_def as_list_def disarm_items_def is_timer_item_def manual_off_def as_dict_def request_transition_def
       forced_transition_def legal dget_none_def demo_world_def Let_def, rule exI [of _ False], simp)
  with clock_jump_stops_everything [OF lost, of demo_env "demo_stamp 900"] show ?thesis
    by (auto simp: demo_grill_def)
qed


end
