(* ===== verification/Work_Cycle.thy ===== *)
theory Work_Cycle
  imports Orchestrator
begin

text \<open>
  \<open>controller/runtime/modes/base.py\<close> and the modes \<open>Startup\<close>, \<open>Reignite\<close>, \<open>Smoke\<close>, \<open>Prime\<close>, \<open>Shutdown\<close>, \<open>Monitor\<close>
  and \<open>Manual\<close>: one physical work cycle, from \<open>run()\<close> to \<open>_finish_cycle()\<close>. The hardware is that of
  \<open>grillplat/prototype.py\<close>: a command sets an output, and the outputs are what was last set.

  The record \<open>work\<close> holds the mode object and its \<open>WorkCycleState\<close>. What one iteration of the loop reads from outside
  (clock stamps, the primary temperature, the verdict of the thermocouple health, the switch, a pending clear-history
  command) is a record \<open>tick\<close>; the notification service and the metrics row are arguments. When the list of ticks is
  used up the process is interrupted: an exception leaves the loop there. Settings are numbers where the code computes
  with them: a number that is not finite counts as a \<open>TypeError\<close>. The learning trajectory, the history rows, the
  display status, hopper samples and the other system commands are not modelled; \<open>Hold\<close> has hooks of its own.
\<close>

section \<open>The outputs\<close>

record outputs =
  out_auger :: bool
  out_igniter :: bool
  out_fan :: bool
  out_power :: bool
  out_pwm :: rat

record work =
  w_name :: string
  w_world :: world
  w_control :: pydict
  w_settings :: pyval
  w_out :: outputs
  w_log :: "string list"
  w_last_stamp :: "clock_stamp option"
  w_terminal :: "rat option"
  w_discontinuous :: bool
  w_setup_started :: bool
  w_metrics_stamped :: bool
  w_finished :: bool
  w_valid_ptemp :: pyval
  w_observed_at :: "rat option"
  w_observed_on :: bool
  w_ratio :: rat
  w_on_time :: rat
  w_off_time :: rat
  w_cycle_time :: rat
  w_lid_open :: bool
  w_target_achieved :: bool
  w_ramping :: bool
  w_fan_toggle :: rat
  w_startup_timer :: rat
  w_raw_temp :: pyval
  w_prime_duration :: rat
  w_prime_amount :: pyval
  w_start_time :: rat
  w_auger_toggle :: rat
  w_display_toggle :: rat
  w_override :: "(string \<times> rat) list"
  w_metrics :: pydict
  w_metric_start :: "rat option"
  w_start_wall :: rat
  w_cook_id :: "string option"
  w_cook_elapsed :: "rat option"
  w_switch :: bool
  w_usage :: rat

type_synonym 'a work_action = "(work, 'a) action"

record service =
  sv_ids :: "int \<Rightarrow> nat \<Rightarrow> string"
  sv_fresh :: string
  sv_timer_id :: string
  sv_metric :: pydict
  sv_notify :: "pydict \<Rightarrow> (world, pydict) action"
  sv_publish :: "pydict \<Rightarrow> (world, unit) action"

record tick =
  ti_stamp :: "clock_stamp result"
  ti_sense :: "clock_stamp result"
  ti_sensed :: "clock_stamp result"
  ti_again :: clock_stamp
  ti_ptemp :: pyval
  ti_fault :: bool
  ti_switch :: bool
  ti_clear :: bool
  ti_wall_s :: rat

definition command :: "string \<Rightarrow> (outputs \<Rightarrow> outputs) \<Rightarrow> unit work_action" where
  "command name f = amodify (\<lambda>s. s\<lparr>w_log := w_log s @ [name], w_out := f (w_out s)\<rparr>)"

definition proto_auger_on :: "unit work_action" where "proto_auger_on = command ''auger_on'' (out_auger_update (\<lambda>_. True))"
definition proto_auger_off :: "unit work_action" where "proto_auger_off = command ''auger_off'' (out_auger_update (\<lambda>_. False))"
definition proto_igniter_on :: "unit work_action" where "proto_igniter_on = command ''igniter_on'' (out_igniter_update (\<lambda>_. True))"
definition proto_igniter_off :: "unit work_action" where "proto_igniter_off = command ''igniter_off'' (out_igniter_update (\<lambda>_. False))"
definition proto_fan_off :: "unit work_action" where "proto_fan_off = command ''fan_off'' (out_fan_update (\<lambda>_. False))"
definition proto_power_on :: "unit work_action" where "proto_power_on = command ''power_on'' (out_power_update (\<lambda>_. True))"
definition proto_power_off :: "unit work_action" where "proto_power_off = command ''power_off'' (out_power_update (\<lambda>_. False))"

text \<open>A duty is given to a DC fan only; the ramp is taken as finished.\<close>

definition proto_fan_on :: "rat option \<Rightarrow> unit work_action" where
  "proto_fan_on duty = command ''fan_on'' (\<lambda>x. x\<lparr>out_fan := True, out_pwm := (case duty of None \<Rightarrow> out_pwm x | Some d \<Rightarrow> d)\<rparr>)"

definition proto_set_duty_cycle :: "rat \<Rightarrow> unit work_action" where
  "proto_set_duty_cycle percent = command ''set_duty_cycle'' (out_pwm_update (\<lambda>_. percent))"

definition proto_pwm_fan_ramp :: "rat \<times> rat \<times> rat \<Rightarrow> unit work_action" where
  "proto_pwm_fan_ramp p = command ''pwm_fan_ramp'' (\<lambda>x. x\<lparr>out_fan := True, out_pwm := snd (snd p)\<rparr>)"

section \<open>Reading and writing\<close>

definition on_world :: "(world, 'a) action \<Rightarrow> 'a work_action" where
  "on_world m s = (case m (w_world s) of (w, r) \<Rightarrow> (s\<lparr>w_world := w\<rparr>, r))"

definition number :: "pyval \<Rightarrow> rat result" where
  "number v = (case num_value v of Some (Fin q) \<Rightarrow> Inr q | _ \<Rightarrow> Inl (TypeError ''number''))"

definition setting :: "string list \<Rightarrow> pyval work_action" where
  "setting path = abind (aget w_settings) (\<lambda>v. alift (vpath v path))"

definition num_setting :: "string list \<Rightarrow> rat work_action" where
  "num_setting path = abind (setting path) (\<lambda>v. alift (number v))"

definition member_of :: "string \<Rightarrow> pyval work_action" where
  "member_of k = abind (aget w_control) (\<lambda>c. alift (dindex c k))"

definition assign :: "string \<Rightarrow> pyval \<Rightarrow> unit work_action" where
  "assign k v = amodify (\<lambda>s. s\<lparr>w_control := dput k v (w_control s)\<rparr>)"

text \<open>\<open>control[k][j] = v\<close>.\<close>

definition assign_in :: "string \<Rightarrow> string \<Rightarrow> pyval \<Rightarrow> unit work_action" where
  "assign_in k j v = abind (member_of k) (\<lambda>d. abind (alift (as_dict d)) (\<lambda>d'. assign k (VDict (dput j v d'))))"

definition store_control :: "unit work_action" where
  "store_control = abind (aget w_control) (\<lambda>c. on_world (amodify (write_world c)))"

definition load_stored :: "unit work_action" where
  "load_stored = abind (on_world (\<lambda>w. (w, read_control (db w)))) (\<lambda>c. amodify (w_control_update (\<lambda>_. c)))"

definition drain_writes :: "service \<Rightarrow> clock_stamp \<Rightarrow> unit work_action" where
  "drain_writes sv now =
     on_world (\<lambda>w. case execute_control_writes (sv_ids sv) now (db w) of
       (d, None) \<Rightarrow> (w\<lparr>db := d\<rparr>, Inr ()) | (d, Some e) \<Rightarrow> (w\<lparr>db := d\<rparr>, Inl e))"

definition put_metric :: "string \<Rightarrow> pyval \<Rightarrow> unit work_action" where
  "put_metric k v = amodify (\<lambda>s. s\<lparr>w_metrics := dput k v (w_metrics s)\<rparr>)"

definition request_error :: "service \<Rightarrow> unit work_action" where
  "request_error sv =
     abind (aget w_control) (\<lambda>c.
     abind (on_world (request_transition (sv_ids sv) c (VStr M_ERROR) SAFETY None None None (Some (display_text ''ERROR'')))) (\<lambda>d.
       amodify (w_control_update (\<lambda>_. d))))"

section \<open>What reached the firepot\<close>

text \<open>\<open>_account_auger_delivery\<close>: the time since the last observation counts when the auger was then seen on.\<close>

definition fed_so_far :: "pydict \<Rightarrow> rat result" where
  "fed_so_far m = (case dget m ''augerontime'' of None \<Rightarrow> Inr 0 | Some v \<Rightarrow> number v)"

definition account_auger :: "rat \<Rightarrow> bool \<Rightarrow> unit work_action" where
  "account_auger now actual_on =
     abind (aget id) (\<lambda>s.
     if w_name s = M_HOLD \<or> w_discontinuous s then areturn ()
     else
       abind (case w_observed_at s of
           None \<Rightarrow> areturn ()
         | Some previous \<Rightarrow>
             if now < previous then araise (ValueError ''auger observation time must be monotone'')
             else if w_observed_on s then
               abind (alift (fed_so_far (w_metrics s))) (\<lambda>fed. put_metric ''augerontime'' (VFloat (Fin (fed + now - previous))))
             else areturn ()) (\<lambda>_.
         amodify (\<lambda>s. s\<lparr>w_observed_at := Some now, w_observed_on := actual_on\<rparr>)))"

text \<open>The same with the output as it is at that moment.\<close>

definition account_output :: "rat \<Rightarrow> unit work_action" where
  "account_output now = abind (aget (\<lambda>s. out_auger (w_out s))) (account_auger now)"

section \<open>The clock\<close>

definition all_off :: "unit work_action" where
  "all_off = abind proto_auger_off (\<lambda>_. abind proto_igniter_off (\<lambda>_. abind proto_fan_off (\<lambda>_. proto_power_off)))"

definition retire_clock :: "service \<Rightarrow> rat \<Rightarrow> clock_stamp \<Rightarrow> unit work_action" where
  "retire_clock sv cutoff again =
     abind (aget w_discontinuous) (\<lambda>gone.
     if gone then areturn ()
     else
       abind (amodify (\<lambda>s. s\<lparr>w_discontinuous := True, w_terminal := Some cutoff\<rparr>)) (\<lambda>_.
       abind all_off (\<lambda>_.
       abind (drain_writes sv again) (\<lambda>_.
       abind load_stored (\<lambda>_.
       abind (member_of ''timer'') (\<lambda>t.
       abind (assign ''timer'' (timer_value (fst (restore_timer t)))) (\<lambda>_.
       abind (member_of ''notify_data'') (\<lambda>v.
       abind (alift (ebind (as_list v) disarm_items)) (\<lambda>items.
       abind (assign ''notify_data'' (VList items)) (\<lambda>_.
       abind (assign_in ''manual'' ''change'' (VBool False)) (\<lambda>_.
       abind (assign_in ''manual'' ''output'' (VBool False)) (\<lambda>_.
       abind (amodify (\<lambda>s. s\<lparr>w_override := map (\<lambda>(k, _). (k, 0)) (w_override s)\<rparr>)) (\<lambda>_.
         request_error sv)))))))))))))"

text \<open>\<open>_admit_clock\<close>: \<open>captured\<close> is what the clock domain's \<open>capture()\<close> returns or raises.\<close>

definition previous_stamp :: "work \<Rightarrow> clock_stamp option" where
  "previous_stamp s = (case w_last_stamp s of Some p \<Rightarrow> Some p | None \<Rightarrow> last_clock_stamp (w_world s))"

definition lost_continuity :: "clock_stamp option \<Rightarrow> clock_stamp \<Rightarrow> bool result" where
  "lost_continuity previous stamp =
     continuity_lost (case previous of None \<Rightarrow> stamp | Some p \<Rightarrow> p) stamp CONTROL_DISCONTINUITY_SECONDS"

definition admit_clock :: "service \<Rightarrow> clock_stamp result \<Rightarrow> clock_stamp \<Rightarrow> clock_stamp option work_action" where
  "admit_clock sv captured again =
     abind (aget id) (\<lambda>s.
     if w_discontinuous s then areturn None
     else
       let previous = previous_stamp s in
       case captured of
         Inl e \<Rightarrow> abind (retire_clock sv (case previous of None \<Rightarrow> w_start_time s | Some p \<Rightarrow> observed_monotonic_s p) again) (\<lambda>_. areturn None)
       | Inr stamp \<Rightarrow>
           abind (alift (lost_continuity previous stamp)) (\<lambda>lost.
           if lost then
             abind (retire_clock sv (observed_monotonic_s (case previous of None \<Rightarrow> stamp | Some p \<Rightarrow> p)) again) (\<lambda>_. areturn None)
           else
             abind (amodify (\<lambda>s. s\<lparr>w_last_stamp := Some stamp, w_world := (w_world s)\<lparr>last_clock_stamp := Some stamp\<rparr>\<rparr>)) (\<lambda>_.
               areturn (Some stamp))))"

section \<open>The auger and the fan\<close>

definition dc_fan :: "bool work_action" where
  "dc_fan = abind (setting [''platform'', ''dc_fan'']) (\<lambda>v. areturn (truthy v))"

text \<open>\<open>start_fan(grill, settings, duty)\<close>.\<close>

definition run_fan :: "rat option \<Rightarrow> unit work_action" where
  "run_fan duty =
     abind dc_fan (\<lambda>dc.
     if \<not> dc then proto_fan_on None
     else
       abind (num_setting [''pwm'', ''max_duty_cycle'']) (\<lambda>hi.
       case duty of
         None \<Rightarrow> proto_fan_on (start_fan True None 0 hi)
       | Some d \<Rightarrow> abind (num_setting [''pwm'', ''min_duty_cycle'']) (\<lambda>lo. proto_fan_on (start_fan True (Some d) lo hi))))"

text \<open>\<open>manual_override[name]\<close>; every cycle starts with the five names at zero.\<close>

definition override_of :: "string \<Rightarrow> rat work_action" where
  "override_of name = abind (aget w_override) (\<lambda>m. alift (case map_of m name of None \<Rightarrow> Inl (KeyError name) | Some t \<Rightarrow> Inr t))"

definition set_override :: "string \<Rightarrow> rat \<Rightarrow> unit work_action" where
  "set_override name t = amodify (\<lambda>s. s\<lparr>w_override := AList.update name t (w_override s)\<rparr>)"

text \<open>\<open>_auger_cycle_tick\<close>; \<open>outs\<close> is the status captured at the start of the tick.\<close>

definition toggle_auger :: "rat \<Rightarrow> outputs \<Rightarrow> unit work_action" where
  "toggle_auger now outs =
     abind (aget id) (\<lambda>s.
     abind (if \<not> out_auger outs \<and> w_cycle_time s * (1 - w_ratio s) < now - w_auger_toggle s then
              abind proto_auger_on (\<lambda>_. amodify (\<lambda>s. s\<lparr>w_auger_toggle := now\<rparr>))
            else areturn ()) (\<lambda>_.
     if out_auger outs \<and> w_cycle_time s * w_ratio s < now - w_auger_toggle s then
       abind proto_auger_off (\<lambda>_. amodify (\<lambda>s. s\<lparr>w_auger_toggle := now\<rparr>))
     else areturn ()))"

definition auger_cycle_tick :: "rat \<Rightarrow> outputs \<Rightarrow> unit work_action" where
  "auger_cycle_tick now outs =
     abind (account_auger now (out_auger outs)) (\<lambda>_.
     abind (override_of ''auger'') (\<lambda>until.
     abind (if until < now then abind (set_override ''auger'' 0) (\<lambda>_. toggle_auger now outs) else areturn ()) (\<lambda>_.
       account_output now)))"

definition control_number :: "string \<Rightarrow> rat work_action" where
  "control_number k = abind (member_of k) (\<lambda>v. alift (number v))"

definition ramp_settings :: "(rat \<times> rat \<times> rat) work_action" where
  "ramp_settings =
     abind (num_setting [''smoke_plus'', ''on_time'']) (\<lambda>on.
     abind (num_setting [''pwm'', ''min_duty_cycle'']) (\<lambda>lo.
     abind (num_setting [''pwm'', ''max_duty_cycle'']) (\<lambda>hi.
     abind (num_setting [''smoke_plus'', ''duty_cycle'']) (\<lambda>d. areturn (ramp_params on d lo hi)))))"

text \<open>The Smoke Plus cycling itself: out of the band the fan runs, in it the fan is switched every on and off time.\<close>

definition smoke_plus_cycle :: "rat \<Rightarrow> rat \<Rightarrow> outputs \<Rightarrow> unit work_action" where
  "smoke_plus_cycle now ptemp outs =
     abind (num_setting [''smoke_plus'', ''max_temp'']) (\<lambda>hi.
     abind (num_setting [''smoke_plus'', ''min_temp'']) (\<lambda>lo.
     abind (override_of ''fan'') (\<lambda>until.
     abind (aget w_fan_toggle) (\<lambda>toggled.
     if (hi < ptemp \<or> ptemp < lo) \<and> until < now then
       (if out_fan outs then areturn () else abind (control_number ''duty_cycle'') (\<lambda>d. run_fan (Some d)))
     else
       abind (num_setting [''smoke_plus'', ''on_time'']) (\<lambda>on.
       if on < now - toggled \<and> out_fan outs then
         (if until < now then
            abind (set_override ''fan'' 0) (\<lambda>_. abind proto_fan_off (\<lambda>_. amodify (\<lambda>s. s\<lparr>w_fan_toggle := now\<rparr>)))
          else areturn ())
       else
         abind (num_setting [''smoke_plus'', ''off_time'']) (\<lambda>off.
         if (off < now - toggled \<and> \<not> out_fan outs) \<and> until < now then
           abind (amodify (\<lambda>s. s\<lparr>w_fan_toggle := now\<rparr>)) (\<lambda>_.
           abind dc_fan (\<lambda>dc.
           abind (aget w_name) (\<lambda>name.
           abind (member_of ''pwm_control'') (\<lambda>pwm.
           abind (setting [''smoke_plus'', ''fan_ramp'']) (\<lambda>ramp.
           if dc \<and> (name = M_SMOKE \<or> (name = M_HOLD \<and> \<not> truthy pwm)) \<and> truthy ramp then
             abind ramp_settings (\<lambda>p. abind (proto_pwm_fan_ramp p) (\<lambda>_. amodify (\<lambda>s. s\<lparr>w_ramping := True\<rparr>)))
           else abind (control_number ''duty_cycle'') (\<lambda>d. run_fan (Some d)))))))
         else areturn ()))))))"

text \<open>\<open>_smoke_plus_fan_tick\<close>: the cycling while Smoke Plus is on, otherwise the first of the restoring branches that applies.\<close>

definition smoke_plus_fan_tick :: "rat \<Rightarrow> rat \<Rightarrow> outputs \<Rightarrow> unit work_action" where
  "smoke_plus_fan_tick now ptemp outs =
     abind (aget id) (\<lambda>s.
     abind (member_of ''s_plus'') (\<lambda>plus.
     if (w_name s = M_SMOKE \<or> (w_name s = M_HOLD \<and> w_target_achieved s)) \<and> truthy plus \<and> \<not> w_lid_open s then
       smoke_plus_cycle now ptemp outs
     else
       abind (override_of ''fan'') (\<lambda>until.
       if \<not> out_fan outs \<and> \<not> truthy plus \<and> \<not> w_lid_open s \<and> until < now then
         abind (control_number ''duty_cycle'') (\<lambda>d. run_fan (Some d))
       else
         abind dc_fan (\<lambda>dc.
         if \<not> dc then areturn ()
         else
           abind (control_number ''duty_cycle'') (\<lambda>d.
           if out_pwm outs \<noteq> d \<and> \<not> truthy plus \<and> w_ramping s \<and> until < now then
             abind (amodify (\<lambda>s. s\<lparr>w_ramping := False\<rparr>)) (\<lambda>_. proto_set_duty_cycle d)
           else
             abind (member_of ''pwm_control'') (\<lambda>pwm.
             if truthy pwm then (if out_pwm outs \<noteq> d \<and> until < now then proto_set_duty_cycle d else areturn ())
             else
               abind (num_setting [''pwm'', ''max_duty_cycle'']) (\<lambda>hi.
               if out_pwm outs \<noteq> hi \<and> until < now then
                 abind (assign ''duty_cycle'' (VFloat (Fin hi))) (\<lambda>_. abind store_control (\<lambda>_. proto_set_duty_cycle hi))
               else areturn ())))))))"

section \<open>Manual overrides\<close>

text \<open>\<open>_apply_manual_overrides\<close>: the command on one output, when it changes it, and how long it is to last.\<close>

definition switch :: "bool \<Rightarrow> bool \<Rightarrow> unit work_action \<Rightarrow> unit work_action \<Rightarrow> unit work_action" where
  "switch wanted is_on turn_on turn_off =
     (if wanted \<and> \<not> is_on then turn_on else if \<not> wanted \<and> is_on then turn_off else areturn ())"

definition manual_output :: "string \<Rightarrow> rat \<Rightarrow> rat \<Rightarrow> outputs \<Rightarrow> unit work_action" where
  "manual_output change now until outs =
     abind (member_of ''manual'') (\<lambda>mv. abind (alift (as_dict mv)) (\<lambda>manual.
     abind (alift (dindex manual ''output'')) (\<lambda>ov.
     let wanted = truthy ov in
     if change = ''fan'' then
       abind dc_fan (\<lambda>dc.
       abind (switch wanted (out_fan outs) (proto_fan_on (if dc then Some 100 else None)) proto_fan_off) (\<lambda>_. set_override ''fan'' until))
     else if change = ''auger'' then
       abind (account_auger now (out_auger outs)) (\<lambda>_.
       abind (switch wanted (out_auger outs) proto_auger_on proto_auger_off) (\<lambda>_.
       abind (set_override ''auger'' until) (\<lambda>_. account_output now)))
     else if change = ''igniter'' then
       abind (switch wanted (out_igniter outs) proto_igniter_on proto_igniter_off) (\<lambda>_. set_override ''igniter'' until)
     else if change = ''power'' then
       abind (switch wanted (out_power outs) proto_power_on proto_power_off) (\<lambda>_. set_override ''power'' until)
     else areturn ())))"

definition manual_speed :: "string \<Rightarrow> rat \<Rightarrow> outputs \<Rightarrow> unit work_action" where
  "manual_speed change until outs =
     abind dc_fan (\<lambda>dc.
     if \<not> (dc \<and> change = ''pwm'' \<and> out_fan outs) then areturn ()
     else
       abind (member_of ''manual'') (\<lambda>mv. abind (alift (as_dict mv)) (\<lambda>manual.
       abind (alift (ebind (dindex manual ''pwm'') number)) (\<lambda>speed.
       if speed = out_pwm outs then areturn ()
       else
         abind (proto_set_duty_cycle speed) (\<lambda>_.
         abind (set_override ''pwm'' until) (\<lambda>_. assign_in ''manual'' ''pwm'' (VInt 100)))))))"

definition MANUAL_OUTPUTS :: "string list" where
  "MANUAL_OUTPUTS = [''power'', ''igniter'', ''fan'', ''auger'', ''pwm'']"

definition apply_manual_overrides :: "rat \<Rightarrow> outputs \<Rightarrow> unit work_action" where
  "apply_manual_overrides now outs =
     abind (aget w_name) (\<lambda>name.
     abind (if name = M_MANUAL then areturn True
            else abind (setting [''safety'', ''allow_manual_changes'']) (\<lambda>v. areturn (truthy v))) (\<lambda>allowed.
     if \<not> allowed then areturn ()
     else
       abind (member_of ''manual'') (\<lambda>mv. abind (alift (as_dict mv)) (\<lambda>manual.
       abind (alift (dindex manual ''change'')) (\<lambda>cv.
       case cv of
         VStr change \<Rightarrow>
           if change \<notin> set MANUAL_OUTPUTS then areturn ()
           else
             abind (if name = M_MANUAL then areturn 0
                    else abind (num_setting [''safety'', ''manual_override_time'']) (\<lambda>t. areturn (now + t))) (\<lambda>until.
             abind (manual_output change now until outs) (\<lambda>_.
             abind (manual_speed change until outs) (\<lambda>_.
             abind (assign_in ''manual'' ''change'' (VBool False)) (\<lambda>_.
             abind (assign_in ''manual'' ''output'' (VBool False)) (\<lambda>_. store_control)))))
       | _ \<Rightarrow> areturn ())))))"

section \<open>The hooks of the modes\<close>

definition apply_cycle :: "cycle_times \<Rightarrow> unit work_action" where
  "apply_cycle c =
     amodify (\<lambda>s. s\<lparr>w_on_time := on_time c, w_off_time := off_time c, w_cycle_time := cycle_time c, w_ratio := cycle_ratio c\<rparr>)"

definition smoke_times :: "cycle_times work_action" where
  "smoke_times =
     abind (num_setting [''cycle_data'', ''SmokeOnCycleTime'']) (\<lambda>on.
     abind (num_setting [''cycle_data'', ''SmokeOffCycleTime'']) (\<lambda>off.
     abind (num_setting [''cycle_data'', ''PMode'']) (\<lambda>p. alift (smoke_cycle_times on off p))))"

definition init_smoke_cycle :: "unit work_action" where
  "init_smoke_cycle = abind smoke_times (\<lambda>c. abind (apply_cycle c) (\<lambda>_. amodify (\<lambda>s. s\<lparr>w_lid_open := False\<rparr>)))"

text \<open>\<open>settings["startup"]["smartstart"]["profiles"][i]\<close>, an index counted from the end when it is negative.\<close>

definition profile_at :: "pyval list \<Rightarrow> pyval \<Rightarrow> pyval result" where
  "profile_at profiles i = (case i of VInt n \<Rightarrow> step_at profiles n | _ \<Rightarrow> Inl (TypeError ''index''))"

definition profile_list :: "pyval list work_action" where
  "profile_list = abind (setting [''startup'', ''smartstart'', ''profiles'']) (\<lambda>v. alift (as_list v))"

definition decode_profile :: "pyval \<Rightarrow> start_profile result" where
  "decode_profile v =
     ebind (as_dict v) (\<lambda>d.
     ebind (ebind (dindex d ''augerontime'') number) (\<lambda>on.
     ebind (ebind (dindex d ''p_mode'') number) (\<lambda>p.
     ebind (ebind (dindex d ''startuptime'') number) (\<lambda>t. Inr \<lparr>augerontime = on, p_mode = p, startuptime = t\<rparr>))))"

text \<open>Take the cycle, the timer and the metrics from a smart-start profile.\<close>

definition apply_profile :: "pyval \<Rightarrow> unit work_action" where
  "apply_profile v =
     abind (alift (decode_profile v)) (\<lambda>profile.
     abind (num_setting [''cycle_data'', ''SmokeOffCycleTime'']) (\<lambda>off.
     abind (alift (profile_cycle profile off)) (\<lambda>(c, timer, p, on).
     abind (apply_cycle c) (\<lambda>_.
     abind (amodify (\<lambda>s. s\<lparr>w_startup_timer := timer\<rparr>)) (\<lambda>_.
     abind (put_metric ''p_mode'' (VFloat (Fin p))) (\<lambda>_. put_metric ''auger_cycle_time'' (VFloat (Fin on))))))))"

definition smart_start :: "bool work_action" where
  "smart_start = abind (setting [''startup'', ''smartstart'', ''enabled'']) (\<lambda>v. areturn (truthy v))"

definition selected_profile :: "pyval work_action" where
  "selected_profile = abind (member_of ''smartstart'') (\<lambda>d. alift (ebind (as_dict d) (\<lambda>d. dindex d ''profile_selected'')))"

definition stage_smart_start :: "pyval \<Rightarrow> unit work_action" where
  "stage_smart_start selected =
     abind profile_list (\<lambda>profiles.
     abind (alift (profile_at profiles selected)) (\<lambda>profile.
     abind (apply_profile profile) (\<lambda>_.
     abind (put_metric ''smart_start_profile'' selected) (\<lambda>_.
     abind (member_of ''smartstart'') (\<lambda>d.
     abind (alift (ebind (as_dict d) (\<lambda>d. dindex d ''startuptemp''))) (\<lambda>t. put_metric ''startup_temp'' t))))))"

text \<open>\<open>setup()\<close>.\<close>

definition setup_startup :: "unit work_action" where
  "setup_startup =
     abind dc_fan (\<lambda>dc.
     abind (setting [''startup'']) (\<lambda>sv. abind (alift (as_dict sv)) (\<lambda>d.
     abind (if dc \<and> dget_none d ''pwm_duty_cycle'' \<noteq> VNone
            then abind (alift (number (dget_none d ''pwm_duty_cycle''))) (\<lambda>duty. run_fan (Some duty))
            else run_fan None) (\<lambda>_.
     abind proto_power_on (\<lambda>_. abind proto_igniter_on (\<lambda>_. abind proto_auger_on (\<lambda>_. init_smoke_cycle)))))))"

definition setup_smoke :: "unit work_action" where
  "setup_smoke = abind (run_fan None) (\<lambda>_. abind proto_power_on (\<lambda>_. abind proto_auger_on (\<lambda>_. init_smoke_cycle)))"

definition setup_prime :: "unit work_action" where
  "setup_prime =
     abind proto_fan_off (\<lambda>_. abind proto_power_on (\<lambda>_. abind proto_auger_on (\<lambda>_.
     abind (on_world (\<lambda>w. (w, read_control (db w)))) (\<lambda>c.
     abind (num_setting [''globals'', ''augerrate'']) (\<lambda>rate.
     abind (alift (dindex c ''prime_amount'')) (\<lambda>amount.
     abind (alift (ebind (number amount) (\<lambda>a. prime_cycle_times a rate))) (\<lambda>t.
     abind (amodify (\<lambda>s. s\<lparr>w_prime_amount := amount, w_prime_duration := of_int (py_trunc (on_time t))\<rparr>)) (\<lambda>_.
     abind (apply_cycle t) (\<lambda>_.
     abind (setting [''globals'', ''prime_ignition'']) (\<lambda>ignite.
     if truthy ignite then
       abind (alift (dindex c ''next_mode'')) (\<lambda>m. if py_eq m (VStr M_STARTUP) then proto_igniter_on else areturn ())
     else areturn ()))))))))))"

definition setup_shutdown :: "unit work_action" where
  "setup_shutdown = abind (run_fan None) (\<lambda>_. proto_power_on)"

definition fan_and_power_off :: "unit work_action" where
  "fan_and_power_off = abind proto_fan_off (\<lambda>_. proto_power_off)"

definition mode_setup :: "string \<Rightarrow> unit work_action" where
  "mode_setup name =
     (if name \<in> {M_STARTUP, M_REIGNITE} then setup_startup
      else if name = M_SMOKE then setup_smoke
      else if name = M_PRIME then setup_prime
      else if name = M_SHUTDOWN then setup_shutdown
      else if name \<in> {M_MANUAL, M_MONITOR} then fan_and_power_off
      else areturn ())"

text \<open>\<open>on_metrics_stamped()\<close>.\<close>

definition stage_cycle_metrics :: "string \<Rightarrow> unit work_action" where
  "stage_cycle_metrics name =
     (if name \<in> {M_STARTUP, M_REIGNITE, M_SMOKE} then
        abind (setting [''cycle_data'', ''PMode'']) (\<lambda>p. abind (put_metric ''p_mode'' p) (\<lambda>_.
        abind (setting [''cycle_data'', ''SmokeOnCycleTime'']) (\<lambda>on. put_metric ''auger_cycle_time'' on)))
      else areturn ())"

text \<open>\<open>setup_safety(ptemp)\<close>; \<open>wall\<close> is the wall time the code reads.\<close>

definition safety_startup :: "pyval \<Rightarrow> rat \<Rightarrow> unit work_action" where
  "safety_startup ptemp wall_s =
     abind (amodify (\<lambda>s. s\<lparr>w_raw_temp := ptemp\<rparr>)) (\<lambda>_.
     abind (alift (number ptemp)) (\<lambda>t.
     abind (num_setting [''safety'', ''minstartuptemp'']) (\<lambda>lo.
     abind (num_setting [''safety'', ''maxstartuptemp'']) (\<lambda>hi.
     abind (assign_in ''safety'' ''startuptemp'' (VInt (startup_temp_bounds t lo hi))) (\<lambda>_.
     abind (assign_in ''safety'' ''afterstarttemp'' ptemp) (\<lambda>_.
     abind store_control (\<lambda>_.
     abind smart_start (\<lambda>smart.
     abind (if \<not> smart then areturn ()
            else
              abind (assign_in ''smartstart'' ''startuptemp'' (VInt (py_trunc t))) (\<lambda>_.
              abind (setting [''startup'', ''smartstart'', ''temp_range_list'']) (\<lambda>rv.
              abind (alift (ebind (as_list rv) (emap_list number))) (\<lambda>ranges.
              let selected = VInt (int (select_profile (of_int (py_trunc t)) ranges)) in
              abind (assign_in ''smartstart'' ''profile_selected'' selected) (\<lambda>_.
              abind store_control (\<lambda>_. stage_smart_start selected)))))) (\<lambda>_.
     abind (aget w_name) (\<lambda>name.
     if name = M_STARTUP then abind (assign ''startup_timestamp'' (VFloat (Fin wall_s))) (\<lambda>_. store_control)
     else areturn ()))))))))))"

definition safety_smoke :: "unit work_action" where
  "safety_smoke = abind smart_start (\<lambda>smart. if smart then abind selected_profile stage_smart_start else areturn ())"

definition setup_safety :: "string \<Rightarrow> pyval \<Rightarrow> rat \<Rightarrow> unit work_action" where
  "setup_safety name ptemp wall_s =
     (if name \<in> {M_STARTUP, M_REIGNITE} then safety_startup ptemp wall_s
      else if name = M_SMOKE then safety_smoke else areturn ())"

text \<open>\<open>on_settings_reload()\<close>: the selected profile is kept, clamped when the list became shorter.\<close>

definition clamp_profile :: "pyval list \<Rightarrow> pyval \<Rightarrow> int result" where
  "clamp_profile profiles v =
     (case v of
        VInt n \<Rightarrow> Inr (if 0 \<le> n \<and> n < int (length profiles) then n else int (length profiles) - 1)
      | _ \<Rightarrow> Inl (TypeError ''profile''))"

definition reload_smoke_cycle :: "unit work_action" where
  "reload_smoke_cycle =
     abind smart_start (\<lambda>smart.
     abind (if smart then profile_list else areturn []) (\<lambda>profiles.
     if profiles \<noteq> [] then
       abind (member_of ''smartstart'') (\<lambda>dv. abind (alift (as_dict dv)) (\<lambda>d.
       let stored = (case dget d ''profile_selected'' of None \<Rightarrow> VInt 0 | Some v \<Rightarrow> v) in
       abind (alift (clamp_profile profiles stored)) (\<lambda>n.
       abind (if stored = VInt n then areturn ()
              else abind (assign_in ''smartstart'' ''profile_selected'' (VInt n)) (\<lambda>_. store_control)) (\<lambda>_.
       abind (alift (profile_at profiles (VInt n))) apply_profile))))
     else
       abind smoke_times (\<lambda>c. abind (apply_cycle c) (\<lambda>_.
       abind (setting [''cycle_data'', ''PMode'']) (\<lambda>p. abind (put_metric ''p_mode'' p) (\<lambda>_.
       abind (setting [''cycle_data'', ''SmokeOnCycleTime'']) (\<lambda>on. put_metric ''auger_cycle_time'' on)))))))"

definition settings_reloaded :: "string \<Rightarrow> unit work_action" where
  "settings_reloaded name = (if name \<in> {M_STARTUP, M_REIGNITE, M_SMOKE} then reload_smoke_cycle else areturn ())"

text \<open>\<open>on_tick\<close>, \<open>check_safety\<close>, \<open>should_exit\<close>, \<open>on_publish\<close> and \<open>teardown\<close>.\<close>

definition mode_tick :: "string \<Rightarrow> rat \<Rightarrow> pyval \<Rightarrow> outputs \<Rightarrow> unit work_action" where
  "mode_tick name now ptemp outs =
     (if name \<in> {M_STARTUP, M_REIGNITE, M_PRIME} then auger_cycle_tick now outs
      else if name = M_SMOKE then
        abind (auger_cycle_tick now outs) (\<lambda>_. abind (alift (number ptemp)) (\<lambda>t. smoke_plus_fan_tick now t outs))
      else areturn ())"

definition check_mode_safety :: "string \<Rightarrow> pyval \<Rightarrow> unit work_action" where
  "check_mode_safety name ptemp =
     (if name \<in> {M_STARTUP, M_REIGNITE} then assign_in ''safety'' ''afterstarttemp'' ptemp else areturn ())"

definition exit_startup :: "rat \<Rightarrow> pyval \<Rightarrow> bool work_action" where
  "exit_startup now ptemp =
     abind smart_start (\<lambda>smart.
     abind (if smart then
              abind selected_profile (\<lambda>i. abind profile_list (\<lambda>ps.
                alift (ebind (profile_at ps i) (\<lambda>v. ebind (as_dict v) (\<lambda>d. ebind (dindex d ''startuptime'') number)))))
            else num_setting [''startup'', ''duration'']) (\<lambda>timer.
     abind (num_setting (if smart then [''startup'', ''smartstart'', ''exit_temp''] else [''startup'', ''startup_exit_temp''])) (\<lambda>limit.
     abind (aget w_raw_temp) (\<lambda>raw. abind (alift (number raw)) (\<lambda>raw.
     let exit_temp = (if limit \<le> raw then 0 else limit) in
     abind (amodify (\<lambda>s. s\<lparr>w_startup_timer := timer\<rparr>)) (\<lambda>_.
     abind (aget w_start_time) (\<lambda>start.
     if timer < now - start then areturn True
     else if exit_temp = 0 then areturn False
     else abind (alift (number ptemp)) (\<lambda>t. areturn (exit_temp \<le> t)))))))))"

definition should_exit :: "string \<Rightarrow> rat \<Rightarrow> pyval \<Rightarrow> bool work_action" where
  "should_exit name now ptemp =
     (if name \<in> {M_STARTUP, M_REIGNITE} then exit_startup now ptemp
      else if name = M_PRIME then aget (\<lambda>s. w_prime_duration s < now - w_start_time s)
      else if name = M_SHUTDOWN then
        abind (num_setting [''shutdown'', ''shutdown_duration'']) (\<lambda>d. aget (\<lambda>s. d < now - w_start_time s))
      else areturn False)"

definition publish_cycle :: "service \<Rightarrow> string \<Rightarrow> unit work_action" where
  "publish_cycle sv name =
     (if name \<in> {M_STARTUP, M_SMOKE} then abind (aget w_control) (\<lambda>c. on_world (sv_publish sv c)) else areturn ())"

definition teardown :: "string \<Rightarrow> pyval \<Rightarrow> unit work_action" where
  "teardown name ptemp =
     (if name \<in> {M_STARTUP, M_REIGNITE} then abind (assign_in ''safety'' ''afterstarttemp'' ptemp) (\<lambda>_. store_control)
      else if name \<in> {M_PRIME, M_SHUTDOWN, M_MANUAL, M_MONITOR} then fan_and_power_off
      else areturn ())"

section \<open>Cook identity and the metrics row\<close>

definition adopt_identity :: "pyval \<Rightarrow> string \<Rightarrow> unit work_action" where
  "adopt_identity previous cook_id =
     amodify (\<lambda>s. if w_cook_id s = Some cook_id then s
       else s\<lparr>w_cook_elapsed := (if w_cook_id s \<noteq> None \<or> trimmed_str previous = None then Some 0 else w_cook_elapsed s),
              w_cook_id := Some cook_id\<rparr>)"

text \<open>\<open>_refresh_cook_identity(control, preferred)\<close>, for the control just read into the object's place.\<close>

definition refresh_identity :: "service \<Rightarrow> pyval \<Rightarrow> pyval \<Rightarrow> unit work_action" where
  "refresh_identity sv previous preferred =
     abind (aget (\<lambda>s. dget_none (w_control s) ''cook_id'')) (\<lambda>id_v.
     case trimmed_str id_v of
       Some cook_id \<Rightarrow> adopt_identity previous cook_id
     | None \<Rightarrow>
         abind (on_world (\<lambda>w. case ensure_cook_id (sv_fresh sv) preferred (db w) of
            Inl e \<Rightarrow> (w, Inl e) | Inr (c, d) \<Rightarrow> (w\<lparr>db := d\<rparr>, Inr c))) (\<lambda>cook_id.
         abind (assign ''cook_id'' (VStr cook_id)) (\<lambda>_. adopt_identity previous cook_id)))"

definition stamp_metric :: "service \<Rightarrow> unit work_action" where
  "stamp_metric sv =
     abind (amodify (\<lambda>s. s\<lparr>w_metric_start := (case w_metric_start s of None \<Rightarrow> Some (w_start_time s) | m \<Rightarrow> m),
        w_metrics := sv_metric sv, w_metrics_stamped := True\<rparr>)) (\<lambda>_.
     abind (aget w_start_wall) (\<lambda>wall_s. abind (put_metric ''starttime'' (VFloat (Fin (wall_s * 1000)))) (\<lambda>_.
     abind (put_metric ''elapsed_seconds'' (VFloat (Fin 0))) (\<lambda>_.
     abind (put_metric ''delivery_complete'' (VBool True)) (\<lambda>_.
     abind (aget w_name) (\<lambda>name. abind (put_metric ''mode'' (VStr name)) (\<lambda>_.
     abind (member_of ''s_plus'') (\<lambda>v. abind (put_metric ''smokeplus'' v) (\<lambda>_.
     abind (member_of ''primary_setpoint'') (\<lambda>v. abind (put_metric ''primary_setpoint'' v) (\<lambda>_.
       stage_cycle_metrics name)))))))))))"

text \<open>\<open>_handle_history_clear\<close>: history goes, the cook gets a new identity and the cycle a new row.\<close>

definition clear_history :: "service \<Rightarrow> rat \<Rightarrow> rat \<Rightarrow> unit work_action" where
  "clear_history sv now wall_s =
     abind (on_world (\<lambda>w. case read_control (db w) of
        Inl e \<Rightarrow> (w, Inl e) | Inr c \<Rightarrow> (write_world (dput ''cook_id'' VNone c) w, Inr ()))) (\<lambda>_.
     abind (on_world (\<lambda>w. case ensure_cook_id (sv_fresh sv) VNone (db w) of
        Inl e \<Rightarrow> (w, Inl e) | Inr (c, d) \<Rightarrow> (w\<lparr>db := d\<rparr>, Inr c))) (\<lambda>cook_id.
     abind load_stored (\<lambda>_.
     abind (assign ''cook_id'' (VStr cook_id)) (\<lambda>_.
     abind (amodify (\<lambda>s. s\<lparr>w_cook_id := Some cook_id, w_cook_elapsed := Some 0, w_metric_start := Some now,
        w_start_wall := wall_s, w_observed_at := Some now\<rparr>)) (\<lambda>_.
       stamp_metric sv)))))"

section \<open>Recipe steps inside a cycle\<close>

definition the_stamp :: "clock_stamp option \<Rightarrow> clock_stamp result" where
  "the_stamp stamp =
     (case stamp of None \<Rightarrow> Inl (RuntimeError ''Timer operations require an admitted control tick'') | Some now \<Rightarrow> Inr now)"

text \<open>The timer a step runs on: the one it already started, or a new one.\<close>

definition step_timer :: "service \<Rightarrow> clock_stamp option \<Rightarrow> pyval \<Rightarrow> pydict \<Rightarrow> (pydict \<times> timer_record) result" where
  "step_timer sv now minutes control =
     ebind (dindex control ''timer'') (\<lambda>tv. ebind (parse_timer tv) (\<lambda>t.
     ebind (dindex control ''recipe'') (\<lambda>rv. ebind (as_dict rv) (\<lambda>r.
     ebind (dindex r ''step'') (\<lambda>step.
     if py_eq (dget_none r ''timer_id'') (VStr (timer_id t)) \<and> py_eq (dget_none r ''timer_step'') step
     then Inr (dput ''timer'' (timer_value t) control, t)
     else
       ebind (number minutes) (\<lambda>m. ebind (the_stamp now) (\<lambda>stamp.
       ebind (start_timer (sv_timer_id sv) (VFloat (Fin (m * 60))) stamp) (\<lambda>t'.
         Inr (dput ''timer'' (timer_value t') (dput ''recipe'' (VDict (dput ''timer_step'' step
                (dput ''timer_id'' (VStr (timer_id t')) r))) control), t')))))))))"

fun arm_timers :: "service \<Rightarrow> clock_stamp option \<Rightarrow> pyval \<Rightarrow> pyval list \<Rightarrow> pydict \<Rightarrow> (pydict \<times> pyval list \<times> bool) result" where
  "arm_timers sv now minutes [] control = Inr (control, [], False)"
| "arm_timers sv now minutes (item # items) control =
     ebind (is_timer_item item) (\<lambda>timed.
     if timed then
       ebind (step_timer sv now minutes control) (\<lambda>(c, t). ebind (as_dict item) (\<lambda>d.
       ebind (arm_timers sv now minutes items c) (\<lambda>(c', rest, _).
         Inr (c', VDict (dput ''keep_warm'' (VBool False) (dput ''shutdown'' (VBool False)
           (dput ''req'' (VBool (action_armed t)) d))) # rest, True))))
     else ebind (arm_timers sv now minutes items control) (\<lambda>(c', rest, b). Inr (c', item # rest, b)))"

text \<open>The first probe item with the label gets the target.\<close>

fun arm_probe :: "string \<Rightarrow> pyval \<Rightarrow> pyval list \<Rightarrow> (pyval list \<times> bool) result" where
  "arm_probe label target [] = Inr ([], False)"
| "arm_probe label target (item # items) =
     ebind (as_dict item) (\<lambda>d. ebind (dindex d ''type'') (\<lambda>kind.
     ebind (if py_eq kind (VStr ''probe'') then ebind (dindex d ''label'') (\<lambda>l. Inr (py_eq l (VStr label))) else Inr False) (\<lambda>hit.
     if hit then Inr (VDict (dput ''req'' (VBool True) (dput ''target'' target d)) # items, True)
     else ebind (arm_probe label target items) (\<lambda>(rest, b). Inr (item # rest, b)))))"

fun arm_probes :: "pydict \<Rightarrow> pyval list \<Rightarrow> (pyval list \<times> bool) result" where
  "arm_probes [] items = Inr (items, False)"
| "arm_probes ((label, target) # ts) items =
     ebind (number target) (\<lambda>q.
     ebind (if 0 < q then arm_probe label target items else Inr (items, False)) (\<lambda>(items', hit).
     ebind (arm_probes ts items') (\<lambda>(items'', b). Inr (items'', hit \<or> b))))"

definition step_data_of :: "pydict \<Rightarrow> pydict result" where
  "step_data_of c =
     ebind (dindex c ''recipe'') (\<lambda>rv. ebind (as_dict rv) (\<lambda>r. ebind (dindex r ''step_data'') as_dict))"

definition recipe_triggers :: "service \<Rightarrow> clock_stamp option \<Rightarrow> pydict \<Rightarrow> (pydict \<times> bool) result" where
  "recipe_triggers sv now c =
     ebind (step_data_of c) (\<lambda>d.
     ebind (dindex d ''timer'') (\<lambda>minutes. ebind (number minutes) (\<lambda>m.
     ebind (ebind (dindex c ''notify_data'') as_list) (\<lambda>items.
     ebind (if 0 < m then arm_timers sv now minutes items c else Inr (c, items, False)) (\<lambda>(c1, items1, b1).
     ebind (ebind (dindex d ''trigger_temps'') as_dict) (\<lambda>ts.
     ebind (arm_probes ts items1) (\<lambda>(items2, b2). Inr (dput ''notify_data'' (VList items2) c1, b1 \<or> b2))))))))"

definition setup_recipe_triggers :: "service \<Rightarrow> unit work_action" where
  "setup_recipe_triggers sv =
     abind (aget id) (\<lambda>s.
     abind (member_of ''mode'') (\<lambda>m.
     if py_eq m (VStr M_RECIPE) \<and> w_name s \<in> {M_SMOKE, M_HOLD} then
       abind (alift (recipe_triggers sv (last_clock_stamp (w_world s)) (w_control s))) (\<lambda>(c, set_any).
       abind (amodify (w_control_update (\<lambda>_. c))) (\<lambda>_. if set_any then store_control else areturn ()))
     else areturn ()))"

definition update_step :: "string \<Rightarrow> pyval \<Rightarrow> unit work_action" where
  "update_step k v =
     abind (member_of ''recipe'') (\<lambda>rv. abind (alift (as_dict rv)) (\<lambda>r.
     abind (alift (ebind (dindex r ''step_data'') as_dict)) (\<lambda>d.
       assign ''recipe'' (VDict (dput ''step_data'' (VDict (dput k v d)) r)))))"

definition announce_step :: "pydict \<Rightarrow> unit work_action" where
  "announce_step d =
     abind (alift (dindex d ''notify'')) (\<lambda>n.
     if truthy n then
       abind (update_step ''notify'' (VBool False)) (\<lambda>_. abind store_control (\<lambda>_.
         on_world (amodify (\<lambda>w. w\<lparr>notified := notified w @ [''Recipe_Step_Message'']\<rparr>))))
     else areturn ())"

definition pause_running :: "bool \<Rightarrow> unit work_action" where
  "pause_running cut_off =
     abind (member_of ''timer'') (\<lambda>tv. abind (alift (parse_timer tv)) (\<lambda>t.
     if tstate t \<noteq> Running then areturn ()
     else
       abind (aget (\<lambda>s. last_clock_stamp (w_world s))) (\<lambda>stamp. abind (alift (the_stamp stamp)) (\<lambda>now.
       abind (assign ''timer'' (timer_value (pause_timer t now cut_off))) (\<lambda>_.
       abind (member_of ''notify_data'') (\<lambda>v. abind (alift (ebind (as_list v) disarm_items)) (\<lambda>items.
       abind (assign ''notify_data'' (VList items)) (\<lambda>_. store_control))))))))"

definition handle_recipe_end :: "bool work_action" where
  "handle_recipe_end =
     abind (member_of ''mode'') (\<lambda>m.
     if \<not> py_eq m (VStr M_RECIPE) then areturn False
     else
       abind (aget w_control) (\<lambda>c. abind (alift (step_data_of c)) (\<lambda>d.
       abind (alift (dindex d ''triggered'')) (\<lambda>triggered.
       if \<not> truthy triggered then areturn False
       else
         abind (alift (dindex d ''pause'')) (\<lambda>pause.
         if \<not> truthy pause then abind (announce_step d) (\<lambda>_. areturn True)
         else
           abind (pause_running False) (\<lambda>_. abind (announce_step d) (\<lambda>_. areturn False)))))))"

section \<open>One iteration of the loop\<close>

text \<open>What a flagged settings change, a consumed flag and the ON/OFF switch do; \<open>True\<close> leaves the loop.\<close>

definition take_settings :: "unit work_action" where
  "take_settings =
     abind (member_of ''settings_update'') (\<lambda>v.
     if \<not> truthy v then areturn ()
     else
       abind (assign ''settings_update'' (VBool False)) (\<lambda>_. abind store_control (\<lambda>_.
       abind (on_world (aget (\<lambda>w. settings (db w)))) (\<lambda>cfg.
       abind (amodify (w_settings_update (\<lambda>_. cfg))) (\<lambda>_. abind (aget w_name) settings_reloaded)))))"

definition drop_flag :: "string \<Rightarrow> unit work_action" where
  "drop_flag k =
     abind (member_of k) (\<lambda>v. if truthy v then abind (assign k (VBool False)) (\<lambda>_. store_control) else areturn ())"

definition watch_switch :: "service \<Rightarrow> bool \<Rightarrow> bool work_action" where
  "watch_switch sv switch_on =
     abind (setting [''platform'', ''standalone'']) (\<lambda>alone.
     abind (aget w_switch) (\<lambda>was.
     if truthy alone \<or> was = switch_on then areturn False
     else
       abind (amodify (\<lambda>s. s\<lparr>w_switch := switch_on\<rparr>)) (\<lambda>_.
       if switch_on then areturn False
       else
         abind (assign ''status'' (VStr ''active'')) (\<lambda>_.
         abind (aget w_control) (\<lambda>c.
         abind (on_world (request_transition (sv_ids sv) c (VStr M_STOP) TERMINAL None None None None)) (\<lambda>d.
         abind (amodify (w_control_update (\<lambda>_. d))) (\<lambda>_. areturn True)))))))"

definition process_flags :: "service \<Rightarrow> bool \<Rightarrow> bool work_action" where
  "process_flags sv switch_on =
     abind take_settings (\<lambda>_.
     abind (drop_flag ''distance_update'') (\<lambda>_.
     abind (drop_flag ''hopper_check'') (\<lambda>_. watch_switch sv switch_on)))"

definition take_profiles :: "unit work_action" where
  "take_profiles =
     abind (member_of ''probe_profile_update'') (\<lambda>v.
     if \<not> truthy v then areturn ()
     else
       abind (on_world (aget (\<lambda>w. settings (db w)))) (\<lambda>cfg.
       abind (amodify (w_settings_update (\<lambda>_. cfg))) (\<lambda>_.
       abind (assign ''probe_profile_update'' (VBool False)) (\<lambda>_. store_control))))"

text \<open>The declarative guards; a fired one leaves its control in the object.\<close>

definition guard_phase :: "service \<Rightarrow> string \<Rightarrow> pyval \<Rightarrow> bool work_action" where
  "guard_phase sv phase ptemp =
     abind (aget id) (\<lambda>s.
     abind (on_world (evaluate_phase (sv_ids sv) (w_name s) (w_settings s) (w_control s) phase ptemp)) (\<lambda>(fired, c).
     abind (amodify (w_control_update (\<lambda>_. c))) (\<lambda>_. areturn fired)))"

definition is_number :: "pyval \<Rightarrow> bool" where
  "is_number v = (case v of VInt _ \<Rightarrow> True | VFloat _ \<Rightarrow> True | VBool _ \<Rightarrow> True | _ \<Rightarrow> False)"

definition keep_valid :: "pyval \<Rightarrow> unit work_action" where
  "keep_valid ptemp = (if is_number ptemp then amodify (\<lambda>s. s\<lparr>w_valid_ptemp := ptemp\<rparr>) else areturn ())"

definition checkpoint_display :: "rat \<Rightarrow> unit work_action" where
  "checkpoint_display now =
     abind (aget id) (\<lambda>s.
     if now - w_display_toggle s \<le> 1 / 2 then areturn ()
     else
       abind (member_of ''timer'') (\<lambda>tv. abind (alift (parse_timer tv)) (\<lambda>t.
       abind (alift (the_stamp (last_clock_stamp (w_world s)))) (\<lambda>stamp.
       abind (assign ''timer'' (timer_value (checkpoint_timer t stamp))) (\<lambda>_.
       abind store_control (\<lambda>_. amodify (\<lambda>s. s\<lparr>w_display_toggle := now\<rparr>)))))))"

text \<open>After the senses: health, manual overrides, guards, the mode's own work, publication.\<close>

definition publish_tick :: "service \<Rightarrow> rat \<Rightarrow> unit work_action" where
  "publish_tick sv now =
     abind (aget w_control) (\<lambda>c.
     abind (on_world (sv_notify sv c)) (\<lambda>c'.
     abind (amodify (w_control_update (\<lambda>_. c'))) (\<lambda>_.
     abind (aget w_name) (\<lambda>name.
     abind (publish_cycle sv name) (\<lambda>_. checkpoint_display now)))))"

definition act :: "service \<Rightarrow> rat \<Rightarrow> pyval \<Rightarrow> outputs \<Rightarrow> bool work_action" where
  "act sv now ptemp outs =
     abind (aget w_name) (\<lambda>name.
     abind (check_mode_safety name ptemp) (\<lambda>_.
     abind (mode_tick name now ptemp outs) (\<lambda>_.
     abind (account_output now) (\<lambda>_.
     abind (publish_tick sv now) (\<lambda>_.
     abind (should_exit name now ptemp) (\<lambda>leave.
     if leave then areturn True else handle_recipe_end))))))"

definition judge :: "service \<Rightarrow> rat \<Rightarrow> bool \<Rightarrow> pyval \<Rightarrow> outputs \<Rightarrow> bool work_action" where
  "judge sv now fault ptemp outs =
     (if fault then abind (request_error sv) (\<lambda>_. areturn True)
      else
        abind (keep_valid ptemp) (\<lambda>_.
        abind (apply_manual_overrides now outs) (\<lambda>_.
        abind (guard_phase sv ''pre_act'' ptemp) (\<lambda>fired.
        if fired then areturn True else act sv now ptemp outs))))"

definition sense :: "service \<Rightarrow> tick \<Rightarrow> bool work_action" where
  "sense sv t =
     abind (admit_clock sv (ti_sense t) (ti_again t)) (\<lambda>before.
     case before of
       None \<Rightarrow> areturn True
     | Some _ \<Rightarrow>
         abind (aget w_out) (\<lambda>outs.
         abind (admit_clock sv (ti_sensed t) (ti_again t)) (\<lambda>after.
         case after of
           None \<Rightarrow> areturn True
         | Some stamp \<Rightarrow>
             abind (account_auger (observed_monotonic_s stamp) (out_auger outs)) (\<lambda>_.
               judge sv (observed_monotonic_s stamp) (ti_fault t) (ti_ptemp t) outs))))"

definition read_commands :: "service \<Rightarrow> tick \<Rightarrow> clock_stamp \<Rightarrow> unit work_action" where
  "read_commands sv t stamp =
     abind (drain_writes sv stamp) (\<lambda>_.
     abind (aget (\<lambda>s. dget_none (w_control s) ''cook_id'')) (\<lambda>previous.
     abind load_stored (\<lambda>_.
     abind (refresh_identity sv previous VNone) (\<lambda>_.
     abind (if ti_clear t then clear_history sv (observed_monotonic_s stamp) (ti_wall_s t) else areturn ()) (\<lambda>_.
       load_stored)))))"

definition cycle_tick :: "service \<Rightarrow> tick \<Rightarrow> bool work_action" where
  "cycle_tick sv t =
     abind (admit_clock sv (ti_stamp t) (ti_again t)) (\<lambda>admitted.
     case admitted of
       None \<Rightarrow> areturn True
     | Some stamp \<Rightarrow>
         abind (read_commands sv t stamp) (\<lambda>_.
         abind (member_of ''updated'') (\<lambda>u.
         if truthy u then areturn True
         else
           abind (process_flags sv (ti_switch t)) (\<lambda>leave.
           if leave then areturn True else abind take_profiles (\<lambda>_. sense sv t)))))"

fun work_loop :: "service \<Rightarrow> tick list \<Rightarrow> unit work_action" where
  "work_loop sv [] = araise (RuntimeError ''interrupted'')"
| "work_loop sv (t # ts) = abind (cycle_tick sv t) (\<lambda>leave. if leave then areturn () else work_loop sv ts)"

section \<open>The cycle\<close>

text \<open>What is read before the loop: the captures in order, the two temperatures with their verdicts, the switch.\<close>

record entry =
  op_stamp :: "nat \<Rightarrow> clock_stamp result"
  op_again :: clock_stamp
  op_preflight :: pyval
  op_preflight_fault :: bool
  op_initial :: pyval
  op_initial_fault :: bool
  op_switch :: bool
  op_retained :: pyval
  op_wall_s :: rat

definition when_admitted :: "service \<Rightarrow> entry \<Rightarrow> nat \<Rightarrow> (clock_stamp \<Rightarrow> unit work_action) \<Rightarrow> unit work_action" where
  "when_admitted sv op i k =
     abind (admit_clock sv (op_stamp op i) (op_again op)) (\<lambda>admitted.
       case admitted of None \<Rightarrow> areturn () | Some stamp \<Rightarrow> k stamp)"

definition start_timers :: "rat \<Rightarrow> unit work_action" where
  "start_timers start =
     amodify (\<lambda>s. s\<lparr>w_auger_toggle := start, w_display_toggle := start, w_fan_toggle := start,
        w_override := [(''igniter'', 0), (''auger'', 0), (''fan'', 0), (''power'', 0), (''pwm'', 0)]\<rparr>)"

text \<open>From the first reading on: may the loop run?\<close>

definition setup_status :: "service \<Rightarrow> entry \<Rightarrow> bool work_action" where
  "setup_status sv op =
     abind (aget w_name) (\<lambda>name.
     abind (if op_initial_fault op then abind (request_error sv) (\<lambda>_. areturn False)
            else
              abind (keep_valid (op_initial op)) (\<lambda>_.
              abind (setup_safety name (op_initial op) (op_wall_s op)) (\<lambda>_. areturn True))) (\<lambda>active.
     abind (num_setting [''startup'', ''duration'']) (\<lambda>d.
     abind (amodify (\<lambda>s. s\<lparr>w_startup_timer := d\<rparr>)) (\<lambda>_.
     if \<not> active then areturn False
     else abind (guard_phase sv ''pre_loop'' (op_initial op)) (\<lambda>fired. areturn (\<not> fired))))))"

definition open_mode :: "service \<Rightarrow> entry \<Rightarrow> tick list \<Rightarrow> rat \<Rightarrow> unit work_action" where
  "open_mode sv op ticks start =
     abind (abind (aget w_name) mode_setup) (\<lambda>_.
     when_admitted sv op 4 (\<lambda>after.
       abind (account_output (observed_monotonic_s after)) (\<lambda>_.
       abind (stamp_metric sv) (\<lambda>_.
       when_admitted sv op 5 (\<lambda>_. when_admitted sv op 6 (\<lambda>_.
         abind (setup_status sv op) (\<lambda>active.
         abind (start_timers start) (\<lambda>_.
           if active then work_loop sv ticks else areturn ()))))))))"

definition begin_mode :: "service \<Rightarrow> entry \<Rightarrow> tick list \<Rightarrow> clock_stamp \<Rightarrow> unit work_action" where
  "begin_mode sv op ticks stamp =
     abind (amodify (\<lambda>s. s\<lparr>w_start_time := observed_monotonic_s stamp, w_start_wall := observed_wall_s stamp,
        w_setup_started := True\<rparr>)) (\<lambda>_. open_mode sv op ticks (observed_monotonic_s stamp))"

definition preflight :: "service \<Rightarrow> entry \<Rightarrow> tick list \<Rightarrow> unit work_action" where
  "preflight sv op ticks =
     when_admitted sv op 1 (\<lambda>_. when_admitted sv op 2 (\<lambda>_.
       abind (amodify (\<lambda>s. s\<lparr>w_valid_ptemp := (if is_number (op_preflight op) then op_preflight op else VNone)\<rparr>)) (\<lambda>_.
       if op_preflight_fault op then abind (request_error sv) (\<lambda>_. fan_and_power_off)
       else when_admitted sv op 3 (begin_mode sv op ticks))))"

definition run_cycle :: "service \<Rightarrow> entry \<Rightarrow> tick list \<Rightarrow> unit work_action" where
  "run_cycle sv op ticks =
     abind (on_world (aget (\<lambda>w. settings (db w)))) (\<lambda>cfg.
     abind (amodify (w_settings_update (\<lambda>_. cfg))) (\<lambda>_.
     abind load_stored (\<lambda>_.
     abind (assign ''hopper_check'' (VBool True)) (\<lambda>_. abind store_control (\<lambda>_.
     when_admitted sv op 0 (\<lambda>_.
       abind (setup_recipe_triggers sv) (\<lambda>_.
       abind (amodify (\<lambda>s. s\<lparr>w_switch := op_switch op\<rparr>)) (\<lambda>_.
       abind proto_igniter_off (\<lambda>_. abind proto_auger_off (\<lambda>_.
       abind (aget (\<lambda>s. dget_none (w_control s) ''cook_id'')) (\<lambda>previous.
       abind (refresh_identity sv previous (op_retained op)) (\<lambda>_. preflight sv op ticks))))))))))))"

text \<open>\<open>try: ... finally: ...\<close>.\<close>

definition and_finally :: "unit work_action \<Rightarrow> unit work_action \<Rightarrow> unit work_action" where
  "and_finally m f s =
     (case m s of (t, r) \<Rightarrow> (case f t of (u, Inl e) \<Rightarrow> (u, Inl e) | (u, Inr _) \<Rightarrow> (u, r)))"

definition close_delivery :: "service \<Rightarrow> clock_stamp result \<Rightarrow> clock_stamp \<Rightarrow> unit work_action" where
  "close_delivery sv captured again =
     abind (aget w_terminal) (\<lambda>terminal.
     abind (if terminal \<noteq> None then areturn ()
            else
              abind (admit_clock sv captured again) (\<lambda>admitted.
              case admitted of None \<Rightarrow> areturn ()
              | Some stamp \<Rightarrow> amodify (\<lambda>s. s\<lparr>w_terminal := Some (observed_monotonic_s stamp)\<rparr>))) (\<lambda>_.
     abind (aget w_terminal) (\<lambda>cutoff. case cutoff of None \<Rightarrow> areturn () | Some t \<Rightarrow> account_output t)))"

definition quiet_outputs :: "bool \<Rightarrow> unit work_action" where
  "quiet_outputs failed =
     abind (aget w_setup_started) (\<lambda>started.
     if \<not> started then areturn ()
     else abind proto_auger_off (\<lambda>_. abind proto_igniter_off (\<lambda>_. if failed then fan_and_power_off else areturn ())))"

definition settle_timer :: "bool \<Rightarrow> unit work_action" where
  "settle_timer failed =
     abind (on_world (\<lambda>w. (w, read_control (db w)))) (\<lambda>c.
     abind (if failed then areturn True
            else abind (alift (dindex c ''mode'')) (\<lambda>m. areturn (member m [M_STOP, M_ERROR]))) (\<lambda>ending.
     if \<not> ending then areturn ()
     else
       abind (alift (ebind (dindex c ''timer'') parse_timer)) (\<lambda>t.
       abind (aget id) (\<lambda>s.
       abind (if tstate t \<noteq> Running then amodify (w_control_update (\<lambda>_. c))
              else
                let t' = (case last_clock_stamp (w_world s) of
                    None \<Rightarrow> fst (restore_timer (timer_value t))
                  | Some now \<Rightarrow> pause_timer t now (failed \<or> w_discontinuous s)) in
                abind (alift (ebind (ebind (dindex c ''notify_data'') as_list) disarm_items)) (\<lambda>items.
                abind (amodify (w_control_update (\<lambda>_. dput ''notify_data'' (VList items) (dput ''timer'' (timer_value t') c)))) (\<lambda>_.
                  store_control))) (\<lambda>_. areturn ())))))"

definition close_metrics :: "unit work_action" where
  "close_metrics =
     abind (amodify (\<lambda>s. s\<lparr>w_finished := True\<rparr>)) (\<lambda>_.
     abind (aget id) (\<lambda>s.
     abind (case (w_metrics_stamped s, w_terminal s, w_metric_start s) of
        (True, Some cutoff, Some start) \<Rightarrow>
          let elapsed = max 0 (cutoff - start) in
          abind (put_metric ''elapsed_seconds'' (VFloat (Fin elapsed))) (\<lambda>_.
          abind (put_metric ''delivery_complete'' (VBool (\<not> w_discontinuous s))) (\<lambda>_.
          abind (alift (ebind (dindex (w_metrics s) ''augerontime'') number)) (\<lambda>fed.
          abind (num_setting [''globals'', ''augerrate'']) (\<lambda>rate.
          amodify (\<lambda>s. s\<lparr>w_usage := w_usage s + fed * rate,
             w_cook_elapsed := (case w_cook_elapsed s of None \<Rightarrow> None | Some e \<Rightarrow> Some (e + elapsed))\<rparr>)))))
      | _ \<Rightarrow> areturn ()) (\<lambda>_.
     if w_discontinuous s then on_world (amodify (last_clock_stamp_update (\<lambda>_. None))) else areturn ())))"

definition finish_cycle :: "service \<Rightarrow> clock_stamp result \<Rightarrow> clock_stamp \<Rightarrow> bool \<Rightarrow> unit work_action" where
  "finish_cycle sv captured again failed =
     abind (aget w_finished) (\<lambda>done_already.
     if done_already then areturn ()
     else
       abind (and_finally (close_delivery sv captured again) (quiet_outputs failed)) (\<lambda>_.
         and_finally
           (abind (settle_timer failed) (\<lambda>_.
            abind (aget id) (\<lambda>s. if w_setup_started s then teardown (w_name s) (w_valid_ptemp s) else areturn ())))
           close_metrics))"

text \<open>\<open>run()\<close>: the cycle is finished whether it returned or raised.\<close>

definition run_work :: "service \<Rightarrow> entry \<Rightarrow> tick list \<Rightarrow> clock_stamp result \<Rightarrow> unit work_action" where
  "run_work sv op ticks captured s =
     (case run_cycle sv op ticks s of
        (t, r) \<Rightarrow> (case finish_cycle sv captured (op_again op) (case r of Inl _ \<Rightarrow> True | Inr _ \<Rightarrow> False) t of
            (u, Inl e) \<Rightarrow> (u, Inl e) | (u, Inr _) \<Rightarrow> (u, r)))"

section \<open>What the parts leave alone\<close>

lemma preserves_pyval [preserves_intros]:
  assumes "preserves g a" "\<And>x. preserves g (b x)" "\<And>x. preserves g (c x)" "\<And>x. preserves g (d x)" "\<And>x. preserves g (e x)"
    "\<And>x. preserves g (f x)" "\<And>x. preserves g (h x)"
  shows "preserves g (case v of VNone \<Rightarrow> a | VBool x \<Rightarrow> b x | VInt x \<Rightarrow> c x | VFloat x \<Rightarrow> d x | VStr x \<Rightarrow> e x | VList x \<Rightarrow> f x
    | VDict x \<Rightarrow> h x)"
  using assms by (cases v) simp_all

lemma preserves_sum [preserves_intros]:
  "(\<And>x. preserves g (m x)) \<Longrightarrow> (\<And>y. preserves g (n y)) \<Longrightarrow> preserves g (case v of Inl x \<Rightarrow> m x | Inr y \<Rightarrow> n y)"
  by (cases v) simp_all

lemma preserves_bool [preserves_intros]: "preserves g m \<Longrightarrow> preserves g n \<Longrightarrow> preserves g (case b of True \<Rightarrow> m | False \<Rightarrow> n)"
  by (cases b) simp_all

lemma preserves_on_world [preserves_intros]: "(\<And>s w. g (s\<lparr>w_world := w\<rparr>) = g s) \<Longrightarrow> preserves g (on_world m)"
  by (simp add: preserves_def on_world_def split: prod.split)

text \<open>A view of the object that looks only at how far the cycle has come.\<close>

definition stage_view :: "work \<Rightarrow> bool \<times> bool \<times> string" where
  "stage_view s = (w_finished s, w_setup_started s, w_name s)"

lemma stage_simps [simp]:
  "stage_view (s\<lparr>w_world := a1\<rparr>) = stage_view s" "stage_view (s\<lparr>w_control := a2\<rparr>) = stage_view s"
  "stage_view (s\<lparr>w_settings := a3\<rparr>) = stage_view s" "stage_view (s\<lparr>w_log := a4, w_out := a5\<rparr>) = stage_view s"
  "stage_view (s\<lparr>w_metrics := a6\<rparr>) = stage_view s" "stage_view (s\<lparr>w_override := a7\<rparr>) = stage_view s"
  "stage_view (s\<lparr>w_auger_toggle := a8\<rparr>) = stage_view s" "stage_view (s\<lparr>w_startup_timer := a9\<rparr>) = stage_view s"
  "stage_view (s\<lparr>w_fan_toggle := a10\<rparr>) = stage_view s" "stage_view (s\<lparr>w_ramping := a11\<rparr>) = stage_view s"
  by (simp_all add: stage_view_def)

lemma stage_calls [preserves_intros]:
  "preserves stage_view (command n f)" "preserves stage_view (setting p)" "preserves stage_view (num_setting p)"
  "preserves stage_view (member_of k)" "preserves stage_view (assign k v)" "preserves stage_view (assign_in k j v)"
  "preserves stage_view store_control" "preserves stage_view load_stored" "preserves stage_view (drain_writes sv stamp)"
  "preserves stage_view (put_metric k v)" "preserves stage_view (request_error sv)" "preserves stage_view (account_auger now b)"
  "preserves stage_view (account_output now)"
  unfolding command_def num_setting_def setting_def assign_in_def member_of_def assign_def store_control_def load_stored_def
    drain_writes_def put_metric_def request_error_def account_output_def account_auger_def
  by (intro preserves_intros; simp add: stage_view_def)+

lemma stage_clock [preserves_intros]:
  "preserves stage_view all_off" "preserves stage_view (retire_clock sv c a)" "preserves stage_view (admit_clock sv cap a)"
  unfolding admit_clock_def retire_clock_def all_off_def proto_auger_off_def proto_igniter_off_def proto_fan_off_def proto_power_off_def Let_def
  by (intro preserves_intros; simp add: stage_view_def)+

lemmas command_defs = proto_auger_on_def proto_auger_off_def proto_igniter_on_def proto_igniter_off_def proto_fan_on_def proto_fan_off_def proto_power_on_def proto_power_off_def
  proto_set_duty_cycle_def proto_pwm_fan_ramp_def

lemma stage_outputs [preserves_intros]:
  "preserves stage_view dc_fan" "preserves stage_view (run_fan d)" "preserves stage_view (override_of k)"
  "preserves stage_view (set_override k t)" "preserves stage_view (toggle_auger now outs)" "preserves stage_view (control_number k)"
  "preserves stage_view ramp_settings" "preserves stage_view fan_and_power_off"
  unfolding dc_fan_def run_fan_def override_of_def set_override_def toggle_auger_def control_number_def ramp_settings_def
    fan_and_power_off_def command_defs
  by (intro preserves_intros; simp add: stage_view_def)+

lemma stage_acts [preserves_intros]:
  "preserves stage_view (auger_cycle_tick now outs)" "preserves stage_view (smoke_plus_cycle now t outs)"
  "preserves stage_view (manual_speed ch u outs)" "preserves stage_view (switch a b (command n1 f1) (command n2 f2))"
  unfolding auger_cycle_tick_def smoke_plus_cycle_def manual_speed_def switch_def command_defs
  by (intro preserves_intros; simp add: stage_view_def)+

lemma stage_acts_more [preserves_intros]:
  "preserves stage_view (smoke_plus_fan_tick now t outs)" "preserves stage_view (manual_output ch now u outs)"
  unfolding smoke_plus_fan_tick_def manual_output_def Let_def command_defs
  by (intro preserves_intros; simp add: stage_view_def)+

lemma stage_manual [preserves_intros]: "preserves stage_view (apply_manual_overrides now outs)"
  unfolding apply_manual_overrides_def
  by (intro preserves_intros; simp add: stage_view_def)

lemma stage_hooks [preserves_intros]:
  "preserves stage_view (apply_cycle c)" "preserves stage_view smoke_times" "preserves stage_view init_smoke_cycle"
  "preserves stage_view profile_list" "preserves stage_view (apply_profile v)" "preserves stage_view smart_start"
  "preserves stage_view selected_profile" "preserves stage_view (stage_smart_start i)"
  unfolding stage_smart_start_def selected_profile_def smart_start_def apply_profile_def profile_list_def init_smoke_cycle_def
    smoke_times_def apply_cycle_def
  by (intro preserves_intros; simp add: stage_view_def)+

lemma stage_setup [preserves_intros]: "preserves stage_view (mode_setup n)" "preserves stage_view (stage_cycle_metrics n)"
  unfolding mode_setup_def stage_cycle_metrics_def setup_startup_def setup_smoke_def setup_prime_def setup_shutdown_def command_defs
  by (intro preserves_intros; simp add: stage_view_def)+

lemma stage_safety [preserves_intros]: "preserves stage_view (setup_safety n t w)" "preserves stage_view (settings_reloaded n)"
  unfolding setup_safety_def safety_startup_def safety_smoke_def settings_reloaded_def reload_smoke_cycle_def Let_def
  by (intro preserves_intros; simp add: stage_view_def)+

lemma stage_mode [preserves_intros]:
  "preserves stage_view (mode_tick n now t outs)" "preserves stage_view (check_mode_safety n t)"
  "preserves stage_view (should_exit n now t)" "preserves stage_view (publish_cycle sv n)" "preserves stage_view (teardown n t)"
  unfolding mode_tick_def check_mode_safety_def should_exit_def exit_startup_def publish_cycle_def teardown_def Let_def
  by (intro preserves_intros; simp add: stage_view_def)+

lemma stage_identity [preserves_intros]:
  "preserves stage_view (refresh_identity sv a b)" "preserves stage_view (stamp_metric sv)" "preserves stage_view (clear_history sv now w)"
  unfolding clear_history_def stamp_metric_def refresh_identity_def adopt_identity_def
  by (intro preserves_intros; simp add: stage_view_def)+

lemma stage_recipe [preserves_intros]:
  "preserves stage_view (setup_recipe_triggers sv)" "preserves stage_view (update_step k v)" "preserves stage_view (announce_step d)"
  "preserves stage_view (pause_running b)" "preserves stage_view handle_recipe_end"
  unfolding handle_recipe_end_def pause_running_def announce_step_def update_step_def setup_recipe_triggers_def
  by (intro preserves_intros; simp add: stage_view_def)+

lemma stage_flags [preserves_intros]:
  "preserves stage_view take_settings" "preserves stage_view (drop_flag k)" "preserves stage_view (watch_switch sv b)"
  "preserves stage_view (process_flags sv b)" "preserves stage_view take_profiles" "preserves stage_view (guard_phase sv p t)"
  "preserves stage_view (keep_valid t)" "preserves stage_view (checkpoint_display now)"
  unfolding process_flags_def take_settings_def drop_flag_def watch_switch_def take_profiles_def guard_phase_def keep_valid_def
    checkpoint_display_def
  by (intro preserves_intros; simp add: stage_view_def)+

lemma stage_tick [preserves_intros]: "preserves stage_view (cycle_tick sv t)"
  unfolding cycle_tick_def read_commands_def sense_def judge_def act_def publish_tick_def
  by (intro preserves_intros; simp add: stage_view_def)

lemma stage_loop [preserves_intros]: "preserves stage_view (work_loop sv ts)"
  by (induction ts) (simp_all only: work_loop.simps, (intro preserves_intros; simp)+)

lemma stage_opening [preserves_intros]:
  "preserves stage_view (setup_status sv op)" "preserves stage_view (start_timers t)"
  "(\<And>x. preserves stage_view (k x)) \<Longrightarrow> preserves stage_view (when_admitted sv op i k)"
  unfolding when_admitted_def setup_status_def start_timers_def
  by (intro preserves_intros; simp add: stage_view_def)+

text \<open>Until the mode is set up nothing is switched on; from then on it counts as set up.\<close>

definition not_lit :: "outputs \<Rightarrow> work \<Rightarrow> bool" where
  "not_lit before s \<longleftrightarrow> \<not> w_finished s
     \<and> (w_setup_started s \<or> (out_auger (w_out s) \<longrightarrow> out_auger before) \<and> (out_igniter (w_out s) \<longrightarrow> out_igniter before))"

lemma not_lit_preserves: "preserves stage_view m \<Longrightarrow> preserves w_out m \<Longrightarrow> keeps (not_lit b) m"
  by (auto simp: keeps_def preserves_def not_lit_def stage_view_def)

lemma not_lit_off [intro]:
  "keeps (not_lit b) proto_auger_off" "keeps (not_lit b) proto_igniter_off" "keeps (not_lit b) proto_fan_off" "keeps (not_lit b) proto_power_off"
  by (auto simp: keeps_def not_lit_def command_defs command_def)

lemma out_calls [preserves_intros]:
  "preserves w_out (setting p)" "preserves w_out (num_setting p)" "preserves w_out (member_of k)" "preserves w_out (assign k v)"
  "preserves w_out (assign_in k j v)" "preserves w_out store_control" "preserves w_out load_stored"
  "preserves w_out (put_metric k v)" "preserves w_out (drain_writes sv stamp)" "preserves w_out (request_error sv)"
  unfolding num_setting_def setting_def assign_in_def member_of_def assign_def store_control_def load_stored_def put_metric_def
    drain_writes_def request_error_def
  by (intro preserves_intros; simp)+

lemma out_preamble [preserves_intros]:
  "preserves w_out (refresh_identity sv a c)" "preserves w_out (setup_recipe_triggers sv)"
  unfolding refresh_identity_def adopt_identity_def setup_recipe_triggers_def by (intro preserves_intros; simp)+

lemma keeps_sum: "(\<And>x. keeps P (m x)) \<Longrightarrow> (\<And>y. keeps P (n y)) \<Longrightarrow> keeps P (case v of Inl x \<Rightarrow> m x | Inr y \<Rightarrow> n y)"
  by (cases v) simp_all

lemma not_lit_admit: "keeps (not_lit b) (admit_clock sv cap again)"
proof -
  have "keeps (not_lit b) (retire_clock sv c again)" for c
    unfolding retire_clock_def all_off_def
    by (intro keeps_bind keeps_if keeps_basic not_lit_off not_lit_preserves preserves_intros; simp add: stage_view_def)
  then show ?thesis
    unfolding admit_clock_def Let_def
    by (intro keeps_bind keeps_if keeps_basic keeps_option keeps_sum keeps_modify) (auto simp: not_lit_def)
qed

lemma not_lit_when_admitted: "(\<And>x. keeps (not_lit b) (k x)) \<Longrightarrow> keeps (not_lit b) (when_admitted sv op i k)"
  unfolding when_admitted_def by (intro keeps_bind keeps_option keeps_basic not_lit_admit)

lemma stage_open: "preserves stage_view (open_mode sv op ticks start)"
  unfolding open_mode_def by (intro preserves_intros; simp add: stage_view_def)

lemma not_lit_begin: "keeps (not_lit b) (begin_mode sv op ticks stamp)"
  using stage_open by (simp add: keeps_def preserves_def not_lit_def stage_view_def begin_mode_def)

lemma not_lit_run: "keeps (not_lit b) (run_cycle sv op ticks)"
  unfolding run_cycle_def preflight_def fan_and_power_off_def
  by (intro keeps_bind keeps_if keeps_basic not_lit_when_admitted not_lit_begin not_lit_off not_lit_preserves preserves_intros;
      simp add: stage_view_def)

section \<open>How a cycle ends\<close>

definition cold :: "bool \<Rightarrow> work \<Rightarrow> bool" where
  "cold failed s \<longleftrightarrow> \<not> out_auger (w_out s) \<and> \<not> out_igniter (w_out s) \<and> (failed \<longrightarrow> \<not> out_fan (w_out s) \<and> \<not> out_power (w_out s))"

lemma quiet_outputs_cold:
  "w_setup_started s \<Longrightarrow> \<exists>t. quiet_outputs failed s = (t, Inr ()) \<and> cold failed t"
  by (auto simp: quiet_outputs_def fan_and_power_off_def command_defs command_def cold_def)

lemma cold_outputs: "preserves w_out m \<Longrightarrow> keeps (cold f) m"
  by (erule keeps_preserves) (simp add: cold_def)

lemma cold_fan_and_power_off: "keeps (cold f) fan_and_power_off"
  by (simp add: keeps_def cold_def fan_and_power_off_def command_defs command_def)

lemma out_closing [preserves_intros]: "preserves w_out (settle_timer f)" "preserves w_out close_metrics"
  unfolding settle_timer_def close_metrics_def Let_def by (intro preserves_intros; simp)+

lemma cold_teardown: "keeps (cold f) (teardown n t)"
  unfolding teardown_def by (intro keeps_if keeps_basic cold_fan_and_power_off cold_outputs preserves_intros)

lemma started_closing: "preserves w_setup_started (close_delivery sv cap again)"
proof -
  have "preserves w_setup_started (account_output t)" for t
    unfolding account_output_def account_auger_def put_metric_def by (intro preserves_intros; simp)
  moreover have "preserves w_setup_started (admit_clock sv cap again)"
    unfolding admit_clock_def retire_clock_def all_off_def command_defs Let_def command_def drain_writes_def load_stored_def
      member_of_def assign_def assign_in_def request_error_def
    by (intro preserves_intros; simp)
  ultimately show ?thesis unfolding close_delivery_def by (intro preserves_intros; simp)
qed

lemma finally_InE:
  assumes "and_finally m f s = (u, r)"
  obtains t r1 r2 where "m s = (t, r1)" "f t = (u, r2)" "r = (case r2 of Inl e \<Rightarrow> Inl e | Inr _ \<Rightarrow> r1)"
  using assms by (auto simp: and_finally_def split: prod.splits sum.splits)

lemma keeps_finally: "keeps P m \<Longrightarrow> keeps P f \<Longrightarrow> keeps P (and_finally m f)"
  by (auto simp: keeps_def and_finally_def split: prod.split sum.split; metis fst_conv)

lemma finish_cold:
  assumes "w_setup_started s" "\<not> w_finished s"
  shows "cold failed (fst (finish_cycle sv cap again failed s))"
proof -
  let ?first = "and_finally (close_delivery sv cap again) (quiet_outputs failed)"
  let ?second = "and_finally (abind (settle_timer failed) (\<lambda>_. abind (aget id) (\<lambda>s.
      if w_setup_started s then teardown (w_name s) (w_valid_ptemp s) else areturn ()))) close_metrics"
  obtain t r where close: "close_delivery sv cap again s = (t, r)" by force
  have "w_setup_started t" using preservesD [OF started_closing close] assms(1) by simp
  from quiet_outputs_cold [OF this] obtain u where quiet: "quiet_outputs failed t = (u, Inr ())" "cold failed u" by blast
  have first: "?first s = (u, r)" using close quiet by (simp add: and_finally_def)
  have "keeps (cold failed) ?second"
    by (intro keeps_finally keeps_bind keeps_if keeps_basic cold_teardown cold_outputs preserves_intros)
  with quiet(2) have "cold failed (fst (?second u))" by (simp add: keeps_def)
  with first quiet(2) assms(2) show ?thesis by (cases r) (simp_all add: finish_cycle_def abind_def)
qed

text \<open>A cycle that never got as far as its set-up.\<close>

definition unlit :: "outputs \<Rightarrow> work \<Rightarrow> bool" where
  "unlit b s \<longleftrightarrow> \<not> w_setup_started s \<and> (out_auger (w_out s) \<longrightarrow> out_auger b) \<and> (out_igniter (w_out s) \<longrightarrow> out_igniter b)"

lemma unlit_preserves: "preserves w_setup_started m \<Longrightarrow> preserves w_out m \<Longrightarrow> keeps (unlit b) m"
  by (auto simp: keeps_def preserves_def unlit_def)

lemma started_stage: "preserves stage_view m \<Longrightarrow> preserves w_setup_started m"
  by (simp add: preserves_def stage_view_def)

lemma unlit_off: "keeps (unlit b) proto_auger_off" "keeps (unlit b) proto_igniter_off" "keeps (unlit b) proto_fan_off" "keeps (unlit b) proto_power_off"
  by (auto simp: keeps_def unlit_def command_defs command_def)

lemma unlit_admit: "keeps (unlit b) (admit_clock sv cap again)"
proof -
  have "keeps (unlit b) (retire_clock sv c again)" for c
    unfolding retire_clock_def all_off_def
    by (intro keeps_bind keeps_if keeps_basic unlit_off unlit_preserves started_stage preserves_intros; simp add: stage_view_def)
  then show ?thesis
    unfolding admit_clock_def Let_def
    by (intro keeps_bind keeps_if keeps_basic keeps_option keeps_sum keeps_modify) (auto simp: unlit_def)
qed

lemma out_account [preserves_intros]: "preserves w_out (account_auger now on)" "preserves w_out (account_output now)"
  unfolding account_output_def account_auger_def by (intro preserves_intros; simp)+

lemma unlit_finish: "keeps (unlit b) (finish_cycle sv cap again failed)"
proof -
  have close: "keeps (unlit b) (close_delivery sv cap again)"
    unfolding close_delivery_def
    by (intro keeps_bind keeps_if keeps_basic keeps_option keeps_modify unlit_admit unlit_preserves started_stage preserves_intros)
      (simp_all add: unlit_def)
  have quiet: "keeps (unlit b) (quiet_outputs failed)"
    by (simp add: keeps_def quiet_outputs_def unlit_def)
  have "preserves w_setup_started (settle_timer failed)" "preserves w_setup_started close_metrics"
    unfolding settle_timer_def close_metrics_def Let_def num_setting_def setting_def put_metric_def store_control_def
    by (intro preserves_intros; simp)+
  then have parts: "keeps (unlit b) (settle_timer failed)" "keeps (unlit b) close_metrics"
    by (simp_all add: unlit_preserves out_closing)
  have "keeps (unlit b) (abind (aget id) (\<lambda>s. if w_setup_started s then teardown (w_name s) (w_valid_ptemp s) else areturn ()))"
    by (simp add: keeps_def unlit_def)
  from keeps_finally [OF keeps_bind [OF parts(1) this] parts(2)] show ?thesis
    unfolding finish_cycle_def by (intro keeps_bind [of _ "aget _"] keeps_if keeps_basic keeps_bind [OF keeps_finally [OF close quiet]])
qed

definition raised :: "'a result \<Rightarrow> bool" where
  "raised r = (case r of Inl _ \<Rightarrow> True | Inr _ \<Rightarrow> False)"

lemma run_work_split:
  assumes "run_cycle sv op ticks s = (t, r)"
  shows "fst (run_work sv op ticks cap s) = fst (finish_cycle sv cap (op_again op) (raised r) t)"
  using assms by (simp add: run_work_def raised_def split: prod.split sum.split)

definition demo_service :: service where
  "demo_service = \<lparr>sv_ids = demo_ids, sv_fresh = demo_uuid, sv_timer_id = demo_uuid, sv_metric = [],
     sv_notify = (\<lambda>c w. (w, Inr c)), sv_publish = (\<lambda>_ w. (w, Inr ()))\<rparr>"

definition demo_entry :: entry where
  "demo_entry = \<lparr>op_stamp = (\<lambda>_. Inr (demo_stamp 0)), op_again = demo_stamp 0, op_preflight = VInt 70, op_preflight_fault = False,
     op_initial = VInt 70, op_initial_fault = False, op_switch = True, op_retained = VNone, op_wall_s = 1000\<rparr>"

text \<open>A grill whose settings have no \<open>cycle_data\<close>: \<open>Startup\<close> lights it and then raises.\<close>

definition demo_burn_control :: pydict where
  "demo_burn_control = [(''mode'', VStr M_STARTUP), (''cook_id'', VStr demo_uuid), (''updated'', VBool False),
     (''manual'', VDict [(''change'', VBool False), (''output'', VBool False)]),
     (''timer'', timer_value default_timer), (''notify_data'', VList [])]"

definition demo_burn_settings :: pyval where
  "demo_burn_settings = VDict [(''platform'', VDict [(''dc_fan'', VBool False), (''standalone'', VBool True)]),
     (''safety'', VDict [(''allow_manual_changes'', VBool False), (''maxtemp'', VInt 550)]),
     (''startup'', VDict [(''duration'', VInt 240)])]"

definition demo_burn :: "outputs \<Rightarrow> work" where
  "demo_burn outs = \<lparr>w_name = M_STARTUP, w_world = demo_world\<lparr>db := (demo_db [])\<lparr>settings := demo_burn_settings,
       general := Some demo_burn_control\<rparr>\<rparr>, w_control = demo_burn_control, w_settings = demo_burn_settings, w_out = outs, w_log = [],
     w_last_stamp = None, w_terminal = None, w_discontinuous = False, w_setup_started = False, w_metrics_stamped = False,
     w_finished = False, w_valid_ptemp = VNone, w_observed_at = Some 100, w_observed_on = out_auger outs, w_ratio = 1 / 4,
     w_on_time = 15, w_off_time = 45, w_cycle_time = 60, w_lid_open = False, w_target_achieved = False, w_ramping = False,
     w_fan_toggle = 0, w_startup_timer = 0, w_raw_temp = VNone, w_prime_duration = 0, w_prime_amount = VNone, w_start_time = 0,
     w_auger_toggle = 100, w_display_toggle = 0, w_override = [(''auger'', 0)], w_metrics = [(''augerontime'', VInt 0)],
     w_metric_start = None, w_start_wall = 0, w_cook_id = None, w_cook_elapsed = None, w_switch = True, w_usage = 0\<rparr>"

definition demo_outputs :: "bool \<Rightarrow> outputs" where
  "demo_outputs auger = \<lparr>out_auger = auger, out_igniter = False, out_fan = False, out_power = False, out_pwm = 0\<rparr>"

lemma demo_run:
  "case run_cycle demo_service demo_entry [] (demo_burn (demo_outputs False)) of (t, r) \<Rightarrow> w_setup_started t \<and> raised r \<and> out_igniter (w_out t)"
  by code_simp

text \<open>C7: However a work cycle ends (it leaves its loop, a guard stops it, the clock jumps, a setting is missing, the
  notification service raises, the process is interrupted between two iterations), and even if closing it raises: once the
  mode was set up, the auger and the igniter are off, and if the cycle raised the fan and the main power are off too;
  and a cycle that was never set up has switched neither on.\<close>

theorem cycle_ends_cold:
  assumes "\<not> w_finished s"
  shows "case run_cycle sv op ticks s of (t, r) \<Rightarrow>
    if w_setup_started t then cold (raised r) (fst (run_work sv op ticks cap s))
    else unlit (w_out s) (fst (run_work sv op ticks cap s))"
proof -
  obtain t r where run: "run_cycle sv op ticks s = (t, r)" by force
  have "not_lit (w_out s) s" using assms by (simp add: not_lit_def)
  then have t: "not_lit (w_out s) t" by (rule keepsD [OF not_lit_run _ run])
  show ?thesis
  proof (cases "w_setup_started t")
    case True
    with t finish_cold [of t] show ?thesis by (simp add: run run_work_split not_lit_def)
  next
    case False
    with t have "unlit (w_out s) t" by (simp add: not_lit_def unlit_def)
    then have "unlit (w_out s) (fst (finish_cycle sv cap (op_again op) (raised r) t))"
      using unlit_finish by (simp add: keeps_def)
    with False show ?thesis by (simp add: run run_work_split)
  qed
qed

theorem cycle_ends_cold_witness:
  "cold True (fst (run_work demo_service demo_entry [] (Inr (demo_stamp 0)) (demo_burn (demo_outputs False))))"
  using cycle_ends_cold [of "demo_burn (demo_outputs False)" demo_service demo_entry "[]" "Inr (demo_stamp 0)"] demo_run
  by (auto simp: demo_burn_def split: prod.splits)

section \<open>An unsafe tick\<close>

lemma log_calls [preserves_intros]:
  "preserves w_log (setting p)" "preserves w_log (num_setting p)" "preserves w_log (member_of k)" "preserves w_log (request_error sv)"
  "preserves w_log (keep_valid t)" "preserves w_log (guard_phase sv ph t)"
  unfolding num_setting_def setting_def member_of_def request_error_def keep_valid_def guard_phase_def
  by (intro preserves_intros; simp)+

text \<open>No manual command is waiting, or none may be taken.\<close>

definition no_manual :: "work \<Rightarrow> bool" where
  "no_manual s \<longleftrightarrow>
     (\<exists>d. dget (w_control s) ''manual'' = Some (VDict d) \<and> dget d ''change'' = Some (VBool False))"

lemma manual_idle:
  assumes "no_manual s" "vpath (w_settings s) [''safety'', ''allow_manual_changes''] = Inr v"
  shows "apply_manual_overrides now outs s = (s, Inr ())"
  using assms
  by (auto simp: no_manual_def apply_manual_overrides_def setting_def member_of_def as_dict_def dindex_def abind_def)

lemma overheated_phase:
  assumes "vpath cfg [''safety'', ''maxtemp''] = Inr (VInt m)" "of_int m < t"
    "dget c ''mode'' = Some (VStr md)"
  shows "evaluate_phase ids name cfg c ''pre_act'' (VFloat (Fin t)) w
    = (tripped (dput ''updated'' (VBool True) (dput ''mode'' (VStr M_ERROR) c)) ''ERROR'' ''Grill_Error_01'' w,
       Inr (True, dput ''updated'' (VBool True) (dput ''mode'' (VStr M_ERROR) c)))"
proof -
  have over: "guard_fires OVER_MAX_TEMP cfg c (VFloat (Fin t)) = Inr True"
    using assms(1,2) by (auto simp: guard_fires_def over_max_temp_def py_less.simps elim!: ebind_InrE)
  have legal: "check_legal (dget_none c ''mode'') (VStr M_ERROR) = Inr ()"
    using stop_is_always_legal [of "VStr md"] assms(3) by (simp add: dget_none_def)
  show ?thesis
    by (simp add: evaluate_phase_def guards_def over request_transition_def forced_transition_def legal tripped_def Let_def)
qed



section \<open>The auger's duty\<close>

text \<open>The auger cycle as it is meant: on or off since a moment, observed last at another, with what was fed until then.\<close>

record phase =
  ph_on :: bool
  ph_toggle :: rat
  ph_seen :: rat
  ph_fed :: rat

definition phase_step :: "rat \<Rightarrow> rat \<Rightarrow> rat \<Rightarrow> phase \<Rightarrow> phase" where
  "phase_step on off t p =
     (let turn = (if ph_on p then on else off) < t - ph_toggle p
      in \<lparr>ph_on = (ph_on p \<noteq> turn), ph_toggle = (if turn then t else ph_toggle p), ph_seen = t,
          ph_fed = ph_fed p + (if ph_on p then t - ph_seen p else 0)\<rparr>)"

text \<open>A mode under its own command: it observes the auger, no override holds, and its row has a number of seconds.\<close>

definition feeding :: "work \<Rightarrow> bool" where
  "feeding s \<longleftrightarrow> w_name s \<noteq> M_HOLD \<and> \<not> w_discontinuous s \<and> w_observed_at s \<noteq> None
     \<and> w_observed_on s = out_auger (w_out s) \<and> map_of (w_override s) ''auger'' = Some 0
     \<and> (\<exists>f. fed_so_far (w_metrics s) = Inr f)"

definition phase_of :: "work \<Rightarrow> phase" where
  "phase_of s = \<lparr>ph_on = out_auger (w_out s), ph_toggle = w_auger_toggle s,
     ph_seen = (case w_observed_at s of None \<Rightarrow> 0 | Some t \<Rightarrow> t),
     ph_fed = (case fed_so_far (w_metrics s) of Inr f \<Rightarrow> f | Inl _ \<Rightarrow> 0)\<rparr>"

lemma fed_put: "fed_so_far (dput ''augerontime'' (VFloat (Fin q)) m) = Inr q"
  by (simp add: fed_so_far_def number_def)

lemma account_feeding:
  assumes "w_name s \<noteq> M_HOLD" "\<not> w_discontinuous s" "w_observed_at s = Some a" "a \<le> t" "fed_so_far (w_metrics s) = Inr f"
  shows "account_auger t b s = (s\<lparr>w_metrics := (if w_observed_on s then dput ''augerontime'' (VFloat (Fin (f + t - a))) (w_metrics s)
    else w_metrics s), w_observed_at := Some t, w_observed_on := b\<rparr>, Inr ())"
  using assms by (auto simp: account_auger_def abind_def put_metric_def)

lemma toggle_auger_eq:
  assumes "outs = w_out s"
  shows "toggle_auger t outs s =
     (if (if out_auger outs then w_cycle_time s * w_ratio s else w_cycle_time s * (1 - w_ratio s)) < t - w_auger_toggle s
      then (s\<lparr>w_log := w_log s @ [if out_auger outs then ''auger_off'' else ''auger_on''],
              w_out := outs\<lparr>out_auger := \<not> out_auger outs\<rparr>, w_auger_toggle := t\<rparr>, Inr ())
      else (s, Inr ()))"
  using assms by (simp add: toggle_auger_def abind_def command_defs command_def)

lemma account_output_feeding:
  assumes "w_name s \<noteq> M_HOLD" "\<not> w_discontinuous s" "w_observed_at s = Some t" "fed_so_far (w_metrics s) = Inr f"
  shows "account_output t s = (s\<lparr>w_metrics := (if w_observed_on s then dput ''augerontime'' (VFloat (Fin f)) (w_metrics s)
    else w_metrics s), w_observed_on := out_auger (w_out s)\<rparr>, Inr ())"
  using account_feeding [OF assms(1-3) order_refl assms(4), of "out_auger (w_out s)"] assms(3)
  by (simp add: account_output_def abind_def)

lemma auger_tick_phase:
  assumes "feeding s" "ph_seen (phase_of s) \<le> t" "0 < t"
  shows "\<exists>s'. auger_cycle_tick t (w_out s) s = (s', Inr ()) \<and> feeding s'
    \<and> phase_of s' = phase_step (w_cycle_time s * w_ratio s) (w_cycle_time s * (1 - w_ratio s)) t (phase_of s)
    \<and> w_cycle_time s' = w_cycle_time s \<and> w_ratio s' = w_ratio s"
proof -
  obtain a f where *: "w_name s \<noteq> M_HOLD" "\<not> w_discontinuous s" "w_observed_at s = Some a" "fed_so_far (w_metrics s) = Inr f"
    "w_observed_on s = out_auger (w_out s)" "map_of (w_override s) ''auger'' = Some 0"
    using assms(1) by (auto simp: feeding_def)
  with assms(2) have a: "a \<le> t" by (simp add: phase_of_def)
  let ?on = "out_auger (w_out s)"
  let ?m = "if ?on then dput ''augerontime'' (VFloat (Fin (f + t - a))) (w_metrics s) else w_metrics s"
  let ?s1 = "s\<lparr>w_metrics := ?m, w_observed_at := Some t, w_observed_on := ?on, w_override := AList.update ''auger'' 0 (w_override s)\<rparr>"
  have fed: "fed_so_far ?m = Inr (f + (if ?on then t - a else 0))" using *(4) by (simp add: fed_put)
  have "auger_cycle_tick t (w_out s) s = abind (toggle_auger t (w_out s)) (\<lambda>_. account_output t) ?s1"
    using account_feeding [OF *(1,2,3) a *(4), of ?on] * assms(3)
    by (simp add: auger_cycle_tick_def abind_def override_of_def set_override_def)
  then show ?thesis
    using * fed by (cases ?on) (auto simp: abind_def toggle_auger_eq account_output_feeding feeding_def phase_of_def phase_step_def fed_put
        update_conv Let_def)
qed

text \<open>The ticks of a mode in a row, each reading the outputs the last one left, at moments no more than \<open>g\<close> apart.\<close>

primrec auger_run :: "rat list \<Rightarrow> unit work_action" where
  "auger_run [] = areturn ()"
| "auger_run (t # ts) = abind (aget w_out) (\<lambda>outs. abind (auger_cycle_tick t outs) (\<lambda>_. auger_run ts))"

primrec paced :: "rat \<Rightarrow> rat \<Rightarrow> rat list \<Rightarrow> bool" where
  "paced g a [] \<longleftrightarrow> True"
| "paced g a (t # ts) \<longleftrightarrow> a \<le> t \<and> t \<le> a + g \<and> paced g t ts"

lemma phase_step_seen [simp]: "ph_seen (phase_step on off t p) = t"
  by (simp add: phase_step_def Let_def)

lemma auger_run_phase:
  assumes "feeding s" "sorted (ph_seen (phase_of s) # ts)" "0 < ph_seen (phase_of s)"
  shows "\<exists>s'. auger_run ts s = (s', Inr ()) \<and> feeding s'
    \<and> phase_of s' = fold (phase_step (w_cycle_time s * w_ratio s) (w_cycle_time s * (1 - w_ratio s))) ts (phase_of s)"
  using assms
proof (induction ts arbitrary: s)
  case (Cons t ts)
  then have "ph_seen (phase_of s) \<le> t" "0 < t" by auto
  with auger_tick_phase [OF Cons.prems(1)] obtain s1 where s1: "auger_cycle_tick t (w_out s) s = (s1, Inr ())" "feeding s1"
    "phase_of s1 = phase_step (w_cycle_time s * w_ratio s) (w_cycle_time s * (1 - w_ratio s)) t (phase_of s)"
    "w_cycle_time s1 = w_cycle_time s" "w_ratio s1 = w_ratio s" by blast
  have "\<exists>s'. auger_run ts s1 = (s', Inr ()) \<and> feeding s'
    \<and> phase_of s' = fold (phase_step (w_cycle_time s1 * w_ratio s1) (w_cycle_time s1 * (1 - w_ratio s1))) ts (phase_of s1)"
    by (rule Cons.IH) (use s1 Cons.prems \<open>0 < t\<close> in auto)
  with s1 show ?case by (simp add: abind_def)
qed simp

text \<open>After \<open>j\<close> whole cycles: what a cycle feeds is bounded while it lasts, and each takes its full time.\<close>

definition rationed :: "rat \<Rightarrow> rat \<Rightarrow> rat \<Rightarrow> rat \<Rightarrow> rat \<Rightarrow> nat \<Rightarrow> phase \<Rightarrow> bool" where
  "rationed on off g t0 f0 j p \<longleftrightarrow> ph_toggle p \<le> ph_seen p \<and>
     (if ph_on p then ph_fed p - (ph_seen p - ph_toggle p) \<le> f0 + (on + g) * of_nat j
        \<and> t0 + of_nat j * (on + off) \<le> ph_toggle p \<and> ph_seen p - ph_toggle p \<le> on
      else ph_fed p \<le> f0 + (on + g) * (of_nat j + 1) \<and> t0 + of_nat j * (on + off) + on \<le> ph_toggle p)"

lemma rationed_step:
  assumes "rationed on off g t0 f0 j p" "ph_seen p \<le> t" "t \<le> ph_seen p + g" "0 \<le> on" "0 \<le> g"
  shows "\<exists>j'. rationed on off g t0 f0 j' (phase_step on off t p)"
proof (cases "ph_on p \<or> t - ph_toggle p \<le> off")
  case True
  with assms have "rationed on off g t0 f0 j (phase_step on off t p)"
    by (auto simp: rationed_def phase_step_def Let_def algebra_simps)
  then show ?thesis ..
next
  case False
  with assms have "rationed on off g t0 f0 (Suc j) (phase_step on off t p)"
    by (auto simp: rationed_def phase_step_def Let_def algebra_simps)
  then show ?thesis ..
qed

lemma rationed_run:
  assumes "rationed on off g t0 f0 j p" "paced g (ph_seen p) ts" "0 \<le> on" "0 \<le> g"
  shows "\<exists>j'. rationed on off g t0 f0 j' (fold (phase_step on off) ts p)"
  using assms
proof (induction ts arbitrary: p j)
  case (Cons t ts)
  from rationed_step [OF Cons.prems(1), of t] Cons.prems obtain k where "rationed on off g t0 f0 k (phase_step on off t p)" by auto
  with Cons.IH [OF this] Cons.prems show ?case by simp
qed auto

lemma seen_run: "ph_seen (fold (phase_step on off) ts p) = last (ph_seen p # ts)"
  by (induction ts arbitrary: p) auto

lemma rationed_bound:
  assumes "rationed on off g t0 f0 j p" "0 \<le> on" "0 \<le> g" "0 < on + off"
  shows "ph_fed p \<le> f0 + (on + g) * ((ph_seen p - t0) / (on + off) + 1)"
proof -
  have "of_nat j * (on + off) \<le> ph_seen p - t0" using assms by (auto simp: rationed_def split: if_splits)
  then have j: "of_nat j \<le> (ph_seen p - t0) / (on + off)" using assms(4) by (simp add: pos_le_divide_eq)
  have "ph_fed p \<le> f0 + (on + g) * (of_nat j + 1)" using assms(1-3) by (auto simp: rationed_def algebra_simps split: if_splits)
  also have "\<dots> \<le> f0 + (on + g) * ((ph_seen p - t0) / (on + off) + 1)"
    using j assms(2,3) by (intro add_left_mono mult_left_mono) auto
  finally show ?thesis .
qed

lemma paced_sorted: "paced g a ts \<Longrightarrow> sorted (a # ts)"
  by (induction ts arbitrary: a) (auto dest: order_trans)

text \<open>C16: The auger cycle of Startup, Reignite, Prime and Smoke refines the cycle it is meant to be: on for
  cycle time times ratio, off for the rest, and what was fed grows by exactly the time between two observations in
  which the auger was on. Nothing else decides it, whatever the moments the ticks come at.\<close>

theorem auger_run_refines_phase:
  assumes "feeding s" "sorted (ph_seen (phase_of s) # ts)" "0 < ph_seen (phase_of s)"
  shows "\<exists>s'. auger_run ts s = (s', Inr ()) \<and> feeding s'
    \<and> phase_of s' = fold (phase_step (w_cycle_time s * w_ratio s) (w_cycle_time s * (1 - w_ratio s))) ts (phase_of s)"
  using assms by (rule auger_run_phase)

lemma demo_feeding: "feeding (demo_burn (demo_outputs True))"
  by (simp add: feeding_def demo_burn_def fed_so_far_def dget_def number_def M_HOLD_def M_STARTUP_def demo_outputs_def)

theorem auger_run_refines_phase_witness:
  "\<exists>s'. auger_run [110, 120, 170] (demo_burn (demo_outputs True)) = (s', Inr ()) \<and> feeding s'
    \<and> phase_of s' = \<lparr>ph_on = True, ph_toggle = 170, ph_seen = 170, ph_fed = 20\<rparr>"
  using auger_run_refines_phase [OF demo_feeding, of "[110, 120, 170]"]
  by (simp add: demo_burn_def phase_of_def phase_step_def fed_so_far_def dget_def number_def demo_outputs_def)

text \<open>C17: A mode cannot overfeed the firepot: from the moment the auger is switched on, what is fed until any later tick
  is at most the duty's share of each cycle that time has begun, and one tick's delay for each, so a slow loop
  feeds too much only by what the loop is late.\<close>

theorem auger_duty_bound:
  assumes "feeding s" "out_auger (w_out s)" "w_observed_at s = Some (w_auger_toggle s)" "0 < w_auger_toggle s"
    and "fed_so_far (w_metrics s) = Inr f0" "paced g (w_auger_toggle s) ts" "0 \<le> g"
    and "0 < w_cycle_time s" "0 \<le> w_ratio s"
  shows "\<exists>s' f. auger_run ts s = (s', Inr ()) \<and> fed_so_far (w_metrics s') = Inr f
    \<and> f \<le> f0 + (w_cycle_time s * w_ratio s + g) * ((last (w_auger_toggle s # ts) - w_auger_toggle s) / w_cycle_time s + 1)"
proof -
  let ?on = "w_cycle_time s * w_ratio s" and ?off = "w_cycle_time s * (1 - w_ratio s)" and ?t0 = "w_auger_toggle s"
  have ct: "?on + ?off = w_cycle_time s" by (simp add: algebra_simps)
  have on: "0 \<le> ?on" using assms(8,9) by simp
  have seen: "ph_seen (phase_of s) = ?t0" using assms(3) by (simp add: phase_of_def)
  obtain s' where s': "auger_run ts s = (s', Inr ())" "feeding s'" "phase_of s' = fold (phase_step ?on ?off) ts (phase_of s)"
    using auger_run_phase [OF assms(1)] assms(4) paced_sorted [OF assms(6)] by (auto simp: seen)
  have "rationed ?on ?off g ?t0 f0 0 (phase_of s)" using assms on by (simp add: rationed_def phase_of_def)
  from rationed_run [OF this _ on assms(7)] assms(6) obtain k where "rationed ?on ?off g ?t0 f0 k (phase_of s')"
    by (auto simp: seen s')
  from rationed_bound [OF this on assms(7)] assms(8)
  have "ph_fed (phase_of s') \<le> f0 + (?on + g) * ((last (?t0 # ts) - ?t0) / w_cycle_time s + 1)"
    by (simp add: ct s'(3) seen_run seen)
  moreover obtain f where "fed_so_far (w_metrics s') = Inr f" using s'(2) by (auto simp: feeding_def)
  ultimately show ?thesis using s'(1) by (simp add: phase_of_def)
qed

theorem auger_duty_bound_witness:
  "\<exists>s' f. auger_run [110, 120, 170] (demo_burn (demo_outputs True)) = (s', Inr ()) \<and> fed_so_far (w_metrics s') = Inr f
    \<and> f \<le> (15 + 50) * (70 / 60 + 1)"
  using auger_duty_bound [OF demo_feeding, of 0 50 "[110, 120, 170]"]
  by (simp add: demo_burn_def fed_so_far_def dget_def number_def demo_outputs_def)

end
