(* ===== verification/Eta_Estimate.thy ===== *)
theory Eta_Estimate
  imports Work_Cycle
begin

text \<open>
  \<open>_estimate_eta\<close> and \<open>_smooth_temperatures\<close> of \<open>notify/notifications.py\<close>: the seconds until a probe reaches its target, by a
  weighted regression over the last readings. \<open>math.exp(i / 10)\<close> is the argument \<open>weight\<close>, of which only that it is positive is
  used. \<open>max\<close> and the first comparison stand outside the code's \<open>try\<close>, so they raise; everything later answers \<open>None\<close> instead.
\<close>

section \<open>The estimated time of arrival\<close>

definition py_le :: "pyval \<Rightarrow> pyval \<Rightarrow> bool result" where
  "py_le v w = ebind (py_less v w) (\<lambda>b. Inr (b \<or> py_eq v w))"

text \<open>A moving average over \<open>2 * (window_size // 2) + 1\<close> readings; the first and last few stay as they are.\<close>

definition smooth_temperatures :: "rat list \<Rightarrow> nat \<Rightarrow> rat list" where
  "smooth_temperatures xs window_size =
     (if length xs < window_size then xs
      else
        let h = window_size div 2; n = length xs in
        take h xs
        @ map (\<lambda>i. let window = take (2 * h + 1) (drop (i - h) xs) in sum_list window / of_nat (length window)) [h..<n - h]
        @ drop (n - h) xs)"

definition wsum :: "(nat \<Rightarrow> rat) \<Rightarrow> nat \<Rightarrow> (nat \<Rightarrow> rat) \<Rightarrow> rat" where
  "wsum w n f = (\<Sum>i\<leftarrow>[0..<n]. w i * f i)"

text \<open>The weighted slope; \<open>None\<close> when the denominator is zero.\<close>

definition weighted_slope :: "(nat \<Rightarrow> rat) \<Rightarrow> rat list \<Rightarrow> rat option" where
  "weighted_slope weight ys =
     (let n = length ys; total = wsum weight n (\<lambda>_. 1); w = (\<lambda>i. weight i / total);
          mean_x = wsum w n of_nat; mean_y = wsum w n (\<lambda>i. ys ! i);
          numerator = wsum w n (\<lambda>i. (of_nat i - mean_x) * (ys ! i - mean_y));
          denominator = wsum w n (\<lambda>i. (of_nat i - mean_x) ^ 2)
      in if denominator = 0 then None else Some (numerator / denominator))"

text \<open>\<open>max(temperatures)\<close>: a \<open>ValueError\<close> when there are none, a \<open>TypeError\<close> when two cannot be compared.\<close>

fun py_max :: "pyval \<Rightarrow> pyval list \<Rightarrow> pyval result" where
  "py_max m [] = Inr m"
| "py_max m (v # vs) = ebind (py_less m v) (\<lambda>b. py_max (if b then v else m) vs)"

definition py_max_of :: "pyval list \<Rightarrow> pyval result" where
  "py_max_of vs = (case vs of [] \<Rightarrow> Inl (ValueError ''max() iterable argument is empty'') | v # vs \<Rightarrow> py_max v vs)"

text \<open>What the code computes inside its \<open>try\<close>; a reading that is no finite number makes it give up.\<close>

definition extrapolate :: "(nat \<Rightarrow> rat) \<Rightarrow> pyval list \<Rightarrow> pyval \<Rightarrow> rat \<Rightarrow> int option" where
  "extrapolate weight temperatures target interval_s =
     (case ebind (emap_list number temperatures) (\<lambda>xs. ebind (number target) (\<lambda>t. Inr (xs, t))) of
        Inl _ \<Rightarrow> None
      | Inr (xs, t) \<Rightarrow>
          let ys = smooth_temperatures xs 5 in
          (case weighted_slope weight ys of
             None \<Rightarrow> None
           | Some slope \<Rightarrow>
               if slope \<le> 0 then None
               else let predicted = (t - last ys) / slope * interval_s in
                 if predicted < 0 then None else Some (py_trunc predicted)))"

text \<open>\<open>temperatures[-most:]\<close>, which is the whole list for zero.\<close>

definition last_readings :: "nat \<Rightarrow> pyval list \<Rightarrow> pyval list" where
  "last_readings most vs = (if most = 0 then vs else drop (length vs - most) vs)"

definition estimate_eta :: "(nat \<Rightarrow> rat) \<Rightarrow> pyval list \<Rightarrow> pyval \<Rightarrow> rat \<Rightarrow> rat \<Rightarrow> rat \<Rightarrow> int option result" where
  "estimate_eta weight temperatures target interval_s max_minutes min_minutes =
     ebind (py_max_of temperatures) (\<lambda>hottest.
     ebind (py_le target hottest) (\<lambda>reached.
     if reached then Inr None
     else if 60 < interval_s \<or> interval_s < 1 then Inr None
     else
       let most = nat (py_trunc (max_minutes * 60 / interval_s)); least = py_trunc (min_minutes * 60 / interval_s) in
       if int (length temperatures) < least then Inr None
       else Inr (extrapolate weight (last_readings most temperatures) target interval_s)))"

section \<open>The estimate on a line\<close>

lemma wsum_sum: "wsum w n f = (\<Sum>i = 0..<n. w i * f i)"
  by (simp add: wsum_def interv_sum_list_conv_sum_set_nat)

text \<open>Readings that rise by the same amount each time.\<close>

definition line :: "rat \<Rightarrow> rat \<Rightarrow> nat \<Rightarrow> rat list" where
  "line a b n = map (\<lambda>i. a + b * of_nat i) [0..<n]"

lemma line_simps [simp]: "length (line a b n) = n" "i < n \<Longrightarrow> line a b n ! i = a + b * of_nat i"
  by (simp_all add: line_def)

lemma window_of_line:
  assumes "2 \<le> i" "i + 2 < n"
  shows "take 5 (drop (i - 2) (line a b n)) = map (\<lambda>k. a + b * of_nat k) [i - 2, i - 1, i, i + 1, i + 2]"
proof (rule nth_equalityI)
  fix k
  assume "k < length (take 5 (drop (i - 2) (line a b n)))"
  with assms have "k \<in> {0, 1, 2, 3, 4}" by auto
  with assms show "take 5 (drop (i - 2) (line a b n)) ! k = map (\<lambda>k. a + b * of_nat k) [i - 2, i - 1, i, i + 1, i + 2] ! k"
    by auto
qed (use assms in simp)

lemma smooth_line: "smooth_temperatures (line a b n) 5 = line a b n"
proof (cases "n < 5")
  case False
  have mid: "sum_list (take 5 (drop (i - 2) (line a b n))) / of_nat (length (take 5 (drop (i - 2) (line a b n)))) = line a b n ! i"
    if "2 \<le> i" "i < n - 2" for i
    using that by (subst (1 2) window_of_line) (auto simp: of_nat_diff field_simps)
  have "take 2 (line a b n) @ map (\<lambda>i. line a b n ! i) [2..<n - 2] @ drop (n - 2) (line a b n) = line a b n"
  proof (rule nth_equalityI)
    fix k
    assume "k < length (take 2 (line a b n) @ map (\<lambda>i. line a b n ! i) [2..<n - 2] @ drop (n - 2) (line a b n))"
    with False show "(take 2 (line a b n) @ map (\<lambda>i. line a b n ! i) [2..<n - 2] @ drop (n - 2) (line a b n)) ! k = line a b n ! k"
      by (auto simp: nth_append)
  qed (use False in simp)
  moreover have "map (\<lambda>i. sum_list (take 5 (drop (i - 2) (line a b n))) / of_nat (length (take 5 (drop (i - 2) (line a b n))))) [2..<n - 2]
      = map (\<lambda>i. line a b n ! i) [2..<n - 2]"
    by (rule map_cong) (use mid in auto)
  ultimately show ?thesis using False by (simp add: smooth_temperatures_def Let_def del: length_take length_drop map_eq_conv)
qed (simp add: smooth_temperatures_def)

lemma slope_of_line:
  assumes "\<And>i. 0 < weight i" "2 \<le> n"
  shows "weighted_slope weight (line a b n) = Some b"
proof -
  define total where "total = wsum weight n (\<lambda>_. 1)"
  define w where "w = (\<lambda>i. weight i / total)"
  define mx where "mx = wsum w n of_nat"
  have total: "0 < total"
    unfolding total_def wsum_sum using assms by (intro sum_pos) auto
  have w: "0 < w i" for i using assms(1) total by (simp add: w_def)
  have one: "(\<Sum>i = 0..<n. w i) = 1"
    using total by (simp add: w_def total_def wsum_sum sum_divide_distrib [symmetric])
  have my: "wsum w n (\<lambda>i. line a b n ! i) = a + b * mx"
  proof -
    have "wsum w n (\<lambda>i. line a b n ! i) = (\<Sum>i = 0..<n. a * w i + b * (w i * of_nat i))"
      unfolding wsum_sum by (rule sum.cong) (auto simp: algebra_simps)
    then show ?thesis by (simp add: sum.distrib sum_distrib_left [symmetric] one mx_def wsum_sum)
  qed
  define den where "den = wsum w n (\<lambda>i. (of_nat i - mx) ^ 2)"
  have "wsum w n (\<lambda>i. (of_nat i - mx) * (line a b n ! i - (a + b * mx))) = b * den"
    unfolding den_def wsum_sum sum_distrib_left by (rule sum.cong) (auto simp: algebra_simps power2_eq_square)
  moreover have "0 < den"
  proof -
    have "(if mx = 0 then 1 else 0) \<in> {0..<n}" "of_nat (if mx = 0 then 1 else 0) \<noteq> mx" using assms(2) by auto
    then have "0 < w (if mx = 0 then 1 else 0) * (of_nat (if mx = 0 then 1 else 0) - mx) ^ 2"
      by (intro mult_pos_pos w) (simp split: if_splits)
    then show ?thesis
      unfolding den_def wsum_sum
      by (intro sum_pos2 [where i = "if mx = 0 then 1 else 0"]) (use assms(2) in \<open>auto intro!: mult_nonneg_nonneg less_imp_le [OF w]\<close>)
  qed
  ultimately show ?thesis
    by (simp add: weighted_slope_def Let_def total_def [symmetric] w_def [symmetric] mx_def [symmetric] my den_def [symmetric])
qed

lemma py_max_floats: "\<exists>q \<in> set (m # xs). py_max (VFloat (Fin m)) (map (\<lambda>x. VFloat (Fin x)) xs) = Inr (VFloat (Fin q))"
proof (induction xs arbitrary: m)
  case (Cons x xs)
  from Cons.IH [of "if m < x then x else m"] show ?case by auto
qed simp

lemma number_floats: "emap_list number (map (\<lambda>x. VFloat (Fin x)) xs) = Inr xs"
  by (induction xs) (simp_all add: number_def)

text \<open>C20: On a steady rise the estimate is exact: whatever positive weights the regression uses, twenty to four hundred readings on a line
  survive the smoothing unchanged, the weighted slope is the line's, and the estimate is the whole seconds until the line
  meets the target.\<close>

theorem eta_exact_on_line:
  assumes "\<And>i. 0 < weight i" "0 < b" "20 \<le> n" "n \<le> 400" "a + b * (of_nat n - 1) < target"
  shows "estimate_eta weight (map (\<lambda>x. VFloat (Fin x)) (line a b n)) (VFloat (Fin target)) 3 20 1
    = Inr (Some (py_trunc ((target - (a + b * (of_nat n - 1))) / b * 3)))"
proof -
  have below: "x < target" if "x \<in> set (line a b n)" for x
  proof -
    from that obtain i where "i < n" "x = a + b * of_nat i" by (auto simp: line_def)
    moreover have "b * of_nat i \<le> b * (of_nat n - 1)" using \<open>i < n\<close> assms(2) by (simp add: Suc_leI le_diff_eq)
    ultimately show ?thesis using assms(5) by linarith
  qed
  obtain x xs where xs: "line a b n = x # xs" using assms(3) by (cases "line a b n") (auto simp: line_def)
  with py_max_floats [of x xs] obtain q where q: "py_max_of (map (\<lambda>x. VFloat (Fin x)) (line a b n)) = Inr (VFloat (Fin q))"
    "q \<in> set (line a b n)" by (auto simp: py_max_of_def)
  have "py_le (VFloat (Fin target)) (VFloat (Fin q)) = Inr False" using below [OF q(2)] by (simp add: py_le_def num_eq_def)
  moreover have "last (line a b n) = a + b * (of_nat n - 1)"
    using assms(3) by (simp add: last_conv_nth line_def of_nat_diff)
  moreover have "0 \<le> (target - (a + b * (of_nat n - 1))) / b * 3" using assms(2,5) by simp
  ultimately show ?thesis
    using assms(2-4) slope_of_line [of weight n a b] assms(1)
    by (simp add: estimate_eta_def q(1) extrapolate_def last_readings_def number_floats smooth_line number_def py_trunc_def Let_def)
qed

theorem eta_exact_on_line_witness:
  "estimate_eta (\<lambda>_. 1) (map (\<lambda>x. VFloat (Fin x)) (line 100 (1 / 2) 20)) (VFloat (Fin 120)) 3 20 1 = Inr (Some 63)"
  using eta_exact_on_line [of "\<lambda>_. 1" "1 / 2" 20 100 120] by (simp add: py_trunc_def)

end
