(* ===== verification/Notifications.thy ===== *)
theory Notifications
  imports Eta_Estimate
begin

text \<open>
  \<open>check_notify\<close> of \<open>notify/notifications.py\<close>, which every iteration of a work cycle runs on the control in hand. An item of
  \<open>control["notify_data"]\<close> is read and written in place, so the loop variable of the code and the list's element are one object;
  here every access goes through the index.

  The record \<open>notice\<close> holds what the call changes: the store with the events sent, the control and the hopper cooldowns
  (their keys are all of the type \<open>hopper\<close>, so the label identifies one). What the caller passes is the record \<open>watch\<close>;
  the history rows are the pairs of their \<open>F\<close> and \<open>P\<close> members, \<open>wa_pellets\<close> is \<open>None\<close> when the pellet database or the
  platform is not passed. Sending an event appends its name; its text, the services behind it and the forwarding to MQTT, InfluxDB
  and WLED are not modelled.
\<close>

section \<open>Conditions\<close>

definition check_condition :: "pyval \<Rightarrow> pyval \<Rightarrow> pyval \<Rightarrow> bool result" where
  "check_condition condition current target =
     (if py_eq condition (VStr ''equal'') then Inr (py_eq current target)
      else if py_eq condition (VStr ''above'') then py_less target current
      else if py_eq condition (VStr ''below'') then py_less current target
      else if py_eq condition (VStr ''equal_above'') then py_le target current
      else if py_eq condition (VStr ''equal_below'') then py_le current target
      else Inr False)"

section \<open>The state of a check\<close>

record notice =
  nt_world :: world
  nt_control :: pydict
  nt_cooldowns :: "(string \<times> rat) list"

type_synonym 'a note_action = "(notice, 'a) action"

record sampled =
  sa_history :: "(string \<times> pydict) list"
  sa_targets :: pydict

record watch =
  wa_settings :: pyval
  wa_sample :: "sampled option"
  wa_pellets :: "pyval option"
  wa_update_eta :: bool
  wa_rows :: "(pydict \<times> pydict) list"
  wa_weight :: "nat \<Rightarrow> rat"
  wa_now :: clock_stamp

definition note_member :: "string \<Rightarrow> pyval note_action" where
  "note_member k = abind (aget nt_control) (\<lambda>c. alift (dindex c k))"

definition note_assign :: "string \<Rightarrow> pyval \<Rightarrow> unit note_action" where
  "note_assign k v = amodify (\<lambda>s. s\<lparr>nt_control := dput k v (nt_control s)\<rparr>)"

definition note_assign_in :: "string \<Rightarrow> string \<Rightarrow> pyval \<Rightarrow> unit note_action" where
  "note_assign_in k j v = abind (note_member k) (\<lambda>d. abind (alift (as_dict d)) (\<lambda>d'. note_assign k (VDict (dput j v d'))))"

definition note_items :: "pyval list note_action" where
  "note_items = abind (note_member ''notify_data'') (\<lambda>v. alift (as_list v))"

definition item_at :: "nat \<Rightarrow> pydict note_action" where
  "item_at i = abind note_items (\<lambda>items. alift (ebind (list_index items i) as_dict))"

definition item_get :: "nat \<Rightarrow> string \<Rightarrow> pyval note_action" where
  "item_get i k = abind (item_at i) (\<lambda>d. alift (dindex d k))"

definition put_item :: "nat \<Rightarrow> string \<Rightarrow> pyval \<Rightarrow> unit note_action" where
  "put_item i k v =
     abind note_items (\<lambda>items. abind (item_at i) (\<lambda>d. note_assign ''notify_data'' (VList (items[i := VDict (dput k v d)]))))"

text \<open>\<open>send_notifications(event)\<close> and the writer.\<close>

definition send_event :: "string \<Rightarrow> unit note_action" where
  "send_event e = amodify (\<lambda>s. s\<lparr>nt_world := (nt_world s)\<lparr>notified := notified (nt_world s) @ [e]\<rparr>\<rparr>)"

definition store_note :: "unit note_action" where
  "store_note = amodify (\<lambda>s. s\<lparr>nt_world := write_world (nt_control s) (nt_world s)\<rparr>)"

section \<open>Probes\<close>

definition LIMITS :: "string list" where
  "LIMITS = [''probe_limit_low'', ''probe_limit_high'']"

text \<open>The readings by label, without the tuner's; a later group wins.\<close>

definition probe_temps :: "sampled \<Rightarrow> pydict" where
  "probe_temps sample = foldl (\<lambda>m (group, d). if group = ''tr'' then m else dupdate m d) [] (sa_history sample)"

definition condition_met :: "sampled \<Rightarrow> pydict \<Rightarrow> bool result" where
  "condition_met sample item =
     ebind (dindex item ''condition'') (\<lambda>condition.
     ebind (dindex item ''label'') (\<lambda>l. ebind (as_key l) (\<lambda>label.
     ebind (dindex (probe_temps sample) label) (\<lambda>current.
     ebind (dindex item ''target'') (\<lambda>target. check_condition condition current target)))))"

definition probe_readings :: "string \<Rightarrow> (pydict \<times> pydict) list \<Rightarrow> pyval list" where
  "probe_readings label rs =
     concat (map (\<lambda>(f, p). case dget f label of Some v \<Rightarrow> [v] | None \<Rightarrow> (case dget p label of Some v \<Rightarrow> [v] | None \<Rightarrow> [])) rs)"

definition refresh_eta :: "watch \<Rightarrow> nat \<Rightarrow> unit note_action" where
  "refresh_eta env i =
     abind (item_get i ''label'') (\<lambda>l. abind (alift (as_key l)) (\<lambda>label.
     abind (item_get i ''target'') (\<lambda>target.
     abind (alift (estimate_eta (wa_weight env) (probe_readings label (drop (length (wa_rows env) - 400) (wa_rows env))) target 3 20 1)) (\<lambda>eta.
       put_item i ''eta'' (case eta of None \<Rightarrow> VNone | Some t \<Rightarrow> VInt t)))))"

definition mark_triggered :: "unit note_action" where
  "mark_triggered =
     abind (note_member ''recipe'') (\<lambda>rv. abind (alift (as_dict rv)) (\<lambda>r.
     abind (alift (ebind (dindex r ''step_data'') as_dict)) (\<lambda>d.
       note_assign ''recipe'' (VDict (dput ''step_data'' (VDict (dput ''triggered'' (VBool True) d)) r)))))"

text \<open>In a recipe, a positive value of the step makes the event a trigger of the step.\<close>

definition trigger_step :: "(pydict \<Rightarrow> pyval result) \<Rightarrow> unit note_action" where
  "trigger_step amount =
     abind (note_member ''mode'') (\<lambda>m.
     if \<not> py_eq m (VStr M_RECIPE) then areturn ()
     else
       abind (aget nt_control) (\<lambda>c. abind (alift (ebind (step_data_of c) amount)) (\<lambda>v.
       abind (alift (py_less (VInt 0) v)) (\<lambda>positive. if positive then mark_triggered else areturn ()))))"

definition reach_target :: "sampled \<Rightarrow> nat \<Rightarrow> unit note_action" where
  "reach_target sample i =
     abind (item_get i ''label'') (\<lambda>l. abind (alift (as_key l)) (\<lambda>label.
     abind (alift (dindex (sa_targets sample) label)) (\<lambda>_.
     abind (send_event ''Probe_Temp_Achieved'') (\<lambda>_.
     abind (trigger_step (\<lambda>d. ebind (ebind (dindex d ''trigger_temps'') as_dict) (\<lambda>ts. dindex ts label))) (\<lambda>_.
     abind (put_item i ''req'' (VBool False)) (\<lambda>_.
     abind (put_item i ''target'' (VInt 0)) (\<lambda>_. put_item i ''eta'' VNone)))))))"

definition announce_limit :: "nat \<Rightarrow> unit note_action" where
  "announce_limit i =
     abind (item_get i ''label'') (\<lambda>_. abind (item_get i ''target'') (\<lambda>_.
     abind (send_event ''Probe_Temp_Limit_Alarm'') (\<lambda>_. put_item i ''triggered'' (VBool True))))"

definition cross_limit :: "nat \<Rightarrow> unit note_action" where
  "cross_limit i = abind (item_get i ''triggered'') (\<lambda>v. if truthy v then areturn () else announce_limit i)"

definition leave_limit :: "nat \<Rightarrow> unit note_action" where
  "leave_limit i = abind (item_get i ''triggered'') (\<lambda>v. if truthy v then put_item i ''triggered'' (VBool False) else areturn ())"

definition watch_probe :: "watch \<Rightarrow> sampled \<Rightarrow> nat \<Rightarrow> pyval \<Rightarrow> unit note_action" where
  "watch_probe env sample i kind =
     abind (if py_eq kind (VStr ''probe'') \<and> wa_update_eta env then refresh_eta env i else areturn ()) (\<lambda>_.
     abind (item_at i) (\<lambda>item. abind (alift (condition_met sample item)) (\<lambda>met.
     if py_eq kind (VStr ''probe'') then (if met then reach_target sample i else areturn ())
     else if met then cross_limit i else leave_limit i)))"

section \<open>Timer, hopper and test\<close>

definition watch_timer :: "watch \<Rightarrow> nat \<Rightarrow> bool note_action" where
  "watch_timer env i =
     abind (note_member ''timer'') (\<lambda>tv. abind (alift (parse_timer tv)) (\<lambda>t.
     case expire_timer t (wa_now env) of
       (t', expired) \<Rightarrow>
         abind (note_assign ''timer'' (timer_value t')) (\<lambda>_.
         abind (if expired then
                  abind (trigger_step (\<lambda>d. dindex d ''timer'')) (\<lambda>_. put_item i ''req'' (VBool False))
                else areturn ()) (\<lambda>_. areturn expired))))"

definition note_setting :: "watch \<Rightarrow> string list \<Rightarrow> pyval note_action" where
  "note_setting env path = alift (vpath (wa_settings env) path)"

definition hopper_due :: "watch \<Rightarrow> string \<Rightarrow> bool note_action" where
  "hopper_due env label =
     abind (aget (\<lambda>s. map_of (nt_cooldowns s) label)) (\<lambda>last_s.
     case last_s of
       None \<Rightarrow> areturn True
     | Some t \<Rightarrow> abind (note_setting env [''pelletlevel'', ''warning_time'']) (\<lambda>v. abind (alift (number v)) (\<lambda>minutes.
         areturn (minutes * 60 < observed_monotonic_s (wa_now env) - t))))"

definition watch_hopper :: "watch \<Rightarrow> pyval \<Rightarrow> nat \<Rightarrow> unit note_action" where
  "watch_hopper env pellets i =
     abind (item_get i ''label'') (\<lambda>l. abind (alift (as_key l)) (\<lambda>label.
     abind (hopper_due env label) (\<lambda>due.
     if \<not> due then areturn ()
     else
       abind (alift (vpath pellets [''current'', ''hopper_level''])) (\<lambda>level.
       abind (note_setting env [''pelletlevel'', ''warning_level'']) (\<lambda>least.
       abind (alift (py_le level least)) (\<lambda>low.
       if \<not> low then areturn ()
       else
         abind (send_event ''Pellet_Level_Low'') (\<lambda>_.
         abind (amodify (\<lambda>s. s\<lparr>nt_cooldowns := AList.update label (observed_monotonic_s (wa_now env)) (nt_cooldowns s)\<rparr>)) (\<lambda>_.
           put_item i ''last_check'' (VFloat (Fin (observed_wall_s (wa_now env))))))))))))"

definition watch_test :: "watch \<Rightarrow> nat \<Rightarrow> unit note_action" where
  "watch_test env i =
     abind (send_event ''Test_Notify'') (\<lambda>_.
     abind (put_item i ''last_check'' (VFloat (Fin (observed_wall_s (wa_now env))))) (\<lambda>_. put_item i ''req'' (VBool False)))"

text \<open>The branch of one item's type; only a timer that expires here answers \<open>True\<close>.\<close>

definition watch_item :: "watch \<Rightarrow> pyval \<Rightarrow> nat \<Rightarrow> pyval \<Rightarrow> bool note_action" where
  "watch_item env pellets i kind =
     (if member kind (''probe'' # LIMITS) \<and> wa_sample env \<noteq> None then
        abind (watch_probe env (the (wa_sample env)) i kind) (\<lambda>_. areturn False)
      else if py_eq kind (VStr ''timer'') then watch_timer env i
      else if py_eq kind (VStr ''hopper'') then abind (watch_hopper env pellets i) (\<lambda>_. areturn False)
      else if py_eq kind (VStr ''test'') then abind (watch_test env i) (\<lambda>_. areturn False)
      else areturn False)"

section \<open>What a fired item asks for\<close>

definition item_flag :: "nat \<Rightarrow> string \<Rightarrow> bool note_action" where
  "item_flag i k = abind (item_at i) (\<lambda>d. areturn (case dget d k of None \<Rightarrow> False | Some v \<Rightarrow> truthy v))"

definition has_fired :: "nat \<Rightarrow> pyval \<Rightarrow> bool \<Rightarrow> bool note_action" where
  "has_fired i kind timer_fired =
     (if py_eq kind (VStr ''timer'') then areturn timer_fired
      else if member kind LIMITS then item_flag i ''triggered''
      else abind (item_get i ''req'') (\<lambda>v. areturn (\<not> truthy v)))"

definition COOKING :: "string list" where
  "COOKING = [M_REIGNITE, M_STARTUP, M_SMOKE, M_HOLD]"

definition in_mode :: "string list \<Rightarrow> bool note_action" where
  "in_mode ms = abind (note_member ''mode'') (\<lambda>m. areturn (member m ms))"

definition both :: "bool note_action \<Rightarrow> bool note_action \<Rightarrow> bool note_action" where
  "both m n = abind m (\<lambda>b. if b then n else areturn False)"

definition ask_shutdown :: "nat \<Rightarrow> unit note_action" where
  "ask_shutdown i =
     abind (note_assign ''mode'' (VStr M_SHUTDOWN)) (\<lambda>_. abind (note_assign ''updated'' (VBool True)) (\<lambda>_.
       put_item i ''shutdown'' (VBool False)))"

definition ask_keep_warm :: "watch \<Rightarrow> nat \<Rightarrow> unit note_action" where
  "ask_keep_warm env i =
     abind (note_assign ''mode'' (VStr M_HOLD)) (\<lambda>_.
     abind (note_setting env [''keep_warm'', ''temp'']) (\<lambda>v. abind (note_assign ''primary_setpoint'' v) (\<lambda>_.
     abind (note_setting env [''keep_warm'', ''s_plus'']) (\<lambda>v. abind (note_assign ''s_plus'' v) (\<lambda>_.
     abind (note_assign ''updated'' (VBool True)) (\<lambda>_. put_item i ''keep_warm'' (VBool False)))))))"

definition ask_reignite :: "unit note_action" where
  "ask_reignite =
     abind (note_member ''mode'') (\<lambda>m. abind (note_assign_in ''safety'' ''reignitelaststate'' m) (\<lambda>_.
     abind (note_assign ''mode'' (VStr M_REIGNITE)) (\<lambda>_. note_assign ''updated'' (VBool True))))"

definition truthy_of :: "nat \<Rightarrow> string \<Rightarrow> bool note_action" where
  "truthy_of i k = abind (item_get i k) (\<lambda>v. areturn (truthy v))"

definition react :: "watch \<Rightarrow> nat \<Rightarrow> pyval \<Rightarrow> bool \<Rightarrow> unit note_action" where
  "react env i kind timer_fired =
     abind (has_fired i kind timer_fired) (\<lambda>fired.
     abind (both (truthy_of i ''shutdown'') (both (in_mode COOKING) (areturn fired))) (\<lambda>off.
     if off then ask_shutdown i
     else
       abind (both (truthy_of i ''keep_warm'') (both (in_mode [M_SMOKE, M_HOLD]) (areturn fired))) (\<lambda>warm.
       if warm then ask_keep_warm env i
       else
         abind (both (item_flag i ''reignite'') (both (item_flag i ''triggered'') (in_mode [M_SMOKE, M_HOLD]))) (\<lambda>relight.
         if relight then ask_reignite else areturn ()))))"

section \<open>The check\<close>

definition process_item :: "watch \<Rightarrow> pyval \<Rightarrow> nat \<Rightarrow> unit note_action" where
  "process_item env pellets i =
     abind (truthy_of i ''req'') (\<lambda>requested.
     if \<not> requested then areturn ()
     else
       abind (item_get i ''type'') (\<lambda>kind.
       abind (watch_item env pellets i kind) (\<lambda>timer_fired.
       abind (react env i kind timer_fired) (\<lambda>_.
       abind store_note (\<lambda>_. if timer_fired then send_event ''Timer_Expired'' else areturn ())))))"

fun process_items :: "watch \<Rightarrow> pyval \<Rightarrow> nat list \<Rightarrow> unit note_action" where
  "process_items env pellets [] = areturn ()"
| "process_items env pellets (i # js) = abind (process_item env pellets i) (\<lambda>_. process_items env pellets js)"

text \<open>A hopper item that is no longer requested forgets its cooldown.\<close>

fun active_hoppers :: "pyval list \<Rightarrow> string list result" where
  "active_hoppers [] = Inr []"
| "active_hoppers (item # items) =
     ebind (as_dict item) (\<lambda>d. ebind (dindex d ''type'') (\<lambda>kind.
     ebind (if py_eq kind (VStr ''hopper'') then ebind (dindex d ''req'') (\<lambda>v. Inr (truthy v)) else Inr False) (\<lambda>active.
     ebind (if active then ebind (ebind (dindex d ''label'') as_key) (\<lambda>k. Inr [k]) else Inr []) (\<lambda>ks.
     ebind (active_hoppers items) (\<lambda>rest. Inr (ks @ rest))))))"

definition prune_cooldowns :: "unit note_action" where
  "prune_cooldowns =
     abind note_items (\<lambda>items. abind (alift (active_hoppers items)) (\<lambda>active.
       amodify (\<lambda>s. s\<lparr>nt_cooldowns := filter (\<lambda>(k, _). k \<in> set active) (nt_cooldowns s)\<rparr>)))"

text \<open>\<open>True\<close> when the call returns the control, \<open>False\<close> when it returns \<open>None\<close> for want of a pellet database.\<close>

definition check_notify :: "watch \<Rightarrow> bool note_action" where
  "check_notify env =
     abind prune_cooldowns (\<lambda>_.
     case wa_pellets env of
       None \<Rightarrow> areturn False
     | Some pellets \<Rightarrow>
         if \<not> truthy pellets then areturn False
         else abind note_items (\<lambda>items. abind (process_items env pellets [0..<length items]) (\<lambda>_. areturn True)))"


section \<open>What a check leaves alone\<close>

lemma preserves_id_keeps: "preserves id m \<Longrightarrow> keeps P m"
  by (rule keeps_preserves) auto

lemma preserves_id: "preserves id m \<Longrightarrow> preserves g m"
  by (simp add: preserves_def)

lemma reads_only [preserves_intros]:
  "preserves g (note_member k)" "preserves g note_items" "preserves g (item_at i)" "preserves g (item_get i k)"
  "preserves g (note_setting env path)" "preserves g (item_flag i k)" "preserves g (truthy_of i k)" "preserves g (in_mode ms)"
  "preserves g (has_fired i kind b)" "preserves g (hopper_due env label)"
  unfolding note_member_def note_items_def item_at_def item_get_def note_setting_def item_flag_def truthy_of_def in_mode_def
    has_fired_def hopper_due_def
  by (intro preserves_intros)+

lemma preserves_both [preserves_intros]: "preserves g m \<Longrightarrow> preserves g n \<Longrightarrow> preserves g (both m n)"
  unfolding both_def by (intro preserves_intros)

text \<open>The members of the control a notification can steer with.\<close>

definition helm :: "notice \<Rightarrow> pyval option list" where
  "helm s = map (dget (nt_control s)) [''mode'', ''updated'', ''primary_setpoint'', ''s_plus'', ''safety'']"

lemma helm_assign:
  assumes "k \<notin> {''mode'', ''updated'', ''primary_setpoint'', ''s_plus'', ''safety''}"
  shows "preserves helm (note_assign k v)"
  using assms by (auto simp: note_assign_def preserves_def helm_def)

lemma helm_calls [preserves_intros]:
  "preserves helm (put_item i k v)" "preserves helm (send_event e)" "preserves helm store_note" "preserves helm mark_triggered"
  "preserves helm prune_cooldowns"
  unfolding put_item_def mark_triggered_def send_event_def store_note_def prune_cooldowns_def
  by (intro preserves_intros helm_assign; simp add: helm_def)+

lemma helm_watch [preserves_intros]: "preserves helm (watch_item env pellets i kind)"
  unfolding watch_item_def watch_probe_def refresh_eta_def reach_target_def cross_limit_def announce_limit_def leave_limit_def trigger_step_def
    watch_timer_def watch_hopper_def watch_test_def
  by (intro preserves_intros helm_assign; simp add: helm_def)+

section \<open>A notification never starts a fire\<close>

definition moves :: "pyval \<Rightarrow> pyval \<Rightarrow> bool" where
  "moves from_mode to_mode \<longleftrightarrow> to_mode = from_mode \<or> (to_mode = VStr M_SHUTDOWN \<and> member from_mode COOKING)
     \<or> (to_mode \<in> {VStr M_HOLD, VStr M_REIGNITE} \<and> member from_mode [M_SMOKE, M_HOLD])"

definition retries :: "pydict \<Rightarrow> pyval option" where
  "retries c = (case dget c ''safety'' of Some (VDict d) \<Rightarrow> dget d ''reigniteretries'' | _ \<Rightarrow> None)"

definition steered :: "pydict \<Rightarrow> pydict \<Rightarrow> bool" where
  "steered c0 c \<longleftrightarrow> (\<forall>m0. dget c0 ''mode'' = Some m0 \<longrightarrow>
     (\<exists>m. dget c ''mode'' = Some m \<and> moves m0 m \<and> (m \<noteq> m0 \<longrightarrow> dget c ''updated'' = Some (VBool True))
        \<and> (\<not> member m0 COOKING \<longrightarrow> (\<forall>k \<in> {''updated'', ''primary_setpoint'', ''s_plus'', ''safety''}. dget c k = dget c0 k))))
     \<and> retries c = retries c0"

lemma steered_helm: "helm t = helm s \<Longrightarrow> steered c0 (nt_control s) \<Longrightarrow> steered c0 (nt_control t)"
  by (simp add: helm_def steered_def retries_def)

lemma keeps_steered: "preserves helm m \<Longrightarrow> keeps (\<lambda>s. steered c0 (nt_control s)) m"
  by (rule keeps_preserves) (auto intro: steered_helm)

lemma both_InrTrue: "both m n s = (t, Inr b) \<Longrightarrow> b \<Longrightarrow> \<exists>u. m s = (u, Inr True) \<and> n u = (t, Inr True)"
  by (auto simp: both_def elim!: abind_InrE split: if_splits)

text \<open>The condition of an action holds in the state it is taken in.\<close>

lemma in_mode_InrTrue: "in_mode ms s = (t, Inr True) \<Longrightarrow> t = s \<and> (\<exists>m. dget (nt_control s) ''mode'' = Some m \<and> member m ms)"
  by (auto simp: in_mode_def note_member_def dindex_def elim!: abind_InrE split: option.splits)

lemma unchanged: "preserves id m \<Longrightarrow> m s = (t, r) \<Longrightarrow> t = s"
  using preservesD [of id] by force

definition cooks :: "string list \<Rightarrow> notice \<Rightarrow> bool" where
  "cooks ms s \<longleftrightarrow> (\<exists>m. dget (nt_control s) ''mode'' = Some m \<and> member m ms)"

lemma asked_in_mode:
  "triple P (both (truthy_of i k) (both (in_mode ms) (areturn f))) (\<lambda>b s. P s \<and> (b \<longrightarrow> cooks ms s))"
proof (rule tripleI)
  fix s t b
  assume P: "P s" and run: "both (truthy_of i k) (both (in_mode ms) (areturn f)) s = (t, Inr b)"
  have "preserves id (both (truthy_of i k) (both (in_mode ms) (areturn f)))" by (intro preserves_intros)
  from unchanged [where m = "both _ _", OF this run] have "t = s" .
  moreover have "cooks ms s" if b
  proof -
    from both_InrTrue [OF run that] obtain u where u: "truthy_of i k s = (u, Inr True)"
      "both (in_mode ms) (areturn f) u = (t, Inr True)" by blast
    from both_InrTrue [OF u(2)] obtain w where w: "in_mode ms u = (w, Inr True)" by blast
    have "preserves id (truthy_of i k)" by (intro preserves_intros)
    from unchanged [where m = "truthy_of _ _", OF this u(1)] in_mode_InrTrue [OF w] show ?thesis by (simp add: cooks_def)
  qed
  ultimately show "P t \<and> (b \<longrightarrow> cooks ms t)" using P by simp
qed

lemma relight_in_mode:
  "triple P (both (item_flag i j) (both (item_flag i k) (in_mode ms))) (\<lambda>b s. P s \<and> (b \<longrightarrow> cooks ms s))"
proof (rule tripleI)
  fix s t b
  assume P: "P s" and run: "both (item_flag i j) (both (item_flag i k) (in_mode ms)) s = (t, Inr b)"
  have "preserves id (both (item_flag i j) (both (item_flag i k) (in_mode ms)))" by (intro preserves_intros)
  from unchanged [where m = "both _ _", OF this run] have "t = s" .
  moreover have "cooks ms s" if b
  proof -
    from both_InrTrue [OF run that] obtain u where u: "both (item_flag i k) (in_mode ms) u = (t, Inr True)" by blast
    from both_InrTrue [OF u] obtain w where w: "in_mode ms w = (t, Inr True)" by blast
    with in_mode_InrTrue [OF w] \<open>t = s\<close> show ?thesis by (auto simp: cooks_def)
  qed
  ultimately show "P t \<and> (b \<longrightarrow> cooks ms t)" using P by simp
qed


lemma moves_chain:
  assumes "moves m0 m"
  shows "member m COOKING \<Longrightarrow> moves m0 (VStr M_SHUTDOWN) \<and> member m0 COOKING"
    and "member m [M_SMOKE, M_HOLD] \<Longrightarrow> moves m0 (VStr M_HOLD) \<and> moves m0 (VStr M_REIGNITE) \<and> member m0 COOKING"
  using assms by (auto simp: moves_def member_def COOKING_def mode_names)

lemma steer_shutdown:
  "steered c0 c \<Longrightarrow> dget c ''mode'' = Some m \<Longrightarrow> member m COOKING
     \<Longrightarrow> steered c0 (dput ''updated'' (VBool True) (dput ''mode'' (VStr M_SHUTDOWN) c))"
  by (auto simp: steered_def retries_def dest: moves_chain(1))

lemma asking_shutdown: "triple (\<lambda>s. steered c0 (nt_control s) \<and> cooks COOKING s) (ask_shutdown i) (\<lambda>_ s. steered c0 (nt_control s))"
proof -
  have "triple (\<lambda>s. steered c0 (nt_control s) \<and> cooks COOKING s) (note_assign ''mode'' (VStr M_SHUTDOWN))
      (\<lambda>_ s. steered c0 (dput ''updated'' (VBool True) (nt_control s)))"
    by (auto simp: triple_def note_assign_def cooks_def intro: steer_shutdown)
  moreover have "triple (\<lambda>s. steered c0 (dput ''updated'' (VBool True) (nt_control s))) (note_assign ''updated'' (VBool True))
      (\<lambda>_ s. steered c0 (nt_control s))"
    by (auto simp: triple_def note_assign_def)
  moreover have "triple (\<lambda>s. steered c0 (nt_control s)) (put_item i ''shutdown'' (VBool False)) (\<lambda>_ s. steered c0 (nt_control s))"
    by (intro triple_keeps keeps_steered preserves_intros)
  ultimately show ?thesis unfolding ask_shutdown_def by (intro triple_bind)
qed


text \<open>Steered once \<open>updated\<close> is set, from a mode that cooks.\<close>

definition nearly :: "pydict \<Rightarrow> notice \<Rightarrow> bool" where
  "nearly c0 s \<longleftrightarrow> (\<exists>m0. dget c0 ''mode'' = Some m0 \<and> member m0 COOKING) \<and> steered c0 (dput ''updated'' (VBool True) (nt_control s))"

lemma nearly_mode:
  assumes "steered c0 c" "dget c ''mode'' = Some m" "member m [M_SMOKE, M_HOLD]" "dget c0 ''mode'' = Some m0" "md \<in> {M_HOLD, M_REIGNITE}"
  shows "member m0 COOKING \<and> steered c0 (dput ''updated'' (VBool True) (dput ''mode'' (VStr md) c))"
  using assms by (auto simp: steered_def retries_def dest: moves_chain(2))

lemma nearly_assign: "k \<in> {''primary_setpoint'', ''s_plus''} \<Longrightarrow> triple (nearly c0) (note_assign k v) (\<lambda>_. nearly c0)"
  by (auto simp: triple_def note_assign_def nearly_def steered_def retries_def)

lemma nearly_there: "triple (nearly c0) (note_assign ''updated'' (VBool True)) (\<lambda>_ s. steered c0 (nt_control s))"
  by (auto simp: triple_def note_assign_def nearly_def)

lemma nearly_start:
  assumes "md \<in> {M_HOLD, M_REIGNITE}" "dget c0 ''mode'' \<noteq> None"
  shows "triple (\<lambda>s. steered c0 (nt_control s) \<and> cooks [M_SMOKE, M_HOLD] s) (note_assign ''mode'' (VStr md)) (\<lambda>_. nearly c0)"
proof (rule tripleI)
  fix s t x
  assume s: "steered c0 (nt_control s) \<and> cooks [M_SMOKE, M_HOLD] s" and run: "note_assign ''mode'' (VStr md) s = (t, Inr x)"
  from s assms(2) obtain m m0 where m: "dget (nt_control s) ''mode'' = Some m" "member m [M_SMOKE, M_HOLD]" "dget c0 ''mode'' = Some m0"
    by (auto simp: cooks_def)
  from nearly_mode [OF conjunct1 [OF s] m assms(1)] m run show "nearly c0 t"
    by (auto simp: note_assign_def nearly_def)
qed

lemma keeps_nearly: "preserves helm m \<Longrightarrow> keeps (nearly c0) m"
  by (rule keeps_preserves) (auto simp: nearly_def helm_def steered_def retries_def)

lemma asking_keep_warm:
  assumes "dget c0 ''mode'' \<noteq> None"
  shows "triple (\<lambda>s. steered c0 (nt_control s) \<and> cooks [M_SMOKE, M_HOLD] s) (ask_keep_warm env i) (\<lambda>_ s. steered c0 (nt_control s))"
  unfolding ask_keep_warm_def
  apply (rule triple_bind [OF nearly_start [OF _ assms]], simp)
  apply (rule triple_skip [OF keeps_nearly [OF reads_only(5)]])
  apply (rule triple_bind [OF nearly_assign], simp)
  apply (rule triple_skip [OF keeps_nearly [OF reads_only(5)]])
  apply (rule triple_bind [OF nearly_assign], simp)
  apply (rule triple_bind [OF nearly_there])
  apply (rule triple_keeps [OF keeps_steered [OF helm_calls(1)]])
  done

lemma note_last_mode:
  assumes "dget c0 ''mode'' \<noteq> None"
  shows "triple (\<lambda>s. steered c0 (nt_control s) \<and> cooks [M_SMOKE, M_HOLD] s) (note_assign_in ''safety'' ''reignitelaststate'' m)
    (\<lambda>_ s. steered c0 (nt_control s) \<and> cooks [M_SMOKE, M_HOLD] s)"
proof (rule tripleI)
  fix s t x
  assume s: "steered c0 (nt_control s) \<and> cooks [M_SMOKE, M_HOLD] s"
    and run: "note_assign_in ''safety'' ''reignitelaststate'' m s = (t, Inr x)"
  then obtain d where d: "dget (nt_control s) ''safety'' = Some (VDict d)"
    "nt_control t = dput ''safety'' (VDict (dput ''reignitelaststate'' m d)) (nt_control s)"
    by (auto simp: note_assign_in_def note_member_def note_assign_def as_dict_def dindex_def elim!: abind_InrE
        split: option.splits pyval.splits)
  obtain m0 md where m: "dget c0 ''mode'' = Some m0" "dget (nt_control s) ''mode'' = Some md" "member md [M_SMOKE, M_HOLD]"
    using assms s by (auto simp: cooks_def)
  with nearly_mode [OF conjunct1 [OF s] m(2,3,1), of M_HOLD] have "member m0 COOKING" by simp
  with s m d show "steered c0 (nt_control t) \<and> cooks [M_SMOKE, M_HOLD] t"
    by (auto simp: steered_def retries_def cooks_def)
qed

lemma asking_reignite:
  assumes "dget c0 ''mode'' \<noteq> None"
  shows "triple (\<lambda>s. steered c0 (nt_control s) \<and> cooks [M_SMOKE, M_HOLD] s) ask_reignite (\<lambda>_ s. steered c0 (nt_control s))"
  unfolding ask_reignite_def
  apply (rule triple_skip [OF preserves_id_keeps [OF reads_only(1)]])
  apply (rule triple_bind [OF note_last_mode [OF assms]])
  apply (rule triple_bind [OF nearly_start [OF _ assms]], simp)
  apply (rule nearly_there)
  done

lemma triple_choose:
  "triple P m (\<lambda>b s. P s \<and> (b \<longrightarrow> C s)) \<Longrightarrow> triple (\<lambda>s. P s \<and> C s) f Q \<Longrightarrow> triple P g Q
    \<Longrightarrow> triple P (abind m (\<lambda>b. if b then f else g)) Q"
  by (force simp: triple_def elim: abind_InrE split: if_splits)

lemma reacting:
  assumes "dget c0 ''mode'' \<noteq> None"
  shows "triple (\<lambda>s. steered c0 (nt_control s)) (react env i kind f) (\<lambda>_ s. steered c0 (nt_control s))"
  unfolding react_def
  by (rule triple_skip [OF preserves_id_keeps [OF reads_only(9)]], rule triple_choose [OF asked_in_mode asking_shutdown],
      rule triple_choose [OF asked_in_mode asking_keep_warm [OF assms]],
      rule triple_choose [OF relight_in_mode asking_reignite [OF assms]], rule triple_keeps [OF keeps_basic(1)])

lemma steering_item:
  assumes "dget c0 ''mode'' \<noteq> None"
  shows "triple (\<lambda>s. steered c0 (nt_control s)) (process_item env pellets i) (\<lambda>_ s. steered c0 (nt_control s))"
proof -
  have rest: "triple (\<lambda>s. steered c0 (nt_control s)) (abind store_note (\<lambda>_. if b then send_event e else areturn ())) (\<lambda>_ s. steered c0 (nt_control s))" for b e
    by (intro triple_keeps keeps_steered preserves_intros)
  have "triple (\<lambda>s. steered c0 (nt_control s)) (if \<not> r then areturn () else abind (item_get i ''type'') (\<lambda>kind.
      abind (watch_item env pellets i kind) (\<lambda>timer_fired. abind (react env i kind timer_fired) (\<lambda>_.
      abind store_note (\<lambda>_. if timer_fired then send_event ''Timer_Expired'' else areturn ())))))
    (\<lambda>_ s. steered c0 (nt_control s))" for r
    by (cases r) (simp_all add: triple_keeps triple_skip [OF keeps_steered [OF reads_only(4)]]
        triple_skip [OF keeps_steered [OF helm_watch]] triple_bind [OF reacting [OF assms] rest])
  then show ?thesis
    unfolding process_item_def by (rule triple_skip [OF keeps_steered [OF reads_only(7)]])
qed

lemma steering_items:
  assumes "dget c0 ''mode'' \<noteq> None"
  shows "triple (\<lambda>s. steered c0 (nt_control s)) (process_items env pellets js) (\<lambda>_ s. steered c0 (nt_control s))"
proof (induction js)
  case Nil
  show ?case by (simp add: triple_def)
next
  case (Cons i js)
  show ?case by (simp only: process_items.simps) (rule triple_bind [OF steering_item [OF assms] Cons.IH])
qed

text \<open>C4: A notification never starts a fire. A check that returns leaves the mode as it is, or shuts a cook down (\<open>Startup\<close>,
  \<open>Reignite\<close>, \<open>Smoke\<close>, \<open>Hold\<close>), or puts one that burns (\<open>Smoke\<close>, \<open>Hold\<close>) on keep-warm or reignition, and a changed mode
  is always flagged for the control loop. In every other mode, a recipe's included, neither the mode nor the setpoint nor Smoke
  Plus nor the safety data change; and whatever it does, it spends none of the reignition retries.\<close>

theorem notification_never_starts_a_fire:
  assumes "check_notify env s = (t, Inr done_all)" "dget (nt_control s) ''mode'' = Some m"
  shows "\<exists>m'. dget (nt_control t) ''mode'' = Some m'
    \<and> (m' = m \<or> (m' = VStr M_SHUTDOWN \<and> member m COOKING) \<or> (m' \<in> {VStr M_HOLD, VStr M_REIGNITE} \<and> member m [M_SMOKE, M_HOLD]))
    \<and> (m' \<noteq> m \<longrightarrow> dget (nt_control t) ''updated'' = Some (VBool True))
    \<and> (\<not> member m COOKING \<longrightarrow>
         (\<forall>k \<in> {''updated'', ''primary_setpoint'', ''s_plus'', ''safety''}. dget (nt_control t) k = dget (nt_control s) k))
    \<and> retries (nt_control t) = retries (nt_control s)"
proof -
  let ?P = "\<lambda>u. steered (nt_control s) (nt_control u)"
  have *: "dget (nt_control s) ''mode'' \<noteq> None" using assms(2) by simp
  have "triple ?P (check_notify env) (\<lambda>_. ?P)"
    unfolding check_notify_def
    by (intro triple_skip [OF keeps_steered [OF helm_calls(5)]] triple_skip [OF keeps_steered [OF reads_only(2)]])
      (auto split: option.split intro!: triple_keeps triple_skip [OF keeps_steered [OF reads_only(2)]] triple_bind [OF steering_items [OF *]])
  moreover have "?P s" by (simp add: steered_def moves_def)
  ultimately have "?P t" using assms(1) by (rule tripleD)
  with assms(2) show ?thesis by (auto simp: steered_def moves_def)
qed


section \<open>One item at a time\<close>

definition items_of :: "notice \<Rightarrow> pyval list" where
  "items_of s = (case dget (nt_control s) ''notify_data'' of Some (VList items) \<Rightarrow> items | _ \<Rightarrow> [])"

lemma note_items_Inr: "note_items s = (t, Inr items) \<Longrightarrow> t = s \<and> dget (nt_control s) ''notify_data'' = Some (VList items)"
  by (auto simp: note_items_def note_member_def dindex_def as_list_def elim!: abind_InrE split: option.splits pyval.splits)

lemma item_at_Inr: "item_at i s = (t, Inr d) \<Longrightarrow> t = s \<and> i < length (items_of s) \<and> items_of s ! i = VDict d"
  by (auto simp: item_at_def list_index_def as_dict_def items_of_def elim!: abind_InrE ebind_InrE dest!: note_items_Inr
      split: if_splits pyval.splits)

lemma put_item_Inr:
  "put_item i k v s = (t, Inr u) \<Longrightarrow> \<exists>d. i < length (items_of s) \<and> items_of s ! i = VDict d
     \<and> t = s\<lparr>nt_control := dput ''notify_data'' (VList ((items_of s)[i := VDict (dput k v d)])) (nt_control s)\<rparr>"
  by (auto simp: put_item_def note_assign_def items_of_def elim!: abind_InrE dest!: note_items_Inr item_at_Inr)

lemma put_item_Inl: "put_item i k v s = (t, Inl e) \<Longrightarrow> t = s"
proof -
  have "fst (note_items s) = s" "fst (item_at i s) = s" using reads_only(2,3) [of id] by (simp_all add: preserves_def)
  moreover assume "put_item i k v s = (t, Inl e)"
  ultimately show ?thesis
    by (cases "note_items s"; cases "item_at i s"; auto simp: put_item_def abind_def note_assign_def split: sum.splits)
qed

text \<open>The loop touches one item and leaves the others.\<close>

definition others :: "nat \<Rightarrow> notice \<Rightarrow> nat \<times> pyval list \<times> pyval list" where
  "others i s = (length (items_of s), take i (items_of s), drop (Suc i) (items_of s))"

lemma others_put [preserves_intros]: "preserves (others i) (put_item i k v)"
  unfolding preserves_def
proof
  fix s
  obtain t r where run: "put_item i k v s = (t, r)" by force
  show "others i (fst (put_item i k v s)) = others i s"
  proof (cases r)
    case (Inl e)
    with run put_item_Inl [of i k v s t e] show ?thesis by simp
  next
    case (Inr u)
    with run put_item_Inr [of i k v s t u] show ?thesis by (auto simp: others_def items_of_def)
  qed
qed

lemma others_assign: "k \<noteq> ''notify_data'' \<Longrightarrow> preserves (others i) (note_assign k v)"
  by (simp add: note_assign_def preserves_def others_def items_of_def)

lemma others_calls [preserves_intros]:
  "preserves (others i) (send_event e)" "preserves (others i) store_note" "preserves (others i) mark_triggered"
  "preserves (others i) (note_assign_in ''safety'' j v)"
  unfolding mark_triggered_def send_event_def store_note_def note_assign_in_def
  by (intro preserves_intros others_assign; simp add: others_def items_of_def)+

lemma others_watch [preserves_intros]: "preserves (others i) (watch_item env pellets i kind)"
  unfolding watch_item_def watch_probe_def refresh_eta_def reach_target_def cross_limit_def announce_limit_def leave_limit_def trigger_step_def
    watch_timer_def watch_hopper_def watch_test_def
  by (intro preserves_intros others_assign; simp add: others_def items_of_def)+

lemma others_react [preserves_intros]: "preserves (others i) (react env i kind f)"
  unfolding react_def ask_shutdown_def ask_keep_warm_def ask_reignite_def
  by (intro preserves_intros others_assign; simp)+

lemma others_item [preserves_intros]: "preserves (others i) (process_item env pellets i)"
  unfolding process_item_def by (intro preserves_intros)


section \<open>Alerts on the rising edge\<close>

definition ALERTS :: "string list" where
  "ALERTS = [''Probe_Temp_Achieved'', ''Probe_Temp_Limit_Alarm'']"

definition alerts :: "notice \<Rightarrow> string list" where
  "alerts s = filter (\<lambda>e. e \<in> set ALERTS) (notified (nt_world s))"

definition flag :: "string \<Rightarrow> pydict \<Rightarrow> bool" where
  "flag k d = (case dget d k of None \<Rightarrow> False | Some v \<Rightarrow> truthy v)"

definition is_kind :: "pydict \<Rightarrow> string list \<Rightarrow> bool" where
  "is_kind d ks = (case dget d ''type'' of None \<Rightarrow> False | Some v \<Rightarrow> member v ks)"

text \<open>What one item announces, and what it is afterwards, as the reading asks for.\<close>

definition item_alerts :: "sampled \<Rightarrow> pyval \<Rightarrow> string list" where
  "item_alerts sample v =
     (case v of
        VDict d \<Rightarrow>
          if \<not> flag ''req'' d \<or> condition_met sample d \<noteq> Inr True then []
          else if is_kind d [''probe''] then [''Probe_Temp_Achieved'']
          else if is_kind d LIMITS \<and> \<not> flag ''triggered'' d then [''Probe_Temp_Limit_Alarm'']
          else []
      | _ \<Rightarrow> [])"

definition settled_item :: "sampled \<Rightarrow> pyval \<Rightarrow> pyval \<Rightarrow> bool" where
  "settled_item sample v w \<longleftrightarrow>
     (\<forall>d. v = VDict d \<longrightarrow> (\<exists>d'. w = VDict d' \<and>
        (flag ''req'' d \<longrightarrow> is_kind d [''probe''] \<longrightarrow> condition_met sample d = Inr True \<longrightarrow> \<not> flag ''req'' d') \<and>
        (flag ''req'' d \<longrightarrow> is_kind d LIMITS \<longrightarrow> (flag ''triggered'' d' \<longleftrightarrow> condition_met sample d = Inr True))))"

text \<open>The \<open>i\<close>-th item and the alerts sent so far.\<close>

definition at_item :: "nat \<Rightarrow> pydict \<Rightarrow> string list \<Rightarrow> notice \<Rightarrow> bool" where
  "at_item i d es s \<longleftrightarrow> i < length (items_of s) \<and> items_of s ! i = VDict d \<and> alerts s = es"

definition board :: "notice \<Rightarrow> pyval list \<times> string list" where
  "board s = (items_of s, alerts s)"

lemma keeps_board: "preserves board m \<Longrightarrow> keeps (at_item i d es) m"
  by (rule keeps_preserves) (auto simp: board_def at_item_def)

lemma board_assign: "k \<noteq> ''notify_data'' \<Longrightarrow> preserves board (note_assign k v)"
  by (simp add: note_assign_def preserves_def board_def items_of_def alerts_def)

lemma board_calls [preserves_intros]:
  "preserves board store_note" "preserves board mark_triggered" "preserves board (trigger_step f)"
  "preserves board (note_assign_in ''safety'' j v)"
  unfolding mark_triggered_def store_note_def note_assign_in_def trigger_step_def
  by (intro preserves_intros board_assign; simp add: board_def items_of_def alerts_def write_world_def)+

lemma at_put: "triple (at_item i d es) (put_item i k v) (\<lambda>_. at_item i (dput k v d) es)"
  by (rule tripleI) (drule put_item_Inr, auto simp: at_item_def items_of_def alerts_def)

lemma at_get: "triple (at_item i d es) (item_get i k) (\<lambda>v s. at_item i d es s \<and> dget d k = Some v)"
  by (rule tripleI) (auto simp: item_get_def at_item_def dindex_def elim!: abind_InrE dest!: item_at_Inr split: option.splits)

lemma at_read: "triple (at_item i d es) (item_at i) (\<lambda>v s. at_item i d es s \<and> v = d)"
  by (rule tripleI) (auto simp: at_item_def dest!: item_at_Inr)

lemma at_send: "triple (at_item i d es) (send_event e) (\<lambda>_. at_item i d (es @ (if e \<in> set ALERTS then [e] else [])))"
  by (auto simp: triple_def send_event_def at_item_def items_of_def alerts_def)


lemma at_drop: "preserves id m \<Longrightarrow> (\<And>x. triple P (f x) Q) \<Longrightarrow> triple P (abind m f) Q"
  by (rule triple_skip [OF preserves_id_keeps])

lemma reaching:
  "triple (at_item i d es) (reach_target sample i)
     (\<lambda>_. at_item i (dput ''eta'' VNone (dput ''target'' (VInt 0) (dput ''req'' (VBool False) d))) (es @ [''Probe_Temp_Achieved'']))"
  unfolding reach_target_def
  apply (rule at_drop [OF reads_only(4)])
  apply (rule at_drop, rule preserves_intros)
  apply (rule at_drop, rule preserves_intros)
  apply (rule triple_bind [OF at_send])
  apply (rule triple_skip [OF keeps_board], rule preserves_intros)
  apply (rule triple_bind [OF at_put])
  apply (rule triple_bind [OF at_put])
  apply (rule triple_weaken [OF at_put])
   apply (simp_all add: ALERTS_def)
  done

text \<open>A limit item after its reading: the flag is what the reading says.\<close>

definition latched :: "nat \<Rightarrow> bool \<Rightarrow> string list \<Rightarrow> notice \<Rightarrow> bool" where
  "latched i b es s \<longleftrightarrow> (\<exists>d. at_item i d es s \<and> flag ''triggered'' d = b)"

lemma announcing: "triple (at_item i d es) (announce_limit i) (\<lambda>_. latched i True (es @ [''Probe_Temp_Limit_Alarm'']))"
  unfolding announce_limit_def
  apply (rule at_drop [OF reads_only(4)])
  apply (rule at_drop [OF reads_only(4)])
  apply (rule triple_bind [OF at_send])
  apply (rule triple_weaken [OF at_put])
   apply (auto simp: ALERTS_def latched_def flag_def)
  done

lemma crossing:
  "triple (at_item i d es) (cross_limit i)
     (\<lambda>_. latched i True (es @ (if flag ''triggered'' d then [] else [''Probe_Temp_Limit_Alarm''])))"
proof -
  have "triple (\<lambda>s. at_item i d es s \<and> dget d ''triggered'' = Some v) (if truthy v then areturn () else announce_limit i)
    (\<lambda>_. latched i True (es @ (if flag ''triggered'' d then [] else [''Probe_Temp_Limit_Alarm''])))" for v
    using announcing [of i d es] by (intro triple_pure) (auto simp: triple_def latched_def flag_def)
  then show ?thesis unfolding cross_limit_def by (rule triple_bind [OF at_get])
qed

lemma leaving: "triple (at_item i d es) (leave_limit i) (\<lambda>_. latched i False es)"
proof -
  have "triple (at_item i d es) (put_item i ''triggered'' (VBool False)) (\<lambda>_. latched i False es)"
    by (rule triple_weaken [OF at_put]) (auto simp: latched_def flag_def)
  then have "triple (\<lambda>s. at_item i d es s \<and> dget d ''triggered'' = Some v)
    (if truthy v then put_item i ''triggered'' (VBool False) else areturn ()) (\<lambda>_. latched i False es)" for v
    by (intro triple_pure) (auto simp: triple_def latched_def flag_def)
  then show ?thesis unfolding leave_limit_def by (rule triple_bind [OF at_get])
qed


lemma triple_ex: "(\<And>x. triple (P x) m Q) \<Longrightarrow> triple (\<lambda>s. \<exists>x. P x s) m Q"
  by (auto simp: triple_def)

lemma triple_lift: "(\<And>x. r = Inr x \<Longrightarrow> triple P (f x) Q) \<Longrightarrow> triple P (abind (alift r) f) Q"
  by (cases r) (auto simp: triple_def abind_def alift_def)

definition same_but :: "string list \<Rightarrow> pydict \<Rightarrow> pydict \<Rightarrow> bool" where
  "same_but ks d d' \<longleftrightarrow> (\<forall>k. k \<notin> set ks \<longrightarrow> dget d' k = dget d k)"

lemma same_but_flag: "same_but ks d d' \<Longrightarrow> k \<notin> set ks \<Longrightarrow> flag k d' = flag k d"
  by (simp add: same_but_def flag_def)

lemma same_but_condition: "same_but [''eta''] d d' \<Longrightarrow> condition_met sample d' = condition_met sample d"
  by (simp add: same_but_def condition_met_def dindex_def)

definition heeded :: "sampled \<Rightarrow> nat \<Rightarrow> pydict \<Rightarrow> string list \<Rightarrow> notice \<Rightarrow> bool" where
  "heeded sample i d es s \<longleftrightarrow>
     (\<exists>d'. at_item i d' (es @ item_alerts sample (VDict d)) s \<and> settled_item sample (VDict d) (VDict d'))"

lemma watching_eta:
  "triple (at_item i d es) (if b then refresh_eta env i else areturn ()) (\<lambda>_ s. \<exists>d'. at_item i d' es s \<and> same_but [''eta''] d d')"
proof -
  have "triple (at_item i d es) (refresh_eta env i) (\<lambda>_ s. \<exists>d'. at_item i d' es s \<and> same_but [''eta''] d d')"
    unfolding refresh_eta_def
    apply (rule at_drop [OF reads_only(4)])
    apply (rule at_drop, rule preserves_intros)
    apply (rule at_drop [OF reads_only(4)])
    apply (rule at_drop, rule preserves_intros)
    apply (rule triple_weaken [OF at_put])
     apply (auto simp: same_but_def)
    done
  then show ?thesis by (auto simp: triple_def same_but_def)
qed

lemma watching_probe:
  assumes "flag ''req'' d" "dget d ''type'' = Some kind" "member kind (''probe'' # LIMITS)"
  shows "triple (at_item i d es) (watch_probe env sample i kind) (\<lambda>_. heeded sample i d es)"
  unfolding watch_probe_def
proof (rule triple_bind [OF watching_eta], rule triple_ex, rule triple_pure, rule triple_bind [OF at_read], rule triple_pure, clarify,
    rule triple_lift)
  fix d' met
  assume same: "same_but [''eta''] d d'" and met: "condition_met sample d' = Inr met"
  have trig: "flag ''triggered'' d' = flag ''triggered'' d" "flag ''req'' d'" using same_but_flag [OF same] assms(1) by simp_all
  have met': "condition_met sample d = Inr met" using met same_but_condition [OF same] by simp
  have kinds: "is_kind d [''probe''] \<longleftrightarrow> kind = VStr ''probe''" "is_kind d LIMITS \<longleftrightarrow> kind \<noteq> VStr ''probe''"
    using assms(2,3) by (auto simp: is_kind_def member_def LIMITS_def)
  show "triple (at_item i d' es) (if py_eq kind (VStr ''probe'') then if met then reach_target sample i else areturn ()
      else if met then cross_limit i else leave_limit i) (\<lambda>_. heeded sample i d es)"
  proof (cases "kind = VStr ''probe''")
    case True
    have "triple (at_item i d' es) (if met then reach_target sample i else areturn ()) (\<lambda>_. heeded sample i d es)"
    proof (cases met)
      case True
      have "triple (at_item i d' es) (reach_target sample i) (\<lambda>_. heeded sample i d es)"
        by (rule triple_weaken [OF reaching])
          (use assms met' kinds \<open>kind = _\<close> True in \<open>auto simp: heeded_def item_alerts_def settled_item_def flag_def\<close>)
      with True show ?thesis by simp
    qed (use assms met' kinds True in \<open>auto simp: triple_def heeded_def item_alerts_def settled_item_def\<close>)
    with True show ?thesis by simp
  next
    case False
    have "triple (at_item i d' es) (if met then cross_limit i else leave_limit i) (\<lambda>_. heeded sample i d es)"
    proof (cases met)
      case True
      have "triple (at_item i d' es) (cross_limit i) (\<lambda>_. heeded sample i d es)"
        by (rule triple_weaken [OF crossing])
          (use assms met' kinds False True trig in \<open>auto simp: latched_def heeded_def item_alerts_def settled_item_def split: if_splits\<close>)
      with True show ?thesis by simp
    next
      case False
      have "triple (at_item i d' es) (leave_limit i) (\<lambda>_. heeded sample i d es)"
        by (rule triple_weaken [OF leaving])
          (use assms met' kinds \<open>kind \<noteq> _\<close> False in \<open>auto simp: latched_def heeded_def item_alerts_def settled_item_def\<close>)
      with False show ?thesis by simp
    qed
    with False show ?thesis by simp
  qed
qed


text \<open>Whatever else a check does to the item and the board keeps the item heeded.\<close>

lemma keeps_put:
  assumes "\<And>d. Q d \<Longrightarrow> Q (dput k v d)"
  shows "keeps (\<lambda>s. \<exists>d. at_item i d es s \<and> Q d) (put_item i k v)"
  unfolding keeps_def
proof (intro allI impI)
  fix s
  assume "\<exists>d. at_item i d es s \<and> Q d"
  then obtain d where d: "at_item i d es s" "Q d" by blast
  obtain t r where run: "put_item i k v s = (t, r)" by force
  show "\<exists>d. at_item i d es (fst (put_item i k v s)) \<and> Q d"
  proof (cases r)
    case (Inl e)
    with run put_item_Inl [of i k v s t e] d show ?thesis by auto
  next
    case (Inr u)
    with run tripleD [OF at_put d(1)] assms [OF d(2)] show ?thesis by auto
  qed
qed

definition item_with :: "nat \<Rightarrow> string list \<Rightarrow> (pydict \<Rightarrow> bool) \<Rightarrow> notice \<Rightarrow> bool" where
  "item_with i es Q s \<longleftrightarrow> (\<exists>d. at_item i d es s \<and> Q d)"

lemma item_with_put: "(\<And>d. Q d \<Longrightarrow> Q (dput k v d)) \<Longrightarrow> keeps (item_with i es Q) (put_item i k v)"
  unfolding item_with_def [abs_def] by (rule keeps_put)

lemma item_with_board: "preserves board m \<Longrightarrow> keeps (item_with i es Q) m"
  by (rule keeps_preserves) (auto simp: board_def item_with_def at_item_def)

lemma item_with_send: "e \<notin> set ALERTS \<Longrightarrow> keeps (item_with i es Q) (send_event e)"
  by (intro item_with_board) (simp add: preserves_def send_event_def board_def items_of_def alerts_def)

lemma heeded_with: "heeded sample i d es = item_with i (es @ item_alerts sample (VDict d)) (\<lambda>d'. settled_item sample (VDict d) (VDict d'))"
  by (simp add: heeded_def item_with_def fun_eq_iff)

lemma settled_dput:
  "k \<notin> {''req'', ''triggered''} \<Longrightarrow> settled_item sample v (VDict d) \<Longrightarrow> settled_item sample v (VDict (dput k w d))"
  by (auto simp: settled_item_def flag_def)

lemma heeded_react: "keeps (heeded sample i d es) (react env i kind f)"
  unfolding react_def ask_shutdown_def ask_keep_warm_def ask_reignite_def heeded_with
  by (intro keeps_bind keeps_if item_with_put keeps_basic) (auto intro!: item_with_board preserves_intros board_assign settled_dput)

lemma plain_watch:
  assumes "\<not> member kind (''probe'' # LIMITS)"
  shows "keeps (item_with i es (\<lambda>_. True)) (watch_item env pellets i kind)"
proof -
  let ?I = "item_with i es (\<lambda>_. True)"
  have "keeps ?I (watch_timer env i)"
    unfolding watch_timer_def
    by (intro keeps_bind keeps_if keeps_prod item_with_put keeps_basic) (auto intro!: item_with_board preserves_intros board_assign)
  moreover have "keeps ?I (watch_hopper env pellets i)"
    unfolding watch_hopper_def
    by (intro keeps_bind keeps_if item_with_put keeps_basic item_with_send)
      (auto intro!: item_with_board preserves_intros simp: ALERTS_def board_def items_of_def alerts_def)
  moreover have "keeps ?I (watch_test env i)"
    unfolding watch_test_def
    by (intro keeps_bind item_with_put item_with_send) (auto simp: ALERTS_def)
  ultimately show ?thesis
    unfolding watch_item_def using assms by (auto intro: keeps_bind)
qed

lemma processing:
  assumes "wa_sample env = Some sample"
  shows "triple (at_item i d es) (process_item env pellets i) (\<lambda>_. heeded sample i d es)"
proof -
  have finish: "keeps (heeded sample i d es) (abind store_note (\<lambda>_. if b then send_event ''Timer_Expired'' else areturn ()))" for b
    unfolding heeded_with
    by (intro keeps_bind keeps_if keeps_basic item_with_send item_with_board board_calls) (simp add: ALERTS_def)
  have idle: "item_with i es (\<lambda>_. True) s \<Longrightarrow> heeded sample i d es s"
    if "\<not> flag ''req'' d \<or> \<not> is_kind d (''probe'' # LIMITS)" for s
    using that by (auto simp: heeded_def item_with_def item_alerts_def settled_item_def is_kind_def member_def split: option.splits)
  have watch: "triple (at_item i d es) (watch_item env pellets i kind) (\<lambda>_. heeded sample i d es)"
    if "flag ''req'' d" "dget d ''type'' = Some kind" for kind
  proof (cases "member kind (''probe'' # LIMITS)")
    case True
    with assms show ?thesis
      by (auto simp: watch_item_def intro!: triple_bind [OF watching_probe [OF that True]] triple_return)
  next
    case False
    show ?thesis
      by (rule triple_weaken [OF triple_keeps [OF plain_watch [OF False]]])
        (use that False idle in \<open>auto simp: item_with_def is_kind_def\<close>)
  qed
  have rest: "triple (at_item i d es) (abind (item_get i ''type'') (\<lambda>kind. abind (watch_item env pellets i kind) (\<lambda>timer_fired.
      abind (react env i kind timer_fired) (\<lambda>_. abind store_note (\<lambda>_. if timer_fired then send_event ''Timer_Expired'' else areturn ())))))
    (\<lambda>_. heeded sample i d es)" if "flag ''req'' d"
    by (rule triple_bind [OF at_get], rule triple_pure, rule triple_bind [OF watch [OF that]], assumption,
        rule triple_skip [OF heeded_react], rule triple_keeps [OF finish])
  have "triple (at_item i d es) (truthy_of i ''req'') (\<lambda>r s. at_item i d es s \<and> r = flag ''req'' d)"
    unfolding truthy_of_def by (rule triple_bind [OF at_get]) (auto simp: triple_def flag_def)
  then show ?thesis
    unfolding process_item_def
  proof (rule triple_bind, intro triple_pure)
    fix r
    assume "r = flag ''req'' d"
    then show "triple (at_item i d es) (if \<not> r then areturn () else abind (item_get i ''type'') (\<lambda>kind.
        abind (watch_item env pellets i kind) (\<lambda>timer_fired. abind (react env i kind timer_fired) (\<lambda>_.
        abind store_note (\<lambda>_. if timer_fired then send_event ''Timer_Expired'' else areturn ())))))
      (\<lambda>_. heeded sample i d es)"
      using rest idle by (cases r) (auto simp: triple_def item_with_def)
  qed
qed


lemma process_item_dict: "process_item env pellets i s = (t, Inr u) \<Longrightarrow> i < length (items_of s) \<and> (\<exists>d. items_of s ! i = VDict d)"
  by (auto simp: process_item_def truthy_of_def item_get_def elim!: abind_InrE dest!: item_at_Inr)

lemma processing_step:
  assumes "wa_sample env = Some sample" "process_item env pellets i s = (t, Inr u)"
  shows "alerts t = alerts s @ item_alerts sample (items_of s ! i) \<and> settled_item sample (items_of s ! i) (items_of t ! i)
    \<and> length (items_of t) = length (items_of s) \<and> (\<forall>j. j \<noteq> i \<longrightarrow> j < length (items_of s) \<longrightarrow> items_of t ! j = items_of s ! j)"
proof -
  obtain d where d: "i < length (items_of s)" "items_of s ! i = VDict d" using process_item_dict [OF assms(2)] by blast
  then have "at_item i d (alerts s) s" by (simp add: at_item_def)
  from tripleD [OF processing [OF assms(1)] this assms(2)] d
  have "alerts t = alerts s @ item_alerts sample (items_of s ! i)" "settled_item sample (items_of s ! i) (items_of t ! i)"
    by (auto simp: heeded_def at_item_def)
  moreover have o: "others i t = others i s" by (rule preservesD [OF others_item assms(2)])
  moreover have "items_of t ! j = items_of s ! j" if "j \<noteq> i" "j < length (items_of s)" for j
  proof (cases "j < i")
    case True
    with o that have "take i (items_of t) ! j = take i (items_of s) ! j" by (simp add: others_def)
    with True show ?thesis by simp
  next
    case False
    with that obtain k where k: "j = Suc i + k" using less_iff_Suc_add [of i j] by auto
    from o have "drop (Suc i) (items_of t) ! k = drop (Suc i) (items_of s) ! k" "length (items_of t) = length (items_of s)"
      by (simp_all add: others_def)
    with that(2) k show ?thesis by simp
  qed
  ultimately show ?thesis by (simp add: others_def)
qed

lemma processing_loop:
  assumes "wa_sample env = Some sample" "process_items env pellets [i..<length (items_of s)] s = (t, Inr u)"
    "i \<le> length (items_of s)"
  shows "alerts t = alerts s @ concat (map (item_alerts sample) (drop i (items_of s)))
    \<and> length (items_of t) = length (items_of s) \<and> (\<forall>j < i. items_of t ! j = items_of s ! j)
    \<and> (\<forall>j. i \<le> j \<longrightarrow> j < length (items_of s) \<longrightarrow> settled_item sample (items_of s ! j) (items_of t ! j))"
  using assms(2,3)
proof (induction "length (items_of s) - i" arbitrary: i s)
  case 0
  then show ?case by simp
next
  case (Suc n)
  then have i: "i < length (items_of s)" by simp
  with Suc.prems(1) obtain w v where w: "process_item env pellets i s = (w, Inr v)"
    "process_items env pellets [Suc i..<length (items_of s)] w = (t, Inr u)"
    by (auto simp: upt_conv_Cons elim!: abind_InrE)
  from processing_step [OF assms(1) w(1)] have step: "alerts w = alerts s @ item_alerts sample (items_of s ! i)"
    "settled_item sample (items_of s ! i) (items_of w ! i)" "length (items_of w) = length (items_of s)"
    "\<And>j. j \<noteq> i \<Longrightarrow> j < length (items_of s) \<Longrightarrow> items_of w ! j = items_of s ! j" by auto
  have IH: "alerts t = alerts w @ concat (map (item_alerts sample) (drop (Suc i) (items_of w)))
    \<and> length (items_of t) = length (items_of w) \<and> (\<forall>j < Suc i. items_of t ! j = items_of w ! j)
    \<and> (\<forall>j. Suc i \<le> j \<longrightarrow> j < length (items_of w) \<longrightarrow> settled_item sample (items_of w ! j) (items_of t ! j))"
    using Suc.hyps(2) Suc.prems(2) i w(2) step(3) by (intro Suc.hyps(1)) simp_all
  have "drop (Suc i) (items_of w) = drop (Suc i) (items_of s)"
    using step(3,4) by (intro nth_equalityI) auto
  with IH step(1) i have "alerts t = alerts s @ concat (map (item_alerts sample) (drop i (items_of s)))"
    by (simp add: Cons_nth_drop_Suc [symmetric])
  moreover have "settled_item sample (items_of s ! j) (items_of t ! j)" if "i \<le> j" "j < length (items_of s)" for j
    using IH step that by (cases "j = i") auto
  ultimately show ?case using IH step(3,4) i by simp
qed

lemma board_prune: "preserves board prune_cooldowns"
  unfolding prune_cooldowns_def by (intro preserves_intros) (simp add: board_def items_of_def alerts_def)

text \<open>C5: Alerts fire on the rising edge. A check that returns with readings has sent, in the order of the items, exactly one
  \<open>Probe_Temp_Achieved\<close> for each requested target that is reached and one \<open>Probe_Temp_Limit_Alarm\<close> for each requested limit
  that is crossed and was not before. Afterwards a reached target is no longer requested, and a requested limit's flag says
  whether it is crossed now: while it stays crossed nothing is sent again, and once it is not the alarm is armed again.\<close>

theorem alerts_on_rising_edge:
  assumes "check_notify env s = (t, Inr True)" "wa_sample env = Some sample"
  shows "alerts t = alerts s @ concat (map (item_alerts sample) (items_of s))
    \<and> list_all2 (settled_item sample) (items_of s) (items_of t)"
proof -
  from assms(1) obtain w w' pellets items u where w: "prune_cooldowns s = (w, Inr ())"
    "note_items w = (w', Inr items)" "process_items env pellets [0..<length items] w' = (t, Inr u)"
    by (auto simp: check_notify_def split: option.splits if_splits elim!: abind_InrE)
  have "board w = board s" by (rule preservesD [OF board_prune w(1)])
  moreover have "w' = w" "items = items_of w" using note_items_Inr [OF w(2)] by (simp_all add: items_of_def)
  ultimately show ?thesis
    using processing_loop [OF assms(2), of pellets 0 w t u] w(3) by (simp add: board_def list_all2_conv_all_nth)
qed


section \<open>A check that cannot return\<close>

lemma triple_const: "triple (\<lambda>_. A) m (\<lambda>_ _. A)"
  by (simp add: triple_def)

lemma requested_item:
  "triple (at_item i d es) (truthy_of i ''req'') (\<lambda>r s. at_item i d es s \<and> r = flag ''req'' d)"
  unfolding truthy_of_def by (rule triple_bind [OF at_get]) (auto simp: triple_def flag_def)

text \<open>An item of a probe that was processed and requested had a reading its condition could be compared with.\<close>

lemma probe_is_read:
  assumes "flag ''req'' d" "is_kind d (''probe'' # LIMITS)" "wa_sample env = Some sample"
  shows "triple (at_item i d es) (process_item env pellets i) (\<lambda>_ _. (is_kind d [''probe''] \<longrightarrow> wa_update_eta env
      \<longrightarrow> (\<exists>l. dget d ''label'' = Some (VStr l) \<and> probe_readings l (drop (length (wa_rows env) - 400) (wa_rows env)) \<noteq> []))
    \<and> (\<exists>b. condition_met sample d = Inr b))" (is "triple _ _ (\<lambda>_ _. ?E \<and> ?C)")
proof -
  have eta: "triple (at_item i d es) (refresh_eta env i) (\<lambda>_ s. (\<exists>d'. at_item i d' es s \<and> same_but [''eta''] d d') \<and> ?E)"
  proof (rule tripleI)
    fix s t u
    assume s: "at_item i d es s" and run: "refresh_eta env i s = (t, Inr u)"
    have "?E"
      using run s by (auto simp: refresh_eta_def item_get_def dindex_def as_key_def estimate_eta_def py_max_of_def at_item_def ebind_Inr_iff
          elim!: abind_InrE dest!: item_at_Inr split: option.splits pyval.splits list.splits)
    with tripleD [OF watching_eta [where b = True, simplified] s run]
    show "(\<exists>d'. at_item i d' es t \<and> same_but [''eta''] d d') \<and> ?E" by blast
  qed
  have first: "triple (at_item i d es) (if py_eq kind (VStr ''probe'') \<and> wa_update_eta env then refresh_eta env i else areturn ())
      (\<lambda>_ s. (\<exists>d'. at_item i d' es s \<and> same_but [''eta''] d d') \<and> ?E)" if "dget d ''type'' = Some kind" for kind
  proof (cases "py_eq kind (VStr ''probe'') \<and> wa_update_eta env")
    case True
    with eta show ?thesis by simp
  next
    case False
    with that have ?E by (auto simp: is_kind_def member_def)
    with False show ?thesis by (auto simp: triple_def same_but_def)
  qed
  have read: "triple (at_item i d es) (watch_probe env sample i kind) (\<lambda>_ _. ?E \<and> ?C)" if "dget d ''type'' = Some kind" for kind
    unfolding watch_probe_def
  proof (rule triple_bind [OF first [OF that]], rule triple_pure, rule triple_ex, rule triple_pure, rule triple_bind [OF at_read],
      rule triple_pure, clarify, rule triple_lift)
    fix d' b and m :: "unit note_action"
    assume "?E" and same: "same_but [''eta''] d d'" and met: "condition_met sample d' = Inr b"
    from met have "condition_met sample d = Inr b" unfolding same_but_condition [OF same] .
    with \<open>?E\<close> have "?E \<and> ?C" by blast
    then show "triple (at_item i d' es) (if py_eq kind (VStr ''probe'') then if b then reach_target sample i else areturn ()
        else if b then cross_limit i else leave_limit i) (\<lambda>_ _. ?E \<and> ?C)" by (simp add: triple_def)
  qed
  have watch: "triple (at_item i d es) (watch_item env pellets i kind) (\<lambda>_ _. ?E \<and> ?C)" if "dget d ''type'' = Some kind" for kind
    using triple_bind [OF read [OF that] triple_const] assms(2,3) that by (simp add: watch_item_def is_kind_def)
  show ?thesis
    unfolding process_item_def
  proof (rule triple_bind [OF requested_item], rule triple_pure)
    fix r
    assume "r = flag ''req'' d"
    moreover have "triple (at_item i d es) (abind (item_get i ''type'') (\<lambda>kind. abind (watch_item env pellets i kind) (\<lambda>timer_fired.
        abind (react env i kind timer_fired) (\<lambda>_. abind store_note (\<lambda>_. if timer_fired then send_event ''Timer_Expired'' else areturn ())))))
      (\<lambda>_ _. ?E \<and> ?C)"
      by (rule triple_bind [OF at_get], rule triple_pure, rule triple_bind [OF watch], assumption, rule triple_const)
    ultimately show "triple (at_item i d es) (if \<not> r then areturn () else abind (item_get i ''type'') (\<lambda>kind.
        abind (watch_item env pellets i kind) (\<lambda>timer_fired. abind (react env i kind timer_fired) (\<lambda>_.
        abind store_note (\<lambda>_. if timer_fired then send_event ''Timer_Expired'' else areturn ()))))) (\<lambda>_ _. ?E \<and> ?C)"
      using assms(1) by simp
  qed
qed

lemma loop_visits:
  assumes "process_items env pellets [i..<length (items_of s)] s = (t, Inr u)" "wa_sample env = Some sample"
    "i \<le> j" "j < length (items_of s)"
  shows "\<exists>w w' v. process_item env pellets j w = (w', Inr v) \<and> items_of w ! j = items_of s ! j"
  using assms(1,3,4)
proof (induction "length (items_of s) - i" arbitrary: i s)
  case (Suc n)
  then obtain w v where w: "process_item env pellets i s = (w, Inr v)"
    "process_items env pellets [Suc i..<length (items_of s)] w = (t, Inr u)"
    by (auto simp: upt_conv_Cons elim!: abind_InrE)
  from processing_step [OF assms(2) w(1)] have step: "length (items_of w) = length (items_of s)"
    "\<And>j. j \<noteq> i \<Longrightarrow> j < length (items_of s) \<Longrightarrow> items_of w ! j = items_of s ! j" by auto
  show ?case
  proof (cases "j = i")
    case True
    with w(1) show ?thesis by blast
  next
    case False
    with Suc.hyps(2) Suc.prems step w(2) have "\<exists>x x' v. process_item env pellets j x = (x', Inr v) \<and> items_of x ! j = items_of w ! j"
      by (intro Suc.hyps(1) [where i = "Suc i" and s = w]) auto
    with False Suc.prems step(2) show ?thesis by metis
  qed
qed simp

lemma returned_check_read_probes:
  assumes "check_notify env s = (t, Inr True)" "wa_sample env = Some sample" "VDict d \<in> set (items_of s)"
    "flag ''req'' d" "is_kind d (''probe'' # LIMITS)"
  shows "(is_kind d [''probe''] \<longrightarrow> wa_update_eta env
      \<longrightarrow> (\<exists>l. dget d ''label'' = Some (VStr l) \<and> probe_readings l (drop (length (wa_rows env) - 400) (wa_rows env)) \<noteq> []))
    \<and> (\<exists>b. condition_met sample d = Inr b)"
proof -
  from assms(1) obtain w w' pellets items u where w: "prune_cooldowns s = (w, Inr ())"
    "note_items w = (w', Inr items)" "process_items env pellets [0..<length items] w' = (t, Inr u)"
    by (auto simp: check_notify_def split: option.splits if_splits elim!: abind_InrE)
  have b: "board w = board s" by (rule preservesD [OF board_prune w(1)])
  have *: "w' = w" "items = items_of w" using note_items_Inr [OF w(2)] by (simp_all add: items_of_def)
  obtain j where j: "j < length (items_of w)" "items_of w ! j = VDict d" using assms(3) b by (auto simp: board_def in_set_conv_nth)
  from loop_visits [of env pellets 0 w t u, OF _ assms(2) _ j(1)] w(3) * obtain x x' v
    where x: "process_item env pellets j x = (x', Inr v)" "items_of x ! j = VDict d" by (auto simp: j(2))
  then have "at_item j d (alerts x) x" using process_item_dict [OF x(1)] by (simp add: at_item_def)
  from tripleD [OF probe_is_read [OF assms(4,5,2)] this x(1)] show ?thesis .
qed


definition COMPARISONS :: "string list" where
  "COMPARISONS = [''above'', ''below'', ''equal_above'', ''equal_below'']"

lemma None_incomparable: "\<exists>e. py_less v VNone = Inl e" "\<exists>e. py_less VNone v = Inl e"
  by (cases v; simp)+

lemma None_condition: "c \<in> set COMPARISONS \<Longrightarrow> \<exists>e. check_condition (VStr c) VNone target = Inl e"
  using None_incomparable [of target] by (auto simp: COMPARISONS_def check_condition_def py_le_def)

lemma check_returns_True:
  "wa_pellets env = Some pellets \<Longrightarrow> truthy pellets \<Longrightarrow> check_notify env s = (t, Inr b) \<Longrightarrow> b"
  by (auto simp: check_notify_def elim!: abind_InrE)

lemma no_readings_recent: "probe_readings l rs = [] \<Longrightarrow> probe_readings l (drop n rs) = []"
  by (auto simp: probe_readings_def dest: in_set_dropD)

text \<open>C18: One reading the condition cannot be compared with ends the whole check. While a requested target or limit belongs to a
  probe without a value (a faulted thermocouple's reading is \<open>None\<close>), no check returns: the comparison raises, the remaining
  items are not looked at and the exception leaves the work cycle, although the secondary fault itself is meant to leave the
  control of the grill alone. So does an estimate asked for while no history row has the probe.\<close>

theorem unread_probe_ends_check:
  assumes "wa_sample env = Some sample" "wa_pellets env = Some pellets" "truthy pellets"
    and "VDict d \<in> set (items_of s)" "flag ''req'' d" "is_kind d (''probe'' # LIMITS)" "dget d ''label'' = Some (VStr l)"
    and "dget (probe_temps sample) l = Some VNone \<and> dget d ''condition'' = Some (VStr c) \<and> c \<in> set COMPARISONS
      \<or> is_kind d [''probe''] \<and> wa_update_eta env \<and> probe_readings l (wa_rows env) = []"
  shows "\<exists>e. snd (check_notify env s) = Inl e"
proof (cases "snd (check_notify env s)")
  case (Inr b)
  then obtain t where t: "check_notify env s = (t, Inr b)" by (cases "check_notify env s") auto
  with check_returns_True [OF assms(2,3)] have "check_notify env s = (t, Inr True)" by simp
  from returned_check_read_probes [OF this assms(1,4,5,6)] assms(7) obtain b
    where eta: "is_kind d [''probe''] \<and> wa_update_eta env
      \<longrightarrow> probe_readings l (drop (length (wa_rows env) - 400) (wa_rows env)) \<noteq> []" and met: "condition_met sample d = Inr b"
    by auto
  from met obtain target where cond: "check_condition (VStr c) VNone target = Inr b"
    if "dget (probe_temps sample) l = Some VNone" "dget d ''condition'' = Some (VStr c)"
    using assms(7) by (auto simp: condition_met_def dindex_def as_key_def ebind_Inr_iff split: option.splits)
  from assms(8) have False
  proof
    assume "dget (probe_temps sample) l = Some VNone \<and> dget d ''condition'' = Some (VStr c) \<and> c \<in> set COMPARISONS"
    with cond None_condition [of c target] show False by auto
  next
    assume "is_kind d [''probe''] \<and> wa_update_eta env \<and> probe_readings l (wa_rows env) = []"
    with eta no_readings_recent [of l "wa_rows env"] show False by simp
  qed
  then show ?thesis ..
qed simp

section \<open>The timer's announcement\<close>

definition announced :: "notice \<Rightarrow> nat" where
  "announced s = count_list (notified (nt_world s)) ''Timer_Expired''"

definition pending :: "notice \<Rightarrow> nat" where
  "pending s = (case dget (nt_control s) ''timer'' of
     Some v \<Rightarrow> (case parse_timer v of Inr t \<Rightarrow> if tstate t = Running \<and> action_armed t then 1 else 0 | Inl _ \<Rightarrow> 0)
   | None \<Rightarrow> 0)"

definition dial :: "notice \<Rightarrow> nat \<times> pyval option" where
  "dial s = (announced s, dget (nt_control s) ''timer'')"

text \<open>The announcements made and the one the timer still owes.\<close>

definition owed :: "nat \<Rightarrow> notice \<Rightarrow> bool" where
  "owed n s \<longleftrightarrow> announced s + pending s \<le> n"

lemma keeps_owed: "preserves dial m \<Longrightarrow> keeps (owed n) m"
  by (rule keeps_preserves) (auto simp: dial_def owed_def pending_def)

lemma dial_assign: "k \<noteq> ''timer'' \<Longrightarrow> preserves dial (note_assign k v)"
  by (simp add: note_assign_def preserves_def dial_def announced_def)

lemma dial_send: "e \<noteq> ''Timer_Expired'' \<Longrightarrow> preserves dial (send_event e)"
  by (simp add: send_event_def preserves_def dial_def announced_def)

lemma dial_calls [preserves_intros]:
  "preserves dial (put_item i k v)" "preserves dial store_note" "preserves dial mark_triggered" "preserves dial (trigger_step f)"
  "preserves dial (note_assign_in ''safety'' j v)" "preserves dial prune_cooldowns"
  unfolding put_item_def mark_triggered_def store_note_def note_assign_in_def trigger_step_def prune_cooldowns_def
  by (intro preserves_intros dial_assign; simp add: dial_def announced_def write_world_def)+

lemma dial_react [preserves_intros]: "preserves dial (react env i kind f)"
  unfolding react_def ask_shutdown_def ask_keep_warm_def ask_reignite_def by (intro preserves_intros dial_assign; simp)+

lemma dial_watches [preserves_intros]:
  "preserves dial (watch_probe env sample i kind)" "preserves dial (watch_hopper env pellets i)" "preserves dial (watch_test env i)"
  unfolding watch_probe_def refresh_eta_def reach_target_def cross_limit_def announce_limit_def leave_limit_def watch_hopper_def
    watch_test_def
  by (intro preserves_intros dial_assign dial_send; simp add: dial_def announced_def)+


lemma expiry_settles:
  assumes "parse_timer v = Inr tm" "expire_timer tm now = (tm', b)" "dget (nt_control s) ''timer'' = Some v"
    and "t = s\<lparr>nt_control := dput ''timer'' (timer_value tm') (nt_control s)\<rparr>"
  shows "announced t + pending t + of_bool b = announced s + pending s"
proof -
  have "timer_ok tm" using assms(1) by (rule parse_timer_ok)
  with assms(2) expire_timer_ok [of tm now] have "parse_timer (timer_value tm') = Inr tm'" by (auto intro: timer_roundtrip)
  with assms show ?thesis
    by (auto simp: pending_def announced_def expire_timer_def split: if_splits)
qed

definition ringing :: "nat \<Rightarrow> bool \<Rightarrow> notice \<Rightarrow> bool" where
  "ringing n b s \<longleftrightarrow> announced s + pending s + of_bool b \<le> n"

lemma owed_ringing: "owed n = ringing n False"
  by (simp add: owed_def ringing_def fun_eq_iff)

lemma keeps_ringing: "preserves dial m \<Longrightarrow> keeps (ringing n b) m"
  by (rule keeps_preserves) (auto simp: dial_def ringing_def pending_def)

text \<open>The timer's branch, whether it returns or raises on the way: an expiry is paid for by the timer it disarms.\<close>

lemma watching_timer:
  assumes "owed n s" "watch_timer env i s = (t, r)"
  shows "case r of Inl e \<Rightarrow> owed n t | Inr b \<Rightarrow> ringing n b t"
proof (cases "\<exists>v tm. dget (nt_control s) ''timer'' = Some v \<and> parse_timer v = Inr tm")
  case False
  with assms show ?thesis
    by (auto simp: watch_timer_def note_member_def dindex_def abind_def split: option.splits sum.splits)
next
  case True
  then obtain v tm where v: "dget (nt_control s) ''timer'' = Some v" "parse_timer v = Inr tm" by blast
  obtain tm' b where ex: "expire_timer tm (wa_now env) = (tm', b)" by force
  define u where "u = s\<lparr>nt_control := dput ''timer'' (timer_value tm') (nt_control s)\<rparr>"
  define m where "m = (if b then abind (trigger_step (\<lambda>d. dindex d ''timer'')) (\<lambda>_. put_item i ''req'' (VBool False)) else areturn ())"
  have run: "watch_timer env i s = abind m (\<lambda>_. areturn b) u"
    unfolding u_def m_def
    by (cases b) (auto simp: watch_timer_def note_member_def note_assign_def dindex_def v ex abind_def split: prod.split sum.split)
  have u: "ringing n b u" using expiry_settles [OF v(2) ex v(1) u_def] assms(1) by (simp add: owed_def ringing_def)
  have "preserves dial m" unfolding m_def by (intro preserves_intros)
  with keeps_ringing u have "ringing n b (fst (m u))" unfolding keeps_def by blast
  then have "ringing n b t \<and> (\<forall>x. r = Inr x \<longrightarrow> x = b)"
    using assms(2) unfolding run by (cases "m u") (auto simp: abind_def split: sum.splits)
  then show ?thesis by (cases r) (auto simp: owed_def ringing_def)
qed

lemma watching_item:
  assumes "owed n s" "watch_item env pellets i kind s = (t, r)"
  shows "case r of Inl e \<Rightarrow> owed n t | Inr b \<Rightarrow> ringing n b t"
proof (cases "\<not> (member kind (''probe'' # LIMITS) \<and> wa_sample env \<noteq> None) \<and> py_eq kind (VStr ''timer'')")
  case True
  with assms show ?thesis using watching_timer [OF assms(1)] by (auto simp: watch_item_def member_def LIMITS_def)
next
  case False
  define m where "m = (if member kind (''probe'' # LIMITS) \<and> wa_sample env \<noteq> None then watch_probe env (the (wa_sample env)) i kind
    else if py_eq kind (VStr ''hopper'') then watch_hopper env pellets i
    else if py_eq kind (VStr ''test'') then watch_test env i else areturn ())"
  have e: "abind (areturn ()) (\<lambda>_. areturn False) = (areturn False :: bool note_action)" by (rule ext) simp
  have m: "preserves dial m" unfolding m_def by (intro preserves_intros)
  have eq: "watch_item env pellets i kind = abind m (\<lambda>_. areturn False)"
  proof (cases "member kind (''probe'' # LIMITS) \<and> wa_sample env \<noteq> None")
    case True
    then show ?thesis by (simp only: watch_item_def m_def if_True simp_thms)
  next
    case no: False
    with False have "\<not> py_eq kind (VStr ''timer'')" by blast
    with no e show ?thesis by (simp only: watch_item_def m_def if_False split: if_split) blast
  qed
  have "owed n (fst (m s))" using keepsD [OF keeps_owed [OF m] assms(1), of "fst (m s)" "snd (m s)"] by simp
  with assms(2) show ?thesis
    unfolding eq by (cases "m s") (auto simp: abind_def owed_ringing split: sum.splits)
qed

lemma ringing_tail:
  assumes "ringing n b s"
  shows "owed n (fst (abind (react env i kind b) (\<lambda>_. abind store_note (\<lambda>_. if b then send_event ''Timer_Expired'' else areturn ())) s))"
proof -
  have rung: "owed n (fst ((if b then send_event ''Timer_Expired'' else areturn ()) u))" "owed n u" if "ringing n b u" for u
    using that by (auto simp: ringing_def owed_def send_event_def announced_def pending_def)
  obtain u r where u: "react env i kind b s = (u, r)" by force
  have ru: "ringing n b u" by (rule keepsD [OF keeps_ringing [OF dial_react] assms u])
  obtain w q where w: "store_note u = (w, Inr q)" by (simp add: store_note_def amodify_def)
  have "ringing n b w" by (rule keepsD [OF keeps_ringing [OF dial_calls(2)] ru w])
  with rung u w ru show ?thesis by (auto simp: abind_def split: sum.splits)
qed

lemma owed_item: "keeps (owed n) (process_item env pellets i)"
  unfolding keeps_def
proof (intro allI impI)
  fix s
  assume s: "owed n s"
  have act: "owed n (fst (abind (watch_item env pellets i kind) (\<lambda>b. abind (react env i kind b) (\<lambda>_. abind store_note
      (\<lambda>_. if b then send_event ''Timer_Expired'' else areturn ()))) s))" for kind
  proof -
    obtain t r where t: "watch_item env pellets i kind s = (t, r)" by force
    show ?thesis
    proof (cases r)
      case (Inl e)
      with watching_item [OF s t] t show ?thesis by (simp add: abind_def)
    next
      case (Inr b)
      with watching_item [OF s t] t ringing_tail [of n b t env i kind] show ?thesis by (simp add: abind_InrI [of _ _ t b])
    qed
  qed
  have "truthy_of i ''req'' s = (s, snd (truthy_of i ''req'' s))" "item_get i ''type'' s = (s, snd (item_get i ''type'' s))"
    using reads_only(4,7) [of id] by (simp_all add: preserves_def prod_eq_iff)
  with s act show "owed n (fst (process_item env pellets i s))"
    by (cases "snd (truthy_of i ''req'' s)"; cases "snd (item_get i ''type'' s)") (auto simp: process_item_def abind_def)
qed

lemma owed_items: "keeps (owed n) (process_items env pellets js)"
  by (induction js) (simp_all only: process_items.simps keeps_basic keeps_bind owed_item)

lemma owed_check: "keeps (owed n) (check_notify env)"
  unfolding check_notify_def
  by (intro keeps_bind keeps_option keeps_if keeps_basic owed_items keeps_owed [OF dial_calls(6)] keeps_owed [OF reads_only(2)])

text \<open>Checks in a row, on the control each leaves; one that raises leaves what it had done.\<close>

primrec checks :: "watch list \<Rightarrow> notice \<Rightarrow> notice" where
  "checks [] s = s"
| "checks (env # envs) s = checks envs (fst (check_notify env s))"

text \<open>C19: A timer is announced at most once, however often the notifications are checked and however many items ask for it, and
  even when checks raise between the expiry and its announcement; a timer that is not running and armed never is.\<close>

theorem timer_announced_once:
  "announced (checks envs s) \<le> announced s + pending s \<and> pending s \<le> 1"
proof -
  have "owed n s \<Longrightarrow> owed n (checks envs s)" for n
    by (induction envs arbitrary: s) (use owed_check in \<open>auto simp: keeps_def\<close>)
  from this [of "announced s + pending s"] show ?thesis
    by (simp add: owed_def pending_def split: option.split sum.split)
qed

text \<open>A cook with one food probe, whose upper limit shuts the grill down.\<close>

definition demo_limit :: pydict where
  "demo_limit = [(''label'', VStr ''Food''), (''type'', VStr ''probe_limit_high''), (''req'', VBool True), (''target'', VInt 200),
     (''condition'', VStr ''equal_above''), (''triggered'', VBool False), (''shutdown'', VBool True), (''keep_warm'', VBool False)]"

definition demo_sampled :: "pyval \<Rightarrow> sampled" where
  "demo_sampled reading = \<lparr>sa_history = [(''food'', [(''Food'', reading)])], sa_targets = []\<rparr>"

definition demo_watch :: "pyval \<Rightarrow> watch" where
  "demo_watch reading = \<lparr>wa_settings = demo_settings, wa_sample = Some (demo_sampled reading),
     wa_pellets = Some (VDict [(''current'', VDict [])]), wa_update_eta = False, wa_rows = [], wa_weight = (\<lambda>_. 1), wa_now = demo_stamp 0\<rparr>"

definition demo_notice :: notice where
  "demo_notice = \<lparr>nt_world = demo_world, nt_control = [(''mode'', VStr M_SMOKE), (''updated'', VBool False),
     (''notify_data'', VList [VDict demo_limit])], nt_cooldowns = []\<rparr>"

lemma demo_check:
  "case check_notify (demo_watch (VInt 210)) demo_notice of (t, Inr b) \<Rightarrow> b \<and> dget (nt_control t) ''mode'' = Some (VStr M_SHUTDOWN) | _ \<Rightarrow> False"
  by code_simp

lemma demo_notice_items: "items_of demo_notice = [VDict demo_limit]" "alerts demo_notice = []" "dget (nt_control demo_notice) ''mode'' = Some (VStr M_SMOKE)"
  by (simp_all add: demo_notice_def items_of_def alerts_def demo_world_def)

lemma demo_limit_crossed: "item_alerts (demo_sampled (VInt 210)) (VDict demo_limit) = [''Probe_Temp_Limit_Alarm'']"
  by code_simp

theorem notification_never_starts_a_fire_witness:
  "case check_notify (demo_watch (VInt 210)) demo_notice of (t, r) \<Rightarrow> r = Inr True \<and>
     dget (nt_control t) ''mode'' = Some (VStr M_SHUTDOWN) \<and> dget (nt_control t) ''updated'' = Some (VBool True)
     \<and> retries (nt_control t) = retries (nt_control demo_notice)"
proof -
  obtain t where t: "check_notify (demo_watch (VInt 210)) demo_notice = (t, Inr True)" "dget (nt_control t) ''mode'' = Some (VStr M_SHUTDOWN)"
    using demo_check by (auto split: prod.splits sum.splits)
  from notification_never_starts_a_fire [OF t(1) demo_notice_items(3)] t show ?thesis
    by (auto simp: M_SHUTDOWN_def M_SMOKE_def)
qed

theorem alerts_on_rising_edge_witness:
  "case check_notify (demo_watch (VInt 210)) demo_notice of (t, r) \<Rightarrow> r = Inr True \<and> alerts t = [''Probe_Temp_Limit_Alarm'']"
proof -
  obtain t where t: "check_notify (demo_watch (VInt 210)) demo_notice = (t, Inr True)"
    using demo_check by (auto split: prod.splits sum.splits)
  from alerts_on_rising_edge [OF t, of "demo_sampled (VInt 210)"] show ?thesis
    by (simp add: demo_watch_def [of "VInt 210", symmetric] t demo_notice_items demo_limit_crossed) (simp add: demo_watch_def)
qed

theorem unread_probe_ends_check_witness: "\<exists>e. snd (check_notify (demo_watch VNone) demo_notice) = Inl e"
  using unread_probe_ends_check [of "demo_watch VNone" "demo_sampled VNone" "VDict [(''current'', VDict [])]" demo_limit demo_notice "''Food''" "''equal_above''"]
  by (simp add: demo_notice_items) (simp add: demo_watch_def demo_sampled_def demo_limit_def flag_def is_kind_def member_def LIMITS_def COMPARISONS_def
      probe_temps_def)

end
