(* ===== verification/Duty_History.thy ===== *)
theory Duty_History
  imports Py_Prelude
begin

text \<open>
  \<open>DutyHistory\<close> of \<open>controller/fopdt_identifier.py\<close>: the auger duty a controller has applied, either as forward steps
  (a duty holds until the next one) or as completed intervals (a duty owns exactly \<open>[start, end)\<close>). The arrays the
  class keeps beside its lists are copies of them, made by \<open>_sync\<close> after every change, and are not kept twice here;
  the two it computes are the fields \<open>cum_duty\<close> and \<open>coverage\<close>.
  A number is a real; one beyond the range of binary64 stands for the infinity it would be.

  \<open>numpy.searchsorted\<close> is not part of the repository: the operations that call it take it as the argument \<open>np\<close>, and
  \<open>searches_sorted np\<close> is what its documentation promises. The other array operations of the class are elementwise
  arithmetic and are written out for one element.
\<close>

definition finite_real :: "real \<Rightarrow> bool" where
  "finite_real x \<longleftrightarrow> \<bar>x\<bar> < of_int dbl_limit"

datatype side = Side_left | Side_right

type_synonym searcher = "side \<Rightarrow> real list \<Rightarrow> real \<Rightarrow> nat"

definition searches_sorted :: "searcher \<Rightarrow> bool" where
  "searches_sorted np \<longleftrightarrow> (\<forall>xs v. sorted xs \<longrightarrow>
     np Side_left xs v \<le> length xs \<and> (\<forall>i < np Side_left xs v. xs ! i < v) \<and>
       (\<forall>i. np Side_left xs v \<le> i \<longrightarrow> i < length xs \<longrightarrow> v \<le> xs ! i) \<and>
     np Side_right xs v \<le> length xs \<and> (\<forall>i < np Side_right xs v. xs ! i \<le> v) \<and>
       (\<forall>i. np Side_right xs v \<le> i \<longrightarrow> i < length xs \<longrightarrow> v < xs ! i))"

section \<open>The history\<close>

datatype duty_mode = Steps_mode | Intervals_mode

record duty_history =
  max_delay :: real
  duty_mode :: "duty_mode option"
  step_times :: "real list"
  step_duties :: "real list"
  step_integrals :: "real list"
  starts :: "real list"
  ends :: "real list"
  duties :: "real list"
  cum_duty :: "real list"
  coverage :: "real list"

definition set_retention_s :: "pyval \<Rightarrow> duty_history \<Rightarrow> duty_history result" where
  "set_retention_s v h = (case v of
      VInt n \<Rightarrow> if \<bar>n\<bar> < dbl_limit then
          (if 0 < n then Inr (h\<lparr>max_delay := of_int n\<rparr>) else Inl (ValueError ''retention_s must be finite and positive''))
        else Inl OverflowError
    | VFloat (Fin q) \<Rightarrow> if 0 < q then Inr (h\<lparr>max_delay := of_rat q\<rparr>)
        else Inl (ValueError ''retention_s must be finite and positive'')
    | VFloat _ \<Rightarrow> Inl (ValueError ''retention_s must be finite and positive'')
    | _ \<Rightarrow> Inl (TypeError ''retention_s must be a number''))"

definition new_history :: "real \<Rightarrow> duty_history" where
  "new_history retention = \<lparr>max_delay = retention, duty_mode = None, step_times = [], step_duties = [],
     step_integrals = [], starts = [], ends = [], duties = [], cum_duty = [], coverage = []\<rparr>"

definition history_len :: "duty_history \<Rightarrow> nat" where
  "history_len h = (if duty_mode h = Some Intervals_mode then length (starts h) else length (step_times h))"

definition first_of :: "'a list \<Rightarrow> 'a option" where
  "first_of xs = (case xs of [] \<Rightarrow> None | x # _ \<Rightarrow> Some x)"

definition earliest :: "duty_history \<Rightarrow> real option" where
  "earliest h = first_of (if duty_mode h = Some Intervals_mode then starts h else step_times h)"

definition latest_end :: "duty_history \<Rightarrow> real option" where
  "latest_end h = (if duty_mode h = Some Intervals_mode \<and> ends h \<noteq> [] then Some (last (ends h)) else None)"

definition record_step :: "real \<Rightarrow> real \<Rightarrow> duty_history \<Rightarrow> duty_history result" where
  "record_step timestamp ratio h =
     (if duty_mode h = Some Intervals_mode
      then Inl (ValueError ''cannot mix forward duty steps with completed intervals'')
      else let h = h\<lparr>duty_mode := Some Steps_mode\<rparr>; ts = step_times h; us = step_duties h; is = step_integrals h in
        Inr (if ts = [] then h\<lparr>step_times := ts @ [timestamp], step_duties := us @ [ratio], step_integrals := is @ [0]\<rparr>
          else if timestamp \<le> last ts then h
          else if ratio = last us then h
          else h\<lparr>step_times := ts @ [timestamp], step_duties := us @ [ratio],
                 step_integrals := is @ [last is + last us * (timestamp - last ts)]\<rparr>))"

fun prefix_sums :: "real \<Rightarrow> real list \<Rightarrow> real list" where
  "prefix_sums acc [] = []"
| "prefix_sums acc (x # xs) = (acc + x) # prefix_sums (acc + x) xs"

fun coverage_from :: "real \<Rightarrow> real \<Rightarrow> real list \<Rightarrow> real list \<Rightarrow> real list" where
  "coverage_from before ended (s # ss) (e # es) =
     (let c = if s = ended then before else s in c # coverage_from c e ss es)"
| "coverage_from before ended _ _ = []"

definition interval_sums :: "real list \<Rightarrow> real list \<Rightarrow> real list \<Rightarrow> real list" where
  "interval_sums ss es ds =
     (if ss = [] then [] else 0 # prefix_sums 0 (butlast (map2 (\<lambda>d (s, e). d * (e - s)) ds (zip ss es))))"

definition interval_coverage :: "real list \<Rightarrow> real list \<Rightarrow> real list" where
  "interval_coverage ss es = (if ss = [] then [] else hd ss # coverage_from (hd ss) (hd es) (tl ss) (tl es))"

definition sync_intervals :: "duty_history \<Rightarrow> duty_history" where
  "sync_intervals h = h\<lparr>cum_duty := interval_sums (starts h) (ends h) (duties h),
     coverage := interval_coverage (starts h) (ends h)\<rparr>"

definition record_interval :: "real \<Rightarrow> real \<Rightarrow> real \<Rightarrow> duty_history \<Rightarrow> duty_history result" where
  "record_interval start end_s duty h =
     (if duty_mode h = Some Steps_mode
      then Inl (ValueError ''cannot mix completed intervals with forward duty steps'')
      else if \<not> finite_real start \<or> \<not> finite_real end_s \<or> end_s \<le> start
      then Inl (ValueError ''duty interval must have finite increasing bounds'')
      else if \<not> finite_real duty \<or> \<not> (0 \<le> duty \<and> duty \<le> 1)
      then Inl (ValueError ''duty ratio must be finite and in [0, 1]'')
      else if ends h \<noteq> [] \<and> start < last (ends h)
      then Inl (ValueError ''duty intervals must not overlap'')
      else Inr (sync_intervals (h\<lparr>duty_mode := Some Intervals_mode, starts := starts h @ [start],
        ends := ends h @ [end_s], duties := duties h @ [duty]\<rparr>)))"

definition clip_index :: "nat \<Rightarrow> nat \<Rightarrow> nat" where
  "clip_index n found = min (found - 1) (n - 1)"

definition interval_integral :: "searcher \<Rightarrow> duty_history \<Rightarrow> real \<Rightarrow> real" where
  "interval_integral np h time =
     (if starts h = [] then 0
      else let i = clip_index (length (starts h)) (np Side_right (starts h) time);
               elapsed = min (max (time - starts h ! i) 0) (ends h ! i - starts h ! i)
           in cum_duty h ! i + duties h ! i * elapsed)"

definition duty_integral :: "searcher \<Rightarrow> duty_history \<Rightarrow> real \<Rightarrow> real" where
  "duty_integral np h time =
     (if duty_mode h = Some Intervals_mode then interval_integral np h time
      else if step_times h = [] then 0
      else let i = clip_index (length (step_times h)) (np Side_right (step_times h) time)
           in step_integrals h ! i + step_duties h ! i * max (time - step_times h ! i) 0)"

definition covers :: "searcher \<Rightarrow> duty_history \<Rightarrow> real \<Rightarrow> real \<Rightarrow> bool" where
  "covers np h start end_s =
     (if end_s < start then False
      else if end_s = start then True
      else if duty_mode h \<noteq> Some Intervals_mode
      then (case earliest h of None \<Rightarrow> False | Some e \<Rightarrow> e \<le> start)
      else if starts h = [] then False
      else let found = np Side_left (starts h) end_s in
        0 < found \<and> end_s \<le> ends h ! (found - 1) \<and> coverage h ! (found - 1) \<le> start)"

definition average_duty :: "searcher \<Rightarrow> duty_history \<Rightarrow> real \<Rightarrow> real \<Rightarrow> real \<Rightarrow> real \<times> bool" where
  "average_duty np h t_start t_end delay =
     (let span = t_end - t_start; lo = t_start - delay; hi = t_end - delay in
      if span \<le> 0 then (0, False)
      else if duty_mode h = Some Intervals_mode then
        (if starts h = [] then (0, False)
         else let found = np Side_left (starts h) hi; i = clip_index (length (starts h)) found
              in ((duty_integral np h hi - duty_integral np h lo) / span,
                  0 < found \<and> hi \<le> ends h ! i \<and> coverage h ! i \<le> lo))
      else if step_times h = [] then (0, False)
      else ((duty_integral np h hi - duty_integral np h lo) / span, step_times h ! 0 \<le> lo))"

definition duty_segments :: "searcher \<Rightarrow> duty_history \<Rightarrow> real \<Rightarrow> real \<Rightarrow> (real \<times> real) list" where
  "duty_segments np h t_start t_end =
     (if t_end \<le> t_start then []
      else if duty_mode h = Some Intervals_mode
      then [(min e t_end - max s t_start, d). (s, e, d) \<leftarrow> zip (starts h) (zip (ends h) (duties h)),
              max s t_start < min e t_end]
      else if step_times h = [] then []
      else let edges = t_start # [t \<leftarrow> step_times h. t_start < t \<and> t < t_end] @ [t_end]
           in [(hi - lo, step_duties h ! (np Side_right (step_times h) lo - 1)).
                 (lo, hi) \<leftarrow> zip edges (tl edges), lo < hi])"

fun reachable_from :: "real \<Rightarrow> real list \<Rightarrow> nat" where
  "reachable_from horizon (t # t' # ts) = (if t' \<le> horizon then Suc (reachable_from horizon (t' # ts)) else 0)"
| "reachable_from horizon _ = 0"

definition prune :: "searcher \<Rightarrow> real \<Rightarrow> duty_history \<Rightarrow> duty_history" where
  "prune np now h =
     (let horizon = now - max_delay h in
      if duty_mode h = Some Intervals_mode then
        (let keep = np Side_left (ends h) horizon;
             kept = h\<lparr>starts := drop keep (starts h), ends := drop keep (ends h), duties := drop keep (duties h)\<rparr>
         in if 0 < keep \<or> starts kept \<noteq> [] then sync_intervals kept else kept)
      else let keep = reachable_from horizon (step_times h)
           in h\<lparr>step_times := drop keep (step_times h), step_duties := drop keep (step_duties h),
                step_integrals := drop keep (step_integrals h)\<rparr>)"


section \<open>A history as pieces\<close>

text \<open>
  What both representations mean: pieces \<open>(start, end, duty)\<close> in order. The last step has no end; any \<open>E\<close> beyond the
  window asked for serves.
\<close>

type_synonym piece = "real \<times> real \<times> real"

definition step_pieces :: "real \<Rightarrow> real list \<Rightarrow> real list \<Rightarrow> piece list" where
  "step_pieces E ts us = zip ts (zip (tl ts @ [E]) us)"

definition pieces :: "real \<Rightarrow> duty_history \<Rightarrow> piece list" where
  "pieces E h = (if duty_mode h = Some Intervals_mode then zip (starts h) (zip (ends h) (duties h))
     else step_pieces E (step_times h) (step_duties h))"

definition clip_piece :: "real \<Rightarrow> real \<Rightarrow> piece \<Rightarrow> (real \<times> real) list" where
  "clip_piece a b = (\<lambda>(s, e, d). if max s a < min e b then [(min e b - max s a, d)] else [])"

definition clip :: "real \<Rightarrow> real \<Rightarrow> piece list \<Rightarrow> (real \<times> real) list" where
  "clip a b ps = concat (map (clip_piece a b) ps)"

fun in_order :: "piece list \<Rightarrow> bool" where
  "in_order [] \<longleftrightarrow> True"
| "in_order ((s, e, d) # ps) \<longleftrightarrow> s < e \<and> (\<forall>(s', e', d') \<in> set ps. e \<le> s') \<and> in_order ps"

lemma clip_simps [simp]: "clip a b [] = []" "clip a b (p # ps) = clip_piece a b p @ clip a b ps"
  "clip a b (ps @ qs) = clip a b ps @ clip a b qs"
  by (simp_all add: clip_def)

lemma clip_later: "(\<forall>(s, e, d) \<in> set ps. b \<le> s) \<Longrightarrow> clip a b ps = []"
  by (induction ps) (auto simp: clip_piece_def)

lemma clip_earlier: "(\<forall>(s, e, d) \<in> set ps. e \<le> a) \<Longrightarrow> clip a b ps = []"
  by (induction ps) (auto simp: clip_piece_def)

lemma clip_from: "(\<forall>(s, e, d) \<in> set ps. a \<le> s \<and> a' \<le> s) \<Longrightarrow> clip a b ps = clip a' b ps"
  by (induction ps) (auto simp: clip_piece_def max_def)

lemma clip_empty: "b \<le> a \<Longrightarrow> clip a b ps = []"
  by (induction ps) (auto simp: clip_piece_def)

lemma in_order_append: "in_order (ps @ qs) \<longleftrightarrow>
    in_order ps \<and> in_order qs \<and> (\<forall>(s, e, d) \<in> set ps. \<forall>(s', e', d') \<in> set qs. e \<le> s')"
  by (induction ps) (auto 0 4)

text \<open>A quantity that depends on the duty alone is the same however its window is cut.\<close>

lemma clip_split:
  assumes "\<And>x d d' u. 0 < d \<Longrightarrow> 0 < d' \<Longrightarrow> f (f x (d, u)) (d', u) = f x (d + d', u)"
    and "in_order ps" "a \<le> b" "b \<le> c"
  shows "foldl f x (clip a c ps) = foldl f (foldl f x (clip a b ps)) (clip b c ps)"
  using assms(2)
proof (induction ps arbitrary: x)
  case (Cons p ps)
  obtain s e d where p: "p = (s, e, d)" by (cases p)
  have ord: "s < e" "\<forall>(s', e', d') \<in> set ps. e \<le> s'" "in_order ps" using Cons.prems by (auto simp: p)
  show ?case
  proof (cases "e \<le> b")
    case True
    have "clip_piece b c p = []" "clip_piece a c p = clip_piece a b p"
      using True assms(3,4) by (auto simp: p clip_piece_def min_def)
    then show ?thesis using Cons.IH [OF ord(3)] by simp
  next
    case False
    have later: "\<forall>(s', e', d') \<in> set ps. b \<le> s'" using ord(2) False by fastforce
    have rest: "clip a b ps = []" using later by (rule clip_later)
    have same: "clip a c ps = clip b c ps" using later assms(3) by (intro clip_from) fastforce
    have "foldl f x (clip_piece a c p) = foldl f (foldl f x (clip_piece a b p)) (clip_piece b c p)"
    proof (cases "max s a < b \<and> b < c")
      case True
      then have "s < b" "a < b" by auto
      then have "clip_piece a b p = [(b - max s a, d)]" "clip_piece b c p = [(min e c - b, d)]"
          "clip_piece a c p = [(min e c - max s a, d)]"
        using False True by (auto simp: p clip_piece_def min_def max_def)
      then show ?thesis using True False assms(1) [of "b - max s a" "min e c - b" x d] by (simp add: min_def)
    next
      case other: False
      then show ?thesis using False assms(3,4) ord(1)
        by (cases "b = c") (auto simp: p clip_piece_def min_def max_def)
    qed
    then show ?thesis using rest same by simp
  qed
qed simp

lemma clip_positive: "(d, u) \<in> set (clip a b ps) \<Longrightarrow> 0 < d"
  by (induction ps) (auto simp: clip_piece_def split: if_splits)

lemma clip_duties: "(d, u) \<in> set (clip a b ps) \<Longrightarrow> \<exists>s e. (s, e, u) \<in> set ps"
  by (induction ps) (fastforce simp: clip_piece_def split: if_splits)+

text \<open>The duty time of a window, as a difference of the duty time up to its ends.\<close>

definition piece_charge :: "real \<Rightarrow> piece \<Rightarrow> real" where
  "piece_charge x = (\<lambda>(s, e, d). d * (min e x - min s x))"

definition charged :: "real \<Rightarrow> piece list \<Rightarrow> real" where
  "charged x ps = sum_list (map (piece_charge x) ps)"

definition duty_time :: "(real \<times> real) list \<Rightarrow> real" where
  "duty_time segs = sum_list (map (\<lambda>(d, u). d * u) segs)"

definition total_time :: "(real \<times> real) list \<Rightarrow> real" where
  "total_time segs = sum_list (map fst segs)"

lemma duty_time_simps [simp]: "duty_time [] = 0" "duty_time (x # xs) = fst x * snd x + duty_time xs"
    "duty_time (xs @ ys) = duty_time xs + duty_time ys"
  by (simp_all add: duty_time_def case_prod_beta)

lemma total_time_simps [simp]: "total_time [] = 0" "total_time (x # xs) = fst x + total_time xs"
    "total_time (xs @ ys) = total_time xs + total_time ys"
  by (simp_all add: total_time_def)

lemma charged_simps [simp]: "charged x [] = 0" "charged x (p # ps) = piece_charge x p + charged x ps"
  by (simp_all add: charged_def)

lemma piece_charge_clip:
  "s \<le> e \<Longrightarrow> a \<le> b \<Longrightarrow> piece_charge b (s, e, d) - piece_charge a (s, e, d) = duty_time (clip_piece a b (s, e, d))"
  by (auto simp: piece_charge_def clip_piece_def min_def max_def algebra_simps)

lemma charged_clip: "in_order ps \<Longrightarrow> a \<le> b \<Longrightarrow> charged b ps - charged a ps = duty_time (clip a b ps)"
proof (induction ps)
  case (Cons p ps)
  obtain s e d where p: "p = (s, e, d)" by (cases p)
  then show ?case using Cons piece_charge_clip [of s e a b d] by (simp add: p)
qed simp


text \<open>Pieces that meet: each ends where the next starts.\<close>

fun meeting :: "piece list \<Rightarrow> bool" where
  "meeting ((s, e, d) # (s', e', d') # ps) \<longleftrightarrow> e = s' \<and> meeting ((s', e', d') # ps)"
| "meeting _ \<longleftrightarrow> True"

lemma meeting_total:
  assumes "in_order ps" "meeting ps" "ps \<noteq> []" "fst (hd ps) \<le> a" "a \<le> b" "b \<le> fst (snd (last ps))"
  shows "total_time (clip a b ps) = b - a"
  using assms
proof (induction ps arbitrary: a rule: meeting.induct)
  case (1 s e d s' e' d' ps)
  show ?case
  proof (cases "a < e")
    case True
    show ?thesis
    proof (cases "b \<le> e")
      case True
      then have "clip a b ((s', e', d') # ps) = []" using 1 by (intro clip_later) fastforce
      then show ?thesis using 1 \<open>a < e\<close> True by (auto simp: clip_piece_def max_def min_def)
    next
      case False
      have "total_time (clip e b ((s', e', d') # ps)) = b - e" using 1 False by (intro 1(1)) auto
      moreover have "clip a b ((s', e', d') # ps) = clip e b ((s', e', d') # ps)" using 1 True by (intro clip_from) fastforce
      ultimately show ?thesis using 1 True False by (auto simp: clip_piece_def max_def min_def)
    qed
  next
    case False
    then have "clip_piece a b (s, e, d) = []" by (auto simp: clip_piece_def)
    then show ?thesis using 1 False by auto
  qed
qed (auto simp: clip_piece_def max_def min_def)

section \<open>Searching a sorted list\<close>

lemma count_prefix:
  assumes "n \<le> length xs" "\<forall>i < n. P (xs ! i)" "\<forall>i. n \<le> i \<longrightarrow> i < length xs \<longrightarrow> \<not> P (xs ! i)"
  shows "length (filter P xs) = n"
proof -
  have "filter P (take n xs) = take n xs" using assms by (auto simp: filter_id_conv in_set_conv_nth)
  moreover have "filter P (drop n xs) = []"
    using assms by (auto simp: filter_empty_conv in_set_conv_nth)
  ultimately have "filter P (take n xs @ drop n xs) = take n xs" by (simp only: filter_append append_Nil2)
  then show ?thesis using assms(1) by (simp del: filter_append)
qed

lemma searches_right: "searches_sorted np \<Longrightarrow> sorted xs \<Longrightarrow> np Side_right xs v = length [x \<leftarrow> xs. x \<le> v]"
  unfolding searches_sorted_def by (rule sym, rule count_prefix) (auto simp: not_le)

lemma searches_left: "searches_sorted np \<Longrightarrow> sorted xs \<Longrightarrow> np Side_left xs v = length [x \<leftarrow> xs. x < v]"
  unfolding searches_sorted_def by (rule sym, rule count_prefix) (auto simp: not_less)

text \<open>The step in force at a time, by recursion.\<close>

fun duty_in_force :: "real list \<Rightarrow> real list \<Rightarrow> real \<Rightarrow> real" where
  "duty_in_force (t # t' # ts) (u # us) x = (if t' \<le> x then duty_in_force (t' # ts) us x else u)"
| "duty_in_force ts us x = hd us"

lemma count_from: "strict_sorted (t # ts) \<Longrightarrow> t \<le> x \<Longrightarrow> 0 < length [y \<leftarrow> t # ts. y \<le> x]" for x :: real
  by simp

lemma none_below: "sorted (t # ts) \<Longrightarrow> x < t \<Longrightarrow> [y \<leftarrow> t # ts. y \<le> x] = []" for x :: real
  by (auto simp: filter_empty_conv)

lemma in_force_index:
  assumes "sorted_wrt (<) ts" "length us = length ts" "ts \<noteq> []"
  shows "us ! (length [t \<leftarrow> ts. t \<le> x] - 1) = duty_in_force ts us x"
  using assms
proof (induction ts us x rule: duty_in_force.induct)
  case (1 t t' ts u us x)
  show ?case
  proof (cases "t' \<le> x")
    case True
    then have "t \<le> x" using 1(2) by simp
    obtain n where n: "length [y \<leftarrow> t' # ts. y \<le> x] = Suc n" using True by simp
    then show ?thesis using True \<open>t \<le> x\<close> 1 by simp
  next
    case False
    then have "[y \<leftarrow> t' # ts. y \<le> x] = []" using 1(2) by (auto simp: filter_empty_conv)
    then show ?thesis using False by simp
  qed
qed (auto simp: length_Suc_conv)


section \<open>The invariant of a history\<close>

fun chained :: "real list \<Rightarrow> real list \<Rightarrow> real list \<Rightarrow> bool" where
  "chained (t # t' # ts) (u # us) (i # i' # is) \<longleftrightarrow> i' = i + u * (t' - t) \<and> chained (t' # ts) us (i' # is)"
| "chained ts us is \<longleftrightarrow> length ts \<le> 1"

definition steps_ok :: "duty_history \<Rightarrow> bool" where
  "steps_ok h \<longleftrightarrow> sorted_wrt (<) (step_times h) \<and> length (step_duties h) = length (step_times h) \<and>
     length (step_integrals h) = length (step_times h) \<and> chained (step_times h) (step_duties h) (step_integrals h)"

definition intervals_ok :: "duty_history \<Rightarrow> bool" where
  "intervals_ok h \<longleftrightarrow> length (ends h) = length (starts h) \<and> length (duties h) = length (starts h) \<and>
     in_order (zip (starts h) (zip (ends h) (duties h))) \<and>
     cum_duty h = interval_sums (starts h) (ends h) (duties h) \<and> coverage h = interval_coverage (starts h) (ends h)"

definition duty_ok :: "duty_history \<Rightarrow> bool" where
  "duty_ok h \<longleftrightarrow> steps_ok h \<and> intervals_ok h \<and>
     (duty_mode h \<noteq> Some Steps_mode \<longrightarrow> step_times h = []) \<and> (duty_mode h \<noteq> Some Intervals_mode \<longrightarrow> starts h = []) \<and>
     (duty_mode h = Some Steps_mode \<longrightarrow> step_times h \<noteq> [])"

lemma new_history_ok [simp]: "duty_ok (new_history r)"
  by (simp add: duty_ok_def steps_ok_def intervals_ok_def new_history_def interval_sums_def interval_coverage_def)

lemma chained_append: "length us = length ts \<Longrightarrow> length is = length ts \<Longrightarrow> ts \<noteq> [] \<Longrightarrow> chained ts us is \<Longrightarrow>
    chained (ts @ [t]) (us @ [u]) (is @ [last is + last us * (t - last ts)])"
  by (induction ts us "is" rule: chained.induct) (auto simp: length_Suc_conv Suc_length_conv)

lemma chained_drop: "length us = length ts \<Longrightarrow> length is = length ts \<Longrightarrow> chained ts us is \<Longrightarrow>
    chained (drop n ts) (drop n us) (drop n is)"
  by (induction ts us "is" arbitrary: n rule: chained.induct) (auto simp: drop_Cons length_Suc_conv split: nat.split)

lemma sync_fields [simp]: "starts (sync_intervals h) = starts h" "ends (sync_intervals h) = ends h"
    "duties (sync_intervals h) = duties h" "duty_mode (sync_intervals h) = duty_mode h"
    "step_times (sync_intervals h) = step_times h" "step_duties (sync_intervals h) = step_duties h"
    "step_integrals (sync_intervals h) = step_integrals h" "max_delay (sync_intervals h) = max_delay h"
    "cum_duty (sync_intervals h) = interval_sums (starts h) (ends h) (duties h)"
    "coverage (sync_intervals h) = interval_coverage (starts h) (ends h)"
  by (simp_all add: sync_intervals_def)

lemma in_order_drop: "in_order ps \<Longrightarrow> in_order (drop n ps)"
  by (induction ps arbitrary: n) (auto simp: drop_Cons split: nat.split)

lemma in_order_take: "in_order ps \<Longrightarrow> in_order (take n ps)"
  using in_order_append [of "take n ps" "drop n ps"] by simp

lemma drop_zip3: "drop n (zip xs (zip ys zs)) = zip (drop n xs) (zip (drop n ys) (drop n zs))"
  by (simp add: drop_zip)

lemma in_order_each: "in_order ps \<Longrightarrow> p \<in> set ps \<Longrightarrow> fst p < fst (snd p)"
  by (induction ps) auto

lemma last_zip2: "length xs = length ys \<Longrightarrow> xs \<noteq> [] \<Longrightarrow> last (zip xs ys) = (last xs, last ys)"
  by (induction xs ys rule: list_induct2) (auto simp: Suc_length_conv)

lemma in_order_ends: "in_order ps \<Longrightarrow> ps \<noteq> [] \<Longrightarrow> p \<in> set ps \<Longrightarrow> fst (snd p) \<le> fst (snd (last ps))"
proof (induction ps)
  case (Cons q ps)
  show ?case
  proof (cases "ps = []")
    case False
    then have l: "last ps \<in> set ps" by simp
    obtain s e d where q: "q = (s, e, d)" by (cases q)
    have "e \<le> fst (last ps)" "fst (last ps) < fst (snd (last ps))"
      using Cons.prems(1) l in_order_each [of ps "last ps"] by (force simp: q)+
    then have "p = q \<Longrightarrow> fst (snd p) \<le> fst (snd (last ps))" by (simp add: q)
    moreover have "p \<in> set ps \<Longrightarrow> fst (snd p) \<le> fst (snd (last ps))" using Cons False by (simp add: q)
    ultimately show ?thesis using Cons.prems(3) False by auto
  qed (use Cons in simp)
qed simp

lemma record_interval_ok: "duty_ok h \<Longrightarrow> record_interval s e d h = Inr h' \<Longrightarrow> duty_ok h'"
proof -
  assume ok: "duty_ok h" and r: "record_interval s e d h = Inr h'"
  have h': "h' = sync_intervals (h\<lparr>duty_mode := Some Intervals_mode, starts := starts h @ [s],
      ends := ends h @ [e], duties := duties h @ [d]\<rparr>)" and g: "duty_mode h \<noteq> Some Steps_mode" "s < e" "ends h = [] \<or> last (ends h) \<le> s"
    using r by (auto simp: record_interval_def split: if_splits)
  let ?ps = "zip (starts h) (zip (ends h) (duties h))"
  have len: "length (ends h) = length (starts h)" "length (duties h) = length (starts h)" and ord: "in_order ?ps"
    using ok by (auto simp: duty_ok_def intervals_ok_def)
  have "in_order (?ps @ [(s, e, d)])"
  proof (cases "starts h = []")
    case False
    then have "?ps \<noteq> []" using len by (auto simp: zip_eq_Nil_iff)
    moreover have "fst (snd (last ?ps)) = last (ends h)"
      using False len last_zip2 [of "starts h" "zip (ends h) (duties h)"] last_zip2 [of "ends h" "duties h"] by (cases "ends h") auto
    ultimately show ?thesis using ord g False len in_order_ends [OF ord]
      by (fastforce simp: in_order_append)
  qed (use g in simp)
  then show ?thesis using ok g len by (auto simp: h' duty_ok_def intervals_ok_def steps_ok_def)
qed

lemma le_last: "sorted xs \<Longrightarrow> x \<in> set xs \<Longrightarrow> x \<le> last xs"
  by (induction xs) auto

lemma record_step_ok:
  assumes "duty_ok h" "record_step t u h = Inr h'"
  shows "duty_ok h'"
proof -
  have ok: "steps_ok h" and m: "duty_mode h \<noteq> Some Intervals_mode" "starts h = []" using assms
    by (auto simp: duty_ok_def record_step_def split: if_splits)
  have iv: "intervals_ok (h\<lparr>duty_mode := Some Steps_mode, step_times := ts, step_duties := us, step_integrals := ks\<rparr>)"
    for ts us ks using assms(1) m by (simp add: duty_ok_def intervals_ok_def)
  let ?ts = "step_times h"
  show ?thesis
  proof (cases "?ts = []")
    case True
    then show ?thesis using assms(2) iv ok m
      by (auto simp: record_step_def duty_ok_def steps_ok_def Let_def)
  next
    case False
    have "\<forall>x \<in> set ?ts. x \<le> last ?ts" using ok by (simp add: steps_ok_def strict_sorted_imp_sorted le_last)
    moreover have "h' = h\<lparr>duty_mode := Some Steps_mode\<rparr> \<or> last ?ts < t \<and> h' = h\<lparr>duty_mode := Some Steps_mode,
        step_times := ?ts @ [t], step_duties := step_duties h @ [u],
        step_integrals := step_integrals h @ [last (step_integrals h) + last (step_duties h) * (t - last ?ts)]\<rparr>"
      using assms(2) m False by (auto simp: record_step_def Let_def split: if_splits)
    moreover have "intervals_ok (h\<lparr>duty_mode := Some Steps_mode\<rparr>)"
      using iv [where ts = ?ts and us = "step_duties h" and ks = "step_integrals h"] by simp
    ultimately show ?thesis using False ok m iv chained_append [of "step_duties h" ?ts "step_integrals h" t u]
      by (fastforce simp: duty_ok_def steps_ok_def sorted_wrt_append)
  qed
qed


lemma reachable_less: "ts \<noteq> [] \<Longrightarrow> reachable_from hz ts < length ts"
  by (induction hz ts rule: reachable_from.induct) auto

lemma prune_ok: "duty_ok h \<Longrightarrow> duty_ok (prune np now h)"
proof -
  assume ok: "duty_ok h"
  show ?thesis
  proof (cases "duty_mode h = Some Intervals_mode")
    case True
    let ?n = "np Side_left (ends h) (now - max_delay h)"
    have "in_order (drop ?n (zip (starts h) (zip (ends h) (duties h))))"
      using ok by (intro in_order_drop) (simp add: duty_ok_def intervals_ok_def)
    moreover have "starts h = [] \<Longrightarrow> ends h = [] \<and> duties h = [] \<and> cum_duty h = [] \<and> coverage h = []"
      using ok by (simp add: duty_ok_def intervals_ok_def interval_sums_def interval_coverage_def)
    ultimately show ?thesis using ok True
      by (auto simp: prune_def Let_def duty_ok_def intervals_ok_def steps_ok_def drop_zip3)
  next
    case False
    then show ?thesis using ok reachable_less [of "step_times h" "now - max_delay h"]
      by (auto simp: prune_def Let_def duty_ok_def intervals_ok_def steps_ok_def chained_drop sorted_wrt_drop)
  qed
qed

section \<open>Segments, integral and coverage by pieces\<close>

definition cuts :: "real \<Rightarrow> real \<Rightarrow> real list \<Rightarrow> real list \<Rightarrow> (real \<times> real) list" where
  "cuts a b ts us = (let edges = a # [t \<leftarrow> ts. a < t \<and> t < b] @ [b]
      in [(hi - lo, duty_in_force ts us lo). (lo, hi) \<leftarrow> zip edges (tl edges), lo < hi])"

lemma cuts_step:
  assumes "sorted_wrt (<) (t # t' # ts)" "t \<le> a" "a < b"
  shows "cuts a b (t # t' # ts) (u # us) =
    (if t' \<le> a then cuts a b (t' # ts) us else if b \<le> t' then [(b - a, u)] else (t' - a, u) # cuts t' b (t' # ts) us)"
proof -
  have late: "\<And>x. x \<in> set (t' # ts) \<Longrightarrow> t' \<le> x" using assms(1) by auto
  consider "t' \<le> a" | "a < t'" "b \<le> t'" | "a < t'" "t' < b" by linarith
  then show ?thesis
  proof cases
    case 1
    let ?edges = "a # [x \<leftarrow> t' # ts. a < x \<and> x < b] @ [b]"
    have "lo \<in> set ?edges \<Longrightarrow> t' \<le> lo" for lo using 1 assms(3) by auto
    then have "[(hi - lo, duty_in_force (t # t' # ts) (u # us) lo). (lo, hi) \<leftarrow> zip ?edges (tl ?edges), lo < hi] =
        [(hi - lo, duty_in_force (t' # ts) us lo). (lo, hi) \<leftarrow> zip ?edges (tl ?edges), lo < hi]"
      by (intro arg_cong [where f = concat] map_cong refl) (auto dest!: set_zip_leftD)
    then show ?thesis using 1 assms(2) by (simp add: cuts_def)
  next
    case 2
    then have "[x \<leftarrow> t # t' # ts. a < x \<and> x < b] = []" using late assms(2) by (force simp: filter_empty_conv)
    then show ?thesis using 2 assms(3) by (simp add: cuts_def)
  next
    case 3
    have same: "[x \<leftarrow> ts. a < x \<and> x < b] = [x \<leftarrow> ts. t' < x \<and> x < b]" using 3 assms(1) by (intro filter_cong) auto
    let ?edges = "t' # [x \<leftarrow> ts. t' < x \<and> x < b] @ [b]"
    have "lo \<in> set ?edges \<Longrightarrow> t' \<le> lo" for lo using 3 by auto
    then have "[(hi - lo, duty_in_force (t # t' # ts) (u # us) lo). (lo, hi) \<leftarrow> zip ?edges (tl ?edges), lo < hi] =
        [(hi - lo, duty_in_force (t' # ts) us lo). (lo, hi) \<leftarrow> zip ?edges (tl ?edges), lo < hi]"
      by (intro arg_cong [where f = concat] map_cong refl) (auto dest!: set_zip_leftD)
    then show ?thesis using 3 assms(2) same by (simp add: cuts_def)
  qed
qed

lemma cuts_pieces:
  assumes "sorted_wrt (<) ts" "length us = length ts" "ts \<noteq> []" "hd ts \<le> a" "a < b" "b \<le> E"
  shows "cuts a b ts us = clip a b (step_pieces E ts us)"
  using assms
proof (induction ts arbitrary: us a)
  case (Cons t ts)
  obtain u vs where us: "us = u # vs" using Cons.prems(2) by (cases us) auto
  show ?case
  proof (cases ts)
    case Nil
    then show ?thesis using Cons.prems us by (simp add: cuts_def step_pieces_def clip_piece_def)
  next
    case (Cons t' ts')
    note IH = Cons.IH [of vs, unfolded Cons]
    have pieces: "step_pieces E (t # t' # ts') (u # vs) = (t, t', u) # step_pieces E (t' # ts') vs"
      by (simp add: step_pieces_def)
    have later: "\<forall>(s, e, d) \<in> set (step_pieces E ts vs). t' \<le> s"
      using Cons.prems(1) by (auto simp: step_pieces_def Cons less_imp_le dest!: set_zip_leftD)
    consider "t' \<le> a" | "a < t'" "b \<le> t'" | "a < t'" "t' < b" by linarith
    then show ?thesis
    proof cases
      case 1
      then show ?thesis using Cons.prems us cuts_step [of t t' ts' a b u vs] Cons.IH [of vs a]
        by (simp add: Cons us pieces clip_piece_def)
    next
      case 2
      then have "clip a b (step_pieces E ts vs) = []" using later by (intro clip_later) fastforce
      then show ?thesis using 2 Cons.prems us cuts_step [of t t' ts' a b u vs]
        by (simp add: Cons us pieces clip_piece_def)
    next
      case 3
      then have "clip a b (step_pieces E ts vs) = clip t' b (step_pieces E ts vs)" using later by (intro clip_from) fastforce
      then show ?thesis using 3 Cons.prems us cuts_step [of t t' ts' a b u vs] Cons.IH [of vs t']
        by (simp add: Cons us pieces clip_piece_def)
    qed
  qed
qed simp


lemma sorted_starts: "in_order ps \<Longrightarrow> sorted_wrt (<) (map fst ps)"
  by (induction ps) fastforce+

lemma intervals_sorted: "intervals_ok h \<Longrightarrow> sorted_wrt (<) (starts h)"
  using sorted_starts [of "zip (starts h) (zip (ends h) (duties h))"] by (simp add: intervals_ok_def)

lemma segments_clip:
  assumes "searches_sorted np" "duty_ok h" "b \<le> E"
    and "duty_mode h = Some Intervals_mode \<or> (\<exists>e. earliest h = Some e \<and> e \<le> a)"
  shows "duty_segments np h a b = clip a b (pieces E h)"
proof (cases "a < b")
  case True
  show ?thesis
  proof (cases "duty_mode h = Some Intervals_mode")
    case iv: True
    have "duty_segments np h a b = concat (map (clip_piece a b) (zip (starts h) (zip (ends h) (duties h))))"
      using True iv by (auto simp: duty_segments_def clip_piece_def intro!: arg_cong [where f = concat] map_cong)
    then show ?thesis using iv by (simp add: pieces_def clip_def)
  next
    case False
    let ?ts = "step_times h"
    have ok: "sorted_wrt (<) ?ts" "length (step_duties h) = length ?ts" and ne: "?ts \<noteq> []" "hd ?ts \<le> a"
      using assms(2,4) False by (auto simp: duty_ok_def steps_ok_def earliest_def first_of_def split: list.splits)
    have at: "step_duties h ! (np Side_right ?ts lo - 1) = duty_in_force ?ts (step_duties h) lo" for lo
      using searches_right [OF assms(1), of ?ts lo] in_force_index [OF ok ne(1), of lo] ok
      by (simp add: strict_sorted_imp_sorted)
    have "duty_segments np h a b = cuts a b ?ts (step_duties h)"
      using True False ne unfolding duty_segments_def cuts_def Let_def at by simp
    then show ?thesis using cuts_pieces [OF ok ne True assms(3)] False by (simp add: pieces_def)
  qed
qed (simp add: duty_segments_def clip_empty)

lemma step_pieces_order: "sorted_wrt (<) ts \<Longrightarrow> length us = length ts \<Longrightarrow> ts \<noteq> [] \<Longrightarrow> last ts < E \<Longrightarrow>
    in_order (step_pieces E ts us)"
proof (induction ts arbitrary: us)
  case (Cons t ts)
  obtain u vs where us: "us = u # vs" using Cons.prems(2) by (cases us) auto
  show ?case
  proof (cases ts)
    case (Cons t' ts')
    have "in_order (step_pieces E ts vs)" using Cons.prems us Cons by (intro Cons.IH) auto
    moreover have "\<forall>(s, e, d) \<in> set (step_pieces E ts vs). t' \<le> s"
      using Cons.prems(1) by (auto simp: step_pieces_def Cons less_imp_le dest!: set_zip_leftD)
    ultimately show ?thesis using Cons.prems(1) by (simp add: step_pieces_def us Cons)
  qed (use Cons.prems us in \<open>simp add: step_pieces_def\<close>)
qed simp

lemma step_pieces_Nil [simp]: "step_pieces E [] us = []"
  by (simp add: step_pieces_def)

lemma pieces_order: "duty_ok h \<Longrightarrow> (step_times h \<noteq> [] \<Longrightarrow> last (step_times h) < E) \<Longrightarrow> in_order (pieces E h)"
  by (cases "step_times h = []") (auto simp: duty_ok_def steps_ok_def intervals_ok_def pieces_def step_pieces_order)

fun charge_upto :: "real \<Rightarrow> piece list \<Rightarrow> real" where
  "charge_upto x ((s, e, d) # (s', e', d') # ps) =
     (if s' \<le> x then d * (e - s) + charge_upto x ((s', e', d') # ps) else d * min (max (x - s) 0) (e - s))"
| "charge_upto x [(s, e, d)] = d * min (max (x - s) 0) (e - s)"
| "charge_upto x [] = 0"

lemma charged_later: "\<forall>(s, e, d) \<in> set ps. x \<le> s \<and> s \<le> e \<Longrightarrow> charged x ps = 0"
  by (induction ps) (auto simp: piece_charge_def min_def)

lemma charged_upto: "in_order ps \<Longrightarrow> charged x ps = charge_upto x ps"
proof (induction x ps rule: charge_upto.induct)
  case (1 x s e d s' e' d' ps)
  show ?case
  proof (cases "s' \<le> x")
    case True
    then show ?thesis using 1 by (auto simp: piece_charge_def min_def algebra_simps)
  next
    case False
    have "\<forall>(a, b, c) \<in> set ((s', e', d') # ps). x \<le> a \<and> a \<le> b"
      using 1(2) False in_order_each [of "(s', e', d') # ps"] by fastforce
    then have "charged x ((s', e', d') # ps) = 0" by (rule charged_later)
    then show ?thesis using False 1(2) by (auto simp: piece_charge_def min_def max_def)
  qed
qed (auto simp: piece_charge_def min_def max_def)


fun whole_charge :: "piece \<Rightarrow> real" where
  "whole_charge (s, e, d) = d * (e - s)"

lemma sums_index: "in_order ps \<Longrightarrow> ps \<noteq> [] \<Longrightarrow> i = length [p \<leftarrow> ps. fst p \<le> x] - 1 \<Longrightarrow>
    (acc # prefix_sums acc (butlast (map whole_charge ps))) ! i +
      snd (snd (ps ! i)) * min (max (x - fst (ps ! i)) 0) (fst (snd (ps ! i)) - fst (ps ! i)) = acc + charge_upto x ps"
proof (induction x ps arbitrary: i acc rule: charge_upto.induct)
  case (1 x s e d s' e' d' ps)
  show ?case
  proof (cases "s' \<le> x")
    case True
    have sx: "s \<le> x" using True 1(2) by auto
    obtain n where n: "length [p \<leftarrow> (s', e', d') # ps. fst p \<le> x] = Suc n" using True by simp
    then have i: "i = Suc n" using 1(4) sx by simp
    show ?thesis using 1(1) [of n "acc + d * (e - s)"] 1(2) True n by (simp add: i algebra_simps)
  next
    case False
    have "\<forall>p \<in> set ((s', e', d') # ps). \<not> fst p \<le> x" using 1(2) False by fastforce
    then have "i = 0" using 1(4) by (auto simp: filter_empty_conv)
    then show ?thesis using False by simp
  qed
qed auto

lemma intervals_integral:
  assumes "searches_sorted np" "duty_ok h" "duty_mode h = Some Intervals_mode" "starts h \<noteq> []"
  shows "duty_integral np h x = charged x (pieces E h)"
proof -
  let ?ps = "zip (starts h) (zip (ends h) (duties h))"
  have iv: "intervals_ok h" using assms(2) by (simp add: duty_ok_def)
  then have len: "length (ends h) = length (starts h)" "length (duties h) = length (starts h)" and ord: "in_order ?ps"
    and sums: "cum_duty h = interval_sums (starts h) (ends h) (duties h)" by (auto simp: intervals_ok_def)
  let ?i = "length [s \<leftarrow> starts h. s \<le> x] - 1"
  have count: "length [s \<leftarrow> starts h. s \<le> x] = length [p \<leftarrow> ?ps. fst p \<le> x]"
    using len filter_map [of "\<lambda>s. s \<le> x" fst ?ps] by (simp add: o_def)
  have "?i < length (starts h)" using assms(4) length_filter_le [of "\<lambda>s. s \<le> x" "starts h"]
    by (cases "starts h") (auto simp: less_Suc_eq_le diff_le_self intro: le_less_trans)
  moreover have "map2 (\<lambda>d (s, e). d * (e - s)) (duties h) (zip (starts h) (ends h)) = map whole_charge ?ps"
    using len by (intro nth_equalityI) auto
  moreover have "ends h \<noteq> []" "duties h \<noteq> []" using len assms(4) by auto
  ultimately show ?thesis
    using sums_index [OF ord _ refl, where x = x and acc = 0] charged_upto [OF ord, of x] assms(3,4) len
      searches_right [OF assms(1), of "starts h" x] intervals_sorted [OF iv]
    by (auto simp: duty_integral_def interval_integral_def Let_def clip_index_def pieces_def count sums interval_sums_def
        strict_sorted_imp_sorted min_def)
qed


lemma step_index: "sorted_wrt (<) ts \<Longrightarrow> length us = length ts \<Longrightarrow> length ks = length ts \<Longrightarrow> ts \<noteq> [] \<Longrightarrow>
    chained ts us ks \<Longrightarrow> x \<le> E \<Longrightarrow> last ts < E \<Longrightarrow> i = length [t \<leftarrow> ts. t \<le> x] - 1 \<Longrightarrow>
    ks ! i + us ! i * max (x - ts ! i) 0 = hd ks + charge_upto x (step_pieces E ts us)"
proof (induction ts us ks arbitrary: i rule: chained.induct)
  case (1 t t' ts u us k k' ks)
  then obtain v vs where us: "us = v # vs" by (cases us) auto
  have pieces: "step_pieces E (t # t' # ts) (u # us) = (t, t', u) # step_pieces E (t' # ts) us"
    "\<exists>e. step_pieces E (t' # ts) us = (t', e, v) # step_pieces E ts vs"
    by (auto simp: step_pieces_def us neq_Nil_conv split: list.split) (cases ts; simp)+
  show ?case
  proof (cases "t' \<le> x")
    case True
    then have "t \<le> x" using 1(2) by simp
    obtain n where n: "length [y \<leftarrow> t' # ts. y \<le> x] = Suc n" using True by simp
    then have i: "i = Suc n" using \<open>t \<le> x\<close> 1(9) by simp
    show ?thesis using 1(1) [of n] 1(2-8) True n pieces by (auto simp: i)
  next
    case False
    then have "[y \<leftarrow> t' # ts. y \<le> x] = []" using 1(2) by (auto simp: filter_empty_conv)
    then have "i = 0" using 1(9) by (simp split: if_splits)
    then show ?thesis using False 1(2) pieces by (auto simp: min_def max_def)
  qed
qed (auto simp: length_Suc_conv Suc_length_conv step_pieces_def min_def max_def)

lemma steps_integral:
  assumes "searches_sorted np" "duty_ok h" "duty_mode h \<noteq> Some Intervals_mode" "step_times h \<noteq> []" "x \<le> E"
    "last (step_times h) < E"
  shows "duty_integral np h x = hd (step_integrals h) + charged x (pieces E h)"
proof -
  let ?ts = "step_times h" and ?i = "length [t \<leftarrow> step_times h. t \<le> x] - 1"
  have ok: "sorted_wrt (<) ?ts" "length (step_duties h) = length ?ts" "length (step_integrals h) = length ?ts"
      "chained ?ts (step_duties h) (step_integrals h)"
    using assms(2) by (auto simp: duty_ok_def steps_ok_def)
  have "?i \<le> length ?ts - 1" using length_filter_le [of "\<lambda>t. t \<le> x" ?ts] by (rule diff_le_mono)
  then show ?thesis
    using step_index [OF ok(1-3) assms(4) ok(4) assms(5,6) refl] searches_right [OF assms(1), of ?ts x] ok(1)
      charged_upto [OF step_pieces_order [OF ok(1,2) assms(4,6)], of x] assms(3,4)
    by (simp add: duty_integral_def Let_def clip_index_def pieces_def strict_sorted_imp_sorted min_absorb1)
qed


definition grounded :: "duty_history \<Rightarrow> real \<Rightarrow> bool" where
  "grounded h a \<longleftrightarrow> duty_mode h = Some Intervals_mode \<or> (\<exists>e. earliest h = Some e \<and> e \<le> a)"

lemma grounded_steps: "duty_ok h \<Longrightarrow> grounded h a \<Longrightarrow> duty_mode h \<noteq> Some Intervals_mode \<Longrightarrow>
    step_times h \<noteq> [] \<and> hd (step_times h) \<le> a"
  by (auto simp: grounded_def earliest_def first_of_def split: list.splits)

text \<open>An end no window and no step reaches.\<close>

definition beyond :: "duty_history \<Rightarrow> real \<Rightarrow> real" where
  "beyond h b = max b (if step_times h = [] then b else last (step_times h)) + 1"

lemma beyond: "b \<le> beyond h b" "step_times h \<noteq> [] \<Longrightarrow> last (step_times h) < beyond h b"
  by (auto simp: beyond_def)

lemma window_charge:
  assumes np: "searches_sorted np" and ok: "duty_ok h" and g: "grounded h a" and "a \<le> b"
    and ne: "history_len h \<noteq> 0"
  shows "duty_integral np h b - duty_integral np h a = duty_time (duty_segments np h a b)"
proof -
  let ?E = "beyond h b"
  have ord: "in_order (pieces ?E h)" by (rule pieces_order [OF ok]) (rule beyond)
  have "duty_integral np h b - duty_integral np h a = charged b (pieces ?E h) - charged a (pieces ?E h)"
  proof (cases "duty_mode h = Some Intervals_mode")
    case True
    then show ?thesis using intervals_integral [OF np ok True] ne by (simp add: history_len_def)
  next
    case False
    have "step_times h \<noteq> []" using grounded_steps [OF ok g False] by simp
    then show ?thesis using steps_integral [OF np ok False, of _ ?E] beyond(1) [of b h] beyond(2) [of h b] assms(4) by simp
  qed
  also have "\<dots> = duty_time (clip a b (pieces ?E h))" using ord assms(4) by (rule charged_clip)
  finally show ?thesis using segments_clip [OF np ok beyond(1) g [unfolded grounded_def]] by simp
qed

lemma average_charge:
  assumes "searches_sorted np" "duty_ok h" "average_duty np h a b delay = (v, True)"
  shows "v * (b - a) = duty_time (duty_segments np h (a - delay) (b - delay))"
proof -
  have "a < b" "history_len h \<noteq> 0" and v: "v = (duty_integral np h (b - delay) - duty_integral np h (a - delay)) / (b - a)"
    and g: "grounded h (a - delay)"
    using assms(3) by (auto simp: average_duty_def Let_def history_len_def grounded_def earliest_def first_of_def hd_conv_nth
        split: if_splits list.splits)
  then show ?thesis using window_charge [OF assms(1,2) g, of "b - delay"] by simp
qed

section \<open>Coverage\<close>

lemma meeting_snoc: "meeting (ps @ [p, q]) \<longleftrightarrow> meeting (ps @ [p]) \<and> fst (snd p) = fst q"
proof (induction ps)
  case Nil
  then show ?case by (cases p; cases q) auto
next
  case (Cons a ps)
  then show ?case by (cases a; cases p; cases ps) auto
qed

lemma coverage_run:
  assumes "length es = length ss" "length ds = length ss" "meeting (pre @ [(s, e, d)])"
    "fst (hd (pre @ [(s, e, d)])) = c" "i \<le> length ss"
  shows "\<exists>zs run. pre @ take (Suc i) ((s, e, d) # zip ss (zip es ds)) = zs @ run \<and> run \<noteq> [] \<and> meeting run \<and>
    fst (hd run) = (c # coverage_from c e ss es) ! i"
  using assms
proof (induction ss arbitrary: es ds pre s e d c i)
  case Nil
  then show ?case by (intro exI [of _ "[]"] exI [of _ "pre @ [(s, e, d)]"]) auto
next
  case (Cons s1 ss)
  obtain e1 es' d1 ds' where l: "es = e1 # es'" "ds = d1 # ds'" using Cons.prems by (cases es; cases ds) auto
  show ?case
  proof (cases i)
    case 0
    then show ?thesis using Cons.prems by (intro exI [of _ "[]"] exI [of _ "pre @ [(s, e, d)]"]) auto
  next
    case (Suc k)
    let ?pre = "if s1 = e then pre @ [(s, e, d)] else []"
    have m: "meeting (pre @ [(s, e, d), (e, e1, d1)])" using Cons.prems(3) by (simp add: meeting_snoc)
    have "\<exists>zs run. ?pre @ take (Suc k) ((s1, e1, d1) # zip ss (zip es' ds')) = zs @ run \<and> run \<noteq> [] \<and> meeting run \<and>
        fst (hd run) = ((if s1 = e then c else s1) # coverage_from (if s1 = e then c else s1) e1 ss es') ! k"
      using Cons.prems l Suc m by (intro Cons.IH) (auto simp: hd_append)
    then obtain zs run where r: "?pre @ take (Suc k) ((s1, e1, d1) # zip ss (zip es' ds')) = zs @ run" "run \<noteq> []"
        "meeting run" "fst (hd run) = ((if s1 = e then c else s1) # coverage_from (if s1 = e then c else s1) e1 ss es') ! k"
      by blast
    show ?thesis
      using r l Suc by (intro exI [of _ "if s1 = e then zs else pre @ (s, e, d) # zs"] exI [of _ run]) (auto simp: Let_def split: if_splits)
  qed
qed


lemma meeting_nth: "meeting ps \<Longrightarrow> Suc k < length ps \<Longrightarrow> fst (snd (ps ! k)) = fst (ps ! Suc k)"
  by (induction ps arbitrary: k rule: meeting.induct) (auto simp: nth_Cons split: nat.split)

lemma coverage_later: "k \<le> length ss \<Longrightarrow> length es = length ss \<Longrightarrow>
    (c' # coverage_from c' e ss es) ! k \<le> max ((c # coverage_from c e ss es) ! k) c'"
proof (induction ss arbitrary: es k c c' e)
  case (Cons s ss)
  then show ?case by (cases es; cases k) (auto simp: Let_def)
qed simp

lemma coverage_tail: "i < length (tl ss) \<Longrightarrow> length es = length ss \<Longrightarrow>
    interval_coverage (tl ss) (tl es) ! i \<le> max (interval_coverage ss es ! Suc i) (ss ! 1)"
  using coverage_later [of i "tl (tl ss)" "tl (tl es)" "ss ! 1" "es ! 1" "hd ss"]
  by (cases ss; cases es; cases "tl ss"; cases "tl es") (auto simp: interval_coverage_def Let_def)

lemma coverage_drop: "sorted ss \<Longrightarrow> length es = length ss \<Longrightarrow> n \<le> i \<Longrightarrow> i < length ss \<Longrightarrow>
    interval_coverage (drop n ss) (drop n es) ! (i - n) \<le> max (interval_coverage ss es ! i) (ss ! n)"
proof (induction n)
  case (Suc n)
  have "interval_coverage (tl (drop n ss)) (tl (drop n es)) ! (i - Suc n)
      \<le> max (interval_coverage (drop n ss) (drop n es) ! Suc (i - Suc n)) (drop n ss ! 1)"
    using Suc.prems by (intro coverage_tail) auto
  moreover have "ss ! n \<le> ss ! Suc n" using Suc.prems by (simp add: sorted_iff_nth_mono)
  moreover have "Suc (i - Suc n) = i - n" using Suc.prems by simp
  ultimately show ?case using Suc by (auto simp: drop_Suc tl_drop max_def split: if_splits)
qed simp

text \<open>The run of meeting intervals that ends at index \<open>i\<close> starts where the coverage array says.\<close>

lemma coverage_of:
  assumes "intervals_ok h" "i < length (starts h)"
  obtains j where "j \<le> i" "coverage h ! i = starts h ! j" "\<And>k. j \<le> k \<Longrightarrow> k < i \<Longrightarrow> ends h ! k = starts h ! Suc k"
proof -
  let ?ps = "zip (starts h) (zip (ends h) (duties h))"
  have len: "length (ends h) = length (starts h)" "length (duties h) = length (starts h)"
    and cov: "coverage h = interval_coverage (starts h) (ends h)" using assms(1) by (auto simp: intervals_ok_def)
  obtain s ss where ss: "starts h = s # ss" using assms(2) by (cases "starts h") auto
  obtain e es where es: "ends h = e # es" using len ss by (cases "ends h") auto
  obtain d ds where ds: "duties h = d # ds" using len ss by (cases "duties h") auto
  have "\<exists>zs run. [] @ take (Suc i) ((s, e, d) # zip ss (zip es ds)) = zs @ run \<and> run \<noteq> [] \<and> meeting run \<and>
      fst (hd run) = (s # coverage_from s e ss es) ! i"
    using len assms(2) by (intro coverage_run) (auto simp: ss es ds)
  then obtain zs run where r: "take (Suc i) ?ps = zs @ run" "run \<noteq> []" "meeting run" "fst (hd run) = coverage h ! i"
    by (auto simp: ss es ds cov interval_coverage_def)
  have n: "Suc i = length zs + length run"
    using arg_cong [OF r(1), of length] len assms(2) by simp
  have at: "?ps ! k = run ! (k - length zs)" if "length zs \<le> k" "k \<le> i" for k
    using that arg_cong [OF r(1), of "\<lambda>l. l ! k"] by (simp add: nth_append)
  show ?thesis
  proof
    show "length zs \<le> i" using n r(2) by (cases run) auto
    then show "coverage h ! i = starts h ! length zs"
      using at [of "length zs"] r(2,4) len assms(2) by (simp add: hd_conv_nth) (metis fst_conv)
    fix k assume k: "length zs \<le> k" "k < i"
    have "fst (snd (run ! (k - length zs))) = fst (run ! Suc (k - length zs))" using r(3) k n by (intro meeting_nth) auto
    then show "ends h ! k = starts h ! Suc k" using at [of k] at [of "Suc k"] k len assms(2) by (simp add: Suc_diff_le) (metis fst_conv snd_conv)
  qed
qed

lemma intervals_nth: "intervals_ok h \<Longrightarrow> i < length (starts h) \<Longrightarrow> starts h ! i < ends h ! i"
  using in_order_each [OF _ nth_mem, of "zip (starts h) (zip (ends h) (duties h))" i] by (simp add: intervals_ok_def)

lemma in_order_nth: "in_order ps \<Longrightarrow> i < j \<Longrightarrow> j < length ps \<Longrightarrow> fst (snd (ps ! i)) \<le> fst (ps ! j)"
proof (induction ps arbitrary: i j)
  case (Cons p ps)
  obtain s e d where p: "p = (s, e, d)" by (cases p)
  obtain k where j: "j = Suc k" "k < length ps" using Cons.prems by (cases j) auto
  have "e \<le> fst (ps ! k)" using Cons.prems(1) nth_mem [OF j(2)] by (cases "ps ! k") (fastforce simp: p)
  then show ?case using Cons j by (cases i) (simp_all add: p)
qed simp

lemma intervals_apart: "intervals_ok h \<Longrightarrow> i < j \<Longrightarrow> j < length (starts h) \<Longrightarrow> ends h ! i \<le> starts h ! j"
  using in_order_nth [of "zip (starts h) (zip (ends h) (duties h))" i j] by (auto simp: intervals_ok_def)


lemma ends_sorted:
  assumes "intervals_ok h"
  shows "sorted (ends h)"
  unfolding sorted_iff_nth_mono_less
proof (intro allI impI)
  fix i j assume "i < j" "j < length (ends h)"
  moreover have "length (ends h) = length (starts h)" using assms by (simp add: intervals_ok_def)
  ultimately have "ends h ! i \<le> starts h ! j" "starts h ! j < ends h ! j"
    using intervals_apart [OF assms, of i j] intervals_nth [OF assms, of j] by auto
  then show "ends h ! i \<le> ends h ! j" by simp
qed

text \<open>A covered window of intervals: the intervals \<open>j\<close> to \<open>i\<close> meet and contain it.\<close>

lemma coversE:
  assumes np: "searches_sorted np" and ok: "intervals_ok h" and c: "covers np h a b" "a < b" "duty_mode h = Some Intervals_mode"
  obtains j i where "j \<le> i" "i < length (starts h)" "i = np Side_left (starts h) b - 1" "coverage h ! i = starts h ! j" "starts h ! j \<le> a"
    "starts h ! i < b" "b \<le> ends h ! i" "\<And>k. i < k \<Longrightarrow> k < length (starts h) \<Longrightarrow> b \<le> starts h ! k"
    "\<And>k. j \<le> k \<Longrightarrow> k < i \<Longrightarrow> ends h ! k = starts h ! Suc k"
proof -
  let ?n = "np Side_left (starts h) b"
  have n: "0 < ?n" "b \<le> ends h ! (?n - 1)" "coverage h ! (?n - 1) \<le> a"
    using c by (auto simp: covers_def Let_def split: if_splits)
  have sorted: "sorted (starts h)" using intervals_sorted [OF ok] by (simp add: strict_sorted_imp_sorted)
  have le: "?n \<le> length (starts h)" and lo: "\<And>k. k < ?n \<Longrightarrow> starts h ! k < b"
    and hi: "\<And>k. ?n \<le> k \<Longrightarrow> k < length (starts h) \<Longrightarrow> b \<le> starts h ! k"
    using np sorted unfolding searches_sorted_def by blast+
  have "?n - 1 < length (starts h)" using n(1) le by simp
  then obtain j where "j \<le> ?n - 1" "coverage h ! (?n - 1) = starts h ! j"
      "\<And>k. j \<le> k \<Longrightarrow> k < ?n - 1 \<Longrightarrow> ends h ! k = starts h ! Suc k"
    using coverage_of [OF ok] by metis
  then show ?thesis using that [of j "?n - 1"] n le lo hi by auto
qed

lemma meeting_drop_take: "(\<And>k. j \<le> k \<Longrightarrow> k < i \<Longrightarrow> fst (snd (ps ! k)) = fst (ps ! Suc k)) \<Longrightarrow> i < length ps \<Longrightarrow> j \<le> i \<Longrightarrow>
    meeting (drop j (take (Suc i) ps))"
proof (induction "i - j" arbitrary: j)
  case 0
  then show ?case by (simp add: take_Suc_conv_app_nth)
next
  case (Suc n)
  have rest: "drop j (take (Suc i) ps) = ps ! j # ps ! Suc j # drop (Suc (Suc j)) (take (Suc i) ps)"
    using Suc.hyps(2) Suc.prems(2) by (simp add: Cons_nth_drop_Suc [symmetric])
  have "meeting (drop (Suc j) (take (Suc i) ps))" using Suc by (intro Suc.hyps(1)) auto
  moreover have "drop (Suc j) (take (Suc i) ps) = ps ! Suc j # drop (Suc (Suc j)) (take (Suc i) ps)"
    using Suc.hyps(2) Suc.prems(2) by (simp add: Cons_nth_drop_Suc [symmetric])
  moreover have "fst (snd (ps ! j)) = fst (ps ! Suc j)" using Suc.hyps(2) Suc.prems by auto
  ultimately show ?case by (cases "ps ! j"; cases "ps ! Suc j") (auto simp: rest)
qed

lemma step_pieces_run: "ts \<noteq> [] \<Longrightarrow> length us = length ts \<Longrightarrow> meeting (step_pieces E ts us) \<and> step_pieces E ts us \<noteq> [] \<and>
    fst (hd (step_pieces E ts us)) = hd ts \<and> fst (snd (last (step_pieces E ts us))) = E"
proof (induction ts arbitrary: us)
  case (Cons t ts)
  obtain u vs where us: "us = u # vs" using Cons.prems by (cases us) auto
  show ?case
  proof (cases ts)
    case (Cons t' ts')
    then obtain v ws where vs: "vs = v # ws" using Cons.prems us by (cases vs) auto
    have "step_pieces E (t # ts) us = (t, t', u) # step_pieces E ts vs" by (simp add: step_pieces_def Cons us)
    moreover have "meeting (step_pieces E ts vs) \<and> step_pieces E ts vs \<noteq> [] \<and>
        fst (hd (step_pieces E ts vs)) = t' \<and> fst (snd (last (step_pieces E ts vs))) = E"
      using Cons.IH [of vs] Cons.prems us Cons by simp
    ultimately show ?thesis by (cases "step_pieces E ts vs") auto
  qed (use Cons.prems us in \<open>simp add: step_pieces_def\<close>)
qed simp

lemma segments_tile:
  assumes np: "searches_sorted np" and ok: "duty_ok h" and c: "covers np h a b"
  shows "total_time (duty_segments np h a b) = b - a"
proof (cases "a < b")
  case False
  then show ?thesis using c by (auto simp: covers_def duty_segments_def split: if_splits)
next
  case less: True
  let ?E = "beyond h b"
  show ?thesis
  proof (cases "duty_mode h = Some Intervals_mode")
    case True
    have iv: "intervals_ok h" using ok by (simp add: duty_ok_def)
    obtain j i where ji: "j \<le> i" "i < length (starts h)" "starts h ! j \<le> a" "b \<le> ends h ! i"
        "\<And>k. i < k \<Longrightarrow> k < length (starts h) \<Longrightarrow> b \<le> starts h ! k" "\<And>k. j \<le> k \<Longrightarrow> k < i \<Longrightarrow> ends h ! k = starts h ! Suc k"
      using coversE [OF np iv c less True] by metis
    let ?ps = "zip (starts h) (zip (ends h) (duties h))"
    have len: "length (ends h) = length (starts h)" "length (duties h) = length (starts h)" and ord: "in_order ?ps"
      using iv by (auto simp: intervals_ok_def)
    let ?run = "drop j (take (Suc i) ?ps)"
    have split: "?ps = take j ?ps @ ?run @ drop (Suc i) ?ps"
      using ji(1) by (metis append_assoc append_take_drop_id le_SucI min.absorb1 take_take)
    have "clip a b (take j ?ps) = []"
      using ji(1-3) intervals_apart [OF iv, of _ j] len by (intro clip_earlier) (fastforce simp: in_set_conv_nth)
    moreover have "clip a b (drop (Suc i) ?ps) = []"
      using ji(5) len by (intro clip_later) (fastforce simp: in_set_conv_nth)
    ultimately have "clip a b ?ps = clip a b ?run" using arg_cong [OF split, of "clip a b"] by simp
    moreover have "total_time (clip a b ?run) = b - a"
    proof (rule meeting_total)
      show "in_order ?run" using ord by (intro in_order_drop in_order_take)
      show "meeting ?run" using ji(1,2,6) len by (intro meeting_drop_take) auto
      have "last ?run = ?ps ! i" using ji(1,2) len by (simp add: take_Suc_conv_app_nth)
      then show "?run \<noteq> []" "fst (hd ?run) \<le> a" "b \<le> fst (snd (last ?run))"
        using ji(1-4) len by (auto simp: hd_drop_conv_nth)
    qed (use less in simp)
    ultimately show ?thesis using segments_clip [OF np ok beyond(1)] True by (simp add: pieces_def)
  next
    case False
    have g: "grounded h a" using c less False by (auto simp: covers_def grounded_def split: option.splits)
    let ?ts = "step_times h"
    have ts: "?ts \<noteq> []" "hd ?ts \<le> a" using grounded_steps [OF ok g False] by auto
    have l: "length (step_duties h) = length ?ts" using ok by (simp add: duty_ok_def steps_ok_def)
    have "total_time (clip a b (pieces ?E h)) = b - a"
    proof (rule meeting_total)
      show "in_order (pieces ?E h)" by (rule pieces_order [OF ok]) (rule beyond)
      show "meeting (pieces ?E h)" "pieces ?E h \<noteq> []" "fst (hd (pieces ?E h)) \<le> a" "b \<le> fst (snd (last (pieces ?E h)))"
        using step_pieces_run [OF ts(1) l, of ?E] ts beyond(1) [of b h] False by (auto simp: pieces_def)
    qed (use less in simp)
    then show ?thesis using segments_clip [OF np ok beyond(1) g [unfolded grounded_def]] by simp
  qed
qed


section \<open>Pruning\<close>

lemma reachable_horizon: "sorted_wrt (<) ts \<Longrightarrow> 0 < reachable_from hz ts \<Longrightarrow> ts ! reachable_from hz ts \<le> hz"
proof (induction hz ts rule: reachable_from.induct)
  case (1 hz t t' ts)
  then show ?case by (cases "reachable_from hz (t' # ts)") (auto split: if_splits)
qed auto

lemma step_pieces_drop: "length us = length ts \<Longrightarrow> n < length ts \<Longrightarrow> step_pieces E (drop n ts) (drop n us) = drop n (step_pieces E ts us)"
proof (induction n arbitrary: ts us)
  case (Suc n)
  obtain t ts' u us' where c: "ts = t # ts'" "us = u # us'" using Suc.prems by (cases ts; cases us) auto
  have "step_pieces E ts us = (t, hd (ts' @ [E]), u) # step_pieces E ts' us'"
    using Suc.prems c by (cases ts') (auto simp: step_pieces_def)
  then show ?case using Suc c by simp
qed simp

text \<open>A history that has lost its first \<open>n\<close> pieces, as pruning makes it.\<close>

definition kept :: "nat \<Rightarrow> duty_history \<Rightarrow> duty_history \<Rightarrow> bool" where
  "kept n h p \<longleftrightarrow> duty_mode p = duty_mode h \<and> step_times p = drop n (step_times h) \<and> step_duties p = drop n (step_duties h) \<and>
     starts p = drop n (starts h) \<and> ends p = drop n (ends h) \<and> duties p = drop n (duties h)"

lemma kept_refl [simp]: "kept 0 h h"
  by (simp add: kept_def)

lemma kept_trans: "kept n h p \<Longrightarrow> kept m p q \<Longrightarrow> kept (m + n) h q"
  by (simp add: kept_def)

lemma prune_kept: "duty_ok h \<Longrightarrow> \<exists>n. kept n h (prune np now h)"
  by (cases "duty_mode h = Some Intervals_mode")
    (auto simp: prune_def Let_def kept_def duty_ok_def steps_ok_def intervals_ok_def)

text \<open>A window that no dropped piece reaches is answered as before.\<close>

lemma kept_segments:
  assumes np: "searches_sorted np" and ok: "duty_ok h" "duty_ok p" and k: "kept n h p" and e: "earliest p = Some e" "e \<le> a"
  shows "duty_segments np p a b = duty_segments np h a b"
proof -
  let ?E = "beyond h b"
  have n: "n < length (if duty_mode h = Some Intervals_mode then starts h else step_times h)"
      "(if duty_mode h = Some Intervals_mode then starts h else step_times h) ! n = e"
    using e(1) k by (auto simp: kept_def earliest_def first_of_def Cons_nth_drop_Suc [symmetric] not_less
        split: if_splits list.splits) (metis drop_all list.distinct(1) list.inject not_le Cons_nth_drop_Suc)+
  have len: "length (step_duties h) = length (step_times h)" "length (ends h) = length (starts h)" "length (duties h) = length (starts h)"
    using ok(1) by (auto simp: duty_ok_def steps_ok_def intervals_ok_def)
  have ord: "in_order (pieces ?E h)" by (rule pieces_order [OF ok(1)]) (rule beyond)
  have drop: "pieces ?E p = drop n (pieces ?E h)"
    using k n(1) len step_pieces_drop [of "step_duties h" "step_times h" n ?E]
    by (auto simp: pieces_def kept_def drop_zip3 split: if_splits)
  have at: "n < length (pieces ?E h)" "fst (pieces ?E h ! n) = e"
    using n len by (auto simp: pieces_def step_pieces_def split: if_splits)
  have "\<forall>(s, e', d) \<in> set (take n (pieces ?E h)). e' \<le> a"
    using in_order_nth [OF ord, of _ n] at e(2) by (fastforce simp: in_set_conv_nth)
  then have "clip a b (take n (pieces ?E h)) = []" by (rule clip_earlier)
  then have "clip a b (pieces ?E h) = clip a b (drop n (pieces ?E h))"
    using append_take_drop_id [of n "pieces ?E h"] clip_simps(3) [of a b "take n (pieces ?E h)" "drop n (pieces ?E h)"] by simp
  moreover have "duty_mode h = Some Intervals_mode \<or> (\<exists>x. earliest h = Some x \<and> x \<le> a)"
  proof (cases "duty_mode h = Some Intervals_mode")
    case False
    have "hd (step_times h) \<le> step_times h ! n" using ok(1) n False
      by (auto simp: hd_conv_nth duty_ok_def steps_ok_def sorted_iff_nth_mono dest!: strict_sorted_imp_sorted)
    then show ?thesis using n False e(2) by (auto simp: earliest_def first_of_def split: list.split)
  qed simp
  ultimately show ?thesis
    using segments_clip [OF np ok(1) beyond(1)] segments_clip [OF np ok(2) beyond(1) [of b h], of a] drop e by auto
qed

lemma pruned_segments:
  assumes "searches_sorted np" "duty_ok h" "earliest (prune np now h) = Some e" "e \<le> a"
  shows "duty_segments np (prune np now h) a b = duty_segments np h a b"
  using prune_kept [OF assms(2), of np now] kept_segments [OF assms(1,2) prune_ok [OF assms(2)] _ assms(3,4)] by blast

text \<open>Recording a later duty changes no answer about the past.\<close>

lemma record_pieces: "duty_ok h \<Longrightarrow> step_times h \<noteq> [] \<Longrightarrow>
    step_pieces E (step_times h @ [t]) (step_duties h @ [u]) = step_pieces t (step_times h) (step_duties h) @ [(t, E, u)]"
proof -
  assume ok: "duty_ok h" and "step_times h \<noteq> []"
  then obtain x xs where ts: "step_times h = x # xs" by (cases "step_times h") auto
  have l: "length (step_duties h) = length (x # xs)" using ok ts by (simp add: duty_ok_def steps_ok_def)
  have "zip ((xs @ [t]) @ [E]) (step_duties h @ [u]) = zip (xs @ [t]) (step_duties h) @ [(E, u)]"
    using l by (subst zip_append) auto
  then have "zip ((x # xs) @ [t]) (zip ((xs @ [t]) @ [E]) (step_duties h @ [u])) =
      zip (x # xs) (zip (xs @ [t]) (step_duties h)) @ [(t, E, u)]"
    using l by (simp only:) (subst zip_append; simp)
  then show ?thesis by (simp add: step_pieces_def ts)
qed

lemma recorded_segments:
  assumes np: "searches_sorted np" and ok: "duty_ok h" and "record_step t u h = Inr h'"
    and e: "earliest h = Some e" "e \<le> a" and "b \<le> t"
  shows "duty_segments np h' a b = duty_segments np h a b" "earliest h' = Some e"
proof -
  let ?ts = "step_times h"
  have m: "duty_mode h = Some Steps_mode" "?ts \<noteq> []"
    using assms(3) e(1) ok by (auto simp: record_step_def earliest_def first_of_def duty_ok_def split: if_splits list.splits)
  have ok': "duty_ok h'" using ok assms(3) by (rule record_step_ok)
  have cases: "h' = h\<lparr>duty_mode := Some Steps_mode\<rparr> \<or> h' = h\<lparr>duty_mode := Some Steps_mode, step_times := ?ts @ [t],
      step_duties := step_duties h @ [u], step_integrals := step_integrals h @ [last (step_integrals h) + last (step_duties h) * (t - last ?ts)]\<rparr>"
    using assms(3) m by (auto simp: record_step_def Let_def split: if_splits)
  then show e': "earliest h' = Some e" using e m by (auto simp: earliest_def first_of_def split: list.splits)
  show "duty_segments np h' a b = duty_segments np h a b"
  proof (cases "step_times h' = ?ts")
    case True
    then have "h' = h\<lparr>duty_mode := Some Steps_mode\<rparr>" using cases by auto
    then show ?thesis using m by (cases h) auto
  next
    case False
    have "duty_segments np h' a b = clip a b (step_pieces t ?ts (step_duties h) @ [(t, t + 1, u)])"
      using segments_clip [OF np ok', of b "t + 1" a] e' e(2) assms(6) cases False m record_pieces [OF ok m(2), of "t + 1" t u]
      by (auto simp: pieces_def)
    also have "\<dots> = clip a b (pieces t h)" using assms(6) m by (simp add: clip_piece_def pieces_def)
    finally show ?thesis using segments_clip [OF np ok assms(6), of a] e by auto
  qed
qed

lemma completed_segments:
  assumes np: "searches_sorted np" and ok: "duty_ok h" and r: "record_interval s e d h = Inr h'" and "b \<le> s"
  shows "duty_segments np h' a b = duty_segments np h a b"
proof -
  have m: "duty_mode h \<noteq> Some Steps_mode" and h': "duty_mode h' = Some Intervals_mode" "starts h' = starts h @ [s]"
      "ends h' = ends h @ [e]" "duties h' = duties h @ [d]"
    using r by (auto simp: record_interval_def split: if_splits)
  have len: "length (ends h) = length (starts h)" "length (duties h) = length (starts h)"
    using ok by (auto simp: duty_ok_def intervals_ok_def)
  have "duty_segments np h' a b = clip a b (pieces b h')"
    by (rule segments_clip [OF np record_interval_ok [OF ok r]]) (use h' in auto)
  also have "\<dots> = clip a b (zip (starts h) (zip (ends h) (duties h)))"
    using h' len assms(4) by (simp add: pieces_def clip_piece_def)
  finally have new: "duty_segments np h' a b = clip a b (zip (starts h) (zip (ends h) (duties h)))" .
  show ?thesis
  proof (cases "duty_mode h = Some Intervals_mode")
    case True
    then show ?thesis using new segments_clip [OF np ok, of b b a] by (simp add: pieces_def)
  next
    case False
    then have "step_times h = [] \<and> starts h = []" using ok m by (auto simp: duty_ok_def)
    then show ?thesis using new False by (simp add: duty_segments_def)
  qed
qed

lemma pruned_covers:
  assumes np: "searches_sorted np" and ok: "duty_ok h" and c: "covers np h a b" and a: "now - max_delay h \<le> a" "a < b"
  shows "covers np (prune np now h) a b" "\<exists>e. earliest (prune np now h) = Some e \<and> e \<le> a"
proof -
  have "covers np (prune np now h) a b \<and> (\<exists>e. earliest (prune np now h) = Some e \<and> e \<le> a)"
  proof (cases "duty_mode h = Some Intervals_mode")
    case True
    have iv: "intervals_ok h" using ok by (simp add: duty_ok_def)
    obtain j i where ji: "j \<le> i" "i < length (starts h)" "i = np Side_left (starts h) b - 1" "coverage h ! i = starts h ! j"
        "starts h ! j \<le> a" "starts h ! i < b" "b \<le> ends h ! i"
        "\<And>k. i < k \<Longrightarrow> k < length (starts h) \<Longrightarrow> b \<le> starts h ! k" "\<And>k. j \<le> k \<Longrightarrow> k < i \<Longrightarrow> ends h ! k = starts h ! Suc k"
      using coversE [OF np iv c a(2) True] by metis
    let ?n = "np Side_left (ends h) (now - max_delay h)"
    have len: "length (ends h) = length (starts h)" using iv by (auto simp: intervals_ok_def)
    have sorted: "sorted (ends h)" "sorted (starts h)"
      using ends_sorted [OF iv] intervals_sorted [OF iv] by (auto intro: strict_sorted_imp_sorted)
    have n: "?n \<le> length (ends h)" "\<And>k. k < ?n \<Longrightarrow> ends h ! k < now - max_delay h"
      using np sorted(1) unfolding searches_sorted_def by blast+
    have ni: "?n \<le> i" using n(2) [of i] ji(7) a by (intro leI) auto
    have first: "starts h ! ?n \<le> a"
    proof (cases "?n \<le> j")
      case True
      then show ?thesis using sorted_nth_mono [OF sorted(2), of ?n j] ji(1,2,5) by simp
    next
      case False
      then have "ends h ! (?n - 1) = starts h ! Suc (?n - 1)" using ni by (intro ji(9)) auto
      then show ?thesis using n(2) [of "?n - 1"] False a(1) by simp
    qed
    let ?h = "prune np now h"
    have h: "starts ?h = drop ?n (starts h)" "ends ?h = drop ?n (ends h)" "duty_mode ?h = Some Intervals_mode"
        "coverage ?h = interval_coverage (drop ?n (starts h)) (drop ?n (ends h))"
      using True ni ji(2) by (auto simp: prune_def Let_def)
    have "np Side_left (drop ?n (starts h)) b = Suc i - ?n"
    proof -
      have "length [x \<leftarrow> drop ?n (starts h). x < b] = Suc i - ?n"
      proof (rule count_prefix)
        show "\<forall>k < Suc i - ?n. drop ?n (starts h) ! k < b"
        proof (intro allI impI)
          fix k assume "k < Suc i - ?n"
          then have "?n + k \<le> i" using ni by linarith
          then have "starts h ! (?n + k) \<le> starts h ! i" using sorted_nth_mono [OF sorted(2)] ji(2) by blast
          then show "drop ?n (starts h) ! k < b" using ji(6) \<open>?n + k \<le> i\<close> ji(2) by simp
        qed
        show "\<forall>k. Suc i - ?n \<le> k \<longrightarrow> k < length (drop ?n (starts h)) \<longrightarrow> \<not> drop ?n (starts h) ! k < b"
          using ji(8) ni by (auto simp: not_less)
      qed (use ji(2) in auto)
      then show ?thesis using searches_left [OF np, of "drop ?n (starts h)" b] sorted(2) by (simp add: sorted_wrt_drop)
    qed
    moreover have "coverage ?h ! (i - ?n) \<le> a"
      using coverage_drop [OF sorted(2), of "ends h" ?n i] len ni ji(2,4,5) first iv h(4) by (simp add: intervals_ok_def)
    moreover have "earliest ?h = Some (starts h ! ?n)"
      using h ni ji(2) by (simp add: earliest_def first_of_def Cons_nth_drop_Suc [symmetric])
    ultimately show ?thesis using h ni ji(2,7) a(2) first len by (auto simp: covers_def Let_def Suc_diff_le)
  next
    case False
    have g: "grounded h a" using c a(2) False by (auto simp: covers_def grounded_def split: option.splits)
    let ?ts = "step_times h" and ?n = "reachable_from (now - max_delay h) (step_times h)"
    have ts: "?ts \<noteq> []" "hd ?ts \<le> a" using grounded_steps [OF ok g False] by auto
    have "?ts ! ?n \<le> a"
      using reachable_horizon [of ?ts "now - max_delay h"] ok a(1) ts
      by (cases "?n = 0") (auto simp: hd_conv_nth duty_ok_def steps_ok_def)
    moreover have "earliest (prune np now h) = Some (?ts ! ?n)"
      using False reachable_less [OF ts(1)] by (simp add: prune_def Let_def earliest_def first_of_def Cons_nth_drop_Suc [symmetric])
    moreover have "duty_mode (prune np now h) \<noteq> Some Intervals_mode" using False by (simp add: prune_def Let_def)
    ultimately show ?thesis using a(2) by (auto simp: covers_def)
  qed
  then show "covers np (prune np now h) a b" "\<exists>e. earliest (prune np now h) = Some e \<and> e \<le> a" by auto
qed


section \<open>Histories a controller builds\<close>

datatype duty_event = Stepped real real | Completed real real real | Pruned real

fun duty_step :: "searcher \<Rightarrow> duty_event \<Rightarrow> duty_history \<Rightarrow> duty_history result" where
  "duty_step np (Stepped t u) h = record_step t u h"
| "duty_step np (Completed s e d) h = record_interval s e d h"
| "duty_step np (Pruned now) h = Inr (prune np now h)"

fun duty_run :: "searcher \<Rightarrow> duty_event list \<Rightarrow> duty_history \<Rightarrow> duty_history result" where
  "duty_run np [] h = Inr h"
| "duty_run np (e # es) h = ebind (duty_step np e h) (duty_run np es)"

lemma duty_run_ok: "duty_run np es h = Inr h' \<Longrightarrow> duty_ok h \<Longrightarrow> duty_ok h'"
proof (induction es arbitrary: h)
  case (Cons e es)
  then show ?case
    by (cases e) (auto elim!: ebind_InrE intro: record_step_ok record_interval_ok prune_ok)
qed simp

lemma average_covers:
  assumes "searches_sorted np" "duty_ok h" "average_duty np h a b delay = (v, True)"
  shows "covers np h (a - delay) (b - delay)"
proof -
  have "sorted (starts h)" using assms(2) intervals_sorted by (auto simp: duty_ok_def intro: strict_sorted_imp_sorted)
  then have "np Side_left (starts h) (b - delay) \<le> length (starts h)" using assms(1) unfolding searches_sorted_def by blast
  then have "min (np Side_left (starts h) (b - delay) - Suc 0) (length (starts h) - Suc 0) = np Side_left (starts h) (b - delay) - Suc 0"
    by linarith
  then show ?thesis using assms(3)
    by (auto simp: average_duty_def covers_def Let_def earliest_def first_of_def clip_index_def split: if_splits list.splits)
qed

text \<open>A searcher that does what the documentation says, to show that the hypothesis can hold.\<close>

definition count_search :: searcher where
  "count_search side xs v = length (case side of Side_left \<Rightarrow> [x \<leftarrow> xs. x < v] | Side_right \<Rightarrow> [x \<leftarrow> xs. x \<le> v])"

lemma sorted_prefix: "sorted xs \<Longrightarrow> (\<And>x y. x \<le> y \<Longrightarrow> P y \<Longrightarrow> P x) \<Longrightarrow> i < length xs \<Longrightarrow>
    (i < length (filter P xs)) = P (xs ! i)" for xs :: "real list"
proof (induction xs arbitrary: i)
  case (Cons x xs)
  show ?case
  proof (cases "P x")
    case True
    then show ?thesis using Cons by (cases i) auto
  next
    case False
    then have "\<forall>y \<in> set (x # xs). \<not> P y" using Cons.prems by auto
    then have "filter P (x # xs) = []" "\<not> P ((x # xs) ! i)" using nth_mem [OF Cons.prems(3)] by (auto simp: filter_empty_conv)
    then show ?thesis by simp
  qed
qed simp

lemma count_search_sorted: "searches_sorted count_search"
proof -
  have P: "x \<le> y \<Longrightarrow> y < v \<Longrightarrow> x < v" "x \<le> y \<Longrightarrow> y \<le> v \<Longrightarrow> x \<le> v" for x y v :: real by auto
  have "sorted xs \<Longrightarrow> i < length xs \<Longrightarrow> i < count_search Side_left xs v \<longleftrightarrow> xs ! i < v"
    "sorted xs \<Longrightarrow> i < length xs \<Longrightarrow> i < count_search Side_right xs v \<longleftrightarrow> xs ! i \<le> v" for xs i v
    using sorted_prefix [of xs "\<lambda>x. x < v" i] sorted_prefix [of xs "\<lambda>x. x \<le> v" i] P by (auto simp: count_search_def)
  moreover have "count_search side xs v \<le> length xs" for side xs v by (cases side) (auto simp: count_search_def)
  ultimately show ?thesis unfolding searches_sorted_def by (metis less_le_trans not_le)
qed

text \<open>C21: The two readers of a duty history agree. Whenever the mean duty over a delayed window is reported as valid,
  it is the time-weighted mean of the segments the predictor integrates over that window, and those segments tile the
  window exactly: no delivered second is charged twice, missed, or taken from beside the window, whichever way the history
  was recorded and however often it was pruned.\<close>

theorem average_matches_segments:
  assumes "searches_sorted np" "duty_run np es (new_history r) = Inr h" "average_duty np h a b delay = (v, True)"
  shows "v * (b - a) = (\<Sum>(d, u) \<leftarrow> duty_segments np h (a - delay) (b - delay). d * u) \<and>
    (\<Sum>s \<leftarrow> duty_segments np h (a - delay) (b - delay). fst s) = b - a"
proof -
  have ok: "duty_ok h" using duty_run_ok [OF assms(2)] by simp
  show ?thesis
    using average_charge [OF assms(1) ok assms(3)] segments_tile [OF assms(1) ok average_covers [OF assms(1) ok assms(3)]]
    by (simp add: duty_time_def total_time_def)
qed

text \<open>Pruning is invisible. A window that reaches no further back than the retention is covered after pruning if it was
  before, and is answered with the same segments.\<close>

theorem pruning_is_invisible:
  assumes "searches_sorted np" "duty_run np es (new_history r) = Inr h"
    and "covers np h a b" "now - max_delay h \<le> a"
  shows "covers np (prune np now h) a b \<and> duty_segments np (prune np now h) a b = duty_segments np h a b"
proof (cases "a < b")
  case True
  have ok: "duty_ok h" using duty_run_ok [OF assms(2)] by simp
  then show ?thesis
    using pruned_covers [OF assms(1) ok assms(3,4) True] pruned_segments [OF assms(1) ok, of now _ a b] by blast
qed (use assms(3) in \<open>auto simp: covers_def duty_segments_def split: if_splits\<close>)

definition demo_duty :: "duty_event list" where
  "demo_duty = [Completed 0 20 (1 / 4), Completed 20 40 (1 / 2), Pruned 40, Completed 40 60 1]"

definition demo_duty_history :: duty_history where
  "demo_duty_history = \<lparr>max_delay = 30, duty_mode = Some Intervals_mode, step_times = [], step_duties = [], step_integrals = [],
     starts = [0, 20, 40], ends = [20, 40, 60], duties = [1 / 4, 1 / 2, 1], cum_duty = [0, 5, 15], coverage = [0, 0, 0]\<rparr>"

lemma demo_duty_run: "duty_run count_search demo_duty (new_history 30) = Inr demo_duty_history"
  by (simp add: demo_duty_def demo_duty_history_def new_history_def record_interval_def prune_def Let_def sync_intervals_def
      interval_sums_def interval_coverage_def count_search_def finite_real_def dbl_limit_def)

theorem average_matches_segments_witness:
  "duty_run count_search demo_duty (new_history 30) = Inr demo_duty_history \<and>
   average_duty count_search demo_duty_history 30 60 5 = (3 / 4, True) \<and>
   3 / 4 * (60 - 30) = (\<Sum>(d, u) \<leftarrow> duty_segments count_search demo_duty_history (30 - 5) (60 - 5). d * u)"
proof -
  have "average_duty count_search demo_duty_history 30 60 5 = (3 / 4, True)"
    by (simp add: demo_duty_history_def average_duty_def Let_def duty_integral_def interval_integral_def clip_index_def count_search_def)
  from average_matches_segments [OF count_search_sorted demo_duty_run this] show ?thesis
    by (simp add: demo_duty_run \<open>average_duty count_search demo_duty_history 30 60 5 = (3 / 4, True)\<close>)
qed

theorem pruning_is_invisible_witness:
  "covers count_search demo_duty_history 35 60 \<and> starts (prune count_search 60 demo_duty_history) = [20, 40] \<and>
   covers count_search (prune count_search 60 demo_duty_history) 35 60 \<and>
   duty_segments count_search (prune count_search 60 demo_duty_history) 35 60 = [(5, 1 / 2), (20, 1)]"
proof -
  have c: "covers count_search demo_duty_history 35 60" "60 - max_delay demo_duty_history \<le> 35"
      "duty_segments count_search demo_duty_history 35 60 = [(5, 1 / 2), (20, 1)]"
      "starts (prune count_search 60 demo_duty_history) = [20, 40]"
    by (simp_all add: demo_duty_history_def covers_def count_search_def Let_def duty_segments_def prune_def)
  with pruning_is_invisible [OF count_search_sorted demo_duty_run c(1,2)] show ?thesis by simp
qed

end
