(* ===== verification/Smith_Predictor.thy ===== *)
theory Smith_Predictor
  imports Duty_History
begin

text \<open>
  \<open>controller/smith_predictor.py\<close>: the temperature a controller regulates on. Two states of the identified model follow the
  duty history of \<open>Duty_History\<close>, one as the duty is applied and one shifted back by the dead time \<open>theta\<close>; their
  difference is added to the measured temperature. \<open>flow\<close> is the model's response to a history and the reference the
  predictor is compared with.

  Numbers of the state are reals and \<open>math.exp\<close> is the exponential function with its overflow. \<open>txt\<close> is what the
  built-in \<open>float\<close> makes of a text, \<open>np\<close> is \<open>numpy.searchsorted\<close>.
\<close>

section \<open>Models\<close>

text \<open>\<open>Ipdt K_i c0 theta\<close>, \<open>Fopdt K tau theta\<close> and \<open>Sopdt K tau_1 tau_2 theta\<close>, by the value of \<open>form\<close>.\<close>

datatype 'a sp_model = Ipdt 'a 'a 'a | Fopdt 'a 'a 'a | Sopdt 'a 'a 'a 'a

fun dead_time :: "'a sp_model \<Rightarrow> 'a" where
  "dead_time (Ipdt _ _ th) = th"
| "dead_time (Fopdt _ _ th) = th"
| "dead_time (Sopdt _ _ _ th) = th"

definition MAX_DELAY_BOUND_S :: rat where "MAX_DELAY_BOUND_S = 900"
definition TEMP_MIN_F :: real where "TEMP_MIN_F = - 100"
definition TEMP_MAX_F :: real where "TEMP_MAX_F = 1200"
definition MAX_RESIDUAL_F :: real where "MAX_RESIDUAL_F = 100"
definition MAX_RESIDUAL_STREAK :: nat where "MAX_RESIDUAL_STREAK = 4"
definition HISTORY_MARGIN_S :: rat where "HISTORY_MARGIN_S = 1800"

definition to_float :: "(string \<Rightarrow> pyfloat option) \<Rightarrow> pyval \<Rightarrow> pyfloat result" where
  "to_float txt v = (case v of
      VInt n \<Rightarrow> if \<bar>n\<bar> < dbl_limit then Inr (Fin (of_int n)) else Inl OverflowError
    | VBool b \<Rightarrow> Inr (Fin (if b then 1 else 0))
    | VFloat x \<Rightarrow> Inr x
    | VStr s \<Rightarrow> (case txt s of Some x \<Rightarrow> Inr x | None \<Rightarrow> Inl (ValueError ''could not convert string to float''))
    | _ \<Rightarrow> Inl (TypeError ''float() argument must be a string or a real number''))"

definition incoming_model :: "(string \<Rightarrow> pyfloat option) \<Rightarrow> pydict \<Rightarrow> pyfloat sp_model result" where
  "incoming_model txt model =
     (let form = (case dget model ''form'' of None \<Rightarrow> VStr ''fopdt'' | Some v \<Rightarrow> v);
          param = (\<lambda>k. ebind (dindex model k) (to_float txt)) in
      ebind (param ''theta'') (\<lambda>th.
      if form = VStr ''ipdt'' then ebind (param ''K_i'') (\<lambda>k. ebind (param ''c0'') (\<lambda>c. Inr (Ipdt k c th)))
      else if form = VStr ''fopdt'' then ebind (param ''K'') (\<lambda>k. ebind (param ''tau'') (\<lambda>t. Inr (Fopdt k t th)))
      else if form = VStr ''sopdt'' then
        ebind (param ''K'') (\<lambda>k. ebind (param ''tau_1'') (\<lambda>t1. ebind (param ''tau_2'') (\<lambda>t2. Inr (Sopdt k t1 t2 th))))
      else Inl (ValueError ''unsupported Smith predictor model form'')))"

definition plus_margin :: "pyfloat \<Rightarrow> pyfloat" where
  "plus_margin x = (case x of Fin q \<Rightarrow> Fin (q + HISTORY_MARGIN_S) | _ \<Rightarrow> x)"

definition retention_of :: "(string \<Rightarrow> pyfloat option) \<Rightarrow> pydict \<Rightarrow> pyfloat option result" where
  "retention_of txt model = ebind (ebind (dindex model ''theta'') (to_float txt)) (\<lambda>th.
     case dget model ''basin_upper_s'' of
       None \<Rightarrow> Inr (Some (plus_margin th))
     | Some (VBool _) \<Rightarrow> Inr None
     | Some raw \<Rightarrow> (case to_float txt raw of
           Inl (TypeError _) \<Rightarrow> Inr None
         | Inl (ValueError _) \<Rightarrow> Inr None
         | Inl e \<Rightarrow> Inl e
         | Inr (Fin upper) \<Rightarrow>
             if float_less (Fin upper) th \<or> MAX_DELAY_BOUND_S < upper then Inr None else Inr (Some (plus_margin (Fin upper)))
         | Inr _ \<Rightarrow> Inr None))"

text \<open>Authority is the digest the caller names, or the parameters themselves.\<close>

datatype authority = Parameters "real sp_model" | Digest string

fun finite_params :: "pyfloat sp_model \<Rightarrow> real sp_model option" where
  "finite_params (Ipdt (Fin k) (Fin c) (Fin th)) = Some (Ipdt (of_rat k) (of_rat c) (of_rat th))"
| "finite_params (Fopdt (Fin k) (Fin t) (Fin th)) = Some (Fopdt (of_rat k) (of_rat t) (of_rat th))"
| "finite_params (Sopdt (Fin k) (Fin t1) (Fin t2) (Fin th)) = Some (Sopdt (of_rat k) (of_rat t1) (of_rat t2) (of_rat th))"
| "finite_params _ = None"

fun caught_here :: "pyexn \<Rightarrow> bool" where
  "caught_here (KeyError _) = True"
| "caught_here (TypeError _) = True"
| "caught_here (ValueError _) = True"
| "caught_here _ = False"

definition hex_digest :: "string \<Rightarrow> bool" where
  "hex_digest s \<longleftrightarrow> length s = 64 \<and> list_all (\<lambda>c. c \<in> set ''0123456789abcdef'') s"

definition validated_trust ::
    "(string \<Rightarrow> pyfloat option) \<Rightarrow> pyval \<Rightarrow> pyval \<Rightarrow> (real sp_model \<times> pyfloat \<times> authority) option result" where
  "validated_trust txt model digest = (case model of
      VDict d \<Rightarrow>
        (case ebind (retention_of txt d) (\<lambda>r. ebind (incoming_model txt d) (\<lambda>m. Inr (r, m))) of
           Inl e \<Rightarrow> if caught_here e then Inr None else Inl e
         | Inr (None, m) \<Rightarrow> Inr None
         | Inr (Some r, m) \<Rightarrow> (case finite_params m of
               None \<Rightarrow> Inr None
             | Some incoming \<Rightarrow> (case digest of
                   VNone \<Rightarrow> Inr (Some (incoming, r, Parameters incoming))
                 | VStr s \<Rightarrow> if hex_digest s then Inr (Some (incoming, r, Digest s)) else Inr None
                 | _ \<Rightarrow> Inr None)))
    | _ \<Rightarrow> Inr None)"

section \<open>The predictor\<close>

record smith =
  history :: duty_history
  sp_model :: "real sp_model option"
  authority_identity :: "authority option"
  x0 :: real
  xd :: real
  z0 :: real
  zd :: real
  last_t :: "real option"
  last_measured :: "real option"
  prev_xd :: "real option"
  residual_streak :: nat
  disabled :: bool
  earliest_seen :: "real option"
  truncated :: nat

type_synonym 'a sp_action = "(smith, 'a) action"

definition new_smith :: smith where
  "new_smith = \<lparr>history = new_history (of_rat (MAX_DELAY_BOUND_S + HISTORY_MARGIN_S)), sp_model = None,
     authority_identity = None, x0 = 0, xd = 0, z0 = 0, zd = 0, last_t = None, last_measured = None, prev_xd = None,
     residual_streak = 0, disabled = False, earliest_seen = None, truncated = 0\<rparr>"

definition active :: "smith \<Rightarrow> bool" where
  "active p \<longleftrightarrow> sp_model p \<noteq> None \<and> \<not> disabled p"

definition governing_model :: "smith \<Rightarrow> real sp_model option" where
  "governing_model p = (if active p then sp_model p else None)"

definition sp_reset :: "smith \<Rightarrow> smith" where
  "sp_reset p = p\<lparr>x0 := 0, xd := 0, z0 := 0, zd := 0, last_t := None, last_measured := None, prev_xd := None,
     residual_streak := 0, disabled := False\<rparr>"

definition sp_disable :: "smith \<Rightarrow> smith" where
  "sp_disable p = p\<lparr>x0 := 0, xd := 0, z0 := 0, zd := 0, last_t := None, last_measured := None, prev_xd := None,
     disabled := True\<rparr>"

definition keep_history :: "searcher \<Rightarrow> real \<Rightarrow> duty_history result \<Rightarrow> unit sp_action" where
  "keep_history np now recorded = abind (alift recorded) (\<lambda>h.
     abind (amodify (\<lambda>p. p\<lparr>history := h,
       earliest_seen := (case earliest_seen p of None \<Rightarrow> earliest h | Some e \<Rightarrow> Some e)\<rparr>)) (\<lambda>_.
     amodify (\<lambda>p. p\<lparr>history := prune np now (history p)\<rparr>)))"

definition record_output :: "searcher \<Rightarrow> real \<Rightarrow> real \<Rightarrow> unit sp_action" where
  "record_output np timestamp ratio = abind (aget history) (\<lambda>h. keep_history np timestamp (record_step timestamp ratio h))"

definition record_frame :: "searcher \<Rightarrow> real \<Rightarrow> real \<Rightarrow> real \<Rightarrow> unit sp_action" where
  "record_frame np start_s end_s duty = abind (aget history) (\<lambda>h. keep_history np end_s (record_interval start_s end_s duty h))"

definition preflight_trust :: "(string \<Rightarrow> pyfloat option) \<Rightarrow> pyval \<Rightarrow> pyval \<Rightarrow> smith \<Rightarrow> bool result" where
  "preflight_trust txt model digest p = ebind (validated_trust txt model digest) (\<lambda>v. case v of
      None \<Rightarrow> Inr False
    | Some (incoming, _, identity) \<Rightarrow>
        Inr (if authority_identity p = Some identity \<and> sp_model p \<noteq> None \<and> sp_model p \<noteq> Some incoming then False
             else \<not> (disabled p \<and> authority_identity p = Some identity)))"

definition trust :: "(string \<Rightarrow> pyfloat option) \<Rightarrow> pyval \<Rightarrow> pyval \<Rightarrow> bool sp_action" where
  "trust txt model digest = abind (alift (validated_trust txt model digest)) (\<lambda>v. case v of
      None \<Rightarrow> areturn False
    | Some (incoming, retention, identity) \<Rightarrow>
        abind (aget (preflight_trust txt model digest)) (\<lambda>ok. abind (alift ok) (\<lambda>ok.
        if \<not> ok then areturn False else
        abind (aget history) (\<lambda>h. abind (alift (set_retention_s (VFloat retention) h)) (\<lambda>h.
        abind (amodify (\<lambda>p. p\<lparr>history := h\<rparr>)) (\<lambda>_.
        abind (aget authority_identity) (\<lambda>prior.
        abind (amodify (\<lambda>p. p\<lparr>authority_identity := Some identity\<rparr>)) (\<lambda>_.
        abind (aget id) (\<lambda>p.
        if sp_model p = None then abind (amodify (\<lambda>p. sp_reset (p\<lparr>sp_model := Some incoming\<rparr>))) (\<lambda>_. aget active)
        else if disabled p then
          (if prior = Some identity then araise AssertionError
           else abind (amodify (\<lambda>p. sp_reset (p\<lparr>sp_model := Some incoming\<rparr>))) (\<lambda>_. aget active))
        else if map_option dead_time (sp_model p) \<noteq> Some (dead_time incoming)
        then abind (amodify (\<lambda>p. sp_reset (p\<lparr>sp_model := Some incoming\<rparr>))) (\<lambda>_. aget active)
        else abind (amodify (\<lambda>p. p\<lparr>sp_model := Some incoming\<rparr>)) (\<lambda>_. aget active))))))))))"

section \<open>Propagation\<close>

definition py_exp :: "real \<Rightarrow> real result" where
  "py_exp x = (if finite_real (exp x) then Inr (exp x) else Inl OverflowError)"

definition py_expm1 :: "real \<Rightarrow> real result" where
  "py_expm1 x = (if finite_real (exp x - 1) then Inr (exp x - 1) else Inl OverflowError)"

definition py_div :: "real \<Rightarrow> real \<Rightarrow> real result" where
  "py_div a b = (if b = 0 then Inl ZeroDivisionError else Inr (a / b))"

fun step_pair :: "real \<Rightarrow> real \<Rightarrow> real \<Rightarrow> real \<Rightarrow> real sp_model \<Rightarrow> (real \<times> real) result" where
  "step_pair x z u dt (Ipdt k c _) = Inr (x + (k * u + c) * dt, z)"
| "step_pair x z u dt (Fopdt k t _) = ebind (ebind (py_div (- dt) t) py_exp) (\<lambda>decay.
     Inr (x * decay + k * u * (1 - decay), z))"
| "step_pair x z u dt (Sopdt k t1 t2 _) = (let forcing = k * u in
     ebind (ebind (py_div (- dt) t1) py_exp) (\<lambda>decay_1.
     ebind (ebind (py_div (- dt) t2) py_exp) (\<lambda>decay_2.
     let next_z = forcing + (z - forcing) * decay_1 in
     ebind (if t1 = t2 then Inr ((dt / t1) * decay_1)
        else ebind (py_expm1 (dt * (t1 - t2) / (t1 * t2))) (\<lambda>m. Inr (t1 / (t1 - t2) * decay_2 * m))) (\<lambda>coupling.
     Inr (x * decay_2 + forcing * (1 - decay_2) + (z - forcing) * coupling, next_z)))))"

fun drive_x0 :: "real sp_model \<Rightarrow> (real \<times> real) list \<Rightarrow> unit sp_action" where
  "drive_x0 m [] = areturn ()"
| "drive_x0 m ((duration, duty) # segs) = abind (aget id) (\<lambda>p. abind (alift (step_pair (x0 p) (z0 p) duty duration m)) (\<lambda>(x, z).
     abind (amodify (\<lambda>p. p\<lparr>x0 := x, z0 := z\<rparr>)) (\<lambda>_. drive_x0 m segs)))"

fun drive_xd :: "real sp_model \<Rightarrow> (real \<times> real) list \<Rightarrow> unit sp_action" where
  "drive_xd m [] = areturn ()"
| "drive_xd m ((duration, duty) # segs) = abind (aget id) (\<lambda>p. abind (alift (step_pair (xd p) (zd p) duty duration m)) (\<lambda>(x, z).
     abind (amodify (\<lambda>p. p\<lparr>xd := x, zd := z\<rparr>)) (\<lambda>_. drive_xd m segs)))"

definition sp_integrate :: "searcher \<Rightarrow> real sp_model \<Rightarrow> real \<Rightarrow> real \<Rightarrow> bool sp_action" where
  "sp_integrate np m t0 t1 = abind (aget id) (\<lambda>p. case earliest (history p) of
      None \<Rightarrow> areturn False
    | Some start \<Rightarrow> (case earliest_seen p of
        None \<Rightarrow> araise (TypeError ''>'')
      | Some seen \<Rightarrow>
        let th = dead_time m; h = history p;
            lo0 = max t0 start; hi0 = max t1 start; lod = max (t0 - th) start; hid = max (t1 - th) start in
        if seen < start \<and> (t0 < start \<or> t0 - th < start) then areturn True
        else if \<not> covers np h lo0 hi0 \<or> \<not> covers np h lod hid then areturn True
        else abind (drive_x0 m (duty_segments np h lo0 hi0)) (\<lambda>_.
             abind (drive_xd m (duty_segments np h lod hid)) (\<lambda>_. areturn False))))"

definition sp_safe :: "real \<Rightarrow> real \<Rightarrow> bool sp_action" where
  "sp_safe predicted residual = abind (aget id) (\<lambda>p.
     if \<not> finite_real predicted \<or> \<not> finite_real (x0 p) \<or> \<not> finite_real (xd p) then areturn False
     else if \<not> (TEMP_MIN_F \<le> predicted \<and> predicted \<le> TEMP_MAX_F) then areturn False
     else abind (amodify (\<lambda>p. p\<lparr>residual_streak := (if MAX_RESIDUAL_F < residual then residual_streak p + 1 else 0)\<rparr>)) (\<lambda>_.
       aget (\<lambda>p. residual_streak p < MAX_RESIDUAL_STREAK)))"

definition temperature :: "searcher \<Rightarrow> real \<Rightarrow> real \<Rightarrow> real sp_action" where
  "temperature np measured now = abind (aget id) (\<lambda>p. case governing_model p of
      None \<Rightarrow> abind (amodify (\<lambda>p. p\<lparr>last_t := Some now\<rparr>)) (\<lambda>_. areturn measured)
    | Some m \<Rightarrow> (case last_t p of
        None \<Rightarrow> abind (amodify (\<lambda>p. p\<lparr>last_t := Some now, last_measured := Some measured, prev_xd := Some (xd p)\<rparr>)) (\<lambda>_.
          areturn measured)
      | Some before \<Rightarrow>
        abind (sp_integrate np m before now) (\<lambda>cut.
        abind (amodify (\<lambda>p. p\<lparr>last_t := Some now\<rparr>)) (\<lambda>_.
        if cut then abind (amodify (\<lambda>p. sp_reset (p\<lparr>truncated := truncated p + 1\<rparr>))) (\<lambda>_. areturn measured)
        else abind (aget id) (\<lambda>p. case (last_measured p, prev_xd p) of
            (Some lm, Some px) \<Rightarrow>
              let predicted = measured + x0 p - xd p; residual = \<bar>measured - (lm + (xd p - px))\<bar> in
              abind (sp_safe predicted residual) (\<lambda>fine.
              if \<not> fine then abind (amodify sp_disable) (\<lambda>_. areturn measured)
              else abind (amodify (\<lambda>p. p\<lparr>last_measured := Some measured, prev_xd := Some (xd p)\<rparr>)) (\<lambda>_. areturn predicted))
          | _ \<Rightarrow> araise (TypeError ''-''))))))"


section \<open>The response of a model\<close>

fun flow_step :: "real sp_model \<Rightarrow> real \<times> real \<Rightarrow> real \<times> real \<Rightarrow> real \<times> real" where
  "flow_step (Ipdt k c _) (x, z) (dt, u) = (x + (k * u + c) * dt, z)"
| "flow_step (Fopdt k t _) (x, z) (dt, u) = (x * exp (- dt / t) + k * u * (1 - exp (- dt / t)), z)"
| "flow_step (Sopdt k t1 t2 _) (x, z) (dt, u) =
     (x * exp (- dt / t2) + k * u * (1 - exp (- dt / t2)) + (z - k * u) *
        (if t1 = t2 then dt / t1 * exp (- dt / t1) else t1 / (t1 - t2) * (exp (- dt / t1) - exp (- dt / t2))),
      k * u + (z - k * u) * exp (- dt / t1))"

fun time_constants :: "real sp_model \<Rightarrow> bool" where
  "time_constants (Ipdt _ _ _) = True"
| "time_constants (Fopdt _ t _) = (t \<noteq> 0)"
| "time_constants (Sopdt _ t1 t2 _) = (t1 \<noteq> 0 \<and> t2 \<noteq> 0)"

definition response :: "searcher \<Rightarrow> real sp_model \<Rightarrow> duty_history \<Rightarrow> real \<Rightarrow> real \<Rightarrow> real \<times> real" where
  "response np m h a b = foldl (flow_step m) (0, 0) (duty_segments np h a b)"

lemma exp_cut: "exp (- (d + d') / t) = exp (- d / t) * exp (- d' / t)" for t :: real
  by (simp add: exp_add [symmetric] diff_divide_distrib add_divide_distrib)

text \<open>Two steps of one duty are one step of it, for every form.\<close>

lemma flow_compose: "time_constants m \<Longrightarrow> flow_step m (flow_step m s (d, u)) (d', u) = flow_step m s (d + d', u)"
proof (cases m; cases s)
  fix k t1 t2 th x z assume m: "m = Sopdt k t1 t2 th" "time_constants m" and s: "s = (x, z)"
  show ?thesis
  proof (cases "t1 = t2")
    case True
    show ?thesis unfolding m(1) s True flow_step.simps exp_cut if_True simp_thms
      by (simp add: algebra_simps add_divide_distrib diff_divide_distrib)
  next
    case False
    then show ?thesis unfolding m(1) s flow_step.simps exp_cut if_False simp_thms
      by (simp add: algebra_simps add_divide_distrib diff_divide_distrib)
  qed
next
  fix k t th x z assume m: "m = Fopdt k t th" and s: "s = (x, z)"
  show ?thesis unfolding m s flow_step.simps exp_cut by (simp add: algebra_simps)
qed (auto simp: algebra_simps)

lemma step_pair_flow:
  assumes "step_pair x z u dt m = Inr r"
  shows "r = flow_step m (x, z) (dt, u)"
proof (cases m)
  case (Sopdt k t1 t2 th)
  have t: "t1 \<noteq> 0" "t2 \<noteq> 0" using assms by (auto simp: Sopdt py_div_def py_exp_def Let_def split: if_splits)
  have "- dt / t2 + dt * (t1 - t2) / (t1 * t2) = - dt / t1" using t by (simp add: field_simps)
  then have "exp (- dt / t2) * exp (dt * (t1 - t2) / (t1 * t2)) = exp (- dt / t1)" by (simp add: exp_add [symmetric])
  then have "t1 / (t1 - t2) * exp (- dt / t2) * (exp (dt * (t1 - t2) / (t1 * t2)) - 1) =
      t1 / (t1 - t2) * (exp (- dt / t1) - exp (- dt / t2))" by (simp add: right_diff_distrib mult.assoc)
  then show ?thesis using assms t
    by (auto simp: Sopdt py_div_def py_exp_def py_expm1_def Let_def split: if_splits)
qed (use assms in \<open>auto simp: py_div_def py_exp_def split: if_splits\<close>)

lemma drive_x0_flow: "drive_x0 m segs p = (q, Inr ()) \<Longrightarrow>
    q = p\<lparr>x0 := fst (foldl (flow_step m) (x0 p, z0 p) segs), z0 := snd (foldl (flow_step m) (x0 p, z0 p) segs)\<rparr>"
proof (induction m segs arbitrary: p rule: drive_x0.induct)
  case (2 m d u segs)
  then obtain x z where s: "step_pair (x0 p) (z0 p) u d m = Inr (x, z)" "drive_x0 m segs (p\<lparr>x0 := x, z0 := z\<rparr>) = (q, Inr ())"
    by (auto simp: abind_def split: sum.splits prod.splits)
  show ?case using 2(1) [OF s(2)] step_pair_flow [OF s(1)] by simp
qed simp

lemma drive_xd_flow: "drive_xd m segs p = (q, Inr ()) \<Longrightarrow>
    q = p\<lparr>xd := fst (foldl (flow_step m) (xd p, zd p) segs), zd := snd (foldl (flow_step m) (xd p, zd p) segs)\<rparr>"
proof (induction m segs arbitrary: p rule: drive_xd.induct)
  case (2 m d u segs)
  then obtain x z where s: "step_pair (xd p) (zd p) u d m = Inr (x, z)" "drive_xd m segs (p\<lparr>xd := x, zd := z\<rparr>) = (q, Inr ())"
    by (auto simp: abind_def split: sum.splits prod.splits)
  show ?case using 2(1) [OF s(2)] step_pair_flow [OF s(1)] by simp
qed simp

lemma response_extend:
  assumes "searches_sorted np" "duty_ok h" "time_constants m" "earliest h = Some e" "e \<le> a" "a \<le> b" "b \<le> c"
  shows "foldl (flow_step m) (response np m h a b) (duty_segments np h b c) = response np m h a c"
proof -
  let ?E = "beyond h c"
  have ord: "in_order (pieces ?E h)" by (rule pieces_order [OF assms(2)]) (rule beyond)
  have seg: "duty_segments np h x y = clip x y (pieces ?E h)" if "e \<le> x" "y \<le> c" for x y
    using that assms(4) beyond(1) [of c h] by (intro segments_clip [OF assms(1,2)]) auto
  show ?thesis using clip_split [of "flow_step m" "pieces ?E h" a b c "(0, 0)", OF flow_compose [OF assms(3)] ord assms(6,7)] assms
    by (simp add: response_def seg)
qed


section \<open>A cook as the predictor sees it\<close>

datatype smith_event = Trusted pyval pyval | Applied real real | Framed real real real | Measured real real

fun smith_step :: "(string \<Rightarrow> pyfloat option) \<Rightarrow> searcher \<Rightarrow> smith_event \<Rightarrow> real list sp_action" where
  "smith_step txt np (Trusted model digest) = abind (trust txt model digest) (\<lambda>_. areturn [])"
| "smith_step txt np (Applied t u) = abind (record_output np t u) (\<lambda>_. areturn [])"
| "smith_step txt np (Framed s e d) = abind (record_frame np s e d) (\<lambda>_. areturn [])"
| "smith_step txt np (Measured v now) = abind (temperature np v now) (\<lambda>x. areturn [x])"

fun smith_run :: "(string \<Rightarrow> pyfloat option) \<Rightarrow> searcher \<Rightarrow> smith_event list \<Rightarrow> real list sp_action" where
  "smith_run txt np [] = areturn []"
| "smith_run txt np (e # es) = abind (smith_step txt np e) (\<lambda>xs. abind (smith_run txt np es) (\<lambda>ys. areturn (xs @ ys)))"

text \<open>Duty is recorded no earlier than the last reading it has to explain, and readings are in time order.\<close>

definition ticked :: "smith \<Rightarrow> real \<Rightarrow> bool" where
  "ticked p t \<longleftrightarrow> (case last_t p of None \<Rightarrow> True | Some l \<Rightarrow> l \<le> t)"

fun timely :: "smith_event \<Rightarrow> smith \<Rightarrow> bool" where
  "timely (Trusted _ _) p \<longleftrightarrow> True"
| "timely (Applied t _) p \<longleftrightarrow> ticked p t"
| "timely (Framed s _ _) p \<longleftrightarrow> earliest (history p) \<noteq> None \<or> ticked p s"
| "timely (Measured _ now) p \<longleftrightarrow> ticked p now"

fun timely_run :: "(string \<Rightarrow> pyfloat option) \<Rightarrow> searcher \<Rightarrow> smith_event list \<Rightarrow> smith \<Rightarrow> bool" where
  "timely_run txt np [] p \<longleftrightarrow> True"
| "timely_run txt np (e # es) p \<longleftrightarrow> timely e p \<and> timely_run txt np es (fst (smith_step txt np e p))"

fun duty_of :: "smith_event \<Rightarrow> duty_event list" where
  "duty_of (Applied t u) = [Stepped t u]"
| "duty_of (Framed s e d) = [Completed s e d]"
| "duty_of _ = []"

text \<open>The predictor's history is what is left of the whole cook's.\<close>

definition follows :: "duty_history \<Rightarrow> smith \<Rightarrow> bool" where
  "follows h p \<longleftrightarrow> duty_ok h \<and> duty_ok (history p) \<and> 0 < max_delay (history p) \<and> (\<exists>n. kept n h (history p)) \<and>
     (earliest h = None \<longleftrightarrow> earliest (history p) = None) \<and> earliest_seen p = earliest h"

definition rested :: "smith \<Rightarrow> bool" where
  "rested p \<longleftrightarrow> x0 p = 0 \<and> xd p = 0 \<and> z0 p = 0 \<and> zd p = 0"

lemma new_smith_follows: "follows (new_history r) new_smith" "rested new_smith"
  by (simp_all add: follows_def rested_def new_smith_def MAX_DELAY_BOUND_S_def HISTORY_MARGIN_S_def earliest_def first_of_def)
    (auto simp: new_history_def kept_def)

lemma prune_retains:
  assumes "searches_sorted np" "duty_ok h" "0 < max_delay h" "now = (if duty_mode h = Some Intervals_mode then last (ends h) else now)"
    "earliest h \<noteq> None"
  shows "earliest (prune np now h) \<noteq> None"
proof (cases "duty_mode h = Some Intervals_mode")
  case True
  have ne: "starts h \<noteq> []" "length (ends h) = length (starts h)" using assms(2,5) True
    by (auto simp: earliest_def first_of_def duty_ok_def intervals_ok_def split: list.splits)
  let ?n = "np Side_left (ends h) (now - max_delay h)"
  have "sorted (ends h)" using assms(2) ends_sorted by (auto simp: duty_ok_def)
  then have "?n \<le> length (ends h)" "\<forall>i < ?n. ends h ! i < now - max_delay h"
    using assms(1) unfolding searches_sorted_def by blast+
  moreover have "ends h \<noteq> []" using ne by auto
  then have "ends h ! (length (ends h) - 1) = now" using assms(4) True by (simp add: last_conv_nth)
  ultimately have "\<not> length (ends h) - 1 < ?n" using assms(3) by force
  then have "?n < length (starts h)" using ne by (cases "starts h") auto
  then show ?thesis using True ne by (auto simp: prune_def Let_def earliest_def first_of_def split: list.split)
next
  case False
  have ne: "step_times h \<noteq> []" using assms(5) False by (auto simp: earliest_def first_of_def split: list.splits)
  then show ?thesis using False reachable_less [OF ne, of "now - max_delay h"]
    by (auto simp: prune_def Let_def earliest_def first_of_def split: list.split)
qed


lemma kept_record_step:
  assumes k: "kept n h p" and ok: "duty_ok h" "duty_ok p" and none: "earliest h = None \<longleftrightarrow> earliest p = None"
    and r: "record_step t u p = Inr g"
  obtains h' m where "record_step t u h = Inr h'" "kept m h' g" "earliest g \<noteq> None"
    "earliest h' = (case earliest h of None \<Rightarrow> earliest g | Some x \<Rightarrow> Some x)" "max_delay g = max_delay p"
    "duty_mode g \<noteq> Some Intervals_mode"
proof -
  have mode: "duty_mode p \<noteq> Some Intervals_mode" "duty_mode h = duty_mode p" "starts h = []" "starts p = []"
    using r k ok by (auto simp: record_step_def kept_def duty_ok_def split: if_splits)
  have len: "length (step_duties h) = length (step_times h)" "length (step_integrals h) = length (step_times h)"
      "ends h = []" "duties h = []"
    using ok(1) mode by (auto simp: duty_ok_def steps_ok_def intervals_ok_def)
  have drop: "step_times p = drop n (step_times h)" "step_duties p = drop n (step_duties h)"
      "ends p = []" "duties p = []" using k len by (auto simp: kept_def)
  show ?thesis
  proof (cases "step_times p = []")
    case True
    then have "step_times h = []" using none mode by (auto simp: earliest_def first_of_def split: list.splits)
    then show ?thesis using True r mode len drop k
      by (intro that [where m = 0 and h' = "h\<lparr>duty_mode := Some Steps_mode, step_times := [t], step_duties := [u], step_integrals := [0]\<rparr>"])
        (auto simp: record_step_def Let_def kept_def earliest_def first_of_def split: list.splits)
  next
    case False
    then have n: "n < length (step_times h)" "last (step_times p) = last (step_times h)" "last (step_duties p) = last (step_duties h)"
        "step_times h \<noteq> []"
      using drop len by (auto simp: last_drop not_le)
    then show ?thesis using False r mode len drop k
      by (intro that [where m = n])
        (auto simp: record_step_def Let_def kept_def earliest_def first_of_def split: list.splits if_splits)
  qed
qed

lemma kept_record_interval:
  assumes k: "kept n h p" and ok: "duty_ok h" "duty_ok p" and none: "earliest h = None \<longleftrightarrow> earliest p = None"
    and r: "record_interval s e d p = Inr g"
  obtains h' m where "record_interval s e d h = Inr h'" "kept m h' g" "earliest g \<noteq> None"
    "earliest h' = (case earliest h of None \<Rightarrow> earliest g | Some x \<Rightarrow> Some x)" "max_delay g = max_delay p"
    "duty_mode g = Some Intervals_mode" "last (ends g) = e"
proof -
  have mode: "duty_mode p \<noteq> Some Steps_mode" "duty_mode h = duty_mode p" "step_times h = []" "step_times p = []"
    using r k ok by (auto simp: record_interval_def kept_def duty_ok_def split: if_splits)
  have len: "length (ends h) = length (starts h)" "length (duties h) = length (starts h)" "step_duties h = []"
    using ok(1) mode by (auto simp: duty_ok_def steps_ok_def intervals_ok_def)
  have drop: "starts p = drop n (starts h)" "ends p = drop n (ends h)" "duties p = drop n (duties h)" "step_duties p = []"
    using k len by (auto simp: kept_def)
  have g: "g = sync_intervals (p\<lparr>duty_mode := Some Intervals_mode, starts := starts p @ [s], ends := ends p @ [e], duties := duties p @ [d]\<rparr>)"
    using r by (auto simp: record_interval_def split: if_splits)
  show ?thesis
  proof (cases "starts p = []")
    case True
    have "starts h = []"
    proof (cases "duty_mode h = Some Intervals_mode")
      case True
      then show ?thesis using none mode \<open>starts p = []\<close> by (auto simp: earliest_def first_of_def split: list.splits)
    qed (use ok(1) in \<open>simp add: duty_ok_def\<close>)
    then have "ends h = []" "duties h = []" using len by auto
    then show ?thesis using True r mode len drop k g \<open>starts h = []\<close>
      by (intro that [where m = 0 and h' = "sync_intervals (h\<lparr>duty_mode := Some Intervals_mode, starts := [s], ends := [e], duties := [d]\<rparr>)"])
        (auto simp: record_interval_def Let_def kept_def earliest_def first_of_def split: list.splits if_splits)
  next
    case False
    then have n: "n < length (starts h)" "last (ends p) = last (ends h)" "starts h \<noteq> []" "ends h \<noteq> []" "ends p \<noteq> []"
      using drop len by (auto simp: last_drop not_le)
    have m: "duty_mode p = Some Intervals_mode" using False ok(2) by (auto simp: duty_ok_def)
    have "duty_mode h = Some Intervals_mode" using m mode by simp
    then show ?thesis using False r mode len drop k g n m
      by (intro that [where m = n and h' = "sync_intervals (h\<lparr>duty_mode := Some Intervals_mode, starts := starts h @ [s], ends := ends h @ [e], duties := duties h @ [d]\<rparr>)"])
        (auto simp: record_interval_def Let_def kept_def earliest_def first_of_def split: list.splits if_splits)
  qed
qed


lemma kept_earliest: "kept n h p \<Longrightarrow> duty_ok h \<Longrightarrow> earliest p = Some x \<Longrightarrow> \<exists>e. earliest h = Some e \<and> e \<le> x"
proof -
  assume k: "kept n h p" and ok: "duty_ok h" and e: "earliest p = Some x"
  define l where "l = (if duty_mode h = Some Intervals_mode then starts h else step_times h)"
  have s: "sorted l" using ok intervals_sorted by (auto simp: l_def duty_ok_def steps_ok_def intro: strict_sorted_imp_sorted)
  have "first_of (drop n l) = Some x" using k e by (auto simp: l_def earliest_def kept_def split: if_splits)
  then have "drop n l \<noteq> []" "hd (drop n l) = x" by (auto simp: first_of_def split: list.splits)
  then have n: "n < length l" "l ! n = x" by (auto simp: hd_drop_conv_nth not_le)
  then have "l \<noteq> []" by auto
  then have "first_of l = Some (l ! 0)" by (auto simp: first_of_def split: list.split)
  moreover have "l ! 0 \<le> x" using sorted_nth_mono [OF s, of 0 n] n by simp
  moreover have "earliest h = first_of l" by (simp add: earliest_def l_def)
  ultimately show ?thesis by auto
qed

lemma prune_delay [simp]: "max_delay (prune np now h) = max_delay h"
  by (simp add: prune_def Let_def)

lemma prune_mode [simp]: "duty_mode (prune np now h) = duty_mode h"
  by (simp add: prune_def Let_def)

lemma interval_start: "duty_ok h \<Longrightarrow> record_interval s e d h = Inr h' \<Longrightarrow>
    earliest h' = (case earliest h of None \<Rightarrow> Some s | Some x \<Rightarrow> Some x) \<and> duty_mode h' = Some Intervals_mode"
  by (cases "starts h") (auto simp: record_interval_def earliest_def first_of_def duty_ok_def
      split: if_splits list.splits option.splits)

text \<open>What recording does to the predictor, in terms of the whole cook's history.\<close>

lemma record_output_follows:
  assumes np: "searches_sorted np" and f: "follows h p" and r: "record_output np t u p = (q, Inr ())"
  obtains h' where "record_step t u h = Inr h'" "follows h' q" "earliest h' = (case earliest h of None \<Rightarrow> earliest h' | Some x \<Rightarrow> Some x)"
    "earliest h' \<noteq> None" "q = p\<lparr>history := history q, earliest_seen := earliest_seen q\<rparr>"
proof -
  obtain n where k: "kept n h (history p)" and ok: "duty_ok h" "duty_ok (history p)" and pos: "0 < max_delay (history p)"
      and none: "earliest h = None \<longleftrightarrow> earliest (history p) = None" and seen: "earliest_seen p = earliest h"
    using f by (auto simp: follows_def)
  obtain g where g: "record_step t u (history p) = Inr g"
      and q: "q = p\<lparr>history := prune np t g, earliest_seen := (case earliest_seen p of None \<Rightarrow> earliest g | Some e \<Rightarrow> Some e)\<rparr>"
    using r by (cases "record_step t u (history p)") (auto simp: record_output_def keep_history_def)
  obtain h' m where h': "record_step t u h = Inr h'" "kept m h' g" "earliest g \<noteq> None"
      "earliest h' = (case earliest h of None \<Rightarrow> earliest g | Some x \<Rightarrow> Some x)" "max_delay g = max_delay (history p)"
      "duty_mode g \<noteq> Some Intervals_mode"
    using kept_record_step [OF k ok none g] by metis
  have ok': "duty_ok h'" "duty_ok g" using ok g h'(1) record_step_ok by blast+
  have e: "earliest (prune np t g) \<noteq> None" using h' pos by (intro prune_retains [OF np ok'(2)]) auto
  obtain j where "kept j g (prune np t g)" using prune_kept [OF ok'(2)] by blast
  then have "\<exists>n. kept n h' (prune np t g)" using kept_trans [OF h'(2)] by blast
  then have "follows h' q" using ok' e h'(3-5) pos seen
    by (auto simp: follows_def q prune_ok split: option.splits)
  then show ?thesis using that [of h'] h' q by (auto split: option.splits)
qed

lemma record_frame_follows:
  assumes np: "searches_sorted np" and f: "follows h p" and r: "record_frame np s e d p = (q, Inr ())"
  obtains h' where "record_interval s e d h = Inr h'" "follows h' q" "earliest h' = (case earliest h of None \<Rightarrow> Some s | Some x \<Rightarrow> Some x)"
    "duty_mode h' = Some Intervals_mode" "q = p\<lparr>history := history q, earliest_seen := earliest_seen q\<rparr>"
proof -
  obtain n where k: "kept n h (history p)" and ok: "duty_ok h" "duty_ok (history p)" and pos: "0 < max_delay (history p)"
      and none: "earliest h = None \<longleftrightarrow> earliest (history p) = None" and seen: "earliest_seen p = earliest h"
    using f by (auto simp: follows_def)
  obtain g where g: "record_interval s e d (history p) = Inr g"
      and q: "q = p\<lparr>history := prune np e g, earliest_seen := (case earliest_seen p of None \<Rightarrow> earliest g | Some e \<Rightarrow> Some e)\<rparr>"
    using r by (cases "record_interval s e d (history p)") (auto simp: record_frame_def keep_history_def)
  obtain h' m where h': "record_interval s e d h = Inr h'" "kept m h' g" "earliest g \<noteq> None"
      "earliest h' = (case earliest h of None \<Rightarrow> earliest g | Some x \<Rightarrow> Some x)" "max_delay g = max_delay (history p)"
      "duty_mode g = Some Intervals_mode" "last (ends g) = e"
    using kept_record_interval [OF k ok none g] by metis
  have ok': "duty_ok h'" "duty_ok g" using ok g h'(1) record_interval_ok by blast+
  have e: "earliest (prune np e g) \<noteq> None" using h' pos by (intro prune_retains [OF np ok'(2)]) auto
  obtain j where "kept j g (prune np e g)" using prune_kept [OF ok'(2)] by blast
  then have "\<exists>n. kept n h' (prune np e g)" using kept_trans [OF h'(2)] by blast
  then have "follows h' q" using ok' e h'(3-5) pos seen
    by (auto simp: follows_def q prune_ok split: option.splits)
  then show ?thesis using that [of h'] h'(1) q interval_start [OF ok(1) h'(1)] by auto
qed


section \<open>The branches are the model's response\<close>

definition branches :: "searcher \<Rightarrow> real sp_model \<Rightarrow> duty_history \<Rightarrow> real \<Rightarrow> real \<Rightarrow> smith \<Rightarrow> bool" where
  "branches np m h s t p \<longleftrightarrow> s \<le> t \<and> (case earliest h of
      None \<Rightarrow> rested p
    | Some e \<Rightarrow> (x0 p, z0 p) = response np m h (max s e) (max t e) \<and>
        (xd p, zd p) = response np m h (max (s - dead_time m) e) (max (t - dead_time m) e) \<and>
        (duty_mode h = Some Intervals_mode \<longrightarrow> s = t \<or> t \<le> e \<or> max t e \<le> last (ends h)))"

lemma response_empty [simp]: "b \<le> a \<Longrightarrow> response np m h a b = (0, 0)"
  by (simp add: response_def duty_segments_def)

lemma branches_fields: "x0 q = x0 p \<Longrightarrow> xd q = xd p \<Longrightarrow> z0 q = z0 p \<Longrightarrow> zd q = zd p \<Longrightarrow>
    branches np m h s t q = branches np m h s t p"
  by (simp add: branches_def rested_def split: option.split)

lemma branches_start: "rested p \<Longrightarrow> branches np m h t t p"
  by (simp add: branches_def rested_def split: option.split)

lemma late_step: "duty_ok h \<Longrightarrow> record_step t u h = Inr h' \<Longrightarrow> earliest h = Some e \<Longrightarrow> t < e \<Longrightarrow> h' = h"
proof -
  assume ok: "duty_ok h" and r: "record_step t u h = Inr h'" and e: "earliest h = Some e" and t: "t < e"
  have ts: "step_times h \<noteq> []" "hd (step_times h) = e" "duty_mode h = Some Steps_mode"
    using r e ok by (auto simp: record_step_def earliest_def first_of_def duty_ok_def split: if_splits list.splits)
  then have "e \<le> last (step_times h)" using ok by (auto simp: duty_ok_def steps_ok_def intro!: le_last strict_sorted_imp_sorted)
  then have "h' = h\<lparr>duty_mode := Some Steps_mode\<rparr>" using r ts t by (auto simp: record_step_def Let_def split: if_splits)
  then show ?thesis using ts(3) by (cases h) auto
qed

lemma branches_step:
  assumes np: "searches_sorted np" and b: "branches np m h s t p" and f: "follows h p" and th: "0 \<le> dead_time m"
    and r: "record_step t' u h = Inr h'" and "t \<le> t'" and e': "earliest h' \<noteq> None" and q: "q = p\<lparr>history := g, earliest_seen := y\<rparr>"
  shows "branches np m h' s t q"
proof (cases "earliest h")
  case None
  have ok: "duty_ok h" using f by (simp add: follows_def)
  have "step_times h = []" "duty_mode h' = Some Steps_mode" using None r ok
    by (auto simp: record_step_def Let_def earliest_def first_of_def duty_ok_def split: if_splits list.splits)
  then have "earliest h' = Some t'" using r by (auto simp: record_step_def Let_def earliest_def first_of_def split: if_splits)
  moreover have "max s t' = t'" "max t t' = t'" "max (s - dead_time m) t' = t'" "max (t - dead_time m) t' = t'"
    using assms(6) b th by (auto simp: branches_def)
  ultimately show ?thesis using b None \<open>duty_mode h' = _\<close> by (simp add: branches_def rested_def q)
next
  case (Some e)
  have ok: "duty_ok h" using f by (simp add: follows_def)
  show ?thesis
  proof (cases "t' < e")
    case True
    then have "h' = h" using late_step [OF ok r Some] by simp
    then show ?thesis using b branches_fields [of q p np m h s t] by (simp add: q)
  next
    case False
    have mode: "duty_mode h \<noteq> Some Intervals_mode" "duty_mode h' \<noteq> Some Intervals_mode"
      using r by (auto simp: record_step_def Let_def split: if_splits)
    have "duty_segments np h' a x = duty_segments np h a x" if "e \<le> a" "x \<le> t'" for a x
      using recorded_segments(1) [OF np ok r Some that] .
    moreover have "earliest h' = Some e" using recorded_segments(2) [OF np ok r Some order_refl order_refl] .
    ultimately show ?thesis using b Some mode False assms(6) th by (simp add: branches_def response_def q)
  qed
qed

lemma branches_frame:
  assumes np: "searches_sorted np" and b: "branches np m h s t p" and f: "follows h p" and th: "0 \<le> dead_time m"
    and r: "record_interval s' e' d h = Inr h'" and "earliest h = None \<Longrightarrow> t \<le> s'" and q: "q = p\<lparr>history := g, earliest_seen := y\<rparr>"
  shows "branches np m h' s t q"
proof (cases "earliest h")
  case None
  have ok: "duty_ok h" using f by (simp add: follows_def)
  have "earliest h' = Some s'" using interval_start [OF ok r] None by simp
  moreover have "max s s' = s'" "max t s' = s'" "max (s - dead_time m) s' = s'" "max (t - dead_time m) s' = s'" "t \<le> s'"
    using assms(6) [OF None] b th by (auto simp: branches_def)
  ultimately show ?thesis using b None by (simp add: branches_def rested_def q)
next
  case (Some e)
  have ok: "duty_ok h" using f by (simp add: follows_def)
  have m: "duty_mode h = Some Intervals_mode" using ok r Some
    by (auto simp: record_interval_def earliest_def first_of_def duty_ok_def split: if_splits list.splits)
  have le: "last (ends h) \<le> s'" "ends h \<noteq> []" and e': "last (ends h') = e'" "s' < e'"
    using r Some m ok by (auto simp: record_interval_def earliest_def first_of_def duty_ok_def intervals_ok_def split: if_splits list.splits)
  have first: "earliest h' = Some e" using interval_start [OF ok r] Some by simp
  have st: "s \<le> t" using b by (simp add: branches_def)
  have "s = t \<or> t \<le> e \<or> max t e \<le> last (ends h)" using b Some m by (simp add: branches_def)
  then have "duty_segments np h' (max (s - c) e) (max (t - c) e) = duty_segments np h (max (s - c) e) (max (t - c) e)"
    if "0 \<le> c" for c
  proof (elim disjE)
    assume "max t e \<le> last (ends h)"
    then have "max (t - c) e \<le> s'" using le(1) that by linarith
    then show ?thesis by (rule completed_segments [OF np ok r])
  qed (use st that in \<open>auto simp: duty_segments_def\<close>)
  from this [of 0] this [of "dead_time m"] have same:
    "response np m h' (max s e) (max t e) = response np m h (max s e) (max t e)"
    "response np m h' (max (s - dead_time m) e) (max (t - dead_time m) e) = response np m h (max (s - dead_time m) e) (max (t - dead_time m) e)"
    using th by (simp_all add: response_def)
  have "s = t \<or> t \<le> e \<or> max t e \<le> last (ends h')"
    using b Some m le e' by (auto simp: branches_def)
  then show ?thesis using b Some first same by (simp add: branches_def q)
qed


lemma covers_end:
  assumes "searches_sorted np" "duty_ok h" "covers np h a b" "a < b" "duty_mode h = Some Intervals_mode"
  shows "b \<le> last (ends h)"
proof -
  have iv: "intervals_ok h" using assms(2) by (simp add: duty_ok_def)
  then obtain j i where "i < length (starts h)" "b \<le> ends h ! i" using coversE [OF assms(1) iv assms(3-5)] by metis
  moreover have "length (ends h) = length (starts h)" using iv by (simp add: intervals_ok_def)
  ultimately show ?thesis using le_last [OF ends_sorted [OF iv], of "ends h ! i"] by force
qed

lemma kept_last: "kept n h p \<Longrightarrow> ends p \<noteq> [] \<Longrightarrow> last (ends p) = last (ends h)"
  by (auto simp: kept_def last_drop not_le)

lemma integrated_branches:
  assumes np: "searches_sorted np" and f: "follows h p" and b: "branches np m h s t p" and "t \<le> now" and th: "0 \<le> dead_time m"
    and tc: "time_constants m" and r: "sp_integrate np m t now p = (q, Inr False)"
  shows "branches np m h s now q \<and> (\<exists>a b c d. q = p\<lparr>x0 := a, z0 := b, xd := c, zd := d\<rparr>)"
proof -
  obtain n where k: "kept n h (history p)" and ok: "duty_ok h" "duty_ok (history p)"
      and none: "earliest h = None \<longleftrightarrow> earliest (history p) = None" and seen: "earliest_seen p = earliest h"
    using f by (auto simp: follows_def)
  have st: "s \<le> t" using b by (simp add: branches_def)
  show ?thesis
  proof (cases "earliest (history p)")
    case None
    then have "q = p" using r by (simp add: sp_integrate_def)
    moreover have "p = p\<lparr>x0 := x0 p, z0 := z0 p, xd := xd p, zd := zd p\<rparr>" by (cases p) simp
    moreover have "branches np m h s now p" using b none None st assms(4) by (auto simp: branches_def)
    ultimately show ?thesis by metis
  next
    case (Some start)
    obtain e where e: "earliest h = Some e" "e \<le> start" using kept_earliest [OF k ok(1) Some] by blast
    let ?th = "dead_time m"
    have g: "\<not> (e < start \<and> (t < start \<or> t - ?th < start))"
        "covers np (history p) (max t start) (max now start)" "covers np (history p) (max (t - ?th) start) (max (now - ?th) start)"
      using r Some seen e by (auto simp: sp_integrate_def Let_def split: if_splits)
    then have lo: "max t start = max t e" "max now start = max now e" "max (t - ?th) start = max (t - ?th) e"
        "max (now - ?th) start = max (now - ?th) e"
      using e(2) assms(4) th by (auto simp: max_def)
    have seg: "duty_segments np (history p) a c = duty_segments np h a c" if "start \<le> a" for a c
      using kept_segments [OF np ok k Some that] .
    have s1: "duty_segments np (history p) (max t start) (max now start) = duty_segments np h (max t start) (max now start)"
      by (rule seg) simp
    have s2: "duty_segments np (history p) (max (t - ?th) start) (max (now - ?th) start) =
        duty_segments np h (max (t - ?th) start) (max (now - ?th) start)" by (rule seg) simp
    have run: "abind (drive_x0 m (duty_segments np h (max t e) (max now e))) (\<lambda>_.
        abind (drive_xd m (duty_segments np h (max (t - ?th) e) (max (now - ?th) e))) (\<lambda>_. areturn False)) p = (q, Inr False)"
      using r Some seen e g s1 [unfolded lo] s2 [unfolded lo] by (simp add: sp_integrate_def Let_def lo)
    then obtain p1 where p1: "drive_x0 m (duty_segments np h (max t e) (max now e)) p = (p1, Inr ())"
        and q: "drive_xd m (duty_segments np h (max (t - ?th) e) (max (now - ?th) e)) p1 = (q, Inr ())"
      by (auto simp: abind_def split: sum.splits prod.splits)
    have b': "(x0 p, z0 p) = response np m h (max s e) (max t e)"
        "(xd p, zd p) = response np m h (max (s - ?th) e) (max (t - ?th) e)"
        "duty_mode h = Some Intervals_mode \<longrightarrow> s = t \<or> t \<le> e \<or> max t e \<le> last (ends h)"
      using b e(1) by (auto simp: branches_def)
    have "foldl (flow_step m) (x0 p, z0 p) (duty_segments np h (max t e) (max now e)) = response np m h (max s e) (max now e)"
      unfolding b'(1) by (rule response_extend [OF np ok(1) tc e(1)]) (use st assms(4) in auto)
    moreover have "foldl (flow_step m) (xd p, zd p) (duty_segments np h (max (t - ?th) e) (max (now - ?th) e)) =
        response np m h (max (s - ?th) e) (max (now - ?th) e)"
      unfolding b'(2) by (rule response_extend [OF np ok(1) tc e(1)]) (use st assms(4) in auto)
    moreover note q' = drive_xd_flow [OF q] drive_x0_flow [OF p1]
    ultimately have "(x0 q, z0 q) = response np m h (max s e) (max now e)"
        "(xd q, zd q) = response np m h (max (s - ?th) e) (max (now - ?th) e)" by simp_all
    moreover have "s = now \<or> now \<le> e \<or> max now e \<le> last (ends h)" if m: "duty_mode h = Some Intervals_mode"
    proof (cases "max t e < max now e")
      case True
      have "duty_mode (history p) = Some Intervals_mode" using k m by (simp add: kept_def)
      then have "max now e \<le> last (ends (history p))"
        using covers_end [OF np ok(2) g(2)] True lo by auto
      moreover have "ends (history p) \<noteq> []" using Some \<open>duty_mode (history p) = _\<close> ok(2)
        by (auto simp: earliest_def first_of_def duty_ok_def intervals_ok_def split: list.splits)
      ultimately show ?thesis using kept_last [OF k] by simp
    next
      case False
      then show ?thesis using b'(3) m assms(4) st by (auto simp: max_def split: if_splits)
    qed
    ultimately show ?thesis using e(1) st assms(4) q' by (auto simp: branches_def)
  qed
qed


definition governed :: "searcher \<Rightarrow> real sp_model \<Rightarrow> duty_history \<Rightarrow> real set \<Rightarrow> smith \<Rightarrow> bool" where
  "governed np m h ticks p \<longleftrightarrow> follows h p \<and> sp_model p = Some m \<and> (last_t p = None \<longrightarrow> rested p) \<and>
     (active p \<longrightarrow> (\<forall>t. last_t p = Some t \<longrightarrow> (\<exists>s \<in> ticks. branches np m h s t p)))"

lemma follows_fields [simp]: "follows h (p\<lparr>last_t := a\<rparr>) = follows h p" "follows h (p\<lparr>last_measured := a\<rparr>) = follows h p"
    "follows h (p\<lparr>prev_xd := a\<rparr>) = follows h p" "follows h (p\<lparr>truncated := n\<rparr>) = follows h p"
    "follows h (p\<lparr>residual_streak := n\<rparr>) = follows h p" "follows h (sp_reset p) = follows h p" "follows h (sp_disable p) = follows h p"
    "follows h (p\<lparr>x0 := r\<rparr>) = follows h p" "follows h (p\<lparr>xd := r\<rparr>) = follows h p"
    "follows h (p\<lparr>disabled := c\<rparr>) = follows h p" "follows h (p\<lparr>z0 := r\<rparr>) = follows h p" "follows h (p\<lparr>zd := r\<rparr>) = follows h p"
  by (simp_all add: follows_def sp_reset_def sp_disable_def)

lemma safe_step:
  assumes "sp_safe v r p = (q, Inr ok)"
  obtains n where "q = p\<lparr>residual_streak := n\<rparr>" "ok \<longrightarrow> TEMP_MIN_F \<le> v \<and> v \<le> TEMP_MAX_F \<and> n < MAX_RESIDUAL_STREAK"
  using assms that [of "residual_streak p"] that [of "residual_streak p + 1"] that [of 0]
  by (cases p) (auto simp: sp_safe_def abind_def split: if_splits)

lemma integrate_cut: "sp_integrate np m t now p = (q, Inr True) \<Longrightarrow> q = p"
  by (auto simp: sp_integrate_def Let_def abind_def split: option.splits if_splits sum.splits prod.splits)

text \<open>The ways a reading is answered.\<close>

lemma temperature_cases:
  assumes "temperature np v now p = (q, Inr x)"
  obtains (off) "\<not> active p" "q = p\<lparr>last_t := Some now\<rparr>" "x = v"
  | (seed) "active p" "last_t p = None" "q = p\<lparr>last_t := Some now, last_measured := Some v, prev_xd := Some (xd p)\<rparr>" "x = v"
  | (cut) m t where "active p" "sp_model p = Some m" "last_t p = Some t" "sp_integrate np m t now p = (p, Inr True)"
      "q = sp_reset (p\<lparr>last_t := Some now, truncated := truncated p + 1\<rparr>)" "x = v"
  | (fine) m t p1 n where "active p" "sp_model p = Some m" "last_t p = Some t" "sp_integrate np m t now p = (p1, Inr False)"
      "q = p1\<lparr>last_t := Some now, residual_streak := n, last_measured := Some v, prev_xd := Some (xd p1)\<rparr>"
      "x = v + x0 p1 - xd p1" "TEMP_MIN_F \<le> x" "x \<le> TEMP_MAX_F" "n < MAX_RESIDUAL_STREAK"
  | (unsafe) m t p1 n where "active p" "sp_model p = Some m" "last_t p = Some t" "sp_integrate np m t now p = (p1, Inr False)"
      "q = sp_disable (p1\<lparr>last_t := Some now, residual_streak := n\<rparr>)" "x = v"
proof (cases "active p")
  case False
  then have "q = p\<lparr>last_t := Some now\<rparr> \<and> x = v" using assms by (auto simp: temperature_def governing_model_def)
  then show thesis using off [OF False] by simp
next
  case on: True
  then obtain m where m: "sp_model p = Some m" by (auto simp: active_def)
  show thesis
  proof (cases "last_t p")
    case None
    then have "q = p\<lparr>last_t := Some now, last_measured := Some v, prev_xd := Some (xd p)\<rparr> \<and> x = v"
      using assms on m by (auto simp: temperature_def governing_model_def)
    then show thesis using seed [OF on None] by simp
  next
    case (Some t)
    then obtain p1 c where i: "sp_integrate np m t now p = (p1, Inr c)"
      using assms on m by (auto simp: temperature_def governing_model_def abind_def split: sum.splits prod.splits)
    show thesis
    proof (cases c)
      case True
      have p1: "p1 = p" using i True integrate_cut by simp
      have "q = sp_reset (p\<lparr>last_t := Some now, truncated := truncated p + 1\<rparr>) \<and> x = v"
        using assms on m Some i True p1
        by (simp add: temperature_def governing_model_def abind_def [of "sp_integrate np m t now"])
      then show thesis using cut [OF on m Some] i True p1 by simp
    next
      case False
      let ?p2 = "p1\<lparr>last_t := Some now\<rparr>"
      obtain lm px where l: "last_measured p1 = Some lm" "prev_xd p1 = Some px"
        using assms i False Some m on by (auto simp: temperature_def governing_model_def abind_def split: option.splits)
      have "abind (sp_safe (v + x0 p1 - xd p1) \<bar>v - (lm + (xd p1 - px))\<bar>) (\<lambda>fine. if \<not> fine
          then abind (amodify sp_disable) (\<lambda>_. areturn v)
          else abind (amodify (\<lambda>p. p\<lparr>last_measured := Some v, prev_xd := Some (xd p)\<rparr>)) (\<lambda>_. areturn (v + x0 p1 - xd p1))) ?p2
          = (q, Inr x)"
        using assms on m Some l False by (simp add: temperature_def governing_model_def abind_def [of "sp_integrate np m t now"] i Let_def)
      then obtain p3 ok where s: "sp_safe (v + x0 p1 - xd p1) \<bar>v - (lm + (xd p1 - px))\<bar> ?p2 = (p3, Inr ok)"
          and q: "(if \<not> ok then abind (amodify sp_disable) (\<lambda>_. areturn v)
          else abind (amodify (\<lambda>p. p\<lparr>last_measured := Some v, prev_xd := Some (xd p)\<rparr>)) (\<lambda>_. areturn (v + x0 p1 - xd p1))) p3 = (q, Inr x)"
        by (rule abind_InrE)
      obtain n where n: "p3 = ?p2\<lparr>residual_streak := n\<rparr>"
          "ok \<longrightarrow> TEMP_MIN_F \<le> v + x0 p1 - xd p1 \<and> v + x0 p1 - xd p1 \<le> TEMP_MAX_F \<and> n < MAX_RESIDUAL_STREAK"
        by (rule safe_step [OF s])
      show thesis
      proof (cases ok)
        case True
        then show thesis using q n on m Some i False by (intro fine [of m t p1 n]) auto
      next
        case not: False
        then show thesis using q n on m Some i False by (intro unsafe [of m t p1 n]) auto
      qed
    qed
  qed
qed

lemma governed_tick:
  assumes np: "searches_sorted np" and g: "governed np m h ticks p" and "ticked p now" and th: "0 \<le> dead_time m" "time_constants m"
    and r: "temperature np v now p = (q, Inr x)"
  shows "governed np m h (insert now ticks) q"
proof -
  have f: "follows h p" and m: "sp_model p = Some m" using g by (auto simp: governed_def)
  from r show ?thesis
  proof (cases rule: temperature_cases)
    case off
    then show ?thesis using f m by (simp add: governed_def active_def)
  next
    case seed
    have "rested p" using g seed by (simp add: governed_def)
    then have "rested q" by (simp add: seed rested_def)
    then have "branches np m h now now q" by (rule branches_start)
    then show ?thesis using f m seed by (auto simp: governed_def)
  next
    case (cut m' t)
    then show ?thesis using f m by (simp add: governed_def rested_def) (simp add: sp_reset_def)
  next
    case (fine m' t p1 n)
    obtain s where s: "s \<in> ticks" "branches np m h s t p" using g fine(1,3) by (auto simp: governed_def)
    have le: "t \<le> now" using assms(3) fine(3) by (simp add: ticked_def)
    have "m' = m" using m fine(2) by simp
    then obtain a b c d where p1: "branches np m h s now p1" "p1 = p\<lparr>x0 := a, z0 := b, xd := c, zd := d\<rparr>"
      using integrated_branches [OF np f s(2) le th] fine(4) by auto
    have "branches np m h s now q" using p1(1) branches_fields [of q p1] by (simp add: fine(5))
    then show ?thesis using f m s(1) p1(2) fine(5) by (auto simp: governed_def active_def)
  next
    case (unsafe m' t p1 n)
    obtain s where s: "s \<in> ticks" "branches np m h s t p" using g unsafe(1,3) by (auto simp: governed_def)
    have le: "t \<le> now" using assms(3) unsafe(3) by (simp add: ticked_def)
    have "m' = m" using m unsafe(2) by simp
    then obtain a b c d where p1: "p1 = p\<lparr>x0 := a, z0 := b, xd := c, zd := d\<rparr>"
      using integrated_branches [OF np f s(2) le th] unsafe(4) by auto
    then show ?thesis using f m unsafe(5) by (auto simp: governed_def rested_def sp_disable_def active_def)
  qed
qed

lemma set_retention_keeps: "set_retention_s v h = Inr g \<Longrightarrow> (\<exists>r > 0. g = h\<lparr>max_delay := r\<rparr>)"
  by (auto simp: set_retention_s_def split: pyval.splits pyfloat.splits if_splits)
    (metis of_int_0_less_iff, metis zero_less_of_rat_iff)

lemma trust_effect:
  assumes "trust txt model digest p = (q, Inr b)"
  shows "q = p \<or> (\<exists>r > 0. \<exists>a m. let p' = p\<lparr>history := (history p)\<lparr>max_delay := r\<rparr>, authority_identity := a, sp_model := Some m\<rparr>
    in q = p' \<or> q = sp_reset p')"
  using assms
  by (auto simp: trust_def abind_def Let_def sp_reset_def split: option.splits sum.splits prod.splits if_splits dest!: set_retention_keeps)

lemma history_delay [simp]: "duty_ok (h\<lparr>max_delay := r\<rparr>) = duty_ok h" "kept n g (h\<lparr>max_delay := r\<rparr>) = kept n g h"
    "earliest (h\<lparr>max_delay := r\<rparr>) = earliest h"
  by (simp_all add: duty_ok_def steps_ok_def intervals_ok_def kept_def earliest_def)

lemma rested_reset [simp]: "rested (sp_reset p)" "rested (sp_disable p)" "last_t (sp_reset p) = None"
  by (simp_all add: rested_def sp_reset_def sp_disable_def)

text \<open>A predictor without a last reading has rested branches, whatever came before.\<close>

definition sound :: "duty_history \<Rightarrow> smith \<Rightarrow> bool" where
  "sound h p \<longleftrightarrow> follows h p \<and> (last_t p = None \<longrightarrow> rested p)"

lemma trust_sound: "sound h p \<Longrightarrow> trust txt model digest p = (q, Inr b) \<Longrightarrow> sound h q"
  by (drule trust_effect) (auto simp: sound_def Let_def follows_def rested_def sp_reset_def)

lemma integrate_fields: "sp_integrate np m t now p = (q, Inr c) \<Longrightarrow> \<exists>a b c d. q = p\<lparr>x0 := a, z0 := b, xd := c, zd := d\<rparr>"
proof -
  assume r: "sp_integrate np m t now p = (q, Inr c)"
  have id: "\<exists>a b c d. p = p\<lparr>x0 := a, z0 := b, xd := c, zd := d\<rparr>" by (cases p) auto
  consider "q = p" | S T p1 where "drive_x0 m S p = (p1, Inr ())" "drive_xd m T p1 = (q, Inr ())"
    using r by (auto simp: sp_integrate_def Let_def abind_def split: option.splits if_splits sum.splits prod.splits)
  then show ?thesis
  proof cases
    case 2
    then show ?thesis using drive_xd_flow [OF 2(2)] drive_x0_flow [OF 2(1)] by auto
  qed (use id in simp)
qed

lemma temperature_sound:
  assumes "sound h p" "temperature np v now p = (q, Inr x)"
  shows "sound h q"
  using assms(2)
proof (cases rule: temperature_cases)
  case (fine m t p1 n)
  then show ?thesis using integrate_fields [OF fine(4)] assms(1) by (auto simp: sound_def)
next
  case (unsafe m t p1 n)
  then show ?thesis using integrate_fields [OF unsafe(4)] assms(1) by (auto simp: sound_def)
qed (use assms(1) in \<open>auto simp: sound_def\<close>)

lemma step_sound:
  assumes np: "searches_sorted np" and "sound h p" "smith_step txt np e p = (q, Inr xs)"
  shows "\<exists>h'. duty_run np (duty_of e) h = Inr h' \<and> sound h' q"
proof (cases e)
  case (Trusted m d)
  then obtain b where "trust txt m d p = (q, Inr b)" using assms(3) by (auto elim!: abind_InrE)
  then show ?thesis using trust_sound assms(2) Trusted by simp
next
  case (Applied t u)
  then have r: "record_output np t u p = (q, Inr ())" using assms(3) by (auto elim!: abind_InrE)
  obtain h' where "record_step t u h = Inr h'" "follows h' q" "q = p\<lparr>history := history q, earliest_seen := earliest_seen q\<rparr>"
    using record_output_follows [OF np _ r] assms(2) by (metis sound_def)
  moreover from this(3) obtain g y where "q = p\<lparr>history := g, earliest_seen := y\<rparr>" by blast
  ultimately show ?thesis using assms(2) Applied by (auto simp: sound_def rested_def)
next
  case (Framed s en d)
  then have r: "record_frame np s en d p = (q, Inr ())" using assms(3) by (auto elim!: abind_InrE)
  obtain h' where "record_interval s en d h = Inr h'" "follows h' q" "q = p\<lparr>history := history q, earliest_seen := earliest_seen q\<rparr>"
    using record_frame_follows [OF np _ r] assms(2) by (metis sound_def)
  moreover from this(3) obtain g y where "q = p\<lparr>history := g, earliest_seen := y\<rparr>" by blast
  ultimately show ?thesis using assms(2) Framed by (auto simp: sound_def rested_def)
next
  case (Measured v now)
  then obtain x where "temperature np v now p = (q, Inr x)" using assms(3) by (auto elim!: abind_InrE)
  then show ?thesis using temperature_sound assms(2) Measured by simp
qed


lemma duty_run_append: "duty_run np (es @ fs) h = ebind (duty_run np es h) (duty_run np fs)"
proof (induction es arbitrary: h)
  case (Cons e es)
  then show ?case by (cases "duty_step np e h") simp_all
qed simp

lemma run_sound:
  assumes "searches_sorted np" "sound h p" "smith_run txt np es p = (q, Inr xs)"
  shows "\<exists>h'. duty_run np (concat (map duty_of es)) h = Inr h' \<and> sound h' q"
  using assms(2,3)
proof (induction es arbitrary: h p xs)
  case (Cons e es)
  obtain p1 ys zs where 1: "smith_step txt np e p = (p1, Inr ys)" "smith_run txt np es p1 = (q, Inr zs)"
    using Cons.prems(2) by (auto elim!: abind_InrE)
  obtain h1 where h1: "duty_run np (duty_of e) h = Inr h1" "sound h1 p1"
    using step_sound [OF assms(1) Cons.prems(1) 1(1)] by blast
  then obtain h' where "duty_run np (concat (map duty_of es)) h1 = Inr h'" "sound h' q" using Cons.IH 1(2) by blast
  then show ?case using h1(1) by (auto simp: duty_run_append)
qed simp

fun is_trust :: "smith_event \<Rightarrow> bool" where
  "is_trust (Trusted _ _) = True"
| "is_trust _ = False"

fun tick_of :: "smith_event \<Rightarrow> real set" where
  "tick_of (Measured _ now) = {now}"
| "tick_of _ = {}"

lemma governed_mono: "governed np m h ticks p \<Longrightarrow> ticks \<subseteq> ticks' \<Longrightarrow> governed np m h ticks' p"
  by (fastforce simp: governed_def)

lemma governed_step:
  assumes np: "searches_sorted np" and th: "0 \<le> dead_time m" "time_constants m"
    and g: "governed np m h ticks p" and e: "\<not> is_trust e" "timely e p" "smith_step txt np e p = (q, Inr xs)"
  shows "\<exists>h'. duty_run np (duty_of e) h = Inr h' \<and> governed np m h' (ticks \<union> tick_of e) q"
proof (cases e)
  case (Trusted a b)
  then show ?thesis using e by simp
next
  case (Measured v now)
  then obtain x where "temperature np v now p = (q, Inr x)" using e by (auto elim!: abind_InrE)
  then show ?thesis using governed_tick [OF np g _ th] e(2) Measured by auto
next
  case (Applied t u)
  have f: "follows h p" using g by (simp add: governed_def)
  have "record_output np t u p = (q, Inr ())" using Applied e by (auto elim!: abind_InrE)
  then obtain h' where h': "record_step t u h = Inr h'" "follows h' q" "earliest h' \<noteq> None"
      "q = p\<lparr>history := history q, earliest_seen := earliest_seen q\<rparr>"
    using record_output_follows [OF np f] by metis
  then obtain c y where q: "q = p\<lparr>history := c, earliest_seen := y\<rparr>" by blast
  have "branches np m h' s l q" if "last_t p = Some l" "branches np m h s l p" for s l
    using e(2) that Applied by (intro branches_step [OF np that(2) f th(1) h'(1) _ h'(3) q]) (simp add: ticked_def)
  then show ?thesis using g h'(1,2) Applied by (fastforce simp: governed_def rested_def active_def q)
next
  case (Framed s en d)
  have f: "follows h p" using g by (simp add: governed_def)
  then have none: "earliest h = None \<longleftrightarrow> earliest (history p) = None" by (simp add: follows_def)
  have "record_frame np s en d p = (q, Inr ())" using Framed e by (auto elim!: abind_InrE)
  then obtain h' where h': "record_interval s en d h = Inr h'" "follows h' q"
      "q = p\<lparr>history := history q, earliest_seen := earliest_seen q\<rparr>"
    using record_frame_follows [OF np f] by metis
  then obtain c y where q: "q = p\<lparr>history := c, earliest_seen := y\<rparr>" by blast
  have "branches np m h' k l q" if "last_t p = Some l" "branches np m h k l p" for k l
    using e(2) that Framed none by (intro branches_frame [OF np that(2) f th(1) h'(1) _ q]) (auto simp: ticked_def)
  then show ?thesis using g h'(1,2) Framed by (fastforce simp: governed_def rested_def active_def q)
qed

lemma governed_run:
  assumes np: "searches_sorted np" and th: "0 \<le> dead_time m" "time_constants m"
    and "governed np m h ticks p" "\<forall>e \<in> set es. \<not> is_trust e" "timely_run txt np es p" "smith_run txt np es p = (q, Inr xs)"
  shows "\<exists>h'. duty_run np (concat (map duty_of es)) h = Inr h' \<and> governed np m h' (ticks \<union> \<Union> (tick_of ` set es)) q"
  using assms(4-)
proof (induction es arbitrary: h ticks p xs)
  case (Cons e es)
  obtain p1 ys zs where 1: "smith_step txt np e p = (p1, Inr ys)" "smith_run txt np es p1 = (q, Inr zs)"
    using Cons.prems(4) by (auto elim!: abind_InrE)
  obtain h1 where h1: "duty_run np (duty_of e) h = Inr h1" "governed np m h1 (ticks \<union> tick_of e) p1"
    using governed_step [OF np th Cons.prems(1) _ _ 1(1)] Cons.prems by auto
  then obtain h' where "duty_run np (concat (map duty_of es)) h1 = Inr h'"
      "governed np m h' ((ticks \<union> tick_of e) \<union> \<Union> (tick_of ` set es)) q"
    using Cons.IH [OF h1(2) _ _ 1(2)] Cons.prems 1(1) by auto
  then show ?case using h1(1) by (auto simp: duty_run_append Un_assoc)
qed simp



section \<open>What the controller is given\<close>

fun reading_of :: "smith_event \<Rightarrow> real list" where
  "reading_of (Measured v _) = [v]"
| "reading_of _ = []"

text \<open>A run on completed frames whose readings are taken after the end of the last completed one, as a clock that is read when
  the controller runs gives them.\<close>

fun after_last_frame :: "smith_event \<Rightarrow> smith \<Rightarrow> bool" where
  "after_last_frame (Measured _ now) p \<longleftrightarrow> (case latest_end (history p) of None \<Rightarrow> True | Some e \<Rightarrow> e < now)"
| "after_last_frame (Applied _ _) p \<longleftrightarrow> False"
| "after_last_frame _ p \<longleftrightarrow> True"

fun live_run :: "(string \<Rightarrow> pyfloat option) \<Rightarrow> searcher \<Rightarrow> smith_event list \<Rightarrow> smith \<Rightarrow> bool" where
  "live_run txt np [] p \<longleftrightarrow> True"
| "live_run txt np (e # es) p \<longleftrightarrow> after_last_frame e p \<and> live_run txt np es (fst (smith_step txt np e p))"

definition framed_only :: "smith \<Rightarrow> bool" where
  "framed_only p \<longleftrightarrow> duty_ok (history p) \<and> duty_mode (history p) \<noteq> Some Steps_mode \<and> rested p"

lemma framed_idle:
  assumes np: "searches_sorted np" and f: "framed_only p" and l: "\<And>e. latest_end (history p) = Some e \<Longrightarrow> e < now"
    and i: "sp_integrate np m t now p = (q, Inr False)"
  shows "q = p"
proof (cases "earliest (history p)")
  case None
  then show ?thesis using i by (simp add: sp_integrate_def)
next
  case (Some start)
  let ?h = "history p" and ?th = "dead_time m"
  have ok: "duty_ok ?h" and m: "duty_mode ?h = Some Intervals_mode" using f Some
    by (auto simp: framed_only_def earliest_def first_of_def duty_ok_def split: if_splits list.splits)
  have ne: "starts ?h \<noteq> []" "hd (starts ?h) = start" "length (ends ?h) = length (starts ?h)" "intervals_ok ?h"
    using Some m ok by (auto simp: earliest_def first_of_def duty_ok_def intervals_ok_def split: list.splits)
  then have "ends ?h \<noteq> []" by auto
  then have last: "last (ends ?h) < now" using l m by (simp add: latest_end_def)
  have "start < ends ?h ! 0" using intervals_nth [OF ne(4), of 0] ne by (simp add: hd_conv_nth)
  also have "\<dots> \<le> last (ends ?h)" using le_last [OF ends_sorted [OF ne(4)]] ne by force
  finally have "start < now" using last by simp
  moreover have "covers np ?h (max t start) (max now start)"
    using i Some by (auto simp: sp_integrate_def Let_def split: option.splits if_splits)
  ultimately have "\<not> max t start < now" using covers_end [OF np ok _ _ m, of "max t start" now] last by auto
  moreover have "max now start = now" using \<open>start < now\<close> by simp
  moreover from \<open>covers np ?h (max t start) (max now start)\<close> have "max t start \<le> max now start"
    by (auto simp: covers_def split: if_splits)
  ultimately have "t = now" using \<open>start < now\<close> by (auto simp: max_def split: if_splits)
  then show ?thesis using i Some
    by (auto simp: sp_integrate_def Let_def duty_segments_def split: option.splits if_splits)
qed

lemma framed_step:
  assumes np: "searches_sorted np" and f: "framed_only p" and l: "after_last_frame e p" and r: "smith_step txt np e p = (q, Inr xs)"
  shows "framed_only q \<and> xs = reading_of e"
proof (cases e)
  case (Trusted m d)
  then obtain b where b: "trust txt m d p = (q, Inr b)" "xs = []" using r by (auto elim!: abind_InrE)
  then show ?thesis using trust_effect [OF b(1)] f Trusted
    by (auto simp: framed_only_def Let_def) (auto simp: sp_reset_def rested_def)
next
  case (Applied t u)
  then show ?thesis using l by simp
next
  case (Framed s en d)
  obtain g where "record_interval s en d (history p) = Inr g" "xs = []"
      "q = p\<lparr>history := prune np en g, earliest_seen := (case earliest_seen p of None \<Rightarrow> earliest g | Some e \<Rightarrow> Some e)\<rparr>"
    using r Framed by (cases "record_interval s en d (history p)") (auto simp: record_frame_def keep_history_def abind_def)
  then show ?thesis using f Framed record_interval_ok [of "history p" s en d g] interval_start [of "history p" s en d g]
    by (auto simp: framed_only_def prune_ok rested_def)
next
  case (Measured v now)
  have l': "\<And>e. latest_end (history p) = Some e \<Longrightarrow> e < now" using l Measured by simp
  obtain x where x: "temperature np v now p = (q, Inr x)" "xs = [x]" using r Measured by (auto elim!: abind_InrE)
  from x(1) show ?thesis
  proof (cases rule: temperature_cases)
    case (fine m t p1 n)
    then have "p1 = p" using framed_idle [OF np f l'] by blast
    then show ?thesis using fine f x(2) Measured by (auto simp: framed_only_def rested_def)
  next
    case (unsafe m t p1 n)
    then have "p1 = p" using framed_idle [OF np f l'] by blast
    then show ?thesis using unsafe f x(2) Measured by (auto simp: framed_only_def) (auto simp: sp_disable_def)
  qed (use f x(2) Measured in \<open>auto simp: framed_only_def rested_def sp_reset_def\<close>)
qed

text \<open>C10: On a running clock the predictor never corrects. The controller reads its clock when it runs, so the instant it asks
  about belongs to the frame still in progress; no completed interval covers it, the window counts as truncated and the branches
  are reset. Every temperature handed to the control law is the measured one.\<close>

theorem unfinished_frame_uncorrected:
  assumes "searches_sorted np" "live_run txt np es new_smith" "smith_run txt np es new_smith = (q, Inr xs)"
  shows "xs = concat (map reading_of es)"
proof -
  have "framed_only p \<Longrightarrow> live_run txt np es p \<Longrightarrow> smith_run txt np es p = (q, Inr xs) \<Longrightarrow> xs = concat (map reading_of es)" for p xs
  proof (induction es arbitrary: p xs)
    case (Cons e es)
    obtain p1 ys zs where 1: "smith_step txt np e p = (p1, Inr ys)" "smith_run txt np es p1 = (q, Inr zs)" "xs = ys @ zs"
      using Cons.prems(3) by (auto elim!: abind_InrE)
    then show ?case using framed_step [OF assms(1) Cons.prems(1) _ 1(1)] Cons.prems(2) Cons.IH [OF _ _ 1(2)] by auto
  qed simp
  moreover have "framed_only new_smith"
    using new_smith_follows by (simp add: framed_only_def follows_def) (simp add: new_smith_def new_history_def)
  ultimately show ?thesis using assms(2,3) by blast
qed


text \<open>What a disabled predictor may be offered: nothing acceptable, or the authority it was disabled under.\<close>

fun same_authority :: "(string \<Rightarrow> pyfloat option) \<Rightarrow> authority option \<Rightarrow> smith_event \<Rightarrow> bool" where
  "same_authority txt a (Trusted m d) \<longleftrightarrow> (case validated_trust txt m d of
     Inr (Some (_, _, identity)) \<Rightarrow> a = Some identity | _ \<Rightarrow> True)"
| "same_authority txt a _ \<longleftrightarrow> True"

lemma disabled_step:
  assumes "disabled p" "same_authority txt (authority_identity p) e" "smith_step txt np e p = (q, Inr xs)"
  shows "disabled q \<and> authority_identity q = authority_identity p \<and> xs = reading_of e"
proof (cases e)
  case (Trusted m d)
  then obtain b where r: "trust txt m d p = (q, Inr b)" "xs = []" using assms(3) by (auto elim!: abind_InrE)
  have "q = p"
    using r(1) assms(1,2) Trusted
    by (auto simp: trust_def preflight_trust_def abind_def split: option.splits sum.splits prod.splits if_splits)
  then show ?thesis using r(2) assms(1) Trusted by simp
next
  case (Applied t u)
  then show ?thesis using assms by (auto simp: record_output_def keep_history_def abind_def split: sum.splits)
next
  case (Framed s en d)
  then show ?thesis using assms by (auto simp: record_frame_def keep_history_def abind_def split: sum.splits)
next
  case (Measured v now)
  obtain x where x: "temperature np v now p = (q, Inr x)" "xs = [x]" using assms(3) Measured by (auto elim!: abind_InrE)
  from x(1) show ?thesis
    by (cases rule: temperature_cases) (use assms(1) x(2) Measured in \<open>auto simp: active_def\<close>)
qed

text \<open>C13: A disable is sticky. Once the predictor has been disabled, no sequence of outputs, frames, readings and offers of the
  authority it was disabled under enables it again: every reading is answered with the measured temperature.\<close>

theorem disable_is_sticky:
  assumes "disabled p" "\<forall>e \<in> set es. same_authority txt (authority_identity p) e" "smith_run txt np es p = (q, Inr xs)"
  shows "disabled q \<and> governing_model q = None \<and> xs = concat (map reading_of es)"
proof -
  have "disabled q \<and> xs = concat (map reading_of es)"
    using assms
  proof (induction es arbitrary: p xs)
    case (Cons e es)
    obtain p1 ys zs where 1: "smith_step txt np e p = (p1, Inr ys)" "smith_run txt np es p1 = (q, Inr zs)" "xs = ys @ zs"
      using Cons.prems(3) by (auto elim!: abind_InrE)
    have s: "disabled p1 \<and> authority_identity p1 = authority_identity p \<and> ys = reading_of e"
      using Cons.prems 1(1) by (intro disabled_step) auto
    then show ?case using Cons.IH [of p1 zs] Cons.prems(2) 1(2,3) by simp
  qed simp
  then show ?thesis by (simp add: governing_model_def active_def)
qed

section \<open>Witnesses\<close>

definition no_text :: "string \<Rightarrow> pyfloat option" where "no_text s = None"

definition demo_sp_model :: pyval where
  "demo_sp_model = VDict [(''form'', VStr ''ipdt''), (''K_i'', VFloat (Fin (1 / 10))), (''c0'', VFloat (Fin (- 1 / 100))),
     (''theta'', VInt 10)]"

definition demo_before :: "smith_event list" where
  "demo_before = [Framed 0 20 (1 / 4), Trusted demo_sp_model VNone]"

definition demo_later :: "smith_event list" where
  "demo_later = [Measured 200 20, Framed 20 40 (1 / 2), Measured 201 40]"

lemmas demo_eval = demo_before_def demo_later_def demo_sp_model_def new_smith_def new_history_def record_frame_def keep_history_def
  trust_def validated_trust_def retention_of_def incoming_model_def to_float_def plus_margin_def preflight_trust_def
  MAX_DELAY_BOUND_S_def HISTORY_MARGIN_S_def set_retention_s_def record_interval_def prune_def Let_def sync_intervals_def
  interval_sums_def interval_coverage_def count_search_def finite_real_def dbl_limit_def sp_reset_def active_def governing_model_def
  dget_def dindex_def earliest_def first_of_def abind_def

definition demo_trusted :: smith where "demo_trusted = fst (smith_run no_text count_search demo_before new_smith)"

lemma demo_trusted: "smith_run no_text count_search demo_before new_smith = (demo_trusted, Inr [])"
  "governing_model demo_trusted = Some (Ipdt (1 / 10) (- 1 / 100) 10)" "last_t demo_trusted = None"
  by (simp_all add: demo_trusted_def demo_eval of_rat_divide of_rat_minus)


definition demo_corrected :: smith where "demo_corrected = fst (smith_run no_text count_search demo_later demo_trusted)"

lemma demo_corrected: "smith_run no_text count_search demo_later demo_trusted = (demo_corrected, Inr [200, 201 + 1 / 4])"
  "active demo_corrected" "last_t demo_corrected = Some 40" "timely_run no_text count_search demo_later demo_trusted"
  "x0 demo_corrected = 4 / 5" "xd demo_corrected = 11 / 20"
  by (simp_all add: demo_corrected_def demo_trusted_def demo_eval of_rat_divide of_rat_minus temperature_def sp_integrate_def
      covers_def duty_segments_def sp_safe_def TEMP_MIN_F_def TEMP_MAX_F_def MAX_RESIDUAL_F_def MAX_RESIDUAL_STREAK_def ticked_def)


definition demo_live :: "smith_event list" where
  "demo_live = [Framed 0 20 (1 / 4), Trusted demo_sp_model VNone, Measured 200 (20 + 1 / 8), Framed 20 40 (1 / 2), Measured 201 (40 + 1 / 8)]"

theorem unfinished_frame_uncorrected_witness:
  "active (fst (smith_run no_text count_search demo_live new_smith)) \<and>
   live_run no_text count_search demo_live new_smith \<and>
   snd (smith_run no_text count_search demo_live new_smith) = Inr [200, 201]"
proof -
  have l: "live_run no_text count_search demo_live new_smith" "active (fst (smith_run no_text count_search demo_live new_smith))"
    "\<exists>q xs. smith_run no_text count_search demo_live new_smith = (q, Inr xs)"
    by (simp_all add: demo_live_def demo_eval of_rat_divide of_rat_minus temperature_def sp_integrate_def
        covers_def duty_segments_def sp_safe_def latest_end_def)
  then obtain q xs where r: "smith_run no_text count_search demo_live new_smith = (q, Inr xs)" by blast
  have "xs = [200, 201]" using unfinished_frame_uncorrected [OF count_search_sorted l(1) r] by (simp add: demo_live_def)
  then show ?thesis using l r by simp
qed

theorem disable_is_sticky_witness:
  "disabled (sp_disable demo_trusted) \<and>
   governing_model (fst (smith_run no_text count_search [Trusted demo_sp_model VNone, Measured 200 60] (sp_disable demo_trusted))) = None \<and>
   snd (smith_run no_text count_search [Trusted demo_sp_model VNone, Measured 200 60] (sp_disable demo_trusted)) = Inr [200]"
proof -
  let ?p = "sp_disable demo_trusted" and ?es = "[Trusted demo_sp_model VNone, Measured 200 60]"
  have d: "disabled ?p" "\<forall>e \<in> set ?es. same_authority no_text (authority_identity ?p) e"
    by (simp_all add: sp_disable_def demo_trusted_def demo_eval of_rat_divide of_rat_minus)
  have "\<exists>q xs. smith_run no_text count_search ?es ?p = (q, Inr xs)"
    by (simp add: sp_disable_def demo_trusted_def demo_eval of_rat_divide of_rat_minus temperature_def)
  then obtain q xs where r: "smith_run no_text count_search ?es ?p = (q, Inr xs)" by blast
  then show ?thesis using disable_is_sticky [OF d r] d(1) by simp
qed

end
