(* ===== verification/Pid_Control.thy ===== *)
theory Pid_Control
  imports Smith_Predictor Pulse_Scheduler
begin

text \<open>
  The two PID controllers. \<open>controller/pid_base.py\<close> and \<open>controller/pid.py\<close>: the gains, the retarget and the update of the
  standard form with its integral clamp. \<open>controller/pid_sp.py\<close>: the control law of PID-SP, which regulates on the temperature
  of its Smith predictor, with full heat below the band and none above the stable window. The identified duty that
  holds a set point (\<open>identifier.hold_duty\<close>, linear algebra of numpy) is the argument \<open>held\<close>, monotonic readings are
  arguments; the learning half of \<open>pid_sp.py\<close> is not modelled.
\<close>

section \<open>Shared by both controllers\<close>

definition MIN_ELAPSED_SECONDS :: real where "MIN_ELAPSED_SECONDS = 1 / 1000"

record gains =
  kp :: real
  ki :: real
  kd :: real

definition calculate_gains :: "real \<Rightarrow> real \<Rightarrow> real \<Rightarrow> gains" where
  "calculate_gains pb ti td =
     (let p = (if pb = 0 then 0 else - 1 / pb) in \<lparr>kp = p, ki = (if ti \<le> 0 then 0 else p / ti), kd = p * td\<rparr>)"

definition elapsed_since :: "real \<Rightarrow> real \<Rightarrow> real" where
  "elapsed_since last_update current_time = max (current_time - last_update) MIN_ELAPSED_SECONDS"

section \<open>PID\<close>

record pid_trace =
  observed_dt :: real
  tr_error :: real
  proportional_term :: real
  integral_term :: real
  derivative_term :: real
  integral_accumulator :: real
  integral_clamped :: bool
  derivative_input :: real
  derivative_state :: real
  proportional_band :: real
  tr_gains :: gains
  tr_center :: real
  previous_temperature :: real
  previous_update_time :: real
  raw_output :: real
  final_output :: real

record pid =
  pid_gains :: gains
  pid_pb :: real
  pid_p :: real
  pid_i :: real
  pid_d :: real
  pid_u :: real
  pid_updated_at :: real
  pid_error :: real
  pid_set_point :: real
  pid_center :: real
  pid_derv :: real
  pid_inter :: real
  inter_max :: real
  pid_sampled :: real
  pid_diagnostics :: "pid_trace option"

definition pid_set_target :: "real \<Rightarrow> real \<Rightarrow> pid \<Rightarrow> pid" where
  "pid_set_target set_point now s =
     s\<lparr>pid_set_point := set_point, pid_error := 0, pid_inter := 0, pid_derv := 0, pid_updated_at := now\<rparr>"

definition new_pid :: "real \<Rightarrow> real \<Rightarrow> real \<Rightarrow> real \<Rightarrow> real \<Rightarrow> pid" where
  "new_pid pb ti td center now = (let g = calculate_gains pb ti td in
     pid_set_target 0 now \<lparr>pid_gains = g, pid_pb = pb, pid_p = 0, pid_i = 0, pid_d = 0, pid_u = 0, pid_updated_at = now,
       pid_error = 0, pid_set_point = 0, pid_center = center, pid_derv = 0, pid_inter = 0,
       inter_max = (if ki g \<noteq> 0 then \<bar>center / ki g\<bar> else 0), pid_sampled = 150, pid_diagnostics = None\<rparr>)"

text \<open>The two readings of the clock are the one the interval is measured to and the one the next is measured from.\<close>

definition pid_update :: "real \<Rightarrow> real \<Rightarrow> real \<Rightarrow> pid \<Rightarrow> pid \<times> real" where
  "pid_update current now later s =
     (let g = pid_gains s; error = current - pid_set_point s; p = kp g * error + pid_center s;
          dt = elapsed_since (pid_updated_at s) now;
          unclamped = pid_inter s + error * dt;
          inter = (if pid_center s \<noteq> 0 then min (max unclamped (- inter_max s)) (inter_max s) else unclamped);
          i = ki g * inter; derv = (current - pid_sampled s) / dt; d = kd g * derv; u = p + i + d
      in (s\<lparr>pid_p := p, pid_inter := inter, pid_i := i, pid_derv := derv, pid_d := d, pid_u := u, pid_error := error,
            pid_sampled := current, pid_updated_at := later,
            pid_diagnostics := Some \<lparr>observed_dt = dt, tr_error = error, proportional_term = p, integral_term = i,
              derivative_term = d, integral_accumulator = inter, integral_clamped = (inter \<noteq> unclamped),
              derivative_input = current - pid_sampled s, derivative_state = derv, proportional_band = pid_pb s,
              tr_gains = g, tr_center = pid_center s, previous_temperature = pid_sampled s,
              previous_update_time = pid_updated_at s, raw_output = u, final_output = u\<rparr>\<rparr>, u))"

datatype pid_event = Retarget real real | Sample real real real

fun pid_step :: "pid_event \<Rightarrow> pid \<Rightarrow> pid" where
  "pid_step (Retarget sp now) s = pid_set_target sp now s"
| "pid_step (Sample current now later) s = fst (pid_update current now later s)"

fun pid_run :: "pid_event list \<Rightarrow> pid \<Rightarrow> pid" where
  "pid_run [] s = s"
| "pid_run (e # es) s = pid_run es (pid_step e s)"

definition pid_ok :: "pid \<Rightarrow> bool" where
  "pid_ok s \<longleftrightarrow> inter_max s = (if ki (pid_gains s) \<noteq> 0 then \<bar>pid_center s / ki (pid_gains s)\<bar> else 0) \<and>
     \<bar>pid_inter s\<bar> \<le> inter_max s \<and> \<bar>pid_i s\<bar> \<le> \<bar>pid_center s\<bar> \<and>
     (case pid_diagnostics s of None \<Rightarrow> True | Some t \<Rightarrow>
        0 < observed_dt t \<and> \<bar>integral_term t\<bar> \<le> \<bar>pid_center s\<bar> \<and>
        raw_output t = proportional_term t + integral_term t + derivative_term t)"

lemma new_pid_ok: "pid_ok (new_pid pb ti td center now)"
  by (simp add: pid_ok_def new_pid_def pid_set_target_def Let_def)

lemma clamp_between: "0 \<le> m \<Longrightarrow> \<bar>min (max x (- m)) m\<bar> \<le> m" for m :: real
  by (auto simp: min_def max_def)

lemma pid_step_ok:
  assumes "pid_ok s" "pid_center s \<noteq> 0"
  shows "pid_ok (pid_step e s) \<and> pid_center (pid_step e s) = pid_center s"
proof (cases e)
  case (Retarget sp now)
  then show ?thesis using assms by (auto simp: pid_ok_def pid_set_target_def split: option.splits)
next
  case (Sample current now later)
  define dt where "dt = elapsed_since (pid_updated_at s) now"
  define inter where "inter = min (max (pid_inter s + (current - pid_set_point s) * dt) (- inter_max s)) (inter_max s)"
  let ?g = "ki (pid_gains s)"
  have "0 \<le> inter_max s" and le: "\<bar>?g\<bar> * inter_max s \<le> \<bar>pid_center s\<bar>" using assms by (auto simp: pid_ok_def)
  then have i: "\<bar>inter\<bar> \<le> inter_max s" unfolding inter_def by (intro clamp_between)
  then have "\<bar>?g * inter\<bar> \<le> \<bar>?g\<bar> * inter_max s" by (simp add: abs_mult mult_left_mono)
  then have g: "\<bar>?g * inter\<bar> \<le> \<bar>pid_center s\<bar>" using le by linarith
  have dt: "0 < dt" by (simp add: dt_def elapsed_since_def MIN_ELAPSED_SECONDS_def)
  obtain d where "pid_diagnostics (pid_step e s) = Some d" "observed_dt d = dt" "integral_term d = ?g * inter"
      "raw_output d = proportional_term d + integral_term d + derivative_term d"
    using assms(2) by (simp add: Sample pid_update_def Let_def inter_def dt_def)
  moreover have "inter_max (pid_step e s) = inter_max s" "pid_gains (pid_step e s) = pid_gains s"
      "pid_center (pid_step e s) = pid_center s" "pid_inter (pid_step e s) = inter" "pid_i (pid_step e s) = ?g * inter"
    using assms(2) by (simp_all add: Sample pid_update_def Let_def inter_def dt_def)
  ultimately show ?thesis using assms(1) i g dt by (simp add: pid_ok_def)
qed

text \<open>C22: No windup. Whatever temperatures and set points the controller has seen, and at whatever times (readings of the
  clock that repeat or run backwards included), with an output centre other than zero the integral term stays within the
  authority of the centre, every interval divided by is positive, and the output is the sum of its three terms.\<close>

theorem pid_integral_bounded:
  assumes "center \<noteq> 0"
  shows "pid_ok (pid_run es (new_pid pb ti td center now))"
proof -
  have "pid_ok s \<Longrightarrow> pid_center s = center \<Longrightarrow> pid_ok (pid_run es s)" for s
    by (induction es arbitrary: s) (use assms pid_step_ok in auto)
  moreover have "pid_center (new_pid pb ti td center now) = center"
    by (simp add: new_pid_def pid_set_target_def Let_def)
  ultimately show ?thesis using new_pid_ok by blast
qed


section \<open>PID-SP\<close>

definition STARTUP_REDUCTION :: real where "STARTUP_REDUCTION = 65 / 100"

definition to_fahrenheit :: "string \<Rightarrow> real \<Rightarrow> real" where
  "to_fahrenheit units v = (if units = ''F'' then v else v * 9 / 5 + 32)"

definition from_fahrenheit :: "string \<Rightarrow> real \<Rightarrow> real" where
  "from_fahrenheit units v = (if units = ''F'' then v else (v - 32) * 5 / 9)"

datatype controller_branch = No_branch | Initialization | Full_heat | Target_reached | Reset_integral | Overshoot

record sp_trace = pid_trace +
  measured_rate :: real
  predicted_temperature :: real
  predicted_error :: real
  tau_seconds :: real
  theta_seconds :: real
  tr_stable_window :: real
  tr_center_factor :: real
  new_target_before :: bool
  new_target_after :: bool
  target_change_temperature :: real
  target_change_time :: real
  tr_branch :: controller_branch

record pid_sp =
  spg :: gains
  sp_pb :: real
  sp_units :: string
  center_factor :: real
  stable_window :: real
  bias_from_model :: bool
  sp_p :: real
  sp_i :: real
  sp_d :: real
  sp_u :: real
  sp_updated_at :: real
  last_set_time :: real
  sp_error :: real
  sp_set_point :: real
  sp_center :: real
  feed_forward :: real
  integral_seeded :: bool
  sp_derv :: real
  sp_inter :: real
  sp_sampled :: "real option"
  start_change_temp :: "real option"
  new_target :: bool
  sp_selected :: "real option"
  predictor :: smith
  sp_diagnostics :: "sp_trace option"

definition center_for :: "string \<Rightarrow> real \<Rightarrow> real \<Rightarrow> real \<Rightarrow> real" where
  "center_for units factor old set_point =
     (if units = ''F'' then (if set_point \<le> 240 then set_point * factor else set_point * factor * 12 / 10)
      else if units = ''C'' then
        (if set_point \<le> 115 then (set_point * 9 / 5 + 32) * factor else (set_point * 9 / 5 + 32) * factor * 12 / 10)
      else old)"

definition sp_set_target :: "real \<Rightarrow> real \<Rightarrow> pid_sp \<Rightarrow> pid_sp" where
  "sp_set_target set_point now s =
     (let c = center_for (sp_units s) (center_factor s) (sp_center s) set_point in
      s\<lparr>sp_set_point := set_point, sp_error := 0, sp_inter := 0, integral_seeded := False, sp_derv := 0,
        sp_updated_at := now, last_set_time := now, start_change_temp := sp_sampled s, new_target := True,
        sp_center := c, feed_forward := c\<rparr>)"

definition new_pid_sp :: "string \<Rightarrow> real \<Rightarrow> real \<Rightarrow> real \<Rightarrow> real \<Rightarrow> real \<Rightarrow> bool \<Rightarrow> real \<Rightarrow> pid_sp" where
  "new_pid_sp units pb ti td factor window from_model now = sp_set_target 0 now
     \<lparr>spg = calculate_gains pb ti td, sp_pb = pb, sp_units = units, center_factor = factor, stable_window = window,
      bias_from_model = from_model, sp_p = 0, sp_i = 0, sp_d = 0, sp_u = 0, sp_updated_at = now, last_set_time = now,
      sp_error = 0, sp_set_point = 0, sp_center = 1 / 2, feed_forward = 1 / 2, integral_seeded = False, sp_derv = 0,
      sp_inter = 0, sp_sampled = None, start_change_temp = None, new_target = False, sp_selected = None,
      predictor = new_smith, sp_diagnostics = None\<rparr>"

definition held_duty :: "(real \<Rightarrow> real option) \<Rightarrow> pid_sp \<Rightarrow> real option" where
  "held_duty held s = held (to_fahrenheit (sp_units s) (sp_set_point s))"

definition bias :: "(real \<Rightarrow> real option) \<Rightarrow> pid_sp \<Rightarrow> real" where
  "bias held s = (if \<not> bias_from_model s then sp_center s
     else case held_duty held s of None \<Rightarrow> sp_center s | Some h \<Rightarrow> h)"

definition seed_integral :: "(real \<Rightarrow> real option) \<Rightarrow> real \<Rightarrow> pid_sp \<Rightarrow> pid_sp" where
  "seed_integral held error s =
     (if integral_seeded s \<or> ki (spg s) = 0 \<or> stable_window s < \<bar>error\<bar> then s
      else case held_duty held s of
          None \<Rightarrow> s
        | Some h \<Rightarrow> s\<lparr>feed_forward := h, sp_inter := (h - bias held s) / ki (spg s), integral_seeded := True\<rparr>)"

text \<open>\<open>_publish_direct_auger_allocation\<close>: the command that reaches the auger, and the raw one for the trace.\<close>

definition publish_duty :: "pid_sp \<Rightarrow> pid_sp \<times> real" where
  "publish_duty s = (let raw = sp_u s in
     if \<not> finite_real raw then (s\<lparr>sp_u := 0\<rparr>, 0)
     else if raw < 0 then (s\<lparr>sp_u := 0\<rparr>, raw)
     else if 1 < raw then (s\<lparr>sp_u := 1\<rparr>, raw)
     else (s, raw))"

text \<open>Before the terms: the target is reached by a crossing, the integral is reset, the derivative state is cleared.\<close>

definition cross_target :: "real \<Rightarrow> pid_sp \<Rightarrow> controller_branch \<Rightarrow> pid_sp \<times> controller_branch" where
  "cross_target error s branch =
     (if new_target s \<and> (0 \<le> error \<or> \<bar>error\<bar> \<le> 3)
      then (s\<lparr>new_target := False\<rparr>, if branch = No_branch then Target_reached else branch) else (s, branch))"

definition restart_integral :: "real \<Rightarrow> real \<Rightarrow> real \<Rightarrow> pid_sp \<Rightarrow> controller_branch \<Rightarrow> pid_sp \<times> controller_branch" where
  "restart_integral now error start s branch =
     (if stable_window s < \<bar>error\<bar> \<or>
         new_target s \<and> of_int (frame_s AUGER_TIMING) * 3 \<le> now - last_set_time s \<and> \<bar>error\<bar> \<le> \<bar>start - sp_set_point s\<bar> / 2
      then (s\<lparr>sp_inter := 0\<rparr>, if branch = No_branch then Reset_integral else branch) else (s, branch))"

definition clear_derivative :: "real \<Rightarrow> real \<Rightarrow> pid_sp \<Rightarrow> pid_sp" where
  "clear_derivative current error s =
     (if new_target s \<and> sp_set_point s < current \<or> sp_pb s / 2 < \<bar>error\<bar> then s\<lparr>sp_derv := 0\<rparr> else s)"

definition settle_target :: "real \<Rightarrow> real \<Rightarrow> real \<Rightarrow> real \<Rightarrow> pid_sp \<Rightarrow> controller_branch \<Rightarrow> pid_sp \<times> controller_branch" where
  "settle_target current now error start s branch =
     (let (s, branch) = cross_target error s branch; (s, branch) = restart_integral now error start s branch
      in (clear_derivative current error s, branch))"

definition pid_terms :: "(real \<Rightarrow> real option) \<Rightarrow> real \<Rightarrow> real \<Rightarrow> real \<Rightarrow> real \<Rightarrow> pid_sp \<Rightarrow> pid_sp \<times> bool" where
  "pid_terms held selected now dt error s =
     (let g = spg s; p = kp g * error + bias held s;
         inter = sp_inter s + error * dt;
         unclamped = ki g * inter;
         i = max (min unclamped (sp_center s)) (- sp_center s);
         derv = (selected - (case sp_sampled s of None \<Rightarrow> selected | Some l \<Rightarrow> l)) / dt;
         d = kd g * derv;
         u = p + i + d;
         early = error < sp_pb s \<and> now - last_set_time s < of_int (frame_s AUGER_TIMING) * 3
     in (s\<lparr>sp_p := p, sp_inter := inter, sp_i := i, sp_derv := derv, sp_d := d,
           sp_u := (if early then u * STARTUP_REDUCTION else u)\<rparr>, i \<noteq> unclamped))"

text \<open>Full heat below the band, none above the stable window, the three terms between.\<close>

definition decide_duty :: "(real \<Rightarrow> real option) \<Rightarrow> real \<Rightarrow> real \<Rightarrow> real \<Rightarrow> real \<Rightarrow> real \<Rightarrow> real \<Rightarrow> pid_sp \<Rightarrow> controller_branch \<Rightarrow>
    pid_sp \<times> controller_branch \<times> bool" where
  "decide_duty held current selected now dt error start s branch =
     (if error < - sp_pb s then (s\<lparr>sp_u := 1\<rparr>, if branch = No_branch then Full_heat else branch, False)
      else if stable_window s < error then (s\<lparr>sp_u := 0\<rparr>, if branch = No_branch then Overshoot else branch, False)
      else (let (s, branch) = settle_target current now error start s branch;
                (s, clamped) = pid_terms held selected now dt error s in (s, branch, clamped)))"

text \<open>The first sample seeds what has no earlier one, and a stored zero is repaired when the target is new.\<close>

definition admit_sample :: "real \<Rightarrow> pid_sp \<Rightarrow> pid_sp \<times> real \<times> controller_branch \<times> real" where
  "admit_sample selected s =
     (let s = s\<lparr>sp_selected := Some selected\<rparr>;
          (s, previous) = (case sp_sampled s of None \<Rightarrow> (s\<lparr>sp_sampled := Some selected\<rparr>, selected) | Some l \<Rightarrow> (s, l));
          (s, previous, branch) =
            (if sp_sampled s = Some 0 \<and> new_target s then (s\<lparr>sp_sampled := Some selected\<rparr>, selected, Initialization)
             else (s, previous, No_branch));
          (s, start) = (case start_change_temp s of None \<Rightarrow> (s\<lparr>start_change_temp := Some selected\<rparr>, selected) | Some t \<Rightarrow> (s, t))
      in (s, previous, branch, start))"

fun model_tau :: "real sp_model \<Rightarrow> real" where
  "model_tau (Fopdt _ t _) = t"
| "model_tau _ = 0"

text \<open>\<open>update\<close> from the selected temperature on.\<close>

definition sp_control :: "(real \<Rightarrow> real option) \<Rightarrow> real sp_model option \<Rightarrow> real \<Rightarrow> real \<Rightarrow> real \<Rightarrow> pid_sp \<Rightarrow> pid_sp \<times> real" where
  "sp_control held trusted current selected now s =
     (let dt = elapsed_since (sp_updated_at s) now; before = new_target s; updated = sp_updated_at s;
          rate = (case sp_sampled s of None \<Rightarrow> 0 | Some l \<Rightarrow> (selected - l) / dt);
          (s, previous, branch, start) = admit_sample selected s;
          error = selected - sp_set_point s;
          (s, branch, clamped) = decide_duty held current selected now dt error start s branch;
          s = seed_integral held error s;
          (s, raw) = publish_duty s
      in (s\<lparr>sp_error := error, sp_sampled := Some selected, sp_updated_at := now,
            sp_diagnostics := Some \<lparr>observed_dt = dt, tr_error = error, proportional_term = sp_p s, integral_term = sp_i s,
              derivative_term = sp_d s, integral_accumulator = sp_inter s, integral_clamped = clamped,
              derivative_input = selected - previous, derivative_state = sp_derv s, proportional_band = sp_pb s,
              tr_gains = spg s, tr_center = sp_center s, previous_temperature = previous, previous_update_time = updated,
              raw_output = raw, final_output = sp_u s, measured_rate = rate, predicted_temperature = selected,
              predicted_error = error, tau_seconds = (case trusted of None \<Rightarrow> 0 | Some m \<Rightarrow> model_tau m),
              theta_seconds = (case trusted of None \<Rightarrow> 0 | Some m \<Rightarrow> dead_time m), tr_stable_window = stable_window s,
              tr_center_factor = center_factor s, new_target_before = before, new_target_after = new_target s,
              target_change_temperature = start, target_change_time = last_set_time s, tr_branch = branch\<rparr>\<rparr>, raw))"

definition sp_update :: "searcher \<Rightarrow> (real \<Rightarrow> real option) \<Rightarrow> real \<Rightarrow> real \<Rightarrow> (pid_sp, real) action" where
  "sp_update np held current now s =
     (case temperature np (to_fahrenheit (sp_units s) current) now (predictor s) of
        (q, Inl e) \<Rightarrow> (s\<lparr>predictor := q\<rparr>, Inl e)
      | (q, Inr v) \<Rightarrow>
          (case sp_control held (governing_model (predictor s)) current (from_fahrenheit (sp_units s) v) now (s\<lparr>predictor := q\<rparr>) of
             (s', raw) \<Rightarrow> (s', Inr raw)))"


section \<open>The command of PID-SP\<close>

definition fixed :: "pid_sp \<Rightarrow> real \<times> real \<times> real \<times> real" where
  "fixed s = (sp_pb s, stable_window s, sp_center s, sp_set_point s)"

lemma seed_keeps [simp]: "sp_u (seed_integral h e s) = sp_u s" "sp_i (seed_integral h e s) = sp_i s" "fixed (seed_integral h e s) = fixed s"
  by (auto simp: seed_integral_def fixed_def split: option.split)

lemma publish_bounds: "publish_duty s = (q, raw) \<Longrightarrow> 0 \<le> sp_u q \<and> sp_u q \<le> 1 \<and> (0 \<le> sp_u s \<and> sp_u s \<le> 1 \<longrightarrow> sp_u q = sp_u s)"
  by (auto simp: publish_duty_def Let_def finite_real_def dbl_limit_def split: if_splits)

lemma publish_keeps: "publish_duty s = (q, raw) \<Longrightarrow> fixed q = fixed s \<and> sp_i q = sp_i s"
  by (auto simp: publish_duty_def Let_def fixed_def split: if_splits)

lemma fixed_upd [simp]: "fixed (s\<lparr>new_target := b\<rparr>) = fixed s" "fixed (s\<lparr>sp_inter := x\<rparr>) = fixed s"
    "fixed (s\<lparr>sp_derv := x\<rparr>) = fixed s" "fixed (s\<lparr>sp_u := x\<rparr>) = fixed s" "fixed (s\<lparr>sp_sampled := y\<rparr>) = fixed s"
    "fixed (s\<lparr>sp_selected := y\<rparr>) = fixed s" "fixed (s\<lparr>start_change_temp := y\<rparr>) = fixed s" "fixed (s\<lparr>sp_p := x\<rparr>) = fixed s"
    "fixed (s\<lparr>sp_i := x\<rparr>) = fixed s" "fixed (s\<lparr>sp_d := x\<rparr>) = fixed s"
  by (simp_all add: fixed_def)

lemma settle_keeps: "settle_target c n e t s b = (q, b') \<Longrightarrow> fixed q = fixed s"
  by (auto simp: settle_target_def cross_target_def restart_integral_def clear_derivative_def split: prod.splits if_splits)

lemma clamp_within: "0 \<le> c \<Longrightarrow> \<bar>max (min a c) (- c)\<bar> \<le> c" for c :: real
  by (simp add: abs_le_iff)

lemma terms_keeps: "pid_terms h x n dt e s = (q, c) \<Longrightarrow> fixed q = fixed s \<and> (0 \<le> sp_center s \<longrightarrow> \<bar>sp_i q\<bar> \<le> sp_center s)"
proof -
  have "fixed (fst (pid_terms h x n dt e s)) = fixed s" by (simp add: pid_terms_def Let_def fixed_def)
  moreover have "sp_i (fst (pid_terms h x n dt e s)) = max (min (ki (spg s) * (sp_inter s + e * dt)) (sp_center s)) (- sp_center s)"
    by (simp add: pid_terms_def Let_def)
  ultimately show "pid_terms h x n dt e s = (q, c) \<Longrightarrow> fixed q = fixed s \<and> (0 \<le> sp_center s \<longrightarrow> \<bar>sp_i q\<bar> \<le> sp_center s)"
    using clamp_within [of "sp_center s" "ki (spg s) * (sp_inter s + e * dt)"] by auto
qed

lemma admit_keeps: "admit_sample x s = (q, p, b, t) \<Longrightarrow> fixed q = fixed s"
  by (auto simp: admit_sample_def Let_def split: option.splits if_splits prod.splits)

lemma decide_keeps:
  assumes "decide_duty h c x n dt e t s b = (q, b', k)"
  shows "fixed q = fixed s" "e < - sp_pb s \<Longrightarrow> sp_u q = 1" "\<not> e < - sp_pb s \<Longrightarrow> stable_window s < e \<Longrightarrow> sp_u q = 0"
    "\<not> e < - sp_pb s \<Longrightarrow> \<not> stable_window s < e \<Longrightarrow> 0 \<le> sp_center s \<Longrightarrow> \<bar>sp_i q\<bar> \<le> sp_center s"
proof -
  show "e < - sp_pb s \<Longrightarrow> sp_u q = 1" "\<not> e < - sp_pb s \<Longrightarrow> stable_window s < e \<Longrightarrow> sp_u q = 0"
    using assms by (auto simp: decide_duty_def)
  have in_band: "fixed q = fixed s \<and> (0 \<le> sp_center s \<longrightarrow> \<bar>sp_i q\<bar> \<le> sp_center s)" if "\<not> e < - sp_pb s" "\<not> stable_window s < e"
  proof -
    obtain s1 b1 where 1: "settle_target c n e t s b = (s1, b1)" by fastforce
    obtain s2 k2 where 2: "pid_terms h x n dt e s1 = (s2, k2)" by fastforce
    have "q = s2" using assms that 1 2 by (simp add: decide_duty_def)
    then show ?thesis using settle_keeps [OF 1] terms_keeps [OF 2] by (simp add: fixed_def)
  qed
  then show "\<not> e < - sp_pb s \<Longrightarrow> \<not> stable_window s < e \<Longrightarrow> 0 \<le> sp_center s \<Longrightarrow> \<bar>sp_i q\<bar> \<le> sp_center s" by blast
  show "fixed q = fixed s" using assms in_band by (cases "e < - sp_pb s"; cases "stable_window s < e") (auto simp: decide_duty_def)
qed

definition commanded :: "pid_sp \<Rightarrow> bool" where
  "commanded q \<longleftrightarrow> 0 \<le> sp_u q \<and> sp_u q \<le> 1 \<and>
     (if sp_error q < - sp_pb q then sp_u q = 1
      else if stable_window q < sp_error q then sp_u q = 0
      else 0 \<le> sp_center q \<longrightarrow> \<bar>sp_i q\<bar> \<le> sp_center q)"

lemma units_back [simp]: "from_fahrenheit u (to_fahrenheit u v) = v"
  by (simp add: from_fahrenheit_def to_fahrenheit_def)

lemma control_commanded:
  assumes "sp_control h trusted current selected now s = (q, raw)"
  shows "commanded q \<and> fixed q = fixed s \<and> sp_error q = selected - sp_set_point s"
proof -
  obtain s1 pv b st where 1: "admit_sample selected s = (s1, pv, b, st)" by (metis prod_cases4)
  let ?e = "selected - sp_set_point s1" and ?dt = "elapsed_since (sp_updated_at s) now"
  obtain s2 b2 k where 2: "decide_duty h current selected now ?dt ?e st s1 b = (s2, b2, k)" by (metis prod_cases3)
  obtain s3 r where 3: "publish_duty (seed_integral h ?e s2) = (s3, r)" by fastforce
  have q: "sp_u q = sp_u s3" "sp_i q = sp_i s3" "fixed q = fixed s3" "sp_error q = ?e"
    using assms 1 2 3 by (auto simp: sp_control_def Let_def fixed_def)
  have f: "fixed s1 = fixed s" "fixed s2 = fixed s1" "fixed s3 = fixed s2" "sp_i s3 = sp_i s2"
    using admit_keeps [OF 1] decide_keeps(1) [OF 2] publish_keeps [OF 3] by auto
  have "commanded q"
    using decide_keeps(2-4) [OF 2] publish_bounds [OF 3] f q unfolding commanded_def fixed_def by auto
  then show ?thesis using f q by (simp add: fixed_def)
qed

text \<open>C12: The duty PID-SP hands to the auger is a duty. After every update it lies between none and all; it is all when the
  selected temperature is more than the band below the set point, none when it is above the stable window, and between the two
  the integral term stays within the authority of the centre. A command that is not finite becomes none.\<close>

theorem sp_duty_bounded:
  assumes "sp_update np h current now s = (q, Inr raw)"
  shows "commanded q \<and> (\<exists>v. sp_error q = v - sp_set_point q \<and>
    (governing_model (predictor s) = None \<longrightarrow> v = current))"
proof -
  obtain p v where t: "temperature np (to_fahrenheit (sp_units s) current) now (predictor s) = (p, Inr v)"
      and c: "sp_control h (governing_model (predictor s)) current (from_fahrenheit (sp_units s) v) now (s\<lparr>predictor := p\<rparr>) = (q, raw)"
    using assms by (auto simp: sp_update_def split: prod.splits sum.splits)
  have "governing_model (predictor s) = None \<Longrightarrow> v = to_fahrenheit (sp_units s) current"
    using t by (auto simp: temperature_def)
  then show ?thesis using control_commanded [OF c] by (auto simp: fixed_def)
qed

section \<open>The derivative state\<close>

definition other_derv :: "real \<Rightarrow> sp_trace option \<Rightarrow> pid_sp \<Rightarrow> pid_sp" where
  "other_derv a d s = s\<lparr>sp_derv := a, sp_diagnostics := d\<rparr>"

lemma other_derv_simps [simp]: "sp_u (other_derv a d s) = sp_u s" "sp_pb (other_derv a d s) = sp_pb s"
    "stable_window (other_derv a d s) = stable_window s" "sp_set_point (other_derv a d s) = sp_set_point s"
    "sp_updated_at (other_derv a d s) = sp_updated_at s" "predictor (other_derv a d s) = predictor s"
    "sp_units (other_derv a d s) = sp_units s"
  by (simp_all add: other_derv_def)

lemma admit_derv: "admit_sample x s = (q, pv, b, t) \<Longrightarrow> admit_sample x (other_derv a d s) = (other_derv a d q, pv, b, t)"
  by (auto simp: admit_sample_def Let_def other_derv_def split: option.splits if_splits)

lemma reach_derv: "cross_target e s b = (q, b') \<Longrightarrow> cross_target e (other_derv a d s) b = (other_derv a d q, b')"
  by (auto simp: cross_target_def other_derv_def split: if_splits)

lemma restart_derv: "restart_integral n e t s b = (q, b') \<Longrightarrow> restart_integral n e t (other_derv a d s) b = (other_derv a d q, b')"
  by (auto simp: restart_integral_def other_derv_def split: if_splits)

lemma clear_derv: "clear_derivative c e (other_derv a d s) = other_derv (if clear_derivative c e s = s then a else 0) d (clear_derivative c e s)
    \<or> clear_derivative c e (other_derv a d s) = other_derv 0 d (clear_derivative c e s)"
  by (cases s) (auto simp: clear_derivative_def other_derv_def)

lemma settle_derv:
  assumes "settle_target c n e t s b = (q, b')"
  obtains a' where "settle_target c n e t (other_derv a d s) b = (other_derv a' d q, b')"
proof -
  obtain s1 b1 where 1: "cross_target e s b = (s1, b1)" by fastforce
  obtain s2 b2 where 2: "restart_integral n e t s1 b1 = (s2, b2)" by fastforce
  have q: "q = clear_derivative c e s2" "b' = b2" using assms 1 2 by (auto simp: settle_target_def)
  obtain a' where "clear_derivative c e (other_derv a d s2) = other_derv a' d q" using clear_derv [of c e a d s2] q by blast
  then have "settle_target c n e t (other_derv a d s) b = (other_derv a' d q, b')"
    using reach_derv [OF 1, of a d] restart_derv [OF 2, of a d] q by (simp add: settle_target_def)
  then show thesis by (rule that)
qed

lemma bias_derv: "bias h (other_derv a d s) = bias h s"
  by (simp add: bias_def held_duty_def other_derv_def split: option.split)

lemma terms_derv: "pid_terms h x n dt e (other_derv a d s) =
    (other_derv (sp_derv (fst (pid_terms h x n dt e s))) d (fst (pid_terms h x n dt e s)), snd (pid_terms h x n dt e s))"
  unfolding pid_terms_def Let_def bias_derv by (simp add: other_derv_def)

lemma seed_derv: "seed_integral h e (other_derv a d s) = other_derv a d (seed_integral h e s)"
  by (auto simp: seed_integral_def other_derv_def bias_def held_duty_def split: option.split)

lemma publish_derv: "publish_duty s = (q, r) \<Longrightarrow> publish_duty (other_derv a d s) = (other_derv a d q, r)"
  by (auto simp: publish_duty_def Let_def other_derv_def split: if_splits)


lemma decide_derv:
  assumes "decide_duty h c x n dt e t s b = (q, b', k)"
  obtains a' where "decide_duty h c x n dt e t (other_derv a d s) b = (other_derv a' d q, b', k)"
proof (cases "e < - sp_pb s \<or> stable_window s < e")
  case True
  then have "decide_duty h c x n dt e t (other_derv a d s) b = (other_derv a d q, b', k)"
    using assms by (auto simp: decide_duty_def other_derv_def split: if_splits)
  then show thesis by (rule that)
next
  case False
  obtain s1 b1 where 1: "settle_target c n e t s b = (s1, b1)" by fastforce
  obtain a1 where a1: "settle_target c n e t (other_derv a d s) b = (other_derv a1 d s1, b1)" by (rule settle_derv [OF 1])
  have "decide_duty h c x n dt e t (other_derv a d s) b = (other_derv (sp_derv q) d q, b', k)"
    using assms False 1 a1 terms_derv [of h x n dt e a1 d s1] by (auto simp: decide_duty_def split: prod.splits)
  then show thesis by (rule that)
qed

lemma control_result:
  assumes "admit_sample selected s = (s1, pv, b, st)"
    "decide_duty h current selected now (elapsed_since (sp_updated_at s) now) (selected - sp_set_point s1) st s1 b = (s2, b2, k)"
    "publish_duty (seed_integral h (selected - sp_set_point s1) s2) = (s3, r)"
  shows "\<exists>d'. sp_control h trusted current selected now s =
    (s3\<lparr>sp_error := selected - sp_set_point s1, sp_sampled := Some selected, sp_updated_at := now, sp_diagnostics := d'\<rparr>, r)"
  unfolding sp_control_def Let_def assms(1) prod.case assms(2) assms(3) by (rule exI) (rule refl)

lemma control_derv:
  assumes "sp_control h trusted current selected now s = (q, raw)"
  obtains a' d' where "sp_control h trusted current selected now (other_derv a d s) = (other_derv a' d' q, raw)"
proof -
  obtain s1 pv b st where 1: "admit_sample selected s = (s1, pv, b, st)" by (metis prod_cases4)
  let ?e = "selected - sp_set_point s1" and ?dt = "elapsed_since (sp_updated_at s) now"
  obtain s2 b2 k where 2: "decide_duty h current selected now ?dt ?e st s1 b = (s2, b2, k)" by (metis prod_cases3)
  obtain a2 where a2: "decide_duty h current selected now ?dt ?e st (other_derv a d s1) b = (other_derv a2 d s2, b2, k)"
    by (rule decide_derv [OF 2])
  obtain s3 r where 3: "publish_duty (seed_integral h ?e s2) = (s3, r)" by fastforce
  have "admit_sample selected (other_derv a d s) = (other_derv a d s1, pv, b, st)" by (rule admit_derv [OF 1])
  moreover have "publish_duty (seed_integral h ?e (other_derv a2 d s2)) = (other_derv a2 d s3, r)"
    unfolding seed_derv by (rule publish_derv [OF 3])
  ultimately obtain d' where "sp_control h trusted current selected now (other_derv a d s) =
      ((other_derv a2 d s3)\<lparr>sp_error := ?e, sp_sampled := Some selected, sp_updated_at := now, sp_diagnostics := d'\<rparr>, r)"
    using control_result [of selected "other_derv a d s" "other_derv a d s1" pv b st h current now "other_derv a2 d s2" b2 k
        "other_derv a2 d s3" r trusted] a2 by (auto simp only: other_derv_simps)
  moreover obtain d0 where
      "(q, raw) = (s3\<lparr>sp_error := ?e, sp_sampled := Some selected, sp_updated_at := now, sp_diagnostics := d0\<rparr>, r)"
    using control_result [OF 1 2 3, of trusted] assms by auto
  ultimately have "sp_control h trusted current selected now (other_derv a d s) = (other_derv a2 d' q, raw)"
    by (simp add: other_derv_def)
  then show thesis by (rule that)
qed

datatype sp_event = Sp_retarget real real | Sp_sample real real

fun sp_outputs :: "searcher \<Rightarrow> (real \<Rightarrow> real option) \<Rightarrow> sp_event list \<Rightarrow> pid_sp \<Rightarrow> (real \<times> real) result list" where
  "sp_outputs np h [] s = []"
| "sp_outputs np h (Sp_retarget t now # es) s = sp_outputs np h es (sp_set_target t now s)"
| "sp_outputs np h (Sp_sample c now # es) s =
     (case sp_update np h c now s of
        (q, Inl x) \<Rightarrow> Inl x # sp_outputs np h es q
      | (q, Inr raw) \<Rightarrow> Inr (raw, sp_u q) # sp_outputs np h es q)"

lemma update_derv:
  obtains a' d' where "sp_update np h c now (other_derv a d s) =
    (other_derv a' d' (fst (sp_update np h c now s)), snd (sp_update np h c now s))"
proof -
  obtain p r where t: "temperature np (to_fahrenheit (sp_units s) c) now (predictor s) = (p, r)" by fastforce
  have pr: "(other_derv a d s)\<lparr>predictor := p\<rparr> = other_derv a d (s\<lparr>predictor := p\<rparr>)" by (simp add: other_derv_def)
  show thesis
  proof (cases r)
    case (Inl x)
    then show thesis using t pr by (intro that [of a d]) (simp add: sp_update_def)
  next
    case (Inr v)
    obtain q raw where c: "sp_control h (governing_model (predictor s)) c (from_fahrenheit (sp_units s) v) now (s\<lparr>predictor := p\<rparr>) = (q, raw)"
      by fastforce
    obtain a' d' where "sp_control h (governing_model (predictor s)) c (from_fahrenheit (sp_units s) v) now
        (other_derv a d (s\<lparr>predictor := p\<rparr>)) = (other_derv a' d' q, raw)" by (rule control_derv [OF c])
    then show thesis using t pr c Inr by (intro that [of a' d']) (simp add: sp_update_def)
  qed
qed

text \<open>The stored derivative is never used. Whatever value the derivative state is given, every later command is the same:
  clearing it for a lower set point, or far from the set point, has no effect on what the controller does.\<close>

theorem derivative_state_is_idle: "sp_outputs np h es (s\<lparr>sp_derv := x\<rparr>) = sp_outputs np h es s"
proof -
  have "sp_outputs np h es (other_derv a d s) = sp_outputs np h es s" for a d
  proof (induction np h es s arbitrary: a d rule: sp_outputs.induct)
    case (2 np h t now es s)
    have "sp_set_target t now (other_derv a d s) = other_derv 0 d (sp_set_target t now s)"
      by (simp add: sp_set_target_def Let_def other_derv_def)
    then show ?case using 2 by simp
  next
    case (3 np h c now es s)
    obtain q r where u: "sp_update np h c now s = (q, r)" by fastforce
    obtain a' d' where "sp_update np h c now (other_derv a d s) = (other_derv a' d' q, r)"
      using update_derv [of np h c now a d s] u by auto
    then show ?case using 3 u by (cases r) auto
  qed simp
  from this [of x "sp_diagnostics s"] show ?thesis by (simp add: other_derv_def)
qed

text \<open>The integral restarts once a new target is at least halfway reached, three cycles on.\<close>

lemma restarts_past_halfway:
  "restart_integral now error start s No_branch = (s\<lparr>sp_inter := 0\<rparr>, Reset_integral)"
  if "new_target s" "60 \<le> now - last_set_time s" "\<bar>error\<bar> \<le> \<bar>start - sp_set_point s\<bar> / 2"
  using that by (simp add: restart_integral_def AUGER_TIMING_def)

lemma keeps_before_halfway:
  "restart_integral now error start s b = (s, b)"
  if "\<bar>start - sp_set_point s\<bar> / 2 < \<bar>error\<bar>" "\<bar>error\<bar> \<le> stable_window s"
  using that by (simp add: restart_integral_def)

section \<open>Witnesses\<close>

theorem pid_integral_bounded_witness:
  "pid_ok (pid_run [Retarget 225 0, Sample 200 20 20, Sample 210 40 40] (new_pid 60 180 45 (1 / 2) 0))"
  using pid_integral_bounded [of "1 / 2" "[Retarget 225 0, Sample 200 20 20, Sample 210 40 40]" 60 180 45 0] by simp

definition demo_sp :: pid_sp where
  "demo_sp = sp_set_target 225 0 (new_pid_sp ''F'' 60 180 45 (1 / 1000) 12 True 0)"

theorem sp_duty_bounded_witness:
  "snd (sp_update count_search (\<lambda>_. None) 150 20 demo_sp) = Inr 1 \<and>
   commanded (fst (sp_update count_search (\<lambda>_. None) 150 20 demo_sp)) \<and>
   sp_error (fst (sp_update count_search (\<lambda>_. None) 150 20 demo_sp)) = 150 - 225"
proof -
  have r: "sp_update count_search (\<lambda>_. None) 150 20 demo_sp = (fst (sp_update count_search (\<lambda>_. None) 150 20 demo_sp), Inr 1)"
    "sp_error (fst (sp_update count_search (\<lambda>_. None) 150 20 demo_sp)) = 150 - 225"
    by (simp_all add: demo_sp_def sp_set_target_def new_pid_sp_def Let_def sp_update_def temperature_def governing_model_def active_def
        new_smith_def to_fahrenheit_def from_fahrenheit_def sp_control_def admit_sample_def decide_duty_def seed_integral_def
        held_duty_def publish_duty_def finite_real_def dbl_limit_def)
  have "snd (sp_update count_search (\<lambda>_. None) 150 20 demo_sp) = Inr 1" using arg_cong [OF r(1), of snd] by (simp only: snd_conv)
  then show ?thesis using sp_duty_bounded [OF r(1)] r(2) by blast
qed

end
